(* ===== verification/Prelude.thy ===== *)
theory Prelude
  imports Main "HOL-Library.Word"
begin

text \<open>
  Shared vocabulary of the development: the machine integer types of the C++ sources, the
  wrap-around of \<open>size_t\<close> arithmetic, object representations of integers, and the
  generic facts on lists and words that the component theories use.

  Integers: \<open>uint8_t\<close> \dots \<open>uint64_t\<close> and their signed variants are words of the same
  width (a signed value is read with \<open>sint\<close>).  Sizes and positions (\<open>size_t\<close>) that count
  bytes which are really allocated are natural numbers; a subtraction that can go below zero in
  the source is written with \<open>size_sub\<close>, which wraps at \<open>2 ^ 64\<close> as the code does.
\<close>

unbundle bit_operations_syntax

named_theorems flat_simps \<open>contents of the chained byte buffer\<close>
named_theorems codec_defs \<open>definitions of the byte array's typed readers and writers\<close>
named_theorems result_simps \<open>running code that may fail\<close>

type_synonym u8 = "8 word"
type_synonym u16 = "16 word"
type_synonym u32 = "32 word"
type_synonym u64 = "64 word"

type_synonym i8 = "8 word"
type_synonym i16 = "16 word"
type_synonym i32 = "32 word"
type_synonym i64 = "64 word"

text \<open>Subtraction of two \<open>size_t\<close> values.\<close>

definition size_sub :: "nat \<Rightarrow> nat \<Rightarrow> nat" where
  "size_sub a b = (a + 2 ^ 64 - b) mod 2 ^ 64"

lemma size_sub_le [simp]: "b \<le> a \<Longrightarrow> a < 2 ^ 64 \<Longrightarrow> size_sub a b = a - b"
proof -
  assume le: "b \<le> a" "a < 2 ^ 64"
  have "a + 2 ^ 64 - b = (a - b) + 2 ^ 64" using le by simp
  also have "\<dots> mod 2 ^ 64 = a - b" using le by (simp only: mod_add_self2) simp
  finally show ?thesis by (simp add: size_sub_def)
qed

lemma size_sub_wraps: "a < b \<Longrightarrow> b < 2 ^ 64 \<Longrightarrow> size_sub a b = a + 2 ^ 64 - b"
  by (simp add: size_sub_def)

section \<open>Code that may fail\<close>

text \<open>Sequencing of computations whose errors propagate: \<open>Inl\<close> is the error.\<close>

definition result_bind :: "'e + 'a \<Rightarrow> ('a \<Rightarrow> 'e + 'b) \<Rightarrow> 'e + 'b" where
  "result_bind r f = (case r of Inl e \<Rightarrow> Inl e | Inr x \<Rightarrow> f x)"

lemma result_bind_simps [simp, result_simps]:
  "result_bind (Inl e) f = Inl e"
  "result_bind (Inr x) f = f x"
  by (simp_all add: result_bind_def)

lemma result_bind_Inr_iff:
  "result_bind r f = Inr y \<longleftrightarrow> (\<exists>x. r = Inr x \<and> f x = Inr y)"
  by (cases r) simp_all

section \<open>Lists\<close>

lemma length_concat_uniform:
  "\<forall>x \<in> set xss. length x = n \<Longrightarrow> length (concat xss) = n * length xss"
  by (induction xss) auto

lemma take_concat_uniform:
  "\<forall>x \<in> set xss. length x = n \<Longrightarrow> take (n * i) (concat xss) = concat (take i xss)"
proof (induction xss arbitrary: i)
  case (Cons x xss)
  then show ?case by (cases i) simp_all
qed simp

lemma drop_concat_uniform:
  "\<forall>x \<in> set xss. length x = n \<Longrightarrow> drop (n * i) (concat xss) = concat (drop i xss)"
proof (induction xss arbitrary: i)
  case (Cons x xss)
  then show ?case by (cases i) simp_all
qed simp

text \<open>Overwriting a stretch of a list, as \<open>memcpy\<close> into an array does.\<close>

definition overwrite :: "'a list \<Rightarrow> nat \<Rightarrow> 'a list \<Rightarrow> 'a list" where
  "overwrite xs i ys = take i xs @ ys @ drop (i + length ys) xs"

lemma length_overwrite [simp]: "i + length ys \<le> length xs \<Longrightarrow> length (overwrite xs i ys) = length xs"
  by (simp add: overwrite_def)

lemma overwrite_Nil [simp]: "overwrite xs i [] = xs"
  by (simp add: overwrite_def)

lemma overwrite_append_left:
  "i + length ys \<le> length xs \<Longrightarrow> overwrite (xs @ zs) i ys = overwrite xs i ys @ zs"
  by (simp add: overwrite_def)

lemma overwrite_append_right: "overwrite (xs @ zs) (length xs + i) ys = xs @ overwrite zs i ys"
  by (simp add: overwrite_def)

lemma overwrite_overwrite:
  "i \<le> length xs \<Longrightarrow>
   overwrite (overwrite xs i ys) (i + length ys) zs = overwrite xs i (ys @ zs)"
  by (simp add: overwrite_def add.commute add.left_commute)

lemma take_drop_overwrite [simp]:
  "i + length ys \<le> length xs \<Longrightarrow> take (length ys) (drop i (overwrite xs i ys)) = ys"
  by (simp add: overwrite_def)

section \<open>Object representations of integers\<close>

text \<open>
  The bytes of an integer in memory on a little endian host, least significant byte first, and
  the integer such bytes stand for.
\<close>

definition word_bytes :: "'a::len word \<Rightarrow> u8 list" where
  "word_bytes w = map (\<lambda>i. ucast (drop_bit (8 * i) w)) [0..<LENGTH('a) div 8]"

primrec bytes_word :: "u8 list \<Rightarrow> 'a::len word" where
  "bytes_word [] = 0"
| "bytes_word (b # bs) = ucast b OR push_bit 8 (bytes_word bs)"

lemma length_word_bytes [simp]: "length (word_bytes (w :: 'a::len word)) = LENGTH('a) div 8"
  by (simp add: word_bytes_def)

lemma bit_u8_high [simp]: "8 \<le> n \<Longrightarrow> \<not> bit (b :: u8) n"
  using bit_imp_le_length [of b n] by auto

lemma bit_bytes_word:
  "bit (bytes_word bs :: 'a::len word) n \<longleftrightarrow>
   n < LENGTH('a) \<and> n div 8 < length bs \<and> bit (bs ! (n div 8)) (n mod 8)"
proof (induction bs arbitrary: n)
  case (Cons b bs)
  show ?case
  proof (cases "n < 8")
    case True
    then show ?thesis
      by (auto simp: bit_or_iff bit_push_bit_iff bit_ucast_iff)
  next
    case False
    have "n div 8 = Suc ((n - 8) div 8)" "n mod 8 = (n - 8) mod 8"
      using False by (auto simp: le_div_geq le_mod_geq)
    then show ?thesis using False Cons.IH [of "n - 8"]
      by (auto simp: bit_or_iff bit_push_bit_iff bit_ucast_iff)
  qed
qed simp

lemma word_bytes_inverse:
  "8 dvd LENGTH('a) \<Longrightarrow> bytes_word (word_bytes w) = (w :: 'a::len word)"
proof (rule bit_word_eqI)
  fix n assume "8 dvd LENGTH('a)" and n: "n < LENGTH('a)"
  then have "n div 8 < LENGTH('a) div 8" by (auto elim!: dvdE)
  then show "bit (bytes_word (word_bytes w) :: 'a word) n = bit w n"
    using n by (simp add: bit_bytes_word word_bytes_def bit_ucast_iff bit_drop_bit_eq)
qed

lemma bytes_word_inverse:
  assumes "8 dvd LENGTH('a)" and "length bs = LENGTH('a) div 8"
  shows "word_bytes (bytes_word bs :: 'a::len word) = bs"
proof (rule nth_equalityI)
  show "length (word_bytes (bytes_word bs :: 'a word)) = length bs" using assms by simp
next
  fix i assume i: "i < length (word_bytes (bytes_word bs :: 'a word))"
  then have le: "8 * i + 8 \<le> LENGTH('a)" using assms by (auto elim!: dvdE)
  show "word_bytes (bytes_word bs :: 'a word) ! i = bs ! i"
  proof (rule bit_word_eqI)
    fix k assume "k < LENGTH(8)"
    then have k: "k < 8" by simp
    with le have "8 * i + k < LENGTH('a)" by simp
    moreover have "(8 * i + k) div 8 = i" "(8 * i + k) mod 8 = k" using k by simp_all
    ultimately show "bit (word_bytes (bytes_word bs :: 'a word) ! i) k = bit (bs ! i) k"
      using i assms k by (simp add: word_bytes_def bit_ucast_iff bit_drop_bit_eq bit_bytes_word)
  qed
qed

end
