(* ===== verification/Endian.thy ===== *)
theory Endian
  imports Prelude
begin

text \<open>
  Byte order (\<open>src/megalo/endian.h\<close>).  The host is little endian (the sources target
  Linux on x86), so \<open>MEGALO_BYTE_ORDER\<close> is \<open>MEGALO_LITTLE_ENDIAN\<close> and the little
  endian branch of the conditional compilation is the one modelled.  \<open>bswap_16\<close>,
  \<open>bswap_32\<close> and \<open>bswap_64\<close> of \<open>byteswap.h\<close> reverse the bytes of their argument.
\<close>

datatype byte_order = MEGALO_LITTLE_ENDIAN | MEGALO_BIG_ENDIAN

definition MEGALO_BYTE_ORDER :: byte_order where
  "MEGALO_BYTE_ORDER = MEGALO_LITTLE_ENDIAN"

definition byteswap :: "'a::len word \<Rightarrow> 'a word" where
  "byteswap w = bytes_word (rev (word_bytes w))"

definition byteswapOnLittleEndian :: "'a::len word \<Rightarrow> 'a word" where
  "byteswapOnLittleEndian t = byteswap t"

definition byteswapOnBigEndian :: "'a::len word \<Rightarrow> 'a word" where
  "byteswapOnBigEndian t = t"

lemma word_bytes_byteswap:
  "8 dvd LENGTH('a) \<Longrightarrow> word_bytes (byteswap (w :: 'a::len word)) = rev (word_bytes w)"
  by (simp add: byteswap_def bytes_word_inverse)

lemma byteswap_byteswap:
  "8 dvd LENGTH('a) \<Longrightarrow> byteswap (byteswap w) = (w :: 'a::len word)"
  by (simp add: byteswap_def bytes_word_inverse word_bytes_inverse)

lemma byteswap_inject:
  "8 dvd LENGTH('a) \<Longrightarrow> byteswap v = byteswap w \<longleftrightarrow> v = (w :: 'a::len word)"
  by (metis byteswap_byteswap)

lemma bit_byteswap:
  assumes d: "8 dvd LENGTH('a)" and n: "n < LENGTH('a)"
  shows "bit (byteswap (w :: 'a::len word)) n \<longleftrightarrow>
    bit w (8 * (LENGTH('a) div 8 - Suc (n div 8)) + n mod 8)"
proof -
  have lt: "n div 8 < LENGTH('a) div 8" using d n by (auto elim!: dvdE)
  have "8 * (LENGTH('a) div 8 - Suc (n div 8)) + n mod 8 < LENGTH('a)"
    using d lt by (auto elim!: dvdE)
  then show ?thesis
    using n lt by (simp add: byteswap_def bit_bytes_word rev_nth word_bytes_def
        bit_ucast_iff bit_drop_bit_eq)
qed

lemma byteswap_and: "8 dvd LENGTH('a) \<Longrightarrow> byteswap (v AND w) = byteswap v AND byteswap (w :: 'a::len word)"
  by (rule bit_word_eqI) (simp add: bit_byteswap bit_and_iff)

lemma byteswap_or: "8 dvd LENGTH('a) \<Longrightarrow> byteswap (v OR w) = byteswap v OR byteswap (w :: 'a::len word)"
  by (rule bit_word_eqI) (simp add: bit_byteswap bit_or_iff)

end
