(* ===== verification/ByteArray.thy ===== *)
theory ByteArray
  imports Endian
begin

text \<open>
  The chained byte buffer (\<open>src/megalo/bytearray.h\<close>, \<open>src/megalo/bytearray.cc\<close>): its
  state, capacity management, raw \<open>write\<close> and \<open>read\<close>, positioning, files, and the scatter
  and gather vectors handed to the socket calls.

  The chain \<open>m_root\<close>, \<open>m_root->next\<close>, \dots is the list \<open>ba_nodes\<close>; a node is the
  array it owns, so its \<open>sz\<close> field is the length of that array.  A node pointer is an
  index into the chain and \<open>nullptr\<close> is \<open>None\<close>.  \<open>ba_fresh i j\<close> is what the allocator
  leaves in byte \<open>j\<close> of the \<open>i\<close>-th node it hands out: \<open>new char[s]\<close> does not
  initialise, so every theorem holds for all such contents.

  A throw of \<open>std::out_of_range\<close> is the error \<open>OutOfRange\<close>.  Dereferencing
  \<open>nullptr\<close>, copying outside an array or writing a negative number of bytes is undefined
  behaviour in the source and is the error \<open>Fault\<close> here, so that a proof that no
  \<open>Fault\<close> occurs is a proof of memory safety.
\<close>

section \<open>State\<close>

type_synonym ba_node = "u8 list"

datatype ba_error = OutOfRange | Fault

type_synonym 'a ba_result = "ba_error + 'a"

record ByteArray =
  ba_baseSize :: nat
  ba_position :: nat
  ba_size :: nat
  ba_capacity :: nat
  ba_endian :: byte_order
  ba_nodes :: "ba_node list"
  ba_cur :: "nat option"
  ba_fresh :: "nat \<Rightarrow> nat \<Rightarrow> u8"

definition ByteArray_Node :: "(nat \<Rightarrow> u8) \<Rightarrow> nat \<Rightarrow> ba_node" where
  "ByteArray_Node junk s = map junk [0..<s]"

definition new_ByteArray :: "(nat \<Rightarrow> nat \<Rightarrow> u8) \<Rightarrow> nat \<Rightarrow> ByteArray" where
  "new_ByteArray junk base_size =
     \<lparr>ba_baseSize = base_size, ba_position = 0, ba_size = 0, ba_capacity = base_size,
      ba_endian = MEGALO_BIG_ENDIAN, ba_nodes = [ByteArray_Node (junk 0) base_size],
      ba_cur = Some 0, ba_fresh = junk\<rparr>"

text \<open>
  \<open>getReadSize\<close> and \<open>getCapacity\<close> subtract the position from a quantity that
  is never below it (\<open>ByteArray_inv\<close> below), so they do not wrap.
\<close>

definition ByteArray_getReadSize :: "ByteArray \<Rightarrow> nat" where
  "ByteArray_getReadSize s = ba_size s - ba_position s"

definition ByteArray_getCapacity :: "ByteArray \<Rightarrow> nat" where
  "ByteArray_getCapacity s = ba_capacity s - ba_position s"

definition ByteArray_isLittleEndian :: "ByteArray \<Rightarrow> bool" where
  "ByteArray_isLittleEndian s \<longleftrightarrow> ba_endian s = MEGALO_LITTLE_ENDIAN"

definition ByteArray_setIsLittleEndian :: "ByteArray \<Rightarrow> bool \<Rightarrow> ByteArray" where
  "ByteArray_setIsLittleEndian s val =
     (if val then s\<lparr>ba_endian := MEGALO_LITTLE_ENDIAN\<rparr> else s\<lparr>ba_endian := MEGALO_BIG_ENDIAN\<rparr>)"

text \<open>Following a node pointer, and the fields of the node it points to.\<close>

definition node_at :: "ByteArray \<Rightarrow> nat option \<Rightarrow> nat ba_result" where
  "node_at s p = (case p of None \<Rightarrow> Inl Fault
     | Some i \<Rightarrow> if i < length (ba_nodes s) then Inr i else Inl Fault)"

definition node_size :: "ByteArray \<Rightarrow> nat \<Rightarrow> nat" where
  "node_size s i = length (ba_nodes s ! i)"

definition node_next :: "ByteArray \<Rightarrow> nat \<Rightarrow> nat option" where
  "node_next s i = (if Suc i < length (ba_nodes s) then Some (Suc i) else None)"

text \<open>\<open>memcpy\<close> into and out of a node's array.\<close>

definition node_store :: "ByteArray \<Rightarrow> nat \<Rightarrow> nat \<Rightarrow> u8 list \<Rightarrow> ByteArray ba_result" where
  "node_store s i off bs =
     (if off + length bs \<le> node_size s i
      then Inr (s\<lparr>ba_nodes := (ba_nodes s)[i := overwrite (ba_nodes s ! i) off bs]\<rparr>)
      else Inl Fault)"

definition node_load :: "ByteArray \<Rightarrow> nat \<Rightarrow> nat \<Rightarrow> nat \<Rightarrow> u8 list ba_result" where
  "node_load s i off n =
     (if off + n \<le> node_size s i then Inr (take n (drop off (ba_nodes s ! i))) else Inl Fault)"

section \<open>Capacity\<close>

text \<open>
  \<open>ceil(1.0 * size / m_baseSize)\<close>; the double quotient rounds up exactly as the integer one
  does for sizes below \<open>2 ^ 52\<close>, far above what can be allocated.
\<close>

definition ceil_div :: "nat \<Rightarrow> nat \<Rightarrow> nat" where
  "ceil_div n d = (n + d - 1) div d"

definition ByteArray_addCapacity :: "ByteArray \<Rightarrow> nat \<Rightarrow> ByteArray" where
  "ByteArray_addCapacity s sz =
     (if sz = 0 then s
      else let old_cap = ByteArray_getCapacity s in
        if old_cap \<ge> sz then s
        else let count = ceil_div (sz - old_cap) (ba_baseSize s);
                 n = length (ba_nodes s);
                 new = map (\<lambda>i. ByteArray_Node (ba_fresh s (n + i)) (ba_baseSize s)) [0..<count];
                 first = (if count = 0 then None else Some n) in
          s\<lparr>ba_nodes := ba_nodes s @ new,
            ba_capacity := ba_capacity s + count * ba_baseSize s,
            ba_cur := (if old_cap = 0 then first else ba_cur s)\<rparr>)"

definition ByteArray_clear :: "ByteArray \<Rightarrow> ByteArray" where
  "ByteArray_clear s =
     s\<lparr>ba_position := 0, ba_size := 0, ba_capacity := ba_baseSize s,
       ba_nodes := take 1 (ba_nodes s), ba_cur := Some 0\<rparr>"

section \<open>Raw write and read\<close>

function ByteArray_write_loop :: "ByteArray \<Rightarrow> nat \<Rightarrow> nat \<Rightarrow> u8 list \<Rightarrow> ByteArray ba_result" where
  "ByteArray_write_loop s npos ncap buf =
     (if buf = [] then Inr s
      else case node_at s (ba_cur s) of Inl e \<Rightarrow> Inl e
      | Inr i \<Rightarrow>
        (if ncap \<ge> length buf
         then (case node_store s i npos buf of Inl e \<Rightarrow> Inl e
           | Inr s1 \<Rightarrow>
             Inr (s1\<lparr>ba_cur := (if node_size s1 i = npos + length buf then node_next s1 i else Some i),
                     ba_position := ba_position s1 + length buf\<rparr>))
         else (case node_store s i npos (take ncap buf) of Inl e \<Rightarrow> Inl e
           | Inr s1 \<Rightarrow>
             (case node_at s1 (node_next s1 i) of Inl e \<Rightarrow> Inl e
              | Inr j \<Rightarrow>
                ByteArray_write_loop
                  (s1\<lparr>ba_position := ba_position s1 + ncap, ba_cur := node_next s1 i\<rparr>)
                  0 (node_size s1 j) (drop ncap buf)))))"
  by pat_completeness auto
termination
  by (relation "measure (\<lambda>(s, _, _, _). case ba_cur s of None \<Rightarrow> 0 | Some i \<Rightarrow> length (ba_nodes s) - i)")
    (auto simp: node_at_def node_store_def node_next_def split: option.splits if_splits)

declare ByteArray_write_loop.simps [simp del]

definition ByteArray_write :: "ByteArray \<Rightarrow> u8 list \<Rightarrow> ByteArray ba_result" where
  "ByteArray_write s buf =
     (if buf = [] then Inr s
      else let s0 = ByteArray_addCapacity s (length buf) in
        case node_at s0 (ba_cur s0) of Inl e \<Rightarrow> Inl e
        | Inr i \<Rightarrow>
          (let npos = ba_position s0 mod ba_baseSize s0; ncap = node_size s0 i - npos in
           case ByteArray_write_loop s0 npos ncap buf of Inl e \<Rightarrow> Inl e
           | Inr s1 \<Rightarrow> Inr (if ba_position s1 > ba_size s1 then s1\<lparr>ba_size := ba_position s1\<rparr> else s1)))"

function ByteArray_read_loop ::
    "ByteArray \<Rightarrow> nat \<Rightarrow> nat \<Rightarrow> nat \<Rightarrow> u8 list \<Rightarrow> (u8 list \<times> ByteArray) ba_result" where
  "ByteArray_read_loop s npos ncap sz buf =
     (if sz = 0 then Inr (buf, s)
      else case node_at s (ba_cur s) of Inl e \<Rightarrow> Inl e
      | Inr i \<Rightarrow>
        (if ncap \<ge> sz
         then (case node_load s i npos sz of Inl e \<Rightarrow> Inl e
           | Inr bs \<Rightarrow>
             Inr (buf @ bs,
                  s\<lparr>ba_cur := (if node_size s i = npos + sz then node_next s i else Some i),
                    ba_position := ba_position s + sz\<rparr>))
         else (case node_load s i npos ncap of Inl e \<Rightarrow> Inl e
           | Inr bs \<Rightarrow>
             (case node_at s (node_next s i) of Inl e \<Rightarrow> Inl e
              | Inr j \<Rightarrow>
                ByteArray_read_loop
                  (s\<lparr>ba_position := ba_position s + ncap, ba_cur := node_next s i\<rparr>)
                  0 (node_size s j) (sz - ncap) (buf @ bs)))))"
  by pat_completeness auto
termination
  by (relation "measure (\<lambda>(s, _, _, _, _). case ba_cur s of None \<Rightarrow> 0 | Some i \<Rightarrow> length (ba_nodes s) - i)")
    (auto simp: node_at_def node_next_def split: option.splits if_splits)

declare ByteArray_read_loop.simps [simp del]

definition ByteArray_read :: "ByteArray \<Rightarrow> nat \<Rightarrow> (u8 list \<times> ByteArray) ba_result" where
  "ByteArray_read s sz =
     (if sz > ByteArray_getReadSize s then Inl OutOfRange
      else case node_at s (ba_cur s) of Inl e \<Rightarrow> Inl e
        | Inr i \<Rightarrow>
          (let npos = ba_position s mod ba_baseSize s; ncap = node_size s i - npos in
           ByteArray_read_loop s npos ncap sz []))"

text \<open>
  The reader that takes a position starts at \<open>m_cur\<close>, whatever the position is; its
  range check subtracts with wrap-around.
\<close>

function ByteArray_read_at_loop ::
    "ByteArray \<Rightarrow> nat option \<Rightarrow> nat \<Rightarrow> nat \<Rightarrow> nat \<Rightarrow> u8 list \<Rightarrow> u8 list ba_result" where
  "ByteArray_read_at_loop s cur npos ncap sz buf =
     (if sz = 0 then Inr buf
      else case node_at s cur of Inl e \<Rightarrow> Inl e
      | Inr i \<Rightarrow>
        (if ncap \<ge> sz
         then (case node_load s i npos sz of Inl e \<Rightarrow> Inl e | Inr bs \<Rightarrow> Inr (buf @ bs))
         else (case node_load s i npos ncap of Inl e \<Rightarrow> Inl e
           | Inr bs \<Rightarrow>
             (case node_at s (node_next s i) of Inl e \<Rightarrow> Inl e
              | Inr j \<Rightarrow>
                ByteArray_read_at_loop s (node_next s i) 0 (node_size s j) (sz - ncap) (buf @ bs)))))"
  by pat_completeness auto
termination
  by (relation "measure (\<lambda>(s, cur, _, _, _, _). case cur of None \<Rightarrow> 0 | Some i \<Rightarrow> length (ba_nodes s) - i)")
    (auto simp: node_at_def node_next_def split: option.splits if_splits)

declare ByteArray_read_at_loop.simps [simp del]

definition ByteArray_read_at :: "ByteArray \<Rightarrow> nat \<Rightarrow> nat \<Rightarrow> u8 list ba_result" where
  "ByteArray_read_at s sz position =
     (if sz > size_sub (ba_size s) position then Inl OutOfRange
      else case node_at s (ba_cur s) of Inl e \<Rightarrow> Inl e
        | Inr i \<Rightarrow>
          (let npos = position mod ba_baseSize s; ncap = node_size s i - npos in
           ByteArray_read_at_loop s (ba_cur s) npos ncap sz []))"

section \<open>Position\<close>

function ByteArray_setPosition_loop :: "ByteArray \<Rightarrow> nat option \<Rightarrow> nat \<Rightarrow> (nat \<times> nat) ba_result" where
  "ByteArray_setPosition_loop s cur v =
     (case node_at s cur of Inl e \<Rightarrow> Inl e
      | Inr i \<Rightarrow>
        if v > node_size s i
        then ByteArray_setPosition_loop s (node_next s i) (v - node_size s i)
        else Inr (i, v))"
  by pat_completeness auto
termination
  by (relation "measure (\<lambda>(s, cur, _). case cur of None \<Rightarrow> 0 | Some i \<Rightarrow> length (ba_nodes s) - i)")
    (auto simp: node_at_def node_next_def split: option.splits if_splits)

declare ByteArray_setPosition_loop.simps [simp del]

definition ByteArray_setPosition :: "ByteArray \<Rightarrow> nat \<Rightarrow> ByteArray ba_result" where
  "ByteArray_setPosition s v =
     (if v > ba_capacity s then Inl OutOfRange
      else let s1 = s\<lparr>ba_position := v, ba_size := (if v > ba_size s then v else ba_size s)\<rparr> in
        case ByteArray_setPosition_loop s1 (Some 0) v of Inl e \<Rightarrow> Inl e
        | Inr (i, v') \<Rightarrow>
          Inr (s1\<lparr>ba_cur := (if v' = node_size s1 i then node_next s1 i else Some i)\<rparr>))"

section \<open>Strings and files\<close>

definition ByteArray_toString :: "ByteArray \<Rightarrow> u8 list ba_result" where
  "ByteArray_toString s =
     (let n = ByteArray_getReadSize s in
      if n = 0 then Inr [] else ByteArray_read_at s n (ba_position s))"

definition hex_digit :: "nat \<Rightarrow> char" where
  "hex_digit d = ''0123456789abcdef'' ! d"

definition hex_byte :: "u8 \<Rightarrow> string" where
  "hex_byte b = [hex_digit (unat b div 16), hex_digit (unat b mod 16), CHR '' '']"

fun hex_dump :: "nat \<Rightarrow> u8 list \<Rightarrow> string" where
  "hex_dump i [] = []"
| "hex_dump i (b # bs) =
     (if i > 0 \<and> i mod 32 = 0 then [CHR 0x0A] else []) @ hex_byte b @ hex_dump (Suc i) bs"

definition ByteArray_toHexString :: "ByteArray \<Rightarrow> string ba_result" where
  "ByteArray_toHexString s =
     (case ByteArray_toString s of Inl e \<Rightarrow> Inl e | Inr str \<Rightarrow> Inr (hex_dump 0 str))"

text \<open>
  \<open>writeToFile\<close>: \<open>opened\<close> says whether the stream could be opened; the result is the
  returned flag and the bytes that reached the file.  The quantities are \<open>int64_t\<close> in the
  source, so \<open>len\<close> can be negative.
\<close>

function ByteArray_writeToFile_loop ::
    "ByteArray \<Rightarrow> nat option \<Rightarrow> int \<Rightarrow> int \<Rightarrow> u8 list \<Rightarrow> u8 list ba_result" where
  "ByteArray_writeToFile_loop s cur pos read_size ofs =
     (if read_size \<le> 0 then Inr ofs
      else let base = int (ba_baseSize s);
               diff = pos mod base;
               len = (if read_size > base then base else read_size) - diff in
        case node_at s cur of Inl e \<Rightarrow> Inl e
        | Inr i \<Rightarrow>
          (if len < 0 then Inl Fault
           else case node_load s i (nat diff) (nat len) of Inl e \<Rightarrow> Inl e
           | Inr bs \<Rightarrow>
             ByteArray_writeToFile_loop s (node_next s i) (pos + len) (read_size - len) (ofs @ bs)))"
  by pat_completeness auto
termination
  by (relation "measure (\<lambda>(s, cur, _, _, _). case cur of None \<Rightarrow> 0 | Some i \<Rightarrow> length (ba_nodes s) - i)")
    (auto simp: node_at_def node_next_def split: option.splits if_splits)

declare ByteArray_writeToFile_loop.simps [simp del]

definition ByteArray_writeToFile :: "ByteArray \<Rightarrow> bool \<Rightarrow> (bool \<times> u8 list) ba_result" where
  "ByteArray_writeToFile s opened =
     (if \<not> opened then Inr (False, [])
      else case ByteArray_writeToFile_loop s (ba_cur s) (int (ba_position s))
                  (int (ByteArray_getReadSize s)) [] of
          Inl e \<Rightarrow> Inl e | Inr bs \<Rightarrow> Inr (True, bs))"

text \<open>
  \<open>readFromFile\<close>: \<open>content\<close> is what the stream still delivers.  A read of
  \<open>m_baseSize\<close> bytes that delivers fewer sets \<open>eof\<close> and ends the loop, so the loop
  runs forever (\<open>None\<close>) when \<open>m_baseSize\<close> is 0.
\<close>

partial_function (option) ByteArray_readFromFile_loop ::
    "ByteArray \<Rightarrow> u8 list \<Rightarrow> ByteArray ba_result option" where
  "ByteArray_readFromFile_loop s content =
     (case ByteArray_write s (take (ba_baseSize s) content) of
        Inl e \<Rightarrow> Some (Inl e)
      | Inr s1 \<Rightarrow>
          if length content < ba_baseSize s then Some (Inr s1)
          else ByteArray_readFromFile_loop s1 (drop (ba_baseSize s) content))"

definition ByteArray_readFromFile ::
    "ByteArray \<Rightarrow> u8 list option \<Rightarrow> (bool \<times> ByteArray) ba_result option" where
  "ByteArray_readFromFile s file =
     (case file of None \<Rightarrow> Some (Inr (False, s))
      | Some content \<Rightarrow>
          (case ByteArray_readFromFile_loop s content of
             None \<Rightarrow> None
           | Some (Inl e) \<Rightarrow> Some (Inl e)
           | Some (Inr s1) \<Rightarrow> Some (Inr (True, s1))))"

section \<open>Scatter and gather vectors\<close>

text \<open>
  An \<open>iovec\<close> points into a node: the node's index, the offset of \<open>iov_base\<close> in its
  array, and \<open>iov_len\<close>.  The three functions below share the text of their loop.
\<close>

record iovec =
  iov_node :: nat
  iov_off :: nat
  iov_len :: nat

function iov_loop ::
    "ByteArray \<Rightarrow> nat option \<Rightarrow> nat \<Rightarrow> nat \<Rightarrow> nat \<Rightarrow> iovec list \<Rightarrow> iovec list ba_result" where
  "iov_loop s cur npos ncap len buffers =
     (if len = 0 then Inr buffers
      else case node_at s cur of Inl e \<Rightarrow> Inl e
      | Inr i \<Rightarrow>
        (if ncap \<ge> len
         then Inr (buffers @ [\<lparr>iov_node = i, iov_off = npos, iov_len = len\<rparr>])
         else (case node_at s (node_next s i) of Inl e \<Rightarrow> Inl e
           | Inr j \<Rightarrow>
             iov_loop s (node_next s i) 0 (node_size s j) (len - ncap)
               (buffers @ [\<lparr>iov_node = i, iov_off = npos, iov_len = ncap\<rparr>]))))"
  by pat_completeness auto
termination
  by (relation "measure (\<lambda>(s, cur, _, _, _, _). case cur of None \<Rightarrow> 0 | Some i \<Rightarrow> length (ba_nodes s) - i)")
    (auto simp: node_at_def node_next_def split: option.splits if_splits)

declare iov_loop.simps [simp del]

definition ByteArray_getReadBuffers ::
    "ByteArray \<Rightarrow> iovec list \<Rightarrow> nat \<Rightarrow> (nat \<times> iovec list) ba_result" where
  "ByteArray_getReadBuffers s buffers len0 =
     (let len = (if len0 > ByteArray_getReadSize s then ByteArray_getReadSize s else len0) in
      if len = 0 then Inr (0, buffers)
      else case node_at s (ba_cur s) of Inl e \<Rightarrow> Inl e
        | Inr i \<Rightarrow>
          (let npos = ba_position s mod ba_baseSize s; ncap = node_size s i - npos in
           case iov_loop s (ba_cur s) npos ncap len buffers of
             Inl e \<Rightarrow> Inl e | Inr bufs \<Rightarrow> Inr (len, bufs)))"

primrec node_skip :: "ByteArray \<Rightarrow> nat \<Rightarrow> nat \<Rightarrow> nat ba_result" where
  "node_skip s cur 0 = Inr cur"
| "node_skip s cur (Suc count) =
     (case node_at s (node_next s cur) of Inl e \<Rightarrow> Inl e | Inr j \<Rightarrow> node_skip s j count)"

definition ByteArray_getReadBuffers_at ::
    "ByteArray \<Rightarrow> iovec list \<Rightarrow> nat \<Rightarrow> nat \<Rightarrow> (nat \<times> iovec list) ba_result" where
  "ByteArray_getReadBuffers_at s buffers len0 position =
     (let len = (if len0 > ByteArray_getReadSize s then ByteArray_getReadSize s else len0) in
      if len = 0 then Inr (0, buffers)
      else let npos = position mod ba_baseSize s; count = position div ba_baseSize s in
        case node_skip s 0 count of Inl e \<Rightarrow> Inl e
        | Inr i \<Rightarrow>
          (let ncap = node_size s i - npos in
           case iov_loop s (Some i) npos ncap len buffers of
             Inl e \<Rightarrow> Inl e | Inr bufs \<Rightarrow> Inr (len, bufs)))"

definition ByteArray_getWriteBuffers ::
    "ByteArray \<Rightarrow> iovec list \<Rightarrow> nat \<Rightarrow> (nat \<times> iovec list \<times> ByteArray) ba_result" where
  "ByteArray_getWriteBuffers s buffers len =
     (if len = 0 then Inr (0, buffers, s)
      else let s0 = ByteArray_addCapacity s len in
        case node_at s0 (ba_cur s0) of Inl e \<Rightarrow> Inl e
        | Inr i \<Rightarrow>
          (let npos = ba_position s0 mod ba_baseSize s0; ncap = node_size s0 i - npos in
           case iov_loop s0 (ba_cur s0) npos ncap len buffers of
             Inl e \<Rightarrow> Inl e | Inr bufs \<Rightarrow> Inr (len, bufs, s0)))"

text \<open>What the kernel finds through a gather vector, and what it leaves through a scatter one.\<close>

definition iov_bytes :: "ByteArray \<Rightarrow> iovec \<Rightarrow> u8 list" where
  "iov_bytes s v = take (iov_len v) (drop (iov_off v) (ba_nodes s ! iov_node v))"

fun iov_fill :: "ByteArray \<Rightarrow> iovec list \<Rightarrow> u8 list \<Rightarrow> ByteArray ba_result" where
  "iov_fill s [] bs = (if bs = [] then Inr s else Inl Fault)"
| "iov_fill s (v # vs) bs =
     (if bs = [] then Inr s
      else case node_store s (iov_node v) (iov_off v) (take (iov_len v) bs) of
          Inl e \<Rightarrow> Inl e | Inr s1 \<Rightarrow> iov_fill s1 vs (drop (iov_len v) bs))"

end
