(* ===== verification/ByteArrayLaws.thy ===== *)
theory ByteArrayLaws
  imports ByteArray
begin

text \<open>
  The representation invariant of the chained byte buffer and its refinement to a flat byte
  sequence with a position: every operation of \<open>ByteArray\<close> keeps the invariant, none of them
  faults where the invariant holds, and \<open>write\<close>, \<open>read\<close>, \<open>setPosition\<close>, the file
  operations and the scatter and gather vectors act on the flat content as a plain in-memory
  file would.
\<close>

section \<open>Definitions: the abstraction\<close>

definition uniform :: "nat \<Rightarrow> ba_node list \<Rightarrow> bool" where
  "uniform b ns \<longleftrightarrow> (\<forall>x \<in> set ns. length x = b)"

text \<open>The node a position falls into; none at the very end of the chain.\<close>

definition cursor :: "nat \<Rightarrow> nat \<Rightarrow> nat \<Rightarrow> nat option" where
  "cursor b n pos = (if pos < b * n then Some (pos div b) else None)"

definition ba_flat :: "ByteArray \<Rightarrow> u8 list" where
  "ba_flat s = concat (ba_nodes s)"

definition ba_content :: "ByteArray \<Rightarrow> u8 list" where
  "ba_content s = take (ba_size s) (ba_flat s)"

definition ByteArray_inv :: "ByteArray \<Rightarrow> bool" where
  "ByteArray_inv s \<longleftrightarrow>
     0 < ba_baseSize s \<and> ba_nodes s \<noteq> [] \<and> uniform (ba_baseSize s) (ba_nodes s) \<and>
     ba_capacity s = ba_baseSize s * length (ba_nodes s) \<and>
     ba_position s \<le> ba_size s \<and> ba_size s \<le> ba_capacity s \<and>
     ba_cur s = cursor (ba_baseSize s) (length (ba_nodes s)) (ba_position s)"

text \<open>What the loop leaves behind: the flat content with the buffer spliced in.\<close>

definition written :: "nat \<Rightarrow> ByteArray \<Rightarrow> nat \<Rightarrow> u8 list \<Rightarrow> ByteArray \<Rightarrow> bool" where
  "written b s pos buf s' \<longleftrightarrow>
     (\<exists>N. s' = s\<lparr>ba_nodes := N, ba_position := ba_position s + length buf,
                 ba_cur := cursor b (length (ba_nodes s)) (pos + length buf)\<rparr>
        \<and> uniform b N \<and> length N = length (ba_nodes s)
        \<and> concat N = overwrite (ba_flat s) pos buf)"

text \<open>
  A vector that covers \<open>len\<close> bytes of the flat content from \<open>p\<close> on, without a gap and
  inside the arrays of the chain.
\<close>

fun iov_span :: "nat \<Rightarrow> nat \<Rightarrow> iovec list \<Rightarrow> nat \<Rightarrow> nat \<Rightarrow> bool" where
  "iov_span b n [] p len \<longleftrightarrow> len = 0"
| "iov_span b n (v # vs) p len \<longleftrightarrow>
     iov_node v < n \<and> iov_off v + iov_len v \<le> b \<and> b * iov_node v + iov_off v = p
     \<and> iov_len v \<le> len \<and> iov_span b n vs (p + iov_len v) (len - iov_len v)"

text \<open>
  Every state a program can bring a byte array into with its public operations, each one
  completing without an exception.
\<close>

inductive ba_reachable :: "ByteArray \<Rightarrow> bool" where
  r_new: "0 < n \<Longrightarrow> ba_reachable (new_ByteArray junk n)"
| r_endian: "ba_reachable s \<Longrightarrow> ba_reachable (ByteArray_setIsLittleEndian s v)"
| r_clear: "ba_reachable s \<Longrightarrow> ba_reachable (ByteArray_clear s)"
| r_write: "ba_reachable s \<Longrightarrow> ByteArray_write s bs = Inr s' \<Longrightarrow> ba_reachable s'"
| r_read: "ba_reachable s \<Longrightarrow> ByteArray_read s n = Inr (bs, s') \<Longrightarrow> ba_reachable s'"
| r_position: "ba_reachable s \<Longrightarrow> ByteArray_setPosition s v = Inr s' \<Longrightarrow> ba_reachable s'"
| r_from_file: "ba_reachable s \<Longrightarrow> ByteArray_readFromFile s f = Some (Inr (r, s')) \<Longrightarrow> ba_reachable s'"
| r_write_buffers: "ba_reachable s \<Longrightarrow> ByteArray_getWriteBuffers s vs len = Inr (r, vs', s') \<Longrightarrow> ba_reachable s'"

section \<open>Chains of equal nodes\<close>

lemma uniform_nth [simp]: "uniform b ns \<Longrightarrow> i < length ns \<Longrightarrow> length (ns ! i) = b"
  by (simp add: uniform_def)

lemma uniform_append [simp]: "uniform b (xs @ ys) \<longleftrightarrow> uniform b xs \<and> uniform b ys"
  by (auto simp: uniform_def)

lemma uniform_update: "uniform b ns \<Longrightarrow> length x = b \<Longrightarrow> uniform b (ns[i := x])"
  by (auto simp: uniform_def dest: set_update_subset_insert [THEN subsetD])

lemma length_flat: "uniform b ns \<Longrightarrow> length (concat ns) = b * length ns"
  by (rule length_concat_uniform) (simp add: uniform_def)

lemma take_flat: "uniform b ns \<Longrightarrow> take (b * i) (concat ns) = concat (take i ns)"
  by (rule take_concat_uniform) (simp add: uniform_def)

lemma drop_flat: "uniform b ns \<Longrightarrow> drop (b * i) (concat ns) = concat (drop i ns)"
  by (rule drop_concat_uniform) (simp add: uniform_def)

lemma cursor_next:
  assumes "0 < b" and "i < n"
  shows "cursor b n (b * i + b) = (if Suc i < n then Some (Suc i) else None)"
proof -
  have "b * i + b = b * Suc i" by simp
  then show ?thesis using assms by (auto simp: cursor_def simp del: mult_Suc_right)
qed

lemma cursor_within:
  assumes "r < b" and "i < n"
  shows "cursor b n (b * i + r) = Some i"
proof -
  have "b * i + r < b * Suc i" using assms by simp
  also have "\<dots> \<le> b * n" using assms by (intro mult_le_mono2) simp
  finally show ?thesis using assms by (simp add: cursor_def)
qed

lemma cursor_step:
  assumes "0 < b" and "i < n" and "r \<le> b"
  shows "cursor b n (b * i + r) = (if b = r then (if Suc i < n then Some (Suc i) else None) else Some i)"
  using assms cursor_next [of b i n] cursor_within [of r b i n] by auto

lemma node_at_Some [simp]: "i < length (ba_nodes s) \<Longrightarrow> node_at s (Some i) = Inr i"
  by (simp add: node_at_def)

text \<open>Storing into one node is storing into the flat content.\<close>

lemma flat_store:
  assumes u: "uniform b ns" and i: "i < length ns" and le: "off + length bs \<le> b"
  shows "concat (ns[i := overwrite (ns ! i) off bs]) = overwrite (concat ns) (b * i + off) bs"
proof -
  have len: "length (concat (take i ns)) = b * i"
    using u i length_flat [of b "take i ns"] by (auto simp: uniform_def dest: in_set_takeD)
  have "concat ns = concat (take i ns) @ ns ! i @ concat (drop (Suc i) ns)"
    using i by (subst id_take_nth_drop [OF i]) simp
  then have "overwrite (concat ns) (b * i + off) bs
      = concat (take i ns) @ overwrite (ns ! i @ concat (drop (Suc i) ns)) off bs"
    using len overwrite_append_right [of "concat (take i ns)"] by simp
  also have "\<dots> = concat (take i ns) @ overwrite (ns ! i) off bs @ concat (drop (Suc i) ns)"
    using u i le by (simp add: overwrite_append_left)
  finally show ?thesis using i by (simp add: upd_conv_take_nth_drop)
qed

lemma flat_load:
  assumes u: "uniform b ns" and i: "i < length ns" and le: "off + n \<le> b"
  shows "take n (drop off (ns ! i)) = take n (drop (b * i + off) (concat ns))"
proof -
  have "drop (b * i + off) (concat ns) = drop off (concat (drop i ns))"
    using u by (metis add.commute drop_drop drop_flat)
  also have "concat (drop i ns) = ns ! i @ concat (drop (Suc i) ns)"
    using i by (metis Cons_nth_drop_Suc concat.simps(2))
  finally show ?thesis using u i le by simp
qed

text \<open>A stretch of bytes that does not fit in node \<open>i\<close> leaves a node after it.\<close>

lemma next_node_exists:
  assumes "b * i + npos + k \<le> b * n" and "\<not> k \<le> b - npos" and "npos < b"
  shows "Suc i < n"
proof -
  have "b * Suc i < b * n" using assms by simp
  then show ?thesis by (simp del: mult_Suc_right)
qed

section \<open>The write loop\<close>

lemma write_loop_last:
  assumes u: "uniform b (ba_nodes s)" and i: "i < length (ba_nodes s)" and "0 < b"
    and "ba_cur s = Some i" and "buf \<noteq> []" and fit: "npos + length buf \<le> b" and "length buf \<le> ncap"
  defines "N \<equiv> (ba_nodes s)[i := overwrite (ba_nodes s ! i) npos buf]"
  shows "ByteArray_write_loop s npos ncap buf =
      Inr (s\<lparr>ba_nodes := N, ba_position := ba_position s + length buf,
             ba_cur := cursor b (length (ba_nodes s)) (b * i + (npos + length buf))\<rparr>)"
  using assms
  by (subst ByteArray_write_loop.simps)
    (auto simp: node_store_def node_size_def node_next_def cursor_step)

lemma write_loop_more:
  assumes u: "uniform b (ba_nodes s)" and Si: "Suc i < length (ba_nodes s)"
    and "ba_cur s = Some i" and "npos + ncap = b" and "\<not> length buf \<le> ncap"
  defines "s1 \<equiv> s\<lparr>ba_nodes := (ba_nodes s)[i := overwrite (ba_nodes s ! i) npos (take ncap buf)],
                   ba_position := ba_position s + ncap, ba_cur := Some (Suc i)\<rparr>"
  shows "ByteArray_write_loop s npos ncap buf = ByteArray_write_loop s1 0 b (drop ncap buf)"
  using assms
  by (subst ByteArray_write_loop.simps)
    (auto simp: node_store_def node_size_def node_next_def)

lemma write_loop_flat:
  assumes "uniform b (ba_nodes s)" and "0 < b" and "ba_cur s = Some i" and "i < length (ba_nodes s)"
    and "npos < b" and "buf \<noteq> []"
    and "b * i + npos + length buf \<le> b * length (ba_nodes s)"
  shows "\<exists>s'. ByteArray_write_loop s npos (b - npos) buf = Inr s' \<and> written b s (b * i + npos) buf s'"
  using assms
proof (induction "length buf" arbitrary: s i npos buf rule: less_induct)
  case less
  note u = less.prems(1) and i = less.prems(4)
  let ?n = "length (ba_nodes s)" and ?c = "b - npos"
  show ?case
  proof (cases "length buf \<le> ?c")
    case True
    let ?N = "(ba_nodes s)[i := overwrite (ba_nodes s ! i) npos buf]"
    have fit: "npos + length buf \<le> b" using True less.prems by simp
    have "uniform b ?N" using u i fit by (intro uniform_update) simp_all
    moreover have "concat ?N = overwrite (ba_flat s) (b * i + npos) buf"
      using flat_store [OF u i fit] by (simp add: ba_flat_def)
    ultimately show ?thesis
      using write_loop_last [OF u i \<open>0 < b\<close> less.prems(3) less.prems(6) fit True]
      by (auto simp: written_def add.assoc)
  next
    case False
    let ?xs = "take ?c buf" and ?ys = "drop ?c buf"
    let ?N1 = "(ba_nodes s)[i := overwrite (ba_nodes s ! i) npos ?xs]"
    let ?s1 = "s\<lparr>ba_nodes := ?N1, ba_position := ba_position s + ?c, ba_cur := Some (Suc i)\<rparr>"
    have fit: "npos + length ?xs \<le> b" and lx: "length ?xs = ?c" using False less.prems by simp_all
    have Si: "Suc i < ?n" using less.prems False by (intro next_node_exists)
    have u1: "uniform b ?N1" using u i fit by (intro uniform_update) simp_all
    have fl: "concat ?N1 = overwrite (ba_flat s) (b * i + npos) ?xs"
      using flat_store [OF u i fit] by (simp add: ba_flat_def)
    have lt: "length ?ys < length buf" using less.prems False by simp
    have "b * Suc i + 0 + length ?ys \<le> b * length (ba_nodes ?s1)" using less.prems False by simp
    then obtain s' where s': "ByteArray_write_loop ?s1 0 b ?ys = Inr s'"
        "written b ?s1 (b * Suc i) ?ys s'"
      using less.hyps [of ?ys ?s1 "Suc i" 0, OF lt] u1 Si \<open>0 < b\<close> False by auto
    have pos: "b * Suc i = b * i + npos + length ?xs" using less.prems lx by simp
    have "overwrite (concat ?N1) (b * Suc i) ?ys = overwrite (ba_flat s) (b * i + npos) buf"
      using less.prems(7) lx length_flat [OF u] unfolding fl pos
      by (subst overwrite_overwrite) (simp_all add: ba_flat_def)
    moreover have "b * Suc i + length ?ys = b * i + npos + length buf" using False less.prems by simp
    ultimately have "written b s (b * i + npos) buf s'"
      using s'(2) False by (auto simp: written_def ba_flat_def simp del: mult_Suc_right)
    moreover have "ByteArray_write_loop s npos ?c buf = Inr s'"
      using write_loop_more [OF u Si less.prems(3) _ False] less.prems(5) s'(1) by simp
    ultimately show ?thesis by blast
  qed
qed

section \<open>The read loop\<close>

lemma node_load_flat:
  "uniform b (ba_nodes s) \<Longrightarrow> i < length (ba_nodes s) \<Longrightarrow> off + n \<le> b \<Longrightarrow>
   node_load s i off n = Inr (take n (drop (b * i + off) (ba_flat s)))"
  by (simp add: node_load_def node_size_def ba_flat_def flat_load [symmetric])

lemma read_loop_last:
  assumes "uniform b (ba_nodes s)" and "i < length (ba_nodes s)" and "0 < b"
    and "ba_cur s = Some i" and "0 < n" and "npos + n \<le> b" and "n \<le> ncap"
  shows "ByteArray_read_loop s npos ncap n buf =
      Inr (buf @ take n (drop (b * i + npos) (ba_flat s)),
           s\<lparr>ba_position := ba_position s + n,
             ba_cur := cursor b (length (ba_nodes s)) (b * i + (npos + n))\<rparr>)"
  using assms
  by (subst ByteArray_read_loop.simps)
    (auto simp: node_load_flat node_size_def node_next_def cursor_step)

lemma read_loop_more:
  assumes "uniform b (ba_nodes s)" and "Suc i < length (ba_nodes s)"
    and "ba_cur s = Some i" and "npos + ncap = b" and "\<not> n \<le> ncap"
  shows "ByteArray_read_loop s npos ncap n buf =
      ByteArray_read_loop (s\<lparr>ba_position := ba_position s + ncap, ba_cur := Some (Suc i)\<rparr>)
        0 b (n - ncap) (buf @ take ncap (drop (b * i + npos) (ba_flat s)))"
  using assms
  by (subst ByteArray_read_loop.simps)
    (auto simp: node_load_flat node_size_def node_next_def)

text \<open>Two adjacent stretches of the flat content are one.\<close>

lemma take_drop_adjacent:
  "take m (drop p xs) @ take n (drop (p + m) xs) = take (m + n) (drop p xs)"
  by (simp add: take_add drop_drop add.commute)

lemma read_loop_flat:
  assumes "uniform b (ba_nodes s)" and "0 < b" and "ba_cur s = Some i" and "i < length (ba_nodes s)"
    and "npos < b" and "0 < n"
    and "b * i + npos + n \<le> b * length (ba_nodes s)"
  shows "ByteArray_read_loop s npos (b - npos) n buf =
      Inr (buf @ take n (drop (b * i + npos) (ba_flat s)),
           s\<lparr>ba_position := ba_position s + n,
             ba_cur := cursor b (length (ba_nodes s)) (b * i + npos + n)\<rparr>)"
  using assms
proof (induction n arbitrary: s i npos buf rule: less_induct)
  case (less n)
  note u = less.prems(1) and i = less.prems(4)
  show ?case
  proof (cases "n \<le> b - npos")
    case True
    then show ?thesis
      using read_loop_last [OF u i \<open>0 < b\<close> less.prems(3) less.prems(6) _ True] less.prems(5)
      by (simp add: add.assoc)
  next
    case False
    let ?c = "b - npos"
    let ?s1 = "s\<lparr>ba_position := ba_position s + ?c, ba_cur := Some (Suc i)\<rparr>"
    let ?buf = "buf @ take ?c (drop (b * i + npos) (ba_flat s))"
    have Si: "Suc i < length (ba_nodes s)" using less.prems False by (intro next_node_exists)
    have pos: "b * Suc i = b * i + npos + ?c" using less.prems by simp
    have "ByteArray_read_loop s npos ?c n buf = ByteArray_read_loop ?s1 0 b (n - ?c) ?buf"
      using read_loop_more [OF u Si less.prems(3) _ False] less.prems(5) by simp
    also have "\<dots> = Inr (?buf @ take (n - ?c) (drop (b * Suc i) (ba_flat s)),
        s\<lparr>ba_position := ba_position s + n,
          ba_cur := cursor b (length (ba_nodes s)) (b * Suc i + (n - ?c))\<rparr>)"
      using less.IH [of "n - ?c" ?s1 "Suc i" 0 ?buf] u Si \<open>0 < b\<close> False less.prems
      by (simp add: ba_flat_def)
    also have "?buf @ take (n - ?c) (drop (b * Suc i) (ba_flat s))
        = buf @ take n (drop (b * i + npos) (ba_flat s))"
      using take_drop_adjacent [of ?c "b * i + npos" "ba_flat s" "n - ?c"] False
      unfolding pos by simp
    also have "b * Suc i + (n - ?c) = b * i + npos + n" using False less.prems by simp
    finally show ?thesis .
  qed
qed

section \<open>The invariant\<close>

lemma inv_unfold:
  assumes "ByteArray_inv s"
  shows "0 < ba_baseSize s" "ba_nodes s \<noteq> []" "uniform (ba_baseSize s) (ba_nodes s)"
    "ba_capacity s = ba_baseSize s * length (ba_nodes s)"
    "ba_position s \<le> ba_size s" "ba_size s \<le> ba_capacity s"
    "ba_cur s = cursor (ba_baseSize s) (length (ba_nodes s)) (ba_position s)"
    "length (ba_flat s) = ba_capacity s" "length (ba_content s) = ba_size s"
  using assms length_flat [of "ba_baseSize s" "ba_nodes s"]
  by (simp_all add: ByteArray_inv_def ba_flat_def ba_content_def)

lemma div_lt_of_lt_mult: "(p::nat) < b * n \<Longrightarrow> p div b < n"
  by (metis less_mult_imp_div_less mult.commute)

lemma cur_of_inv:
  assumes "ByteArray_inv s" and "ba_position s < ba_capacity s"
  shows "ba_cur s = Some (ba_position s div ba_baseSize s)"
    "ba_position s div ba_baseSize s < length (ba_nodes s)"
  using inv_unfold [OF assms(1)] assms(2) by (simp_all add: cursor_def div_lt_of_lt_mult)

lemma inv_new: "0 < n \<Longrightarrow> ByteArray_inv (new_ByteArray junk n)"
  by (simp add: ByteArray_inv_def new_ByteArray_def uniform_def ByteArray_Node_def cursor_def)

lemma inv_clear: "ByteArray_inv s \<Longrightarrow> ByteArray_inv (ByteArray_clear s)"
  by (cases "ba_nodes s")
    (auto simp: ByteArray_inv_def ByteArray_clear_def uniform_def cursor_def)

lemma inv_setIsLittleEndian: "ByteArray_inv s \<Longrightarrow> ByteArray_inv (ByteArray_setIsLittleEndian s v)"
  by (simp add: ByteArray_inv_def ByteArray_setIsLittleEndian_def)

lemma ceil_div_bounds:
  assumes "0 < d" and "0 < n"
  shows "n \<le> d * ceil_div n d" and "0 < ceil_div n d"
proof -
  have "n + d - 1 = d * ceil_div n d + (n + d - 1) mod d" by (simp add: ceil_div_def)
  moreover have "(n + d - 1) mod d < d" using assms by simp
  ultimately show "n \<le> d * ceil_div n d" by linarith
  then show "0 < ceil_div n d" using assms by (cases "ceil_div n d") auto
qed

text \<open>
  \<open>addCapacity\<close> makes room, keeps the invariant and what is stored, and only ever appends
  to the flat content.
\<close>

lemma addCapacity_inv:
  fixes s :: ByteArray and n :: nat
  assumes inv: "ByteArray_inv s"
  defines "s' \<equiv> ByteArray_addCapacity s n"
  shows "ByteArray_inv s'" and "ba_position s + n \<le> ba_capacity s'"
    and "\<exists>ext. ba_flat s' = ba_flat s @ ext"
    and "ba_position s' = ba_position s" "ba_size s' = ba_size s"
        "ba_baseSize s' = ba_baseSize s" "ba_endian s' = ba_endian s"
        "0 < n \<Longrightarrow> ba_position s' < ba_capacity s'"
proof -
  note I = inv_unfold [OF inv]
  let ?old = "ba_capacity s - ba_position s"
  consider (enough) "n \<le> ?old" | (grow) "0 < n" "?old < n" by linarith
  then have "ByteArray_inv s' \<and> ba_position s + n \<le> ba_capacity s' \<and> (\<exists>ext. ba_flat s' = ba_flat s @ ext)"
  proof cases
    case enough
    then have "s' = s" by (simp add: s'_def ByteArray_addCapacity_def ByteArray_getCapacity_def)
    then show ?thesis using inv enough I by auto
  next
    case grow
    let ?c = "ceil_div (n - ?old) (ba_baseSize s)"
    have c: "n - ?old \<le> ba_baseSize s * ?c" "0 < ?c"
      using ceil_div_bounds [of "ba_baseSize s" "n - ?old"] I(1) grow by simp_all
    have nodes: "\<exists>new. ba_nodes s' = ba_nodes s @ new \<and> length new = ?c \<and> uniform (ba_baseSize s) new"
      using grow by (simp add: s'_def ByteArray_addCapacity_def ByteArray_getCapacity_def Let_def
          uniform_def ByteArray_Node_def)
    have cap: "ba_capacity s' = ba_capacity s + ?c * ba_baseSize s"
      and cur: "ba_cur s' = (if ?old = 0 then Some (length (ba_nodes s)) else ba_cur s)"
      using grow c by (auto simp: s'_def ByteArray_addCapacity_def ByteArray_getCapacity_def Let_def)
    have rest: "ba_position s' = ba_position s" "ba_size s' = ba_size s" "ba_baseSize s' = ba_baseSize s"
      by (simp_all add: s'_def ByteArray_addCapacity_def Let_def)
    have "ba_cur s' = cursor (ba_baseSize s) (length (ba_nodes s) + ?c) (ba_position s)"
    proof (cases "?old = 0")
      case True
      then have "ba_position s = ba_baseSize s * length (ba_nodes s)" using I by simp
      then show ?thesis using True cur c I(1) by (simp add: cursor_def)
    next
      case False
      then have "ba_position s < ba_baseSize s * length (ba_nodes s)" using I by simp
      then show ?thesis using False cur I by (simp add: cursor_def algebra_simps)
    qed
    then show ?thesis
      using nodes cap rest I c grow
      by (auto simp: ByteArray_inv_def ba_flat_def algebra_simps)
  qed
  then show "ByteArray_inv s'" "ba_position s + n \<le> ba_capacity s'" "\<exists>ext. ba_flat s' = ba_flat s @ ext"
    by simp_all
  show "ba_position s' = ba_position s" "ba_size s' = ba_size s" "ba_baseSize s' = ba_baseSize s"
    "ba_endian s' = ba_endian s"
    by (simp_all add: s'_def ByteArray_addCapacity_def Let_def)
  then show "0 < n \<Longrightarrow> ba_position s' < ba_capacity s'"
    using \<open>ba_position s + n \<le> ba_capacity s'\<close> by simp
qed

section \<open>Refinement of write, read and setPosition\<close>

lemma take_overwrite_extended:
  assumes "pos \<le> sz" and "sz \<le> length F" and "pos + length bs \<le> length (F @ ext)"
  shows "take (max sz (pos + length bs)) (overwrite (F @ ext) pos bs) = overwrite (take sz F) pos bs"
  using assms by (auto simp: overwrite_def max_def min_def drop_take)

lemma write_refines:
  assumes inv: "ByteArray_inv s"
  shows "\<exists>s'. ByteArray_write s buf = Inr s' \<and> ByteArray_inv s'
    \<and> ba_content s' = overwrite (ba_content s) (ba_position s) buf
    \<and> ba_position s' = ba_position s + length buf
    \<and> ba_endian s' = ba_endian s \<and> ba_baseSize s' = ba_baseSize s"
proof (cases "buf = []")
  case True
  then show ?thesis using inv by (simp add: ByteArray_write_def)
next
  case False
  let ?s0 = "ByteArray_addCapacity s (length buf)" and ?b = "ba_baseSize s"
  note C = addCapacity_inv [OF inv, of "length buf"]
  note I0 = inv_unfold [OF C(1)]
  let ?i = "ba_position s div ?b" and ?m = "ba_position s mod ?b"
  have pos: "?b * ?i + ?m = ba_position s" by simp
  have cur: "ba_cur ?s0 = Some ?i" "?i < length (ba_nodes ?s0)"
    using cur_of_inv [OF C(1)] C False by simp_all
  have u0: "uniform ?b (ba_nodes ?s0)" and b: "0 < ?b" using I0 C by simp_all
  obtain s1 where s1: "ByteArray_write_loop ?s0 ?m (?b - ?m) buf = Inr s1"
      "written ?b ?s0 (ba_position s) buf s1"
    using write_loop_flat [OF u0 b cur, of ?m buf] False b C I0 pos by auto
  then obtain N where N: "s1 = ?s0\<lparr>ba_nodes := N, ba_position := ba_position s + length buf,
      ba_cur := cursor ?b (length (ba_nodes ?s0)) (ba_position s + length buf)\<rparr>"
      "uniform ?b N" "length N = length (ba_nodes ?s0)"
      "concat N = overwrite (ba_flat ?s0) (ba_position s) buf"
    using C by (auto simp: written_def)
  let ?s' = "s1\<lparr>ba_size := max (ba_size s) (ba_position s + length buf)\<rparr>"
  have "node_size ?s0 ?i = ?b" using u0 cur by (simp add: node_size_def)
  then have "ByteArray_write s buf = Inr ?s'"
    using False cur s1 C N(1) by (auto simp: ByteArray_write_def Let_def max_def)
  moreover have "ByteArray_inv ?s'"
    using N I0 C b by (auto simp: ByteArray_inv_def)
  moreover obtain ext where "ba_flat ?s0 = ba_flat s @ ext" using C(3) by blast
  then have "ba_content ?s' = overwrite (ba_content s) (ba_position s) buf"
    using N(1,4) inv_unfold [OF inv] C I0
    by (simp add: ba_content_def ba_flat_def take_overwrite_extended)
  ultimately show ?thesis using N(1) C by auto
qed

lemma read_refines:
  assumes inv: "ByteArray_inv s" and "0 < n" and le: "ba_position s + n \<le> ba_size s"
  shows "\<exists>s'. ByteArray_read s n = Inr (take n (drop (ba_position s) (ba_content s)), s')
    \<and> ByteArray_inv s' \<and> ba_content s' = ba_content s \<and> ba_position s' = ba_position s + n
    \<and> ba_endian s' = ba_endian s \<and> ba_baseSize s' = ba_baseSize s"
proof -
  let ?b = "ba_baseSize s" and ?p = "ba_position s"
  note I = inv_unfold [OF inv]
  have lt: "?p < ba_capacity s" using assms I by simp
  note cur = cur_of_inv [OF inv lt]
  let ?s' = "s\<lparr>ba_position := ?p + n, ba_cur := cursor ?b (length (ba_nodes s)) (?p + n)\<rparr>"
  have "ByteArray_read_loop s (?p mod ?b) (?b - ?p mod ?b) n [] = Inr (take n (drop ?p (ba_flat s)), ?s')"
    using read_loop_flat [OF I(3,1) cur, of "?p mod ?b" n "[]"] assms I by simp
  moreover have "take n (drop ?p (ba_flat s)) = take n (drop ?p (ba_content s))"
    using le by (simp add: ba_content_def drop_take min_def)
  ultimately have "ByteArray_read s n = Inr (take n (drop ?p (ba_content s)), ?s')"
    using assms cur I by (simp add: ByteArray_read_def ByteArray_getReadSize_def node_size_def Let_def)
  moreover have "ByteArray_inv ?s'" using inv le I by (simp add: ByteArray_inv_def)
  ultimately show ?thesis by (simp add: ba_content_def ba_flat_def)
qed

lemma read_out_of_range:
  "ByteArray_inv s \<Longrightarrow> ba_size s < ba_position s + n \<Longrightarrow> ByteArray_read s n = Inl OutOfRange"
  using inv_unfold(5) [of s]
  by (simp add: ByteArray_read_def ByteArray_getReadSize_def less_diff_conv2 add.commute)

lemma setPosition_loop_result:
  assumes "uniform b (ba_nodes s)" and "0 < b" and "i < length (ba_nodes s)"
    and "b * i + v \<le> b * length (ba_nodes s)"
  shows "\<exists>j v'. ByteArray_setPosition_loop s (Some i) v = Inr (j, v') \<and> j < length (ba_nodes s)
    \<and> v' \<le> b \<and> b * j + v' = b * i + v"
  using assms
proof (induction v arbitrary: i rule: less_induct)
  case (less v)
  have sz: "node_size s i = b" using less.prems by (simp add: node_size_def)
  show ?case
  proof (cases "v \<le> b")
    case True
    then show ?thesis
      using less.prems sz by (subst ByteArray_setPosition_loop.simps) simp
  next
    case False
    then have Si: "Suc i < length (ba_nodes s)"
      using next_node_exists [of b i 0 v] less.prems by simp
    have "ByteArray_setPosition_loop s (Some i) v = ByteArray_setPosition_loop s (Some (Suc i)) (v - b)"
      using less.prems sz False Si by (subst ByteArray_setPosition_loop.simps) (simp add: node_next_def)
    then show ?thesis
      using less.IH [of "v - b" "Suc i"] less.prems False Si by (auto simp: algebra_simps)
  qed
qed

lemma setPosition_refines:
  assumes inv: "ByteArray_inv s" and le: "v \<le> ba_capacity s"
  shows "\<exists>s'. ByteArray_setPosition s v = Inr s' \<and> ByteArray_inv s'
    \<and> ba_position s' = v \<and> ba_size s' = max v (ba_size s) \<and> ba_flat s' = ba_flat s
    \<and> ba_endian s' = ba_endian s \<and> ba_baseSize s' = ba_baseSize s \<and> ba_capacity s' = ba_capacity s"
proof -
  note I = inv_unfold [OF inv]
  let ?s1 = "s\<lparr>ba_position := v, ba_size := (if v > ba_size s then v else ba_size s)\<rparr>"
  obtain j v' where r: "ByteArray_setPosition_loop ?s1 (Some 0) v = Inr (j, v')"
      "j < length (ba_nodes s)" "v' \<le> ba_baseSize s" "ba_baseSize s * j + v' = v"
    using setPosition_loop_result [of "ba_baseSize s" ?s1 0 v] I le by auto
  let ?s' = "?s1\<lparr>ba_cur := (if v' = node_size ?s1 j then node_next ?s1 j else Some j)\<rparr>"
  have "ba_cur ?s' = cursor (ba_baseSize s) (length (ba_nodes s)) v"
    using cursor_step [OF I(1) r(2,3)] r(4) I r by (auto simp: node_size_def node_next_def)
  then have "ByteArray_inv ?s'" using I le by (auto simp: ByteArray_inv_def)
  then show ?thesis
    using r le by (auto simp: ByteArray_setPosition_def Let_def ba_flat_def)
qed

lemma setPosition_within:
  assumes "ByteArray_inv s" and "v \<le> ba_size s"
  shows "\<exists>s'. ByteArray_setPosition s v = Inr s' \<and> ByteArray_inv s'
    \<and> ba_content s' = ba_content s \<and> ba_position s' = v
    \<and> ba_endian s' = ba_endian s \<and> ba_baseSize s' = ba_baseSize s"
  using setPosition_refines [of s v] inv_unfold(6) [of s] assms
  by (auto simp: ba_content_def max_def dest!: le_antisym)

section \<open>The interface: a byte stream\<close>

text \<open>
  What the typed readers and writers, and the socket streams, rely on: a position in a finite
  sequence of bytes, overwriting at the position, reading from it, and moving it.
\<close>

locale byte_stream =
  fixes inv :: "'s \<Rightarrow> bool"
    and content :: "'s \<Rightarrow> u8 list"
    and pos :: "'s \<Rightarrow> nat"
    and order :: "'s \<Rightarrow> byte_order"
    and wr :: "'s \<Rightarrow> u8 list \<Rightarrow> 's ba_result"
    and rd :: "'s \<Rightarrow> nat \<Rightarrow> (u8 list \<times> 's) ba_result"
    and seek :: "'s \<Rightarrow> nat \<Rightarrow> 's ba_result"
  assumes pos_le: "inv s \<Longrightarrow> pos s \<le> length (content s)"
    and wr_ok: "inv s \<Longrightarrow> \<exists>s'. wr s bs = Inr s' \<and> inv s' \<and> order s' = order s
          \<and> content s' = overwrite (content s) (pos s) bs \<and> pos s' = pos s + length bs"
    and rd_ok: "inv s \<Longrightarrow> 0 < n \<Longrightarrow> pos s + n \<le> length (content s) \<Longrightarrow>
          \<exists>s'. rd s n = Inr (take n (drop (pos s) (content s)), s') \<and> inv s' \<and> order s' = order s
          \<and> content s' = content s \<and> pos s' = pos s + n"
    and rd_short: "inv s \<Longrightarrow> length (content s) < pos s + n \<Longrightarrow> rd s n = Inl OutOfRange"
    and seek_ok: "inv s \<Longrightarrow> p \<le> length (content s) \<Longrightarrow>
          \<exists>s'. seek s p = Inr s' \<and> inv s' \<and> order s' = order s \<and> content s' = content s \<and> pos s' = p"
begin

text \<open>The bytes \<open>bs\<close> are the next ones to be read.\<close>

definition ahead :: "'s \<Rightarrow> u8 list \<Rightarrow> bool" where
  "ahead s bs \<longleftrightarrow> inv s \<and> (\<exists>rest. drop (pos s) (content s) = bs @ rest)"

text \<open>
  A reader that consumes exactly \<open>bs\<close>, in byte order \<open>bo\<close>, and delivers \<open>v\<close>.
\<close>

definition parses :: "byte_order \<Rightarrow> ('s \<Rightarrow> ('v \<times> 's) ba_result) \<Rightarrow> u8 list \<Rightarrow> 'v \<Rightarrow> bool" where
  "parses bo r bs v \<longleftrightarrow> (\<forall>s. order s = bo \<longrightarrow> ahead s bs \<longrightarrow>
     (\<exists>s'. r s = Inr (v, s') \<and> inv s' \<and> order s' = bo \<and> content s' = content s
         \<and> pos s' = pos s + length bs))"

lemma parses_rd: "bs \<noteq> [] \<Longrightarrow> parses bo (\<lambda>s. rd s (length bs)) bs bs"
  unfolding parses_def ahead_def
proof (intro allI impI, elim conjE exE)
  fix s rest
  assume "bs \<noteq> []" "inv s" "order s = bo" and eq: "drop (pos s) (content s) = bs @ rest"
  from arg_cong [OF eq, of length] have "pos s + length bs \<le> length (content s)"
    using pos_le [OF \<open>inv s\<close>] by simp
  with rd_ok [of s "length bs"] eq \<open>bs \<noteq> []\<close> \<open>inv s\<close> \<open>order s = bo\<close>
  show "\<exists>s'. rd s (length bs) = Inr (bs, s') \<and> inv s' \<and> order s' = bo
      \<and> content s' = content s \<and> pos s' = pos s + length bs"
    by auto
qed

lemma ahead_append:
  "ahead s (xs @ ys) \<Longrightarrow> inv s' \<Longrightarrow> content s' = content s \<Longrightarrow> pos s' = pos s + length xs \<Longrightarrow> ahead s' ys"
  unfolding ahead_def
  by (metis add.commute append_assoc append_eq_conv_conj drop_drop)

lemma ahead_prefix: "ahead s (xs @ ys) \<Longrightarrow> ahead s xs"
  by (auto simp: ahead_def)

lemma parses_seq:
  assumes p: "parses bo p xs v" and q: "parses bo (q v) ys w"
  shows "parses bo (\<lambda>s. result_bind (p s) (\<lambda>(v, s'). q v s')) (xs @ ys) w"
  unfolding parses_def
proof (intro allI impI)
  fix s assume s: "order s = bo" "ahead s (xs @ ys)"
  then obtain s1 where s1: "p s = Inr (v, s1)" "inv s1" "order s1 = bo" "content s1 = content s"
      "pos s1 = pos s + length xs"
    using p ahead_prefix unfolding parses_def by blast
  then have "ahead s1 ys" using s ahead_append by blast
  then show "\<exists>s'. result_bind (p s) (\<lambda>(v, s'). q v s') = Inr (w, s') \<and> inv s' \<and> order s' = bo
      \<and> content s' = content s \<and> pos s' = pos s + length (xs @ ys)"
    using q s1 unfolding parses_def by fastforce
qed

lemma parses_map: "parses bo p xs v \<Longrightarrow> parses bo (\<lambda>s. result_bind (p s) (\<lambda>(v, s'). Inr (f v, s'))) xs (f v)"
  unfolding parses_def by fastforce

text \<open>Writing, moving back and reading delivers what was written.\<close>

lemma wr_seek_parses:
  assumes inv: "inv s" and p: "parses (order s) r bs v"
    and w: "wr s bs = Inr s1" and b: "seek s1 (pos s) = Inr s2"
  shows "\<exists>s3. r s2 = Inr (v, s3) \<and> inv s3 \<and> order s3 = order s
    \<and> content s3 = content s1 \<and> pos s3 = pos s1"
proof -
  have s1: "inv s1" "order s1 = order s" "content s1 = overwrite (content s) (pos s) bs"
      "pos s1 = pos s + length bs"
    using wr_ok [OF inv, of bs] w by auto
  have le: "pos s \<le> length (content s1)" using s1 pos_le [OF inv] by (simp add: overwrite_def)
  have s2: "inv s2" "order s2 = order s" "content s2 = content s1" "pos s2 = pos s"
    using seek_ok [OF s1(1) le] b s1 by auto
  have "drop (pos s2) (content s2) = bs @ drop (pos s + length bs) (content s)"
    using s1 s2 pos_le [OF inv] by (simp add: overwrite_def)
  then have "ahead s2 bs" using s2 by (auto simp: ahead_def)
  then show ?thesis using p s2 s1 unfolding parses_def by fastforce
qed

text \<open>Writing twice is writing the concatenation.\<close>

lemma wr_wr:
  assumes inv: "inv s" and w: "wr s xs = Inr s1" "wr s1 ys = Inr s2" and v: "wr s (xs @ ys) = Inr s3"
  shows "content s2 = content s3" and "pos s2 = pos s3" and "order s2 = order s3"
proof -
  have s1: "inv s1" "order s1 = order s" "content s1 = overwrite (content s) (pos s) xs"
      "pos s1 = pos s + length xs" using wr_ok [OF inv, of xs] w by auto
  have s2: "content s2 = overwrite (content s1) (pos s1) ys" "pos s2 = pos s1 + length ys"
      "order s2 = order s1"
    using wr_ok [OF s1(1), of ys] w by auto
  have s3: "content s3 = overwrite (content s) (pos s) (xs @ ys)" "pos s3 = pos s + length (xs @ ys)"
      "order s3 = order s"
    using wr_ok [OF inv, of "xs @ ys"] v by auto
  show "content s2 = content s3"
    using pos_le [OF inv] by (simp add: s1 s2 s3 overwrite_def add.commute add.left_commute)
  show "pos s2 = pos s3" "order s2 = order s3" by (simp_all add: s1 s2 s3)
qed

end

lemma stream_write:
  "ByteArray_inv s \<Longrightarrow> \<exists>s'. ByteArray_write s bs = Inr s' \<and> ByteArray_inv s' \<and> ba_endian s' = ba_endian s
    \<and> ba_content s' = overwrite (ba_content s) (ba_position s) bs
    \<and> ba_position s' = ba_position s + length bs"
  using write_refines [of s bs] by blast

lemma stream_read:
  "ByteArray_inv s \<Longrightarrow> 0 < n \<Longrightarrow> ba_position s + n \<le> length (ba_content s) \<Longrightarrow>
   \<exists>s'. ByteArray_read s n = Inr (take n (drop (ba_position s) (ba_content s)), s')
      \<and> ByteArray_inv s' \<and> ba_endian s' = ba_endian s \<and> ba_content s' = ba_content s
      \<and> ba_position s' = ba_position s + n"
  using read_refines [of s n] inv_unfold(9) [of s] by auto

lemma stream_seek:
  "ByteArray_inv s \<Longrightarrow> p \<le> length (ba_content s) \<Longrightarrow>
   \<exists>s'. ByteArray_setPosition s p = Inr s' \<and> ByteArray_inv s' \<and> ba_endian s' = ba_endian s
      \<and> ba_content s' = ba_content s \<and> ba_position s' = p"
  using setPosition_within [of s p] inv_unfold(9) [of s] by auto

interpretation ba: byte_stream ByteArray_inv ba_content ba_position ba_endian
  ByteArray_write ByteArray_read ByteArray_setPosition
  by unfold_locales
    (simp_all add: inv_unfold stream_write stream_read stream_seek read_out_of_range)

section \<open>Reading without moving: toString\<close>

lemma read_at_loop_last:
  assumes "uniform b (ba_nodes s)" and "i < length (ba_nodes s)"
    and "0 < n" and "npos + n \<le> b" and "n \<le> ncap"
  shows "ByteArray_read_at_loop s (Some i) npos ncap n buf =
      Inr (buf @ take n (drop (b * i + npos) (ba_flat s)))"
  using assms by (subst ByteArray_read_at_loop.simps) (simp add: node_load_flat)

lemma read_at_loop_more:
  assumes "uniform b (ba_nodes s)" and "Suc i < length (ba_nodes s)"
    and "npos + ncap = b" and "\<not> n \<le> ncap"
  shows "ByteArray_read_at_loop s (Some i) npos ncap n buf =
      ByteArray_read_at_loop s (Some (Suc i)) 0 b (n - ncap)
        (buf @ take ncap (drop (b * i + npos) (ba_flat s)))"
  using assms
  by (subst ByteArray_read_at_loop.simps)
    (auto simp: node_load_flat node_size_def node_next_def)

lemma read_at_loop_flat:
  assumes "uniform b (ba_nodes s)" and "0 < b" and "i < length (ba_nodes s)"
    and "npos < b" and "0 < n" and "b * i + npos + n \<le> b * length (ba_nodes s)"
  shows "ByteArray_read_at_loop s (Some i) npos (b - npos) n buf =
      Inr (buf @ take n (drop (b * i + npos) (ba_flat s)))"
  using assms
proof (induction n arbitrary: i npos buf rule: less_induct)
  case (less n)
  note u = less.prems(1) and i = less.prems(3)
  show ?case
  proof (cases "n \<le> b - npos")
    case True
    then show ?thesis using read_at_loop_last [OF u i less.prems(5) _ True] less.prems(4) by simp
  next
    case False
    let ?c = "b - npos"
    let ?buf = "buf @ take ?c (drop (b * i + npos) (ba_flat s))"
    have Si: "Suc i < length (ba_nodes s)" using less.prems False by (intro next_node_exists)
    have pos: "b * Suc i = b * i + npos + ?c" using less.prems by simp
    have "ByteArray_read_at_loop s (Some i) npos ?c n buf
        = Inr (?buf @ take (n - ?c) (drop (b * Suc i) (ba_flat s)))"
      using read_at_loop_more [OF u Si _ False, where buf = buf] less.IH [of "n - ?c" "Suc i" 0 ?buf]
        u Si \<open>0 < b\<close> False less.prems by simp
    then show ?thesis
      using take_drop_adjacent [of ?c "b * i + npos" "ba_flat s" "n - ?c"] False
      unfolding pos by simp
  qed
qed

lemma read_at_position:
  assumes inv: "ByteArray_inv s" and "0 < n" and "ba_position s + n \<le> ba_size s" and "ba_size s < 2 ^ 64"
  shows "ByteArray_read_at s n (ba_position s) = Inr (take n (drop (ba_position s) (ba_content s)))"
proof -
  let ?b = "ba_baseSize s" and ?p = "ba_position s"
  note I = inv_unfold [OF inv]
  have lt: "?p < ba_capacity s" using assms I by simp
  note cur = cur_of_inv [OF inv lt]
  have "ByteArray_read_at_loop s (ba_cur s) (?p mod ?b) (?b - ?p mod ?b) n []
      = Inr (take n (drop ?p (ba_flat s)))"
    using read_at_loop_flat [OF I(3,1) cur(2), of "?p mod ?b" n "[]"] assms I cur by simp
  moreover have "take n (drop ?p (ba_flat s)) = take n (drop ?p (ba_content s))"
    using assms by (simp add: ba_content_def drop_take min_def)
  moreover have "size_sub (ba_size s) ?p = ba_size s - ?p" using I assms by simp
  ultimately show ?thesis
    using assms cur I by (simp add: ByteArray_read_at_def node_size_def Let_def)
qed

lemma toString_refines:
  assumes "ByteArray_inv s" and "ba_size s < 2 ^ 64"
  shows "ByteArray_toString s = Inr (drop (ba_position s) (ba_content s))"
  using assms read_at_position [of s "ba_size s - ba_position s"] inv_unfold [of s]
  by (auto simp: ByteArray_toString_def ByteArray_getReadSize_def Let_def)

section \<open>Files\<close>

text \<open>One round of the loop that writes \<open>l\<close> bytes.\<close>

lemma writeToFile_loop_step:
  assumes "0 < k" and "node_at s cur = Inr i" and "node_load s i (p mod ba_baseSize s) l = Inr bs"
    and "min k (ba_baseSize s) = p mod ba_baseSize s + l"
  shows "ByteArray_writeToFile_loop s cur (int p) (int k) ofs =
      ByteArray_writeToFile_loop s (node_next s i) (int (p + l)) (int (k - l)) (ofs @ bs)"
proof -
  have m: "int p mod int (ba_baseSize s) = int (p mod ba_baseSize s)" by (simp add: zmod_int)
  have len: "(if int k > int (ba_baseSize s) then int (ba_baseSize s) else int k)
      - int p mod int (ba_baseSize s) = int l" and le: "l \<le> k"
    using assms(4) unfolding m by auto
  show ?thesis
    using assms(1,2,3) le
    by (simp only: ByteArray_writeToFile_loop.simps [of s cur "int p" "int k" ofs] Let_def len)
      (simp add: m del: of_nat_mod)
qed

lemma writeToFile_loop_done: "ByteArray_writeToFile_loop s cur p 0 ofs = Inr ofs"
  by (subst ByteArray_writeToFile_loop.simps) simp

lemma writeToFile_loop_aligned:
  assumes u: "uniform b (ba_nodes s)" and b: "b = ba_baseSize s" "0 < b"
    and "b * i + k \<le> b * length (ba_nodes s)" and "0 < k \<longrightarrow> cur = Some i"
  shows "ByteArray_writeToFile_loop s cur (int (b * i)) (int k) ofs
      = Inr (ofs @ take k (drop (b * i) (ba_flat s)))"
  using assms(4,5)
proof (induction k arbitrary: i cur ofs rule: less_induct)
  case (less k)
  show ?case
  proof (cases "k = 0")
    case True
    then show ?thesis by (simp add: writeToFile_loop_done)
  next
    case False
    then have cur: "cur = Some i" using less.prems by simp
    have "b * i < b * length (ba_nodes s)" using less.prems False by linarith
    then have i: "i < length (ba_nodes s)" by simp
    let ?l = "min k b"
    have "node_load s i (b * i mod ba_baseSize s) ?l = Inr (take ?l (drop (b * i) (ba_flat s)))"
      using node_load_flat [OF u i, of 0 ?l] b by simp
    then have step: "ByteArray_writeToFile_loop s cur (int (b * i)) (int k) ofs =
        ByteArray_writeToFile_loop s (node_next s i) (int (b * i + ?l)) (int (k - ?l))
          (ofs @ take ?l (drop (b * i) (ba_flat s)))"
      using False cur i b by (intro writeToFile_loop_step) simp_all
    show ?thesis
    proof (cases "k \<le> b")
      case True
      then show ?thesis unfolding step by (simp add: writeToFile_loop_done)
    next
      case big: False
      then have Si: "Suc i < length (ba_nodes s)"
        using next_node_exists [of b i 0 k] less.prems b by simp
      have "ByteArray_writeToFile_loop s (Some (Suc i)) (int (b * Suc i)) (int (k - b))
          (ofs @ take b (drop (b * i) (ba_flat s)))
          = Inr ((ofs @ take b (drop (b * i) (ba_flat s))) @ take (k - b) (drop (b * Suc i) (ba_flat s)))"
        using big less.prems b by (intro less.IH) simp_all
      moreover have "b * Suc i = b * i + b" by simp
      ultimately show ?thesis
        using step Si big take_drop_adjacent [of b "b * i" "ba_flat s" "k - b"]
        by (simp add: node_next_def del: of_nat_mult of_nat_add mult_Suc_right)
    qed
  qed
qed

text \<open>
  \<open>writeToFile\<close> writes exactly the unread bytes when the position is at the start of a
  node or at least a node's worth of bytes is unread.
\<close>

lemma writeToFile_refines:
  assumes inv: "ByteArray_inv s"
    and ok: "ba_position s mod ba_baseSize s = 0 \<or> ba_baseSize s \<le> ByteArray_getReadSize s"
  shows "ByteArray_writeToFile s True = Inr (True, drop (ba_position s) (ba_content s))"
proof -
  note I = inv_unfold [OF inv]
  let ?b = "ba_baseSize s" and ?p = "ba_position s" and ?k = "ByteArray_getReadSize s"
  let ?i = "?p div ?b" and ?r = "?p mod ?b"
  have p: "?b * ?i + ?r = ?p" by simp
  have lt: "0 < ?k \<longrightarrow> ?p < ba_capacity s" using I by (auto simp: ByteArray_getReadSize_def)
  have tot: "?p + ?k \<le> ?b * length (ba_nodes s)" using I by (simp add: ByteArray_getReadSize_def)
  have res: "take ?k (drop ?p (ba_flat s)) = drop ?p (ba_content s)"
    using I by (simp add: ba_content_def drop_take ByteArray_getReadSize_def)
  have "ByteArray_writeToFile_loop s (ba_cur s) (int ?p) (int ?k) [] = Inr (take ?k (drop ?p (ba_flat s)))"
  proof (cases "?r = 0")
    case True
    then show ?thesis
      using writeToFile_loop_aligned [OF I(3) refl I(1), of ?i ?k "ba_cur s" "[]"] p tot
        cur_of_inv [OF inv] lt by (simp del: of_nat_mult)
  next
    case False
    then have k: "?b \<le> ?k" using ok by simp
    note cur = cur_of_inv [OF inv]
    let ?l = "?b - ?r" and ?bs = "take (?b - ?r) (drop ?p (ba_flat s))"
    have i: "?i < length (ba_nodes s)" and c: "ba_cur s = Some ?i" using cur lt k I(1) by simp_all
    have r: "?r < ?b" using I(1) by simp
    have "node_load s ?i ?r ?l = Inr ?bs"
      using node_load_flat [OF I(3) i, of ?r ?l] r p by simp
    then have step: "ByteArray_writeToFile_loop s (ba_cur s) (int ?p) (int ?k) [] =
        ByteArray_writeToFile_loop s (node_next s ?i) (int (?p + ?l)) (int (?k - ?l)) ?bs"
      using k i c r I(1) by (subst writeToFile_loop_step [where i = ?i and l = ?l and bs = ?bs]) auto
    have "?b * Suc ?i = ?b * ?i + ?b" by simp
    then have q: "?p + ?l = ?b * Suc ?i" using r p by linarith
    have Si: "Suc ?i < length (ba_nodes s)"
      using next_node_exists [of ?b ?i ?r ?k] tot p k r False by simp
    have "ByteArray_writeToFile_loop s (Some (Suc ?i)) (int (?b * Suc ?i)) (int (?k - ?l)) ?bs
        = Inr (?bs @ take (?k - ?l) (drop (?b * Suc ?i) (ba_flat s)))"
      using tot q k r by (intro writeToFile_loop_aligned [OF I(3) refl I(1)]) simp_all
    then show ?thesis
      using step Si q k take_drop_adjacent [of ?l ?p "ba_flat s" "?k - ?l"]
      by (simp add: node_next_def del: of_nat_mult of_nat_add mult_Suc_right)
  qed
  then show ?thesis by (simp add: ByteArray_writeToFile_def res)
qed

lemma readFromFile_loop_refines:
  assumes "ByteArray_inv s"
  shows "\<exists>s'. ByteArray_readFromFile_loop s content = Some (Inr s') \<and> ByteArray_inv s'
    \<and> ba_content s' = overwrite (ba_content s) (ba_position s) content
    \<and> ba_position s' = ba_position s + length content"
  using assms
proof (induction "length content" arbitrary: s content rule: less_induct)
  case less
  let ?b = "ba_baseSize s"
  let ?xs = "take ?b content" and ?ys = "drop ?b content"
  have b: "0 < ?b" using inv_unfold(1) [OF less.prems] .
  obtain s1 where s1: "ByteArray_write s ?xs = Inr s1" "ByteArray_inv s1"
      "ba_content s1 = overwrite (ba_content s) (ba_position s) ?xs"
      "ba_position s1 = ba_position s + length ?xs"
    using stream_write [OF less.prems, of ?xs] by blast
  show ?case
  proof (cases "length content < ?b")
    case True
    then show ?thesis using s1 by (subst ByteArray_readFromFile_loop.simps) simp
  next
    case False
    then have "length ?ys < length content" using b by simp
    from less.hyps [OF this s1(2)] obtain s2 where
      s2: "ByteArray_readFromFile_loop s1 ?ys = Some (Inr s2)" "ByteArray_inv s2"
        "ba_content s2 = overwrite (ba_content s1) (ba_position s1) ?ys"
        "ba_position s2 = ba_position s1 + length ?ys"
      by blast
    have "ByteArray_readFromFile_loop s content = Some (Inr s2)"
      using False s1(1) s2(1) by (subst ByteArray_readFromFile_loop.simps) simp
    moreover have "ba_content s2 = overwrite (ba_content s) (ba_position s) (?xs @ ?ys)"
      using s2(3) s1(3,4) inv_unfold(5,9) [OF less.prems]
        overwrite_overwrite [of "ba_position s" "ba_content s" ?xs ?ys]
      by simp
    ultimately show ?thesis using s2 s1(4) False by simp
  qed
qed

section \<open>Scatter and gather vectors\<close>

lemma iov_loop_span:
  assumes "uniform b (ba_nodes s)" and "0 < b" and "i < length (ba_nodes s)"
    and "npos < b" and "b * i + npos + len \<le> b * length (ba_nodes s)"
  shows "\<exists>vs. iov_loop s (Some i) npos (b - npos) len buffers = Inr (buffers @ vs)
    \<and> iov_span b (length (ba_nodes s)) vs (b * i + npos) len"
  using assms
proof (induction len arbitrary: i npos buffers rule: less_induct)
  case (less len)
  note u = less.prems(1)
  consider (none) "len = 0" | (last) "0 < len" "len \<le> b - npos" | (more) "\<not> len \<le> b - npos" by linarith
  then show ?case
  proof cases
    case none
    then show ?thesis by (subst iov_loop.simps) simp
  next
    case last
    then show ?thesis using less.prems
      by (subst iov_loop.simps) simp
  next
    case more
    let ?c = "b - npos" and ?v = "\<lparr>iov_node = i, iov_off = npos, iov_len = b - npos\<rparr>"
    have Si: "Suc i < length (ba_nodes s)" using less.prems more by (intro next_node_exists)
    have lt: "len - ?c < len" using less.prems more by simp
    have "iov_loop s (Some i) npos ?c len buffers
        = iov_loop s (Some (Suc i)) 0 b (len - ?c) (buffers @ [?v])"
      using more less.prems Si u
      by (subst iov_loop.simps) (auto simp: node_next_def node_size_def)
    moreover obtain vs where "iov_loop s (Some (Suc i)) 0 b (len - ?c) (buffers @ [?v])
          = Inr ((buffers @ [?v]) @ vs)" "iov_span b (length (ba_nodes s)) vs (b * Suc i) (len - ?c)"
      using less.IH [of "len - ?c" "Suc i" 0 "buffers @ [?v]", OF lt] less.prems more Si by auto
    moreover have "b * i + npos + ?c = b * Suc i" using less.prems by simp
    ultimately show ?thesis
      using less.prems more by (intro exI [of _ "?v # vs"]) (simp del: mult_Suc_right)
  qed
qed

lemma iov_span_bytes:
  assumes u: "uniform b (ba_nodes s)"
  shows "iov_span b (length (ba_nodes s)) vs p len \<Longrightarrow>
    concat (map (iov_bytes s) vs) = take len (drop p (ba_flat s))"
proof (induction vs arbitrary: p len)
  case (Cons v vs)
  then have "iov_bytes s v = take (iov_len v) (drop p (ba_flat s))"
    using flat_load [OF u, of "iov_node v" "iov_off v" "iov_len v"]
    by (simp add: iov_bytes_def ba_flat_def)
  moreover have "concat (map (iov_bytes s) vs) = take (len - iov_len v) (drop (p + iov_len v) (ba_flat s))"
    using Cons.prems by (intro Cons.IH) simp
  ultimately show ?case
    using Cons.prems take_drop_adjacent [of "iov_len v" p "ba_flat s" "len - iov_len v"] by simp
qed simp

text \<open>Filling a vector with at most the bytes it covers overwrites the flat content.\<close>

lemma iov_span_fill:
  assumes "uniform b (ba_nodes s)" and "iov_span b (length (ba_nodes s)) vs p len" and "length bs \<le> len"
    and "p + len \<le> b * length (ba_nodes s)"
  shows "\<exists>N. iov_fill s vs bs = Inr (s\<lparr>ba_nodes := N\<rparr>) \<and> uniform b N
    \<and> length N = length (ba_nodes s) \<and> concat N = overwrite (ba_flat s) p bs"
  using assms
proof (induction vs arbitrary: s p len bs)
  case Nil
  then show ?case by (intro exI [of _ "ba_nodes s"]) (simp add: ba_flat_def)
next
  case (Cons v vs)
  show ?case
  proof (cases "bs = []")
    case True
    then show ?thesis using Cons.prems by (intro exI [of _ "ba_nodes s"]) (simp add: ba_flat_def)
  next
    case False
    let ?xs = "take (iov_len v) bs" and ?ys = "drop (iov_len v) bs" and ?i = "iov_node v"
    let ?N1 = "(ba_nodes s)[?i := overwrite (ba_nodes s ! ?i) (iov_off v) ?xs]"
    let ?s1 = "s\<lparr>ba_nodes := ?N1\<rparr>"
    have i: "?i < length (ba_nodes s)" and fit: "iov_off v + length ?xs \<le> b"
      and p: "b * ?i + iov_off v = p" using Cons.prems by auto
    have st: "node_store s ?i (iov_off v) ?xs = Inr ?s1"
      using Cons.prems fit i by (simp add: node_store_def node_size_def)
    have u1: "uniform b ?N1" using Cons.prems i fit by (intro uniform_update) simp_all
    have fl: "ba_flat ?s1 = overwrite (ba_flat s) p ?xs"
      using flat_store [OF Cons.prems(1) i fit] p by (simp add: ba_flat_def)
    obtain N where N: "iov_fill ?s1 vs ?ys = Inr (?s1\<lparr>ba_nodes := N\<rparr>)" "uniform b N"
        "length N = length (ba_nodes s)"
        "concat N = overwrite (ba_flat ?s1) (p + iov_len v) ?ys"
      using Cons.IH [of ?s1 "p + iov_len v" "len - iov_len v" ?ys] u1 Cons.prems
        diff_le_mono [OF Cons.prems(3), of "iov_len v"] by auto
    have "overwrite (ba_flat ?s1) (p + iov_len v) ?ys = overwrite (ba_flat s) p bs"
    proof (cases "?ys = []")
      case True
      then show ?thesis using fl by simp
    next
      case False
      then have "length ?xs = iov_len v" by simp
      then show ?thesis
        using overwrite_overwrite [of p "ba_flat s" ?xs ?ys] Cons.prems length_flat [OF Cons.prems(1)]
        unfolding fl by (simp add: ba_flat_def)
    qed
    then show ?thesis using N st False by (intro exI [of _ N]) simp
  qed
qed

lemma getReadBuffers_span:
  assumes inv: "ByteArray_inv s"
  shows "\<exists>vs. ByteArray_getReadBuffers s buffers len
      = Inr (min len (ByteArray_getReadSize s), buffers @ vs)
    \<and> iov_span (ba_baseSize s) (length (ba_nodes s)) vs (ba_position s) (min len (ByteArray_getReadSize s))"
proof -
  let ?b = "ba_baseSize s" and ?p = "ba_position s" and ?n = "min len (ByteArray_getReadSize s)"
  note I = inv_unfold [OF inv]
  have n: "(if len > ByteArray_getReadSize s then ByteArray_getReadSize s else len) = ?n" by simp
  show ?thesis
  proof (cases "?n = 0")
    case True
    then show ?thesis by (auto simp: ByteArray_getReadBuffers_def Let_def n)
  next
    case False
    have le: "?p + ?n \<le> ba_size s" using I False by (auto simp: ByteArray_getReadSize_def)
    then have lt: "?p < ba_capacity s" using I False by linarith
    note cur = cur_of_inv [OF inv lt]
    obtain vs where "iov_loop s (Some (?p div ?b)) (?p mod ?b) (?b - ?p mod ?b) ?n buffers = Inr (buffers @ vs)"
        "iov_span ?b (length (ba_nodes s)) vs ?p ?n"
      using iov_loop_span [OF I(3,1) cur(2), of "?p mod ?b" ?n buffers] I le by auto
    moreover have "node_size s (?p div ?b) = ?b" using cur I by (simp add: node_size_def)
    ultimately show ?thesis
      using False cur by (auto simp: ByteArray_getReadBuffers_def Let_def n)
  qed
qed

lemma getWriteBuffers_span:
  assumes inv: "ByteArray_inv s" and "0 < len"
  defines "s0 \<equiv> ByteArray_addCapacity s len"
  shows "\<exists>vs. ByteArray_getWriteBuffers s buffers len = Inr (len, buffers @ vs, s0)
    \<and> iov_span (ba_baseSize s) (length (ba_nodes s0)) vs (ba_position s) len"
proof -
  note C = addCapacity_inv [OF inv, of len, folded s0_def]
  note I = inv_unfold [OF C(1)]
  let ?b = "ba_baseSize s0" and ?p = "ba_position s0"
  note cur = cur_of_inv [OF C(1) C(8) [OF \<open>0 < len\<close>]]
  obtain vs where "iov_loop s0 (Some (?p div ?b)) (?p mod ?b) (?b - ?p mod ?b) len buffers = Inr (buffers @ vs)"
      "iov_span ?b (length (ba_nodes s0)) vs ?p len"
    using iov_loop_span [OF I(3,1) cur(2), of "?p mod ?b" len buffers] I C(2,4) by auto
  moreover have "node_size s0 (?p div ?b) = ?b" using cur I by (simp add: node_size_def)
  ultimately show ?thesis
    using \<open>0 < len\<close> cur C(4,6)
    by (auto simp: ByteArray_getWriteBuffers_def Let_def s0_def [symmetric])
qed

lemma addCapacity_0: "ByteArray_addCapacity s 0 = s"
  by (simp add: ByteArray_addCapacity_def)

lemma readFromFile_inv:
  assumes "ByteArray_inv s" and "ByteArray_readFromFile s f = Some (Inr (r, s'))"
  shows "ByteArray_inv s'"
proof (cases f)
  case None
  then show ?thesis using assms by (simp add: ByteArray_readFromFile_def)
next
  case (Some c)
  then show ?thesis
    using assms readFromFile_loop_refines [OF assms(1), of c]
    by (auto simp: ByteArray_readFromFile_def)
qed

lemma getWriteBuffers_inv:
  "ByteArray_inv s \<Longrightarrow> ByteArray_getWriteBuffers s vs len = Inr (r, vs', s') \<Longrightarrow> ByteArray_inv s'"
  using getWriteBuffers_span [of s len vs] addCapacity_inv(1) [of s len]
  by (cases "len = 0") (auto simp: ByteArray_getWriteBuffers_def [of s vs 0])

lemma read_inv:
  assumes inv: "ByteArray_inv s" and r: "ByteArray_read s n = Inr (bs, s')"
  shows "ByteArray_inv s'"
proof (cases "n = 0")
  case True
  then have "s' = s"
    using r by (auto simp: ByteArray_read_def Let_def ByteArray_read_loop.simps [of s _ _ 0 "[]"]
        split: sum.splits)
  then show ?thesis using inv by simp
next
  case False
  then show ?thesis
    using r stream_read [OF inv, of n] read_out_of_range [OF inv, of n] inv_unfold(9) [OF inv]
    by (cases "ba_position s + n \<le> ba_size s") auto
qed

lemma setPosition_inv:
  "ByteArray_inv s \<Longrightarrow> ByteArray_setPosition s v = Inr s' \<Longrightarrow> ByteArray_inv s'"
  using setPosition_refines [of s v]
  by (cases "v \<le> ba_capacity s") (auto simp: ByteArray_setPosition_def)

lemma write_inv: "ByteArray_inv s \<Longrightarrow> ByteArray_write s bs = Inr s' \<Longrightarrow> ByteArray_inv s'"
  using write_refines [of s bs] by auto

lemma reachable_inv: "ba_reachable s \<Longrightarrow> ByteArray_inv s"
  by (induction rule: ba_reachable.induct)
    (auto intro: inv_new inv_setIsLittleEndian inv_clear write_inv read_inv setPosition_inv
      readFromFile_inv getWriteBuffers_inv)

text \<open>The file loop faults when the position is inside a node and less than a node is unread.\<close>

lemma writeToFile_loop_negative:
  assumes "0 < k" and "min k (ba_baseSize s) < p mod ba_baseSize s"
  shows "ByteArray_writeToFile_loop s cur (int p) (int k) ofs = Inl Fault"
proof -
  have m: "int p mod int (ba_baseSize s) = int (p mod ba_baseSize s)" by (simp add: zmod_int)
  have "(if int k > int (ba_baseSize s) then int (ba_baseSize s) else int k)
      - int p mod int (ba_baseSize s) < 0"
    using assms(2) unfolding m by auto
  then show ?thesis
    using assms(1)
    by (simp only: ByteArray_writeToFile_loop.simps [of s cur "int p" "int k" ofs] Let_def if_True)
      (simp add: node_at_def split: option.splits)
qed

lemma writeToFile_loop_stuck:
  assumes u: "uniform (ba_baseSize s) (ba_nodes s)" and "0 < k" and "p mod ba_baseSize s = k"
    and "k < ba_baseSize s"
  shows "ByteArray_writeToFile_loop s cur (int p) (int k) ofs = Inl Fault"
proof (induction "case cur of None \<Rightarrow> 0 | Some i \<Rightarrow> length (ba_nodes s) - i" arbitrary: cur rule: less_induct)
  case less
  show ?case
  proof (cases "node_at s cur")
    case (Inl e)
    then have "e = Fault" by (auto simp: node_at_def split: option.splits if_splits)
    with Inl assms show ?thesis
      by (simp add: ByteArray_writeToFile_loop.simps [of s cur "int p" "int k" ofs] Let_def)
  next
    case (Inr i)
    then have cur: "cur = Some i" "i < length (ba_nodes s)"
      by (auto simp: node_at_def split: option.splits if_splits)
    have "node_load s i (p mod ba_baseSize s) 0 = Inr []"
      using node_load_flat [OF u cur(2), of k 0] assms by simp
    from writeToFile_loop_step [OF \<open>0 < k\<close> Inr this, of ofs]
    have "ByteArray_writeToFile_loop s cur (int p) (int k) ofs
        = ByteArray_writeToFile_loop s (node_next s i) (int p) (int k) ofs"
      using assms by simp
    also have "\<dots> = Inl Fault"
      using cur by (intro less) (auto simp: node_next_def)
    finally show ?thesis .
  qed
qed

lemma writeToFile_faults:
  assumes inv: "ByteArray_inv s" and r: "ba_position s mod ba_baseSize s \<noteq> 0"
    and k: "0 < ByteArray_getReadSize s" "ByteArray_getReadSize s < ba_baseSize s"
  shows "ByteArray_writeToFile s True = Inl Fault"
proof -
  let ?b = "ba_baseSize s" and ?p = "ba_position s" and ?k = "ByteArray_getReadSize s"
  let ?r = "?p mod ?b"
  note I = inv_unfold [OF inv]
  have lt: "?p < ba_capacity s" using I k by (auto simp: ByteArray_getReadSize_def)
  note cur = cur_of_inv [OF inv lt]
  consider (less) "?k < ?r" | (eq) "?r = ?k" | (more) "?r < ?k" by linarith
  then have "ByteArray_writeToFile_loop s (ba_cur s) (int ?p) (int ?k) [] = Inl Fault"
  proof cases
    case less
    then show ?thesis using k by (intro writeToFile_loop_negative) auto
  next
    case eq
    then show ?thesis using k I by (intro writeToFile_loop_stuck) auto
  next
    case more
    let ?l = "?k - ?r"
    have "node_load s (?p div ?b) ?r ?l = Inr (take ?l (drop (?b * (?p div ?b) + ?r) (ba_flat s)))"
      using node_load_flat [OF I(3) cur(2), of ?r ?l] more k by simp
    then have step: "ByteArray_writeToFile_loop s (ba_cur s) (int ?p) (int ?k) [] =
        ByteArray_writeToFile_loop s (node_next s (?p div ?b)) (int (?p + ?l)) (int ?r)
          ([] @ take ?l (drop (?b * (?p div ?b) + ?r) (ba_flat s)))"
      using more k cur by (subst writeToFile_loop_step [where i = "?p div ?b" and l = ?l]) auto
    have "(?p + ?l) mod ?b = (?r + ?l) mod ?b" by (simp add: mod_add_left_eq)
    also have "\<dots> = ?k" using more k by simp
    finally have "(?p + ?l) mod ?b = ?k" .
    then show ?thesis
      unfolding step using more r k by (intro writeToFile_loop_negative) auto
  qed
  then show ?thesis by (simp add: ByteArray_writeToFile_def)
qed

end
