(* ===== verification/ByteArrayCodec.thy ===== *)
theory ByteArrayCodec
  imports ByteArrayLaws
begin

text \<open>
  The typed writers and readers of the byte array (\<open>src/megalo/bytearray.cc\<close>): integers of
  fixed width in the array's byte order, zigzag and variable length integers, floating point
  values as their bit patterns, and length-prefixed strings.

  A writer is the raw \<open>write\<close> of an encoding and a reader a composition of raw \<open>read\<close>s.
  Signed and unsigned integers of one width are the same word; a \<open>float\<close> or \<open>double\<close>
  is the integer \<open>memcpy\<close> copies it from or to.  \<open>std::string\<close> values are byte lists;
  \<open>resize\<close> is taken to succeed.
\<close>

section \<open>Zigzag\<close>

definition EncodeZigzag32 :: "i32 \<Rightarrow> u32" where
  "EncodeZigzag32 v = (if sint v < 0 then (- v) * 2 - 1 else v * 2)"

text \<open>\<open>EncodeZigzag64\<close> is declared to return \<open>uint32_t\<close>.\<close>

definition EncodeZigzag64 :: "i64 \<Rightarrow> u32" where
  "EncodeZigzag64 v = (if sint v < 0 then ucast ((- v) * 2 - 1) else ucast (v * 2))"

definition DecodeZigzag32 :: "u32 \<Rightarrow> i32" where
  "DecodeZigzag32 v = drop_bit 1 v XOR - (v AND 1)"

definition DecodeZigzag64 :: "u64 \<Rightarrow> i64" where
  "DecodeZigzag64 v = drop_bit 1 v XOR - (v AND 1)"

section \<open>Fixed width integers\<close>

definition ByteArray_writeFint8 :: "ByteArray \<Rightarrow> i8 \<Rightarrow> ByteArray ba_result" where
  "ByteArray_writeFint8 s v = ByteArray_write s (word_bytes v)"

definition ByteArray_writeFuint8 :: "ByteArray \<Rightarrow> u8 \<Rightarrow> ByteArray ba_result" where
  "ByteArray_writeFuint8 s v = ByteArray_write s (word_bytes v)"

definition ByteArray_writeFint16 :: "ByteArray \<Rightarrow> i16 \<Rightarrow> ByteArray ba_result" where
  "ByteArray_writeFint16 s v =
     ByteArray_write s (word_bytes (if ba_endian s \<noteq> MEGALO_BYTE_ORDER then byteswap v else v))"

definition ByteArray_writeFuint16 :: "ByteArray \<Rightarrow> u16 \<Rightarrow> ByteArray ba_result" where
  "ByteArray_writeFuint16 s v =
     ByteArray_write s (word_bytes (if ba_endian s \<noteq> MEGALO_BYTE_ORDER then byteswap v else v))"

definition ByteArray_writeFint32 :: "ByteArray \<Rightarrow> i32 \<Rightarrow> ByteArray ba_result" where
  "ByteArray_writeFint32 s v =
     ByteArray_write s (word_bytes (if ba_endian s \<noteq> MEGALO_BYTE_ORDER then byteswap v else v))"

definition ByteArray_writeFuint32 :: "ByteArray \<Rightarrow> u32 \<Rightarrow> ByteArray ba_result" where
  "ByteArray_writeFuint32 s v =
     ByteArray_write s (word_bytes (if ba_endian s \<noteq> MEGALO_BYTE_ORDER then byteswap v else v))"

definition ByteArray_writeFint64 :: "ByteArray \<Rightarrow> i64 \<Rightarrow> ByteArray ba_result" where
  "ByteArray_writeFint64 s v =
     ByteArray_write s (word_bytes (if ba_endian s \<noteq> MEGALO_BYTE_ORDER then byteswap v else v))"

definition ByteArray_writeFuint64 :: "ByteArray \<Rightarrow> u64 \<Rightarrow> ByteArray ba_result" where
  "ByteArray_writeFuint64 s v =
     ByteArray_write s (word_bytes (if ba_endian s \<noteq> MEGALO_BYTE_ORDER then byteswap v else v))"

text \<open>The macro \<open>XX(type)\<close>: read an object representation and bring it into host order.\<close>

definition read_fixed :: "ByteArray \<Rightarrow> ('a::len word \<times> ByteArray) ba_result" where
  "read_fixed s = result_bind (ByteArray_read s (LENGTH('a) div 8)) (\<lambda>(bs, s').
     let v = bytes_word bs in
     if ba_endian s' = MEGALO_BYTE_ORDER then Inr (v, s') else Inr (byteswap v, s'))"

definition ByteArray_readFint8 :: "ByteArray \<Rightarrow> (i8 \<times> ByteArray) ba_result" where
  "ByteArray_readFint8 s = result_bind (ByteArray_read s 1) (\<lambda>(bs, s'). Inr (bytes_word bs, s'))"

definition ByteArray_readFuint8 :: "ByteArray \<Rightarrow> (u8 \<times> ByteArray) ba_result" where
  "ByteArray_readFuint8 s = result_bind (ByteArray_read s 1) (\<lambda>(bs, s'). Inr (bytes_word bs, s'))"

definition ByteArray_readFint16 :: "ByteArray \<Rightarrow> (i16 \<times> ByteArray) ba_result" where
  "ByteArray_readFint16 = read_fixed"

definition ByteArray_readFuint16 :: "ByteArray \<Rightarrow> (u16 \<times> ByteArray) ba_result" where
  "ByteArray_readFuint16 = read_fixed"

definition ByteArray_readFint32 :: "ByteArray \<Rightarrow> (i32 \<times> ByteArray) ba_result" where
  "ByteArray_readFint32 = read_fixed"

definition ByteArray_readFuint32 :: "ByteArray \<Rightarrow> (u32 \<times> ByteArray) ba_result" where
  "ByteArray_readFuint32 = read_fixed"

definition ByteArray_readFint64 :: "ByteArray \<Rightarrow> (i64 \<times> ByteArray) ba_result" where
  "ByteArray_readFint64 = read_fixed"

definition ByteArray_readFuint64 :: "ByteArray \<Rightarrow> (u64 \<times> ByteArray) ba_result" where
  "ByteArray_readFuint64 = read_fixed"

section \<open>Variable length integers\<close>

text \<open>
  The bytes \<open>writeUint32\<close> and \<open>writeUint64\<close> collect in \<open>tmp\<close>; their loops differ in
  the width of \<open>value\<close> only.
\<close>

function varint_bytes :: "'a::len word \<Rightarrow> u8 list" where
  "varint_bytes v =
     (if unat v \<ge> 0x80 then (ucast (v AND 0x7f) OR 0x80) # varint_bytes (drop_bit 7 v)
      else [ucast v])"
  by pat_completeness auto
termination
  by (relation "measure unat") (simp_all add: unat_drop_bit_eq del: drop_bit_eq_div, simp add: drop_bit_eq_div)

declare varint_bytes.simps [simp del]

definition ByteArray_writeUint32 :: "ByteArray \<Rightarrow> u32 \<Rightarrow> ByteArray ba_result" where
  "ByteArray_writeUint32 s v = ByteArray_write s (varint_bytes v)"

definition ByteArray_writeInt32 :: "ByteArray \<Rightarrow> i32 \<Rightarrow> ByteArray ba_result" where
  "ByteArray_writeInt32 s v = ByteArray_writeUint32 s (EncodeZigzag32 v)"

definition ByteArray_writeUint64 :: "ByteArray \<Rightarrow> u64 \<Rightarrow> ByteArray ba_result" where
  "ByteArray_writeUint64 s v = ByteArray_write s (varint_bytes v)"

definition ByteArray_writeInt64 :: "ByteArray \<Rightarrow> i64 \<Rightarrow> ByteArray ba_result" where
  "ByteArray_writeInt64 s v = ByteArray_writeUint64 s (ucast (EncodeZigzag64 v))"

text \<open>The loop of \<open>readUint32\<close> and \<open>readUint64\<close>, again for either width.\<close>

function varint_read :: "nat \<Rightarrow> 'a::len word \<Rightarrow> ByteArray \<Rightarrow> ('a word \<times> ByteArray) ba_result" where
  "varint_read i r s =
     (if i < LENGTH('a)
      then result_bind (ByteArray_readFuint8 s) (\<lambda>(b, s').
        if b < 0x80 then Inr (r OR push_bit i (ucast b), s')
        else varint_read (i + 7) (r OR push_bit i (ucast (b AND 0x7f))) s')
      else Inr (r, s))"
  by pat_completeness auto
termination
  by (relation "measure (\<lambda>(i, _ :: 'a word, _). LENGTH('a) - i)") auto

declare varint_read.simps [simp del]

definition ByteArray_readUint32 :: "ByteArray \<Rightarrow> (u32 \<times> ByteArray) ba_result" where
  "ByteArray_readUint32 s = varint_read 0 0 s"

definition ByteArray_readInt32 :: "ByteArray \<Rightarrow> (i32 \<times> ByteArray) ba_result" where
  "ByteArray_readInt32 s = result_bind (ByteArray_readUint32 s) (\<lambda>(v, s'). Inr (DecodeZigzag32 v, s'))"

definition ByteArray_readUint64 :: "ByteArray \<Rightarrow> (u64 \<times> ByteArray) ba_result" where
  "ByteArray_readUint64 s = varint_read 0 0 s"

definition ByteArray_readInt64 :: "ByteArray \<Rightarrow> (i64 \<times> ByteArray) ba_result" where
  "ByteArray_readInt64 s = result_bind (ByteArray_readUint64 s) (\<lambda>(v, s'). Inr (DecodeZigzag64 v, s'))"

section \<open>Floating point values and strings\<close>

definition ByteArray_writeFloat :: "ByteArray \<Rightarrow> u32 \<Rightarrow> ByteArray ba_result" where
  "ByteArray_writeFloat s v = ByteArray_writeFuint32 s v"

definition ByteArray_writeDouble :: "ByteArray \<Rightarrow> u64 \<Rightarrow> ByteArray ba_result" where
  "ByteArray_writeDouble s v = ByteArray_writeFuint64 s v"

definition ByteArray_readFloat :: "ByteArray \<Rightarrow> (u32 \<times> ByteArray) ba_result" where
  "ByteArray_readFloat s = ByteArray_readFuint32 s"

definition ByteArray_readDouble :: "ByteArray \<Rightarrow> (u64 \<times> ByteArray) ba_result" where
  "ByteArray_readDouble s = ByteArray_readFuint64 s"

definition ByteArray_writeStringF16 :: "ByteArray \<Rightarrow> u8 list \<Rightarrow> ByteArray ba_result" where
  "ByteArray_writeStringF16 s str =
     result_bind (ByteArray_writeFuint16 s (of_nat (length str))) (\<lambda>s'. ByteArray_write s' str)"

definition ByteArray_writeStringF32 :: "ByteArray \<Rightarrow> u8 list \<Rightarrow> ByteArray ba_result" where
  "ByteArray_writeStringF32 s str =
     result_bind (ByteArray_writeFuint32 s (of_nat (length str))) (\<lambda>s'. ByteArray_write s' str)"

definition ByteArray_writeStringF64 :: "ByteArray \<Rightarrow> u8 list \<Rightarrow> ByteArray ba_result" where
  "ByteArray_writeStringF64 s str =
     result_bind (ByteArray_writeFuint64 s (of_nat (length str))) (\<lambda>s'. ByteArray_write s' str)"

definition ByteArray_writeStringVint :: "ByteArray \<Rightarrow> u8 list \<Rightarrow> ByteArray ba_result" where
  "ByteArray_writeStringVint s str =
     result_bind (ByteArray_writeUint64 s (of_nat (length str))) (\<lambda>s'. ByteArray_write s' str)"

definition ByteArray_writeStringWithoutLength :: "ByteArray \<Rightarrow> u8 list \<Rightarrow> ByteArray ba_result" where
  "ByteArray_writeStringWithoutLength s str = ByteArray_write s str"

definition ByteArray_readStringF16 :: "ByteArray \<Rightarrow> (u8 list \<times> ByteArray) ba_result" where
  "ByteArray_readStringF16 s = result_bind (ByteArray_readFuint16 s) (\<lambda>(len, s'). ByteArray_read s' (unat len))"

definition ByteArray_readStringF32 :: "ByteArray \<Rightarrow> (u8 list \<times> ByteArray) ba_result" where
  "ByteArray_readStringF32 s = result_bind (ByteArray_readFuint32 s) (\<lambda>(len, s'). ByteArray_read s' (unat len))"

definition ByteArray_readStringF64 :: "ByteArray \<Rightarrow> (u8 list \<times> ByteArray) ba_result" where
  "ByteArray_readStringF64 s = result_bind (ByteArray_readFuint64 s) (\<lambda>(len, s'). ByteArray_read s' (unat len))"

definition ByteArray_readStringVint :: "ByteArray \<Rightarrow> (u8 list \<times> ByteArray) ba_result" where
  "ByteArray_readStringVint s = result_bind (ByteArray_readUint64 s) (\<lambda>(len, s'). ByteArray_read s' (unat len))"

section \<open>Values and messages\<close>

text \<open>
  A message is a sequence of values, each written and read with the operation of its type.
  \<open>valid_value\<close> is the range in which the operation's encoding is lossless.
\<close>

datatype ba_value =
    VFint8 i8 | VFuint8 u8 | VFint16 i16 | VFuint16 u16 | VFint32 i32 | VFuint32 u32
  | VFint64 i64 | VFuint64 u64 | VInt32 i32 | VUint32 u32 | VInt64 i64 | VUint64 u64
  | VFloat u32 | VDouble u64
  | VStringF16 "u8 list" | VStringF32 "u8 list" | VStringF64 "u8 list" | VStringVint "u8 list"

datatype ba_kind =
    KFint8 | KFuint8 | KFint16 | KFuint16 | KFint32 | KFuint32 | KFint64 | KFuint64
  | KInt32 | KUint32 | KInt64 | KUint64 | KFloat | KDouble
  | KStringF16 | KStringF32 | KStringF64 | KStringVint

primrec kind_of :: "ba_value \<Rightarrow> ba_kind" where
  "kind_of (VFint8 v) = KFint8"
| "kind_of (VFuint8 v) = KFuint8"
| "kind_of (VFint16 v) = KFint16"
| "kind_of (VFuint16 v) = KFuint16"
| "kind_of (VFint32 v) = KFint32"
| "kind_of (VFuint32 v) = KFuint32"
| "kind_of (VFint64 v) = KFint64"
| "kind_of (VFuint64 v) = KFuint64"
| "kind_of (VInt32 v) = KInt32"
| "kind_of (VUint32 v) = KUint32"
| "kind_of (VInt64 v) = KInt64"
| "kind_of (VUint64 v) = KUint64"
| "kind_of (VFloat v) = KFloat"
| "kind_of (VDouble v) = KDouble"
| "kind_of (VStringF16 v) = KStringF16"
| "kind_of (VStringF32 v) = KStringF32"
| "kind_of (VStringF64 v) = KStringF64"
| "kind_of (VStringVint v) = KStringVint"

primrec write_value :: "ByteArray \<Rightarrow> ba_value \<Rightarrow> ByteArray ba_result" where
  "write_value s (VFint8 v) = ByteArray_writeFint8 s v"
| "write_value s (VFuint8 v) = ByteArray_writeFuint8 s v"
| "write_value s (VFint16 v) = ByteArray_writeFint16 s v"
| "write_value s (VFuint16 v) = ByteArray_writeFuint16 s v"
| "write_value s (VFint32 v) = ByteArray_writeFint32 s v"
| "write_value s (VFuint32 v) = ByteArray_writeFuint32 s v"
| "write_value s (VFint64 v) = ByteArray_writeFint64 s v"
| "write_value s (VFuint64 v) = ByteArray_writeFuint64 s v"
| "write_value s (VInt32 v) = ByteArray_writeInt32 s v"
| "write_value s (VUint32 v) = ByteArray_writeUint32 s v"
| "write_value s (VInt64 v) = ByteArray_writeInt64 s v"
| "write_value s (VUint64 v) = ByteArray_writeUint64 s v"
| "write_value s (VFloat v) = ByteArray_writeFloat s v"
| "write_value s (VDouble v) = ByteArray_writeDouble s v"
| "write_value s (VStringF16 v) = ByteArray_writeStringF16 s v"
| "write_value s (VStringF32 v) = ByteArray_writeStringF32 s v"
| "write_value s (VStringF64 v) = ByteArray_writeStringF64 s v"
| "write_value s (VStringVint v) = ByteArray_writeStringVint s v"

definition tagged :: "('v \<Rightarrow> ba_value) \<Rightarrow> ('v \<times> ByteArray) ba_result \<Rightarrow> (ba_value \<times> ByteArray) ba_result" where
  "tagged c r = result_bind r (\<lambda>(v, s'). Inr (c v, s'))"

primrec read_value :: "ba_kind \<Rightarrow> ByteArray \<Rightarrow> (ba_value \<times> ByteArray) ba_result" where
  "read_value KFint8 s = tagged VFint8 (ByteArray_readFint8 s)"
| "read_value KFuint8 s = tagged VFuint8 (ByteArray_readFuint8 s)"
| "read_value KFint16 s = tagged VFint16 (ByteArray_readFint16 s)"
| "read_value KFuint16 s = tagged VFuint16 (ByteArray_readFuint16 s)"
| "read_value KFint32 s = tagged VFint32 (ByteArray_readFint32 s)"
| "read_value KFuint32 s = tagged VFuint32 (ByteArray_readFuint32 s)"
| "read_value KFint64 s = tagged VFint64 (ByteArray_readFint64 s)"
| "read_value KFuint64 s = tagged VFuint64 (ByteArray_readFuint64 s)"
| "read_value KInt32 s = tagged VInt32 (ByteArray_readInt32 s)"
| "read_value KUint32 s = tagged VUint32 (ByteArray_readUint32 s)"
| "read_value KInt64 s = tagged VInt64 (ByteArray_readInt64 s)"
| "read_value KUint64 s = tagged VUint64 (ByteArray_readUint64 s)"
| "read_value KFloat s = tagged VFloat (ByteArray_readFloat s)"
| "read_value KDouble s = tagged VDouble (ByteArray_readDouble s)"
| "read_value KStringF16 s = tagged VStringF16 (ByteArray_readStringF16 s)"
| "read_value KStringF32 s = tagged VStringF32 (ByteArray_readStringF32 s)"
| "read_value KStringF64 s = tagged VStringF64 (ByteArray_readStringF64 s)"
| "read_value KStringVint s = tagged VStringVint (ByteArray_readStringVint s)"

primrec write_values :: "ByteArray \<Rightarrow> ba_value list \<Rightarrow> ByteArray ba_result" where
  "write_values s [] = Inr s"
| "write_values s (v # vs) = result_bind (write_value s v) (\<lambda>s'. write_values s' vs)"

primrec read_values :: "ba_kind list \<Rightarrow> ByteArray \<Rightarrow> (ba_value list \<times> ByteArray) ba_result" where
  "read_values [] s = Inr ([], s)"
| "read_values (k # ks) s = result_bind (read_value k s) (\<lambda>(v, s').
     result_bind (read_values ks s') (\<lambda>(vs, s''). Inr (v # vs, s'')))"

definition short_string :: "nat \<Rightarrow> u8 list \<Rightarrow> bool" where
  "short_string w str \<longleftrightarrow> str \<noteq> [] \<and> length str < 2 ^ w"

primrec valid_value :: "ba_value \<Rightarrow> bool" where
  "valid_value (VFint8 v) = True"
| "valid_value (VFuint8 v) = True"
| "valid_value (VFint16 v) = True"
| "valid_value (VFuint16 v) = True"
| "valid_value (VFint32 v) = True"
| "valid_value (VFuint32 v) = True"
| "valid_value (VFint64 v) = True"
| "valid_value (VFuint64 v) = True"
| "valid_value (VInt32 v) = True"
| "valid_value (VUint32 v) = True"
| "valid_value (VInt64 v) = (- (2 ^ 31) \<le> sint v \<and> sint v < 2 ^ 31)"
| "valid_value (VUint64 v) = True"
| "valid_value (VFloat v) = True"
| "valid_value (VDouble v) = True"
| "valid_value (VStringF16 v) = short_string 16 v"
| "valid_value (VStringF32 v) = short_string 32 v"
| "valid_value (VStringF64 v) = short_string 64 v"
| "valid_value (VStringVint v) = short_string 64 v"

text \<open>The bytes of a fixed width integer in byte order \<open>bo\<close>, and of a value.\<close>

definition fixed_bytes :: "byte_order \<Rightarrow> 'a::len word \<Rightarrow> u8 list" where
  "fixed_bytes bo v = word_bytes (if bo \<noteq> MEGALO_BYTE_ORDER then byteswap v else v)"

primrec encode_value :: "byte_order \<Rightarrow> ba_value \<Rightarrow> u8 list" where
  "encode_value bo (VFint8 v) = word_bytes v"
| "encode_value bo (VFuint8 v) = word_bytes v"
| "encode_value bo (VFint16 v) = fixed_bytes bo v"
| "encode_value bo (VFuint16 v) = fixed_bytes bo v"
| "encode_value bo (VFint32 v) = fixed_bytes bo v"
| "encode_value bo (VFuint32 v) = fixed_bytes bo v"
| "encode_value bo (VFint64 v) = fixed_bytes bo v"
| "encode_value bo (VFuint64 v) = fixed_bytes bo v"
| "encode_value bo (VInt32 v) = varint_bytes (EncodeZigzag32 v)"
| "encode_value bo (VUint32 v) = varint_bytes v"
| "encode_value bo (VInt64 v) = varint_bytes (ucast (EncodeZigzag64 v) :: u64)"
| "encode_value bo (VUint64 v) = varint_bytes v"
| "encode_value bo (VFloat v) = fixed_bytes bo v"
| "encode_value bo (VDouble v) = fixed_bytes bo v"
| "encode_value bo (VStringF16 v) = fixed_bytes bo (of_nat (length v) :: u16) @ v"
| "encode_value bo (VStringF32 v) = fixed_bytes bo (of_nat (length v) :: u32) @ v"
| "encode_value bo (VStringF64 v) = fixed_bytes bo (of_nat (length v) :: u64) @ v"
| "encode_value bo (VStringVint v) = varint_bytes (of_nat (length v) :: u64) @ v"

section \<open>Zigzag round trips\<close>

lemma neg_iff_bit: "sint (v :: 'a::len word) < 0 \<longleftrightarrow> bit v (LENGTH('a) - 1)"
  by (simp add: bit_last_iff)

lemma bit_zigzag:
  fixes v :: "'a::len word"
  shows "bit (if sint v < 0 then (- v) * 2 - 1 else v * 2) n \<longleftrightarrow>
    n < LENGTH('a) \<and> (if n = 0 then sint v < 0 else bit v (n - 1) \<noteq> (sint v < 0))"
proof (cases "sint v < 0")
  case True
  have "push_bit 1 (NOT v) AND 1 = 0"
    by (rule bit_word_eqI) (simp add: bit_and_iff bit_push_bit_iff bit_1_iff del: One_nat_def)
  then have "push_bit 1 (NOT v) OR 1 = push_bit 1 (NOT v) + 1"
    by (rule disjunctive_add_eq_or [symmetric])
  also have "\<dots> = (- v) * 2 - 1" by (simp add: push_bit_eq_mult not_eq_complement algebra_simps)
  finally have "(- v) * 2 - 1 = push_bit 1 (NOT v) OR 1" by simp
  then show ?thesis using True
    by (auto simp: bit_or_iff bit_push_bit_iff bit_1_iff bit_not_iff simp del: One_nat_def)
next
  case False
  have "v * 2 = push_bit 1 v" by (simp add: push_bit_eq_mult)
  then show ?thesis using False by (auto simp: bit_push_bit_iff simp del: One_nat_def)
qed

lemma bit_unzigzag:
  "bit (drop_bit 1 v XOR - (v AND 1) :: 'a::len word) n \<longleftrightarrow>
     n < LENGTH('a) \<and> (bit v (Suc n) \<noteq> bit v 0)"
proof -
  have "- (v AND 1) = (if bit v 0 then - 1 else 0)"
    by (simp add: and_one_eq bit_0 odd_iff_mod_2_eq_one)
  then show ?thesis
    by (auto simp: bit_xor_iff bit_drop_bit_eq dest: bit_imp_le_length)
qed

lemma bit_EncodeZigzag32:
  "bit (EncodeZigzag32 v) n \<longleftrightarrow> n < 32 \<and> (if n = 0 then bit v 31 else bit v (n - 1) \<noteq> bit v 31)"
  using bit_zigzag [of v n] neg_iff_bit [of v] by (simp add: EncodeZigzag32_def)

lemma bit_EncodeZigzag64:
  "bit (EncodeZigzag64 v) n \<longleftrightarrow> n < 32 \<and> (if n = 0 then bit v 63 else bit v (n - 1) \<noteq> bit v 63)"
proof -
  have "EncodeZigzag64 v = ucast (if sint v < 0 then (- v) * 2 - 1 else v * 2)"
    by (simp add: EncodeZigzag64_def)
  then have "bit (EncodeZigzag64 v) n \<longleftrightarrow> n < 32 \<and> bit (if sint v < 0 then (- v) * 2 - 1 else v * 2) n"
    by (simp only: bit_ucast_iff) simp
  then show ?thesis using neg_iff_bit [of v] unfolding bit_zigzag by auto
qed

lemma bit_DecodeZigzag32: "bit (DecodeZigzag32 v) n \<longleftrightarrow> n < 32 \<and> bit v (Suc n) \<noteq> bit v 0"
  unfolding DecodeZigzag32_def bit_unzigzag by simp

lemma bit_DecodeZigzag64: "bit (DecodeZigzag64 v) n \<longleftrightarrow> n < 64 \<and> bit v (Suc n) \<noteq> bit v 0"
  unfolding DecodeZigzag64_def bit_unzigzag by simp

lemma DecodeZigzag32_EncodeZigzag32: "DecodeZigzag32 (EncodeZigzag32 v) = v"
proof (rule bit_word_eqI)
  fix n assume n: "n < LENGTH(32)"
  then show "bit (DecodeZigzag32 (EncodeZigzag32 v)) n = bit v n"
    by (cases "n = 31") (auto simp: bit_EncodeZigzag32 bit_DecodeZigzag32)
qed

text \<open>
  Through the 32 bit result of \<open>EncodeZigzag64\<close> only the low 31 bits and the sign survive.
\<close>

lemma bit_Zigzag64:
  "bit (DecodeZigzag64 (ucast (EncodeZigzag64 v))) n \<longleftrightarrow> n < 64 \<and> bit v (if n < 31 then n else 63)"
  by (auto simp: bit_DecodeZigzag64 bit_EncodeZigzag64 bit_ucast_iff)

lemma sint_range_bits:
  "- (2 ^ 31) \<le> sint (v :: i64) \<and> sint v < 2 ^ 31 \<longleftrightarrow> (\<forall>n. 31 \<le> n \<and> n < 64 \<longrightarrow> bit v n = bit v 63)"
proof -
  have b: "bit (sint v) n \<longleftrightarrow> bit v (if n < 64 then n else 63)" for n
    using bit_imp_le_length [of v n] by (auto simp: bit_sint_iff)
  have "- (2 ^ 31) \<le> sint v \<and> sint v < 2 ^ 31 \<longleftrightarrow> signed_take_bit 31 (sint v) = sint v"
    by (rule signed_take_bit_int_eq_self_iff [symmetric])
  also have "\<dots> \<longleftrightarrow> (\<forall>n. bit (sint v) (min 31 n) = bit (sint v) n)"
    by (simp add: bit_eq_iff bit_signed_take_bit_iff min.commute)
  also have "\<dots> \<longleftrightarrow> (\<forall>n. 31 \<le> n \<and> n < 64 \<longrightarrow> bit v n = bit v 63)"
  proof (rule iffI; intro allI impI)
    fix n :: nat assume all: "\<forall>n. bit (sint v) (min 31 n) = bit (sint v) n" and n: "31 \<le> n \<and> n < 64"
    show "bit v n = bit v 63" using all [rule_format, of n] all [rule_format, of 63] n by (simp add: b)
  next
    fix n assume all: "\<forall>n. 31 \<le> n \<and> n < 64 \<longrightarrow> bit v n = bit v 63"
    show "bit (sint v) (min 31 n) = bit (sint v) n"
      using all [rule_format, of n] all [rule_format, of 31]
      by (cases "n < 31"; cases "n < 64") (simp_all add: b min_def)
  qed
  finally show ?thesis .
qed

lemma DecodeZigzag64_EncodeZigzag64_iff:
  "DecodeZigzag64 (ucast (EncodeZigzag64 v)) = v \<longleftrightarrow> - (2 ^ 31) \<le> sint v \<and> sint v < 2 ^ 31"
proof -
  let ?d = "DecodeZigzag64 (ucast (EncodeZigzag64 v))"
  have "?d = v \<longleftrightarrow> (\<forall>n. 31 \<le> n \<and> n < 64 \<longrightarrow> bit v n = bit v 63)"
  proof
    assume "?d = v"
    then show "\<forall>n. 31 \<le> n \<and> n < 64 \<longrightarrow> bit v n = bit v 63"
      using bit_Zigzag64 [of v] by (metis not_less)
  next
    assume all: "\<forall>n. 31 \<le> n \<and> n < 64 \<longrightarrow> bit v n = bit v 63"
    show "?d = v"
    proof (rule bit_word_eqI)
      fix n assume "n < LENGTH(64)"
      then show "bit ?d n = bit v n"
        using all [rule_format, of n] bit_Zigzag64 [of v n] by (cases "n < 31") simp_all
    qed
  qed
  then show ?thesis using sint_range_bits by blast
qed

section \<open>Variable length integers\<close>

lemma varint_digit:
  fixes w :: "'a::len word"
  assumes "128 \<le> unat w"
  shows "ucast (((ucast (w AND 0x7f) :: u8) OR 0x80) AND 0x7f) OR push_bit 7 (drop_bit 7 w) = w"
    and "\<not> ((ucast (w AND 0x7f) :: u8) OR 0x80) < 0x80"
    and "7 < LENGTH('a)"
proof -
  show len: "7 < LENGTH('a)"
  proof (rule ccontr)
    assume "\<not> 7 < LENGTH('a)"
    then have "(2::nat) ^ LENGTH('a) \<le> 2 ^ 7" by (intro power_increasing) auto
    moreover have "unat w < 2 ^ LENGTH('a)" by (rule unsigned_less)
    ultimately show False using assms by simp
  qed
  have m: "bit (0x7f :: int) n \<longleftrightarrow> n < 7" for n
    using bit_mask_iff [where 'a = int, of 7 n] by (simp add: mask_eq_exp_minus_1)
  have h: "bit (0x80 :: int) n \<longleftrightarrow> n = 7" for n
    using bit_exp_iff [where 'a = int, of 7 n] by auto
  show "ucast (((ucast (w AND 0x7f) :: u8) OR 0x80) AND 0x7f) OR push_bit 7 (drop_bit 7 w) = w"
  proof (rule bit_word_eqI)
    fix n assume "n < LENGTH('a)"
    then show "bit (ucast (((ucast (w AND 0x7f) :: u8) OR 0x80) AND 0x7f) OR push_bit 7 (drop_bit 7 w)) n = bit w n"
      by (cases "n < 7") (auto simp: bit_or_iff bit_and_iff bit_ucast_iff m h bit_push_bit_iff bit_drop_bit_eq)
  qed
  have "(0x80 :: u8) = ((ucast (w AND 0x7f) :: u8) OR 0x80) AND 0x80"
    by (rule bit_word_eqI) (auto simp: bit_or_iff bit_and_iff h)
  also have "\<dots> \<le> (ucast (w AND 0x7f) :: u8) OR 0x80" by (rule word_and_le2)
  finally show "\<not> ((ucast (w AND 0x7f) :: u8) OR 0x80) < 0x80" by simp
qed

lemma varint_last:
  fixes w :: "'a::len word"
  assumes "unat w < 128"
  shows "ucast (ucast w :: u8) = w" and "(ucast w :: u8) < 0x80"
proof -
  have u: "unat (ucast w :: u8) = unat w" using assms by (simp add: unsigned_ucast_eq take_bit_eq_mod)
  then show "(ucast w :: u8) < 0x80" using assms by (simp add: word_less_nat_alt)
  have "unat (ucast (ucast w :: u8) :: 'a word) = take_bit LENGTH('a) (unat (ucast w :: u8))"
    by (rule unsigned_ucast_eq)
  also have "\<dots> = unat w" unfolding u by (rule take_bit_nat_eq_self) (rule unsigned_less)
  finally show "ucast (ucast w :: u8) = w" by (rule unsigned_word_eqI)
qed

lemma length_varint_bytes:
  "0 < k \<Longrightarrow> unat w < 2 ^ (7 * k) \<Longrightarrow> length (varint_bytes w) \<le> k"
proof (induction w arbitrary: k rule: varint_bytes.induct)
  case (1 w)
  show ?case
  proof (cases "128 \<le> unat w")
    case True
    then have "1 < k" using "1.prems" by (cases "k = 1") auto
    then have k: "(2::nat) ^ (7 * k) = 2 ^ (7 * (k - 1)) * 128"
      by (cases k) (simp_all add: power_add)
    have "unat (drop_bit 7 w) = unat w div 128"
      using unat_drop_bit_eq [of 7 w] drop_bit_eq_div [of 7 "unat w"] by simp
    then have "unat (drop_bit 7 w) < 2 ^ (7 * (k - 1))"
      using "1.prems" unfolding k by (simp only: less_mult_imp_div_less)
    then have "length (varint_bytes (drop_bit 7 w)) \<le> k - 1" using "1.IH" True \<open>1 < k\<close> by simp
    then show ?thesis using True \<open>1 < k\<close> by (subst varint_bytes.simps) simp
  next
    case False
    then show ?thesis using "1.prems" by (subst varint_bytes.simps) simp
  qed
qed

text \<open>
  The reader's loop, entered at shift \<open>i\<close> with the bits below \<open>i\<close> already in \<open>r\<close>,
  consumes the bytes of the remaining bits and adds them.
\<close>

lemma readFuint8_parses: "ba.parses bo ByteArray_readFuint8 [b] b"
proof -
  have "ba.parses bo (\<lambda>s. result_bind (ByteArray_read s (length [b])) (\<lambda>(bs, s'). Inr (bytes_word bs, s')))
      [b] (bytes_word [b] :: u8)"
    by (rule ba.parses_map [OF ba.parses_rd]) simp
  moreover have "(bytes_word [b] :: u8) = b" by simp
  ultimately show ?thesis
    by (simp only: ByteArray_readFuint8_def [abs_def] list.size One_nat_def add_0)
qed

lemma varint_read_parses:
  fixes v :: "'a::len word"
  shows "i < LENGTH('a) \<Longrightarrow> w = drop_bit i v \<Longrightarrow>
    ba.parses bo (varint_read i r) (varint_bytes w) (r OR push_bit i w)"
proof (induction w arbitrary: i r rule: varint_bytes.induct)
  case (1 w)
  let ?next = "\<lambda>(b :: u8) s'. if b < 0x80 then Inr (r OR push_bit i (ucast b), s')
        else varint_read (i + 7) (r OR push_bit i (ucast (b AND 0x7f))) s'"
  have eq: "varint_read i r = (\<lambda>s. result_bind (ByteArray_readFuint8 s) (\<lambda>(b, s'). ?next b s'))"
    using "1.prems" by (intro ext) (subst varint_read.simps, simp)
  show ?case
  proof (cases "128 \<le> unat w")
    case True
    let ?b = "(ucast (w AND 0x7f) :: u8) OR 0x80" and ?r = "r OR push_bit i (ucast ((ucast (w AND 0x7f) OR 0x80 :: u8) AND 0x7f))"
    note d = varint_digit [OF True]
    have "i + 7 < LENGTH('a)"
    proof (rule ccontr)
      assume "\<not> i + 7 < LENGTH('a)"
      then have "drop_bit 7 w = 0"
        using "1.prems" by (intro bit_word_eqI) (auto simp: bit_drop_bit_eq dest: bit_imp_le_length)
      then show False using True unat_drop_bit_eq [of 7 w] drop_bit_eq_div [of 7 "unat w"]
        by (simp add: div_eq_0_iff)
    qed
    then have "ba.parses bo (varint_read (i + 7) ?r) (varint_bytes (drop_bit 7 w)) (?r OR push_bit (i + 7) (drop_bit 7 w))"
      using "1.prems" True by (intro "1.IH") (simp_all add: add.commute)
    moreover have "?r OR push_bit (i + 7) (drop_bit 7 w) = r OR push_bit i w"
    proof -
      have "push_bit i w = push_bit i (ucast (?b AND 0x7f) OR push_bit 7 (drop_bit 7 w))" unfolding d(1) ..
      also have "\<dots> = push_bit i (ucast (?b AND 0x7f)) OR push_bit (i + 7) (drop_bit 7 w)"
        by (simp only: push_bit_or push_bit_push_bit)
      finally show ?thesis by (simp only: or.assoc)
    qed
    moreover have "?next ?b = varint_read (i + 7) ?r" using d(2) by (intro ext) (simp only: if_False)
    ultimately have "ba.parses bo (?next ?b) (varint_bytes (drop_bit 7 w)) (r OR push_bit i w)" by argo
    from ba.parses_seq [where q = ?next, OF readFuint8_parses this]
    show ?thesis using True unfolding eq by (subst varint_bytes.simps) simp
  next
    case False
    note d = varint_last [of w]
    have "ba.parses bo (?next (ucast w)) [] (r OR push_bit i w)"
      using False d by (auto simp: ba.parses_def ba.ahead_def)
    from ba.parses_seq [where q = ?next, OF readFuint8_parses this]
    show ?thesis using False unfolding eq by (subst varint_bytes.simps) simp
  qed
qed

lemma varint_parses: "ba.parses bo (varint_read 0 (0 :: 'a::len word)) (varint_bytes v) v"
  using varint_read_parses [of 0 v v bo 0] by simp

lemma varint_bytes_not_Nil [simp]: "varint_bytes v \<noteq> []"
  by (subst varint_bytes.simps) simp

section \<open>Readers\<close>

lemma read_fixed_parses:
  assumes "8 dvd LENGTH('a)"
  shows "ba.parses bo read_fixed (fixed_bytes bo v) (v :: 'a::len word)"
proof -
  let ?k = "\<lambda>bs s. let x = bytes_word bs :: 'a word in
    if ba_endian s = MEGALO_BYTE_ORDER then Inr (x, s) else Inr (byteswap x, s) :: ('a word \<times> ByteArray) ba_result"
  have len: "length (fixed_bytes bo v) = LENGTH('a) div 8" by (simp add: fixed_bytes_def)
  moreover have "0 < LENGTH('a) div 8"
    using assms dvd_imp_le [of 8 "LENGTH('a)"] by (simp add: div_greater_zero_iff)
  ultimately have ne: "fixed_bytes bo v \<noteq> []" by auto
  have "ba.parses bo (?k (fixed_bytes bo v)) [] v"
    using assms by (auto simp: ba.parses_def ba.ahead_def fixed_bytes_def Let_def word_bytes_inverse byteswap_byteswap)
  from ba.parses_seq [where q = ?k, OF ba.parses_rd [OF ne] this]
  have "ba.parses bo (\<lambda>s. result_bind (ByteArray_read s (LENGTH('a) div 8)) (\<lambda>(bs, s'). ?k bs s'))
      (fixed_bytes bo v) v"
    by (simp add: len)
  moreover have "read_fixed = (\<lambda>s. result_bind (ByteArray_read s (LENGTH('a) div 8)) (\<lambda>(bs, s'). ?k bs s'))"
    by (intro ext) (simp add: read_fixed_def)
  ultimately show ?thesis by simp
qed

lemma byte_parses:
  "ba.parses bo (\<lambda>s. result_bind (ByteArray_read s (Suc 0)) (\<lambda>(bs, s'). Inr (bytes_word bs, s'))) (word_bytes v) (v :: u8)"
  using ba.parses_map [where f = "bytes_word :: u8 list \<Rightarrow> u8", OF ba.parses_rd [of "word_bytes v" bo]]
    word_bytes_inverse [of v]
  by (simp flip: length_greater_0_conv)

lemma readFuint16_parses: "ba.parses bo ByteArray_readFuint16 (fixed_bytes bo v) v"
  unfolding ByteArray_readFuint16_def by (rule read_fixed_parses) simp

lemma readFuint32_parses: "ba.parses bo ByteArray_readFuint32 (fixed_bytes bo v) v"
  unfolding ByteArray_readFuint32_def by (rule read_fixed_parses) simp

lemma readFuint64_parses: "ba.parses bo ByteArray_readFuint64 (fixed_bytes bo v) v"
  unfolding ByteArray_readFuint64_def by (rule read_fixed_parses) simp

lemma readUint64_parses: "ba.parses bo ByteArray_readUint64 (varint_bytes v) v"
  unfolding ByteArray_readUint64_def [abs_def] by (rule varint_parses)

lemma readInt32_parses: "ba.parses bo ByteArray_readInt32 (varint_bytes (EncodeZigzag32 v)) v"
  using ba.parses_map [where f = DecodeZigzag32, OF varint_parses [of bo "EncodeZigzag32 v"]]
  by (simp add: ByteArray_readInt32_def [abs_def] ByteArray_readUint32_def DecodeZigzag32_EncodeZigzag32)

lemma readInt64_parses:
  "ba.parses bo ByteArray_readInt64 (varint_bytes (ucast (EncodeZigzag64 v) :: u64))
     (DecodeZigzag64 (ucast (EncodeZigzag64 v)))"
  using ba.parses_map [where f = DecodeZigzag64, OF varint_parses [of bo "ucast (EncodeZigzag64 v)"]]
  by (simp add: ByteArray_readInt64_def [abs_def] ByteArray_readUint64_def)

text \<open>A length prefix followed by that many bytes.\<close>

lemma string_parses:
  assumes p: "ba.parses bo rd_len pre (of_nat (length str) :: 'a::len word)"
    and str: "short_string LENGTH('a) str"
  shows "ba.parses bo (\<lambda>s. result_bind (rd_len s) (\<lambda>(len, s'). ByteArray_read s' (unat len))) (pre @ str) str"
proof -
  have "unat (of_nat (length str) :: 'a word) = length str"
    using str by (simp add: short_string_def unat_of_nat)
  then have "ba.parses bo (\<lambda>s. ByteArray_read s (unat (of_nat (length str) :: 'a word))) str str"
    using ba.parses_rd [of str bo] str by (simp add: short_string_def)
  from ba.parses_seq [where q = "\<lambda>len s. ByteArray_read s (unat len)", OF p this] show ?thesis .
qed

lemma read_value_parses: "valid_value v \<Longrightarrow> ba.parses bo (read_value (kind_of v)) (encode_value bo v) v"
proof -
  assume v: "valid_value v"
  have T: "ba.parses bo r bs x \<Longrightarrow> ba.parses bo (\<lambda>s. tagged c (r s)) bs (c x)"
    for c :: "'b \<Rightarrow> ba_value" and r bs x
    unfolding tagged_def by (rule ba.parses_map)
  have F: "ba.parses bo read_fixed (fixed_bytes bo x) x" if "8 dvd LENGTH('b)" for x :: "'b::len word"
    using that by (rule read_fixed_parses)
  note defs = ByteArray_readFint8_def ByteArray_readFuint8_def ByteArray_readFint16_def
    ByteArray_readFuint16_def ByteArray_readFint32_def ByteArray_readFuint32_def
    ByteArray_readFint64_def ByteArray_readFuint64_def ByteArray_readUint32_def
    ByteArray_readUint64_def ByteArray_readFloat_def ByteArray_readDouble_def
  show ?thesis
  proof (cases v)
    case (VInt64 x)
    then have "DecodeZigzag64 (ucast (EncodeZigzag64 x)) = x"
      using v DecodeZigzag64_EncodeZigzag64_iff by simp
    then show ?thesis using VInt64 T [OF readInt64_parses [of bo x]] by (simp add: read_value.simps [abs_def])
  next
    case (VInt32 x)
    then show ?thesis using T [OF readInt32_parses [of bo x]] by (simp add: read_value.simps [abs_def])
  next
    case (VStringF16 x)
    then show ?thesis
      using v T [OF string_parses [OF readFuint16_parses [of bo "of_nat (length x)"]]]
      by (simp add: read_value.simps [abs_def] ByteArray_readStringF16_def)
  next
    case (VStringF32 x)
    then show ?thesis
      using v T [OF string_parses [OF readFuint32_parses [of bo "of_nat (length x)"]]]
      by (simp add: read_value.simps [abs_def] ByteArray_readStringF32_def)
  next
    case (VStringF64 x)
    then show ?thesis
      using v T [OF string_parses [OF readFuint64_parses [of bo "of_nat (length x)"]]]
      by (simp add: read_value.simps [abs_def] ByteArray_readStringF64_def)
  next
    case (VStringVint x)
    then show ?thesis
      using v T [OF string_parses [OF readUint64_parses [of bo "of_nat (length x)"]]]
      by (simp add: read_value.simps [abs_def] ByteArray_readStringVint_def)
  qed (simp add: read_value.simps [abs_def] defs T [OF byte_parses] T [OF F] T [OF varint_parses])+
qed

section \<open>Writers\<close>

context byte_stream
begin

text \<open>A writer that stores exactly \<open>bs\<close> at the position, in byte order \<open>bo\<close>.\<close>

definition emits :: "byte_order \<Rightarrow> ('s \<Rightarrow> 's ba_result) \<Rightarrow> u8 list \<Rightarrow> bool" where
  "emits bo w bs \<longleftrightarrow> (\<forall>s. inv s \<longrightarrow> order s = bo \<longrightarrow>
     (\<exists>s'. w s = Inr s' \<and> inv s' \<and> order s' = bo
         \<and> content s' = overwrite (content s) (pos s) bs \<and> pos s' = pos s + length bs))"

lemma emits_wr: "emits bo (\<lambda>s. wr s bs) bs"
  unfolding emits_def using wr_ok by blast

lemma emits_order: "(\<And>s. order s = bo \<Longrightarrow> w s = w' s) \<Longrightarrow> emits bo w' bs \<Longrightarrow> emits bo w bs"
  unfolding emits_def by auto

lemma emits_seq:
  assumes "emits bo w xs" and "emits bo w' ys"
  shows "emits bo (\<lambda>s. result_bind (w s) w') (xs @ ys)"
  unfolding emits_def
proof (intro allI impI)
  fix s assume s: "inv s" "order s = bo"
  then obtain s1 where s1: "w s = Inr s1" "inv s1" "order s1 = bo"
      "content s1 = overwrite (content s) (pos s) xs" "pos s1 = pos s + length xs"
    using assms(1) unfolding emits_def by blast
  then obtain s2 where "w' s1 = Inr s2" "inv s2" "order s2 = bo"
      "content s2 = overwrite (content s1) (pos s1) ys" "pos s2 = pos s1 + length ys"
    using assms(2) unfolding emits_def by blast
  then show "\<exists>s'. result_bind (w s) w' = Inr s' \<and> inv s' \<and> order s' = bo
      \<and> content s' = overwrite (content s) (pos s) (xs @ ys) \<and> pos s' = pos s + length (xs @ ys)"
    using s1 overwrite_overwrite [OF pos_le [OF s(1)], of xs ys] by simp
qed

lemma emits_skip: "emits bo Inr []"
  unfolding emits_def by simp

text \<open>Whatever a writer stores, a matching reader finds again from the old position.\<close>

lemma emits_parses:
  assumes w: "emits (order s) w bs" and r: "parses (order s) r bs v" and inv: "inv s"
  shows "\<exists>s1 s2 s3. w s = Inr s1 \<and> seek s1 (pos s) = Inr s2 \<and> r s2 = Inr (v, s3)
    \<and> pos s3 = pos s1 \<and> content s3 = overwrite (content s) (pos s) bs \<and> inv s3"
proof -
  obtain s1 where s1: "w s = Inr s1" "inv s1" "order s1 = order s"
      "content s1 = overwrite (content s) (pos s) bs" "pos s1 = pos s + length bs"
    using w inv unfolding emits_def by blast
  have "pos s \<le> length (content s1)" using s1 pos_le [OF inv] by (simp add: overwrite_def)
  then obtain s2 where s2: "seek s1 (pos s) = Inr s2" "inv s2" "order s2 = order s"
      "content s2 = content s1" "pos s2 = pos s"
    using seek_ok [OF s1(2)] s1(3) by metis
  have "drop (pos s2) (content s2) = bs @ drop (pos s + length bs) (content s)"
    using s1 s2 pos_le [OF inv] by (simp add: overwrite_def)
  then have "ahead s2 bs" using s2 by (auto simp: ahead_def)
  then show ?thesis using r s1 s2 unfolding parses_def by fastforce
qed

end

lemma write_value_emits: "ba.emits bo (\<lambda>s. write_value s v) (encode_value bo v)"
proof -
  have F: "ba.emits bo (\<lambda>s. ByteArray_write s (word_bytes (if ba_endian s \<noteq> MEGALO_BYTE_ORDER then byteswap x else x)))
      (fixed_bytes bo x)" for x :: "'b::len word"
    by (rule ba.emits_order [OF _ ba.emits_wr]) (simp add: fixed_bytes_def)
  note S = ba.emits_seq [OF _ ba.emits_wr]
  note defs = ByteArray_writeFint8_def ByteArray_writeFuint8_def ByteArray_writeFint16_def
    ByteArray_writeFuint16_def ByteArray_writeFint32_def ByteArray_writeFuint32_def
    ByteArray_writeFint64_def ByteArray_writeFuint64_def ByteArray_writeUint32_def
    ByteArray_writeUint64_def ByteArray_writeInt32_def ByteArray_writeInt64_def
    ByteArray_writeFloat_def ByteArray_writeDouble_def ByteArray_writeStringF16_def
    ByteArray_writeStringF32_def ByteArray_writeStringF64_def ByteArray_writeStringVint_def
  show ?thesis
    by (cases v) (simp_all only: write_value.simps encode_value.simps defs ba.emits_wr F S [OF F] S [OF ba.emits_wr])
qed

lemma write_values_emits: "ba.emits bo (\<lambda>s. write_values s vs) (concat (map (encode_value bo) vs))"
proof (induction vs)
  case (Cons v vs)
  from ba.emits_seq [OF write_value_emits this] show ?case by simp
qed (simp add: ba.emits_skip)

lemma read_values_parses:
  "\<forall>v \<in> set vs. valid_value v \<Longrightarrow>
   ba.parses bo (read_values (map kind_of vs)) (concat (map (encode_value bo) vs)) vs"
proof (induction vs)
  case Nil
  then show ?case by (auto simp: ba.parses_def ba.ahead_def)
next
  case (Cons v vs)
  let ?q = "\<lambda>v s. result_bind (read_values (map kind_of vs) s) (\<lambda>(vs, s'). Inr (v # vs, s'))"
  have "ba.parses bo (?q v) (concat (map (encode_value bo) vs)) (v # vs)"
    using ba.parses_map [OF Cons.IH] Cons.prems by simp
  from ba.parses_seq [where q = ?q, OF read_value_parses this] Cons.prems
  show ?case by (simp add: read_values.simps(2) [abs_def])
qed

end
