(* ===== verification/ByteArrayProps.thy ===== *)
theory ByteArrayProps
  imports ByteArrayCodec
begin

text \<open>
  The properties of the byte array.  Its specification is an in-memory file, a byte sequence with
  a position; client programs are sequences of operations, and what they observe through a byte
  array is what they would observe through the file.
\<close>

section \<open>Specification: an in-memory file\<close>

type_synonym mem_file = "u8 list \<times> nat"

datatype ba_op = OpWrite "u8 list" | OpRead nat | OpSeek nat | OpToString

datatype ba_out = ODone | OBytes "u8 list" | OThrow | OFault

text \<open>
  One operation on the file and what it observes.  \<open>None\<close> is outside the contract: a read
  of no bytes, a position behind the content, and a content whose size does not fit \<open>size_t\<close>.
\<close>

fun mem_step :: "mem_file \<Rightarrow> ba_op \<Rightarrow> (mem_file \<times> ba_out) option" where
  "mem_step (c, p) (OpWrite bs) = Some ((overwrite c p bs, p + length bs), ODone)"
| "mem_step (c, p) (OpRead n) =
     (if n = 0 then None
      else if length c < p + n then Some ((c, p), OThrow)
      else Some ((c, p + n), OBytes (take n (drop p c))))"
| "mem_step (c, p) (OpSeek q) = (if q \<le> length c then Some ((c, q), ODone) else None)"
| "mem_step (c, p) OpToString =
     (if length c < 2 ^ 64 then Some ((c, p), OBytes (drop p c)) else None)"

fun mem_run :: "mem_file \<Rightarrow> ba_op list \<Rightarrow> ba_out list option" where
  "mem_run m [] = Some []"
| "mem_run m (a # ops) =
     (case mem_step m a of None \<Rightarrow> None
      | Some (m', out) \<Rightarrow> (case mem_run m' ops of None \<Rightarrow> None | Some outs \<Rightarrow> Some (out # outs)))"

text \<open>The same operations on a byte array; an exception leaves the object as it is.\<close>

definition observe :: "ByteArray \<Rightarrow> (ba_out \<times> ByteArray) ba_result \<Rightarrow> ByteArray \<times> ba_out" where
  "observe s r = (case r of Inr (out, s') \<Rightarrow> (s', out) | Inl OutOfRange \<Rightarrow> (s, OThrow) | Inl Fault \<Rightarrow> (s, OFault))"

fun ba_step :: "ByteArray \<Rightarrow> ba_op \<Rightarrow> ByteArray \<times> ba_out" where
  "ba_step s (OpWrite bs) = observe s (result_bind (ByteArray_write s bs) (\<lambda>s'. Inr (ODone, s')))"
| "ba_step s (OpRead n) = observe s (result_bind (ByteArray_read s n) (\<lambda>(bs, s'). Inr (OBytes bs, s')))"
| "ba_step s (OpSeek q) = observe s (result_bind (ByteArray_setPosition s q) (\<lambda>s'. Inr (ODone, s')))"
| "ba_step s OpToString = observe s (result_bind (ByteArray_toString s) (\<lambda>bs. Inr (OBytes bs, s)))"

fun ba_run :: "ByteArray \<Rightarrow> ba_op list \<Rightarrow> ba_out list" where
  "ba_run s [] = []"
| "ba_run s (a # ops) = (let (s', out) = ba_step s a in out # ba_run s' ops)"

definition ba_abs :: "ByteArray \<Rightarrow> mem_file" where
  "ba_abs s = (ba_content s, ba_position s)"

text \<open>A concrete array for the examples: nodes of four bytes, cleared memory.\<close>

definition ba4 :: ByteArray where
  "ba4 = new_ByteArray (\<lambda>_ _. 0) 4"

definition ba4_hello :: ByteArray where
  "ba4_hello = \<lparr>ba_baseSize = 4, ba_position = 5, ba_size = 5, ba_capacity = 8,
     ba_endian = MEGALO_BIG_ENDIAN, ba_nodes = [[104, 101, 108, 108], [111, 0, 0, 0]],
     ba_cur = Some 1, ba_fresh = (\<lambda>_ _. 0)\<rparr>"

section \<open>Shared lemmas\<close>

lemma content_length: "ByteArray_inv s \<Longrightarrow> length (ba_content s) = ba_size s"
  by (rule inv_unfold(9))

lemma ba_step_refines:
  assumes inv: "ByteArray_inv s" and m: "mem_step (ba_abs s) a = Some (m', out)"
  shows "\<exists>s'. ba_step s a = (s', out) \<and> ByteArray_inv s' \<and> ba_abs s' = m'"
proof (cases a)
  case (OpWrite bs)
  then show ?thesis using m stream_write [OF inv, of bs] by (auto simp: ba_abs_def observe_def)
next
  case (OpRead n)
  then show ?thesis
    using m inv stream_read [OF inv, of n] read_out_of_range [OF inv, of n] content_length [OF inv]
    by (auto simp: ba_abs_def observe_def split: if_splits)
next
  case (OpSeek q)
  then show ?thesis
    using m stream_seek [OF inv, of q] by (auto simp: ba_abs_def observe_def split: if_splits)
next
  case OpToString
  then show ?thesis
    using m inv toString_refines [OF inv] content_length [OF inv]
    by (auto simp: ba_abs_def observe_def split: if_splits)
qed

lemma ba_run_refines:
  "ByteArray_inv s \<Longrightarrow> mem_run (ba_abs s) ops = Some outs \<Longrightarrow> ba_run s ops = outs"
proof (induction ops arbitrary: s outs)
  case (Cons a ops)
  then obtain m' out outs' where m: "mem_step (ba_abs s) a = Some (m', out)"
      "mem_run m' ops = Some outs'" "outs = out # outs'"
    by (auto split: option.splits)
  obtain s' where "ba_step s a = (s', out)" "ByteArray_inv s'" "ba_abs s' = m'"
    using ba_step_refines [OF Cons.prems(1) m(1)] by blast
  then show ?case using Cons.IH m by simp
qed simp

lemma readFromFile_returns:
  assumes "ByteArray_inv s"
  shows "\<exists>s'. ByteArray_readFromFile s (Some c) = Some (Inr (True, s')) \<and> ByteArray_inv s'
    \<and> ba_content s' = overwrite (ba_content s) (ba_position s) c \<and> ba_position s' = ba_position s + length c"
proof -
  obtain s' where s': "ByteArray_readFromFile_loop s c = Some (Inr s')" "ByteArray_inv s'"
      "ba_content s' = overwrite (ba_content s) (ba_position s) c" "ba_position s' = ba_position s + length c"
    using readFromFile_loop_refines [OF assms] by blast
  then show ?thesis by (intro exI [of _ s']) (simp add: ByteArray_readFromFile_def)
qed

lemma varint_length_bound:
  fixes w :: "'a::len word"
  assumes "0 < k" and "LENGTH('a) \<le> 7 * k"
  shows "length (varint_bytes w) \<le> k"
proof (rule length_varint_bytes [OF assms(1)])
  have "unat w < 2 ^ LENGTH('a)" by (rule unsigned_less)
  also have "\<dots> \<le> (2::nat) ^ (7 * k)" using assms(2) by (intro power_increasing) simp_all
  finally show "unat w < 2 ^ (7 * k)" .
qed

lemma iov_span_bounds:
  "iov_span b n vs p len \<Longrightarrow> \<forall>v \<in> set vs. iov_node v < n \<and> iov_off v + iov_len v \<le> b"
  by (induction b n vs p len rule: iov_span.induct) auto

lemma getWriteBuffers_fill:
  assumes inv: "ByteArray_inv s" and "0 < len" and le: "length bs \<le> len"
  shows "\<exists>vs s1 s2 s3. ByteArray_getWriteBuffers s [] len = Inr (len, vs, s1) \<and> iov_fill s1 vs bs = Inr s2
    \<and> ByteArray_setPosition s2 (ba_position s2 + length bs) = Inr s3 \<and> ByteArray_inv s3
    \<and> ba_content s3 = overwrite (ba_content s) (ba_position s) bs
    \<and> ba_position s3 = ba_position s + length bs"
proof -
  let ?s0 = "ByteArray_addCapacity s len" and ?p = "ba_position s"
  note C = addCapacity_inv [OF inv, of len]
  note I = inv_unfold [OF inv] and I0 = inv_unfold [OF C(1)]
  obtain vs where vs: "ByteArray_getWriteBuffers s [] len = Inr (len, vs, ?s0)"
      "iov_span (ba_baseSize s) (length (ba_nodes ?s0)) vs ?p len"
    using getWriteBuffers_span [OF inv \<open>0 < len\<close>, of "[]"] by auto
  have u: "uniform (ba_baseSize s) (ba_nodes ?s0)" using I0(3) C(6) by simp
  have cap: "?p + len \<le> ba_baseSize s * length (ba_nodes ?s0)" using C(2,6) I0(4) by simp
  obtain N where N: "iov_fill ?s0 vs bs = Inr (?s0\<lparr>ba_nodes := N\<rparr>)" "uniform (ba_baseSize s) N"
      "length N = length (ba_nodes ?s0)" "concat N = overwrite (ba_flat ?s0) ?p bs"
    using iov_span_fill [OF u vs(2) le cap] by blast
  let ?s2 = "?s0\<lparr>ba_nodes := N\<rparr>"
  have inv2: "ByteArray_inv ?s2" using C(1,6) N(2,3) by (auto simp: ByteArray_inv_def)
  have "ba_position ?s2 + length bs \<le> ba_capacity ?s2" using C(2,4) le by simp
  from setPosition_refines [OF inv2 this] obtain s3 where
    s3: "ByteArray_setPosition ?s2 (ba_position ?s2 + length bs) = Inr s3" "ByteArray_inv s3"
      "ba_position s3 = ?p + length bs" "ba_size s3 = max (?p + length bs) (ba_size s)"
      "ba_flat s3 = concat N"
    using C(4,5) by (auto simp: ba_flat_def)
  obtain ext where ext: "ba_flat ?s0 = ba_flat s @ ext" using C(3) by blast
  have "ba_content s3 = take (max (ba_size s) (?p + length bs)) (overwrite (ba_flat s @ ext) ?p bs)"
    using s3(4,5) N(4) ext by (simp add: ba_content_def max.commute)
  also have "\<dots> = overwrite (ba_content s) ?p bs"
    unfolding ba_content_def
  proof (rule take_overwrite_extended)
    show "?p \<le> ba_size s" using I by simp
    show "ba_size s \<le> length (ba_flat s)" using I length_flat [OF I(3)] by (simp add: ba_flat_def)
    show "?p + length bs \<le> length (ba_flat s @ ext)"
      using cap le ext length_flat [OF u] by (simp add: ba_flat_def flip: ext)
  qed
  finally show ?thesis using vs(1) N(1) s3 by blast
qed

lemmas node_eval = node_at_def node_size_def node_store_def node_load_def node_next_def overwrite_def Let_def

lemma reachable_ba4: "ba_reachable ba4"
  unfolding ba4_def by (rule r_new) simp

lemma write_hello: "ByteArray_write ba4 [104, 101, 108, 108, 111] = Inr ba4_hello"
proof -
  have "ByteArray_write ba4 [104, 101, 108, 108, 111] =
      (case ByteArray_write_loop (ba4\<lparr>ba_nodes := [[0, 0, 0, 0], [0, 0, 0, 0]], ba_capacity := 8\<rparr>)
          0 (length [0 :: u8, 0, 0, 0]) [104, 101, 108, 108, 111] of Inl e \<Rightarrow> Inl e
       | Inr s1 \<Rightarrow> Inr (if ba_position s1 > ba_size s1 then s1\<lparr>ba_size := ba_position s1\<rparr> else s1))"
    by (simp add: ba4_def new_ByteArray_def ByteArray_Node_def ByteArray_write_def
        ByteArray_addCapacity_def ByteArray_getCapacity_def ceil_div_def upt_rec node_eval)
  also have "\<dots> = Inr ba4_hello"
    by (subst ByteArray_write_loop.simps, simp add: ba4_def new_ByteArray_def node_eval,
        subst ByteArray_write_loop.simps, simp add: ba4_hello_def node_eval)
  finally show ?thesis .
qed

lemma reachable_ba4_hello: "ba_reachable ba4_hello"
  using r_write [OF reachable_ba4 write_hello] .

section \<open>Properties\<close>





text \<open>C22: The invariant.  In every reachable state the chain is not empty, its nodes all have
the base size, the capacity is the number of bytes of the chain, position, size and capacity
are ordered, and \<open>m_cur\<close> is the node the position falls into, or null exactly at the end
of the chain.\<close>

theorem byte_array_invariant:
  assumes "ba_reachable s"
  shows "ba_nodes s \<noteq> [] \<and> (\<forall>x \<in> set (ba_nodes s). length x = ba_baseSize s)
    \<and> ba_capacity s = ba_baseSize s * length (ba_nodes s)
    \<and> ba_position s \<le> ba_size s \<and> ba_size s \<le> ba_capacity s
    \<and> ba_cur s = (if ba_position s < ba_capacity s then Some (ba_position s div ba_baseSize s) else None)"
  using inv_unfold [OF reachable_inv [OF assms]] by (simp add: uniform_def cursor_def)

theorem byte_array_invariant_witness:
  "ba_cur ba4_hello = (if ba_position ba4_hello < ba_capacity ba4_hello
     then Some (ba_position ba4_hello div ba_baseSize ba4_hello) else None)"
  using byte_array_invariant [OF reachable_ba4_hello] by simp



text \<open>C24: \<open>writeInt64\<close> is lossless exactly on the 32 bit range: \<open>EncodeZigzag64\<close> returns
\<open>uint32_t\<close>, so a value written with \<open>writeInt64\<close> and read with \<open>readInt64\<close> comes back
unchanged if and only if it lies between \<open>- 2 ^ 31\<close> and \<open>2 ^ 31 - 1\<close>.\<close>

theorem writeInt64_lossless_iff:
  assumes "ba_reachable s"
  shows "\<exists>s1 s2 s3 w. ByteArray_writeInt64 s v = Inr s1 \<and> ByteArray_setPosition s1 (ba_position s) = Inr s2
    \<and> ByteArray_readInt64 s2 = Inr (w, s3) \<and> (w = v \<longleftrightarrow> - (2 ^ 31) \<le> sint v \<and> sint v < 2 ^ 31)"
proof -
  have "ba.emits (ba_endian s) (\<lambda>s. ByteArray_writeInt64 s v) (varint_bytes (ucast (EncodeZigzag64 v) :: u64))"
    using write_value_emits [of "ba_endian s" "VInt64 v"] by simp
  from ba.emits_parses [OF this readInt64_parses reachable_inv [OF assms]]
  show ?thesis using DecodeZigzag64_EncodeZigzag64_iff [of v] by metis
qed

theorem writeInt64_lossless_iff_witness:
  "\<exists>s1 s2 s3 w. ByteArray_writeInt64 ba4 (2 ^ 31) = Inr s1 \<and> ByteArray_setPosition s1 (ba_position ba4) = Inr s2
    \<and> ByteArray_readInt64 s2 = Inr (w, s3) \<and> w \<noteq> 2 ^ 31"
  using writeInt64_lossless_iff [OF reachable_ba4, of "2 ^ 31"] by auto

text \<open>C25: Zigzag codes of 32 bits are inverse to each other on every value, and the variable
length encodings fit the local arrays they are built in: \<open>tmp[5]\<close> in \<open>writeUint32\<close> and
\<open>tmp[10]\<close> in \<open>writeUint64\<close>.\<close>

theorem varint_buffers_suffice:
  "DecodeZigzag32 (EncodeZigzag32 z) = z
   \<and> length (varint_bytes (v :: u32)) \<le> 5 \<and> length (varint_bytes (w :: u64)) \<le> 10"
  using DecodeZigzag32_EncodeZigzag32 varint_length_bound [of 5 v] varint_length_bound [of 10 w] by simp

text \<open>Files.  When the position is at the start of a node, or at least a node's worth of
bytes is unread, \<open>writeToFile\<close> writes exactly the unread bytes, and \<open>readFromFile\<close> of that
file into any other byte array overwrites its content from its position with them; the
reading loop ends.\<close>

theorem byte_array_file_roundtrip:
  assumes "ba_reachable s" and "ba_reachable t"
    and "ba_position s mod ba_baseSize s = 0 \<or> ba_baseSize s \<le> ByteArray_getReadSize s"
  shows "\<exists>bs t'. ByteArray_writeToFile s True = Inr (True, bs) \<and> bs = drop (ba_position s) (ba_content s)
    \<and> ByteArray_readFromFile t (Some bs) = Some (Inr (True, t'))
    \<and> ba_content t' = overwrite (ba_content t) (ba_position t) bs
    \<and> ba_position t' = ba_position t + length bs"
  using writeToFile_refines [OF reachable_inv [OF assms(1)] assms(3)]
    readFromFile_returns [OF reachable_inv [OF assms(2)], of "drop (ba_position s) (ba_content s)"]
  by metis

theorem byte_array_file_roundtrip_witness:
  "\<exists>bs t'. ByteArray_writeToFile ba4 True = Inr (True, bs) \<and> bs = drop (ba_position ba4) (ba_content ba4)
    \<and> ByteArray_readFromFile ba4_hello (Some bs) = Some (Inr (True, t'))
    \<and> ba_content t' = overwrite (ba_content ba4_hello) (ba_position ba4_hello) bs
    \<and> ba_position t' = ba_position ba4_hello + length bs"
  by (rule byte_array_file_roundtrip [OF reachable_ba4 reachable_ba4_hello])
    (simp add: ba4_def new_ByteArray_def)

text \<open>\<open>writeToFile\<close> goes wrong exactly when the position is inside a node and some,
but less than a node's worth of, bytes are unread: it then asks the stream for a negative
number of bytes or walks off the chain.\<close>

theorem writeToFile_fault_iff:
  assumes "ba_reachable s"
  shows "ByteArray_writeToFile s True = Inl Fault \<longleftrightarrow>
    ba_position s mod ba_baseSize s \<noteq> 0 \<and> 0 < ByteArray_getReadSize s
    \<and> ByteArray_getReadSize s < ba_baseSize s"
proof -
  note inv = reachable_inv [OF assms]
  have "ByteArray_getReadSize s = 0 \<Longrightarrow> ByteArray_writeToFile s True = Inr (True, [])"
    by (simp add: ByteArray_writeToFile_def writeToFile_loop_done)
  then show ?thesis
    using writeToFile_refines [OF inv] writeToFile_faults [OF inv] by (metis gr0I linorder_not_le sum.simps(4))
qed

theorem writeToFile_fault_iff_witness:
  "ba_reachable ba4_hello \<and> ByteArray_writeToFile ba4_hello True \<noteq> Inl Fault"
  using writeToFile_fault_iff [OF reachable_ba4_hello] reachable_ba4_hello
  by (simp add: ba4_hello_def ByteArray_getReadSize_def)

text \<open>Gathering.  The vectors \<open>getReadBuffers\<close> builds for \<open>len\<close> bytes lie inside the
nodes and cover exactly the next \<open>len\<close> unread bytes (all of them when there are fewer),
in order; the returned count is their total.\<close>

theorem getReadBuffers_gathers:
  assumes "ba_reachable s"
  shows "\<exists>vs. ByteArray_getReadBuffers s bufs len = Inr (min len (ByteArray_getReadSize s), bufs @ vs)
    \<and> concat (map (iov_bytes s) vs) = take len (drop (ba_position s) (ba_content s))
    \<and> (\<forall>v \<in> set vs. iov_node v < length (ba_nodes s) \<and> iov_off v + iov_len v \<le> ba_baseSize s)"
proof -
  note inv = reachable_inv [OF assms]
  note I = inv_unfold [OF inv]
  obtain vs where vs: "ByteArray_getReadBuffers s bufs len = Inr (min len (ByteArray_getReadSize s), bufs @ vs)"
      "iov_span (ba_baseSize s) (length (ba_nodes s)) vs (ba_position s) (min len (ByteArray_getReadSize s))"
    using getReadBuffers_span [OF inv] by blast
  have "concat (map (iov_bytes s) vs) = take len (drop (ba_position s) (ba_content s))"
    using iov_span_bytes [OF I(3) vs(2)]
    by (simp add: ba_content_def ByteArray_getReadSize_def drop_take)
  then show ?thesis using vs(1) iov_span_bounds [OF vs(2)] by blast
qed

theorem getReadBuffers_gathers_witness:
  "\<exists>vs. ByteArray_getReadBuffers ba4_hello [] 3 = Inr (min 3 (ByteArray_getReadSize ba4_hello), vs)"
  using getReadBuffers_gathers [OF reachable_ba4_hello, of "[]" 3] by auto

text \<open>C23: Scattering.  Filling the vectors \<open>getWriteBuffers\<close> hands out for \<open>len\<close> bytes
with any \<open>bs\<close> of at most that length, and then moving the position behind them, as the
socket stream does after \<open>recv\<close>, has the effect of \<open>write\<close> on the content.\<close>

theorem getWriteBuffers_scatters:
  assumes "ba_reachable s" and "0 < len" and "length bs \<le> len"
  shows "\<exists>vs s1 s2 s3. ByteArray_getWriteBuffers s [] len = Inr (len, vs, s1) \<and> iov_fill s1 vs bs = Inr s2
    \<and> ByteArray_setPosition s2 (ba_position s2 + length bs) = Inr s3
    \<and> ba_content s3 = overwrite (ba_content s) (ba_position s) bs
    \<and> ba_position s3 = ba_position s + length bs"
  using getWriteBuffers_fill [OF reachable_inv [OF assms(1)] assms(2,3)] by blast

theorem getWriteBuffers_scatters_witness:
  "\<exists>vs s1 s2 s3. ByteArray_getWriteBuffers ba4_hello [] 6 = Inr (6, vs, s1) \<and> iov_fill s1 vs [1, 2, 3, 4] = Inr s2
    \<and> ByteArray_setPosition s2 (ba_position s2 + length [1 :: u8, 2, 3, 4]) = Inr s3
    \<and> ba_content s3 = overwrite (ba_content ba4_hello) (ba_position ba4_hello) [1, 2, 3, 4]
    \<and> ba_position s3 = ba_position ba4_hello + length [1 :: u8, 2, 3, 4]"
  by (rule getWriteBuffers_scatters [OF reachable_ba4_hello]) simp_all

text \<open>Reading no bytes at the end of the chain dereferences a null pointer: \<open>read\<close>
computes the room in \<open>m_cur\<close> before it looks at the size, so an empty string read when
the position equals the capacity faults, although \<open>write\<close> accepts the empty string there.\<close>

theorem read_nothing_fault_iff:
  assumes "ba_reachable s"
  shows "ByteArray_read s 0 = Inl Fault \<longleftrightarrow> ba_position s = ba_capacity s"
proof -
  note I = inv_unfold [OF reachable_inv [OF assms]]
  have "ba_position s < ba_capacity s \<Longrightarrow> ba_position s div ba_baseSize s < length (ba_nodes s)"
    using I(4) by (simp add: div_lt_of_lt_mult)
  then show ?thesis
    using I by (auto simp: ByteArray_read_def node_at_def cursor_def ByteArray_read_loop.simps [of s _ _ 0] Let_def)
qed

theorem read_nothing_fault_iff_witness: "ByteArray_read ba4_hello 0 \<noteq> Inl Fault"
  using read_nothing_fault_iff [OF reachable_ba4_hello] by (simp add: ba4_hello_def)

end
