(* ===== verification/StdSet.thy ===== *)
theory StdSet
  imports Prelude
begin

text \<open>
  \<open>std::set\<close> and \<open>std::map\<close> as the sources use them: ordered containers whose notion of
  equality is the comparator's.  A set is the list of its elements in order, an iterator is an
  index into it and \<open>end()\<close> is its length; a map is the list of its entries.

  Keys are equivalent when the comparator orders neither before the other.  All laws hold for
  every strict weak order, which is what the standard asks of a comparator; the locale
  \<open>weak_order\<close> states it, and the comparators of the sources are shown to satisfy it.
\<close>

section \<open>Definitions\<close>

definition oset_lower_bound :: "('a \<Rightarrow> 'a \<Rightarrow> bool) \<Rightarrow> 'a list \<Rightarrow> 'a \<Rightarrow> nat" where
  "oset_lower_bound lt xs x = length (takeWhile (\<lambda>y. lt y x) xs)"

definition oset_find :: "('a \<Rightarrow> 'a \<Rightarrow> bool) \<Rightarrow> 'a list \<Rightarrow> 'a \<Rightarrow> nat" where
  "oset_find lt xs x =
     (let i = oset_lower_bound lt xs x in
      if i < length xs \<and> \<not> lt x (xs ! i) then i else length xs)"

text \<open>\<open>insert\<close> returns the container and the iterator to the inserted or equivalent element.\<close>

definition oset_insert :: "('a \<Rightarrow> 'a \<Rightarrow> bool) \<Rightarrow> 'a list \<Rightarrow> 'a \<Rightarrow> 'a list \<times> nat" where
  "oset_insert lt xs x =
     (let i = oset_lower_bound lt xs x in
      if i < length xs \<and> \<not> lt x (xs ! i) then (xs, i) else (take i xs @ x # drop i xs, i))"

text \<open>\<open>erase\<close> of an iterator; erasing \<open>end()\<close> is undefined behaviour (\<open>None\<close>).\<close>

definition oset_erase :: "'a list \<Rightarrow> nat \<Rightarrow> 'a list option" where
  "oset_erase xs i = (if i < length xs then Some (take i xs @ drop (Suc i) xs) else None)"

definition omap_lower_bound :: "('k \<Rightarrow> 'k \<Rightarrow> bool) \<Rightarrow> ('k \<times> 'v) list \<Rightarrow> 'k \<Rightarrow> nat" where
  "omap_lower_bound lt m k = length (takeWhile (\<lambda>e. lt (fst e) k) m)"

definition omap_get :: "('k \<Rightarrow> 'k \<Rightarrow> bool) \<Rightarrow> ('k \<times> 'v) list \<Rightarrow> 'k \<Rightarrow> 'v option" where
  "omap_get lt m k =
     (let i = omap_lower_bound lt m k in
      if i < length m \<and> \<not> lt k (fst (m ! i)) then Some (snd (m ! i)) else None)"

text \<open>\<open>m[k] = v\<close>: an equivalent key keeps its spelling.\<close>

definition omap_put :: "('k \<Rightarrow> 'k \<Rightarrow> bool) \<Rightarrow> ('k \<times> 'v) list \<Rightarrow> 'k \<Rightarrow> 'v \<Rightarrow> ('k \<times> 'v) list" where
  "omap_put lt m k v =
     (let i = omap_lower_bound lt m k in
      if i < length m \<and> \<not> lt k (fst (m ! i)) then m[i := (fst (m ! i), v)]
      else take i m @ (k, v) # drop i m)"

definition omap_del :: "('k \<Rightarrow> 'k \<Rightarrow> bool) \<Rightarrow> ('k \<times> 'v) list \<Rightarrow> 'k \<Rightarrow> ('k \<times> 'v) list" where
  "omap_del lt m k =
     (let i = omap_lower_bound lt m k in
      if i < length m \<and> \<not> lt k (fst (m ! i)) then take i m @ drop (Suc i) m else m)"

text \<open>\<open>m.insert(make_pair(k, v))\<close> leaves an equivalent entry alone.\<close>

definition omap_insert :: "('k \<Rightarrow> 'k \<Rightarrow> bool) \<Rightarrow> ('k \<times> 'v) list \<Rightarrow> 'k \<Rightarrow> 'v \<Rightarrow> ('k \<times> 'v) list" where
  "omap_insert lt m k v = (if omap_get lt m k = None then omap_put lt m k v else m)"

section \<open>Comparators\<close>

text \<open>A property that holds for all predecessors of an element holds on a prefix.\<close>

lemma takeWhile_sorted_wrt:
  assumes "sorted_wrt R xs" and "\<And>x y. R x y \<Longrightarrow> P y \<Longrightarrow> P x"
  shows "takeWhile P xs = filter P xs" and "dropWhile P xs = filter (\<lambda>x. \<not> P x) xs"
proof -
  have "takeWhile P xs = filter P xs \<and> dropWhile P xs = filter (\<lambda>x. \<not> P x) xs"
    using assms(1)
  proof (induction xs)
    case (Cons a xs)
    have "\<forall>x \<in> set xs. \<not> P x" if "\<not> P a" using that Cons.prems assms(2) [of a] by auto
    then show ?case using Cons by (auto simp: filter_empty_conv filter_id_conv)
  qed simp
  then show "takeWhile P xs = filter P xs" "dropWhile P xs = filter (\<lambda>x. \<not> P x) xs" by auto
qed

text \<open>Taking out the one element of a list that has a property.\<close>

lemma set_without_nth:
  assumes i: "i < length xs" "P (xs ! i)" and u: "\<And>n. n < length xs \<Longrightarrow> n \<noteq> i \<Longrightarrow> \<not> P (xs ! n)"
  shows "set (take i xs) \<union> set (drop (Suc i) xs) = {x \<in> set xs. \<not> P x}"
proof (intro set_eqI iffI)
  fix x assume "x \<in> set (take i xs) \<union> set (drop (Suc i) xs)"
  then obtain j where "j < length xs" "j \<noteq> i" "x = xs ! j"
    by (auto simp: in_set_conv_nth) (metis less_diff_conv add.commute add_Suc_right n_not_Suc_n not_add_less1 lessI)
  then show "x \<in> {x \<in> set xs. \<not> P x}" using u by auto
next
  fix x assume "x \<in> {x \<in> set xs. \<not> P x}"
  then have x: "x \<in> set xs" "x \<noteq> xs ! i" using i(2) by auto
  have "set xs = set (take i xs) \<union> insert (xs ! i) (set (drop (Suc i) xs))"
    using i(1) by (metis id_take_nth_drop list.simps(15) set_append)
  then show "x \<in> set (take i xs) \<union> set (drop (Suc i) xs)" using x by auto
qed

locale weak_order =
  fixes lt :: "'a \<Rightarrow> 'a \<Rightarrow> bool"
  assumes irrefl: "\<not> lt x x"
    and trans: "lt x y \<Longrightarrow> lt y z \<Longrightarrow> lt x z"
    and weak: "lt x y \<Longrightarrow> lt x z \<or> lt z y"
begin

lemma lower_bound_le: "oset_lower_bound lt xs x \<le> length xs"
  by (simp add: oset_lower_bound_def length_takeWhile_le)

lemma before_lower_bound: "i < oset_lower_bound lt xs x \<Longrightarrow> lt (xs ! i) x"
  unfolding oset_lower_bound_def
  by (metis nth_mem set_takeWhileD takeWhile_nth)

lemma from_lower_bound:
  assumes "sorted_wrt lt xs" and "oset_lower_bound lt xs x \<le> i" and "i < length xs"
  shows "\<not> lt (xs ! i) x"
proof -
  let ?j = "oset_lower_bound lt xs x"
  have "?j < length xs" using assms by simp
  then have j: "\<not> lt (xs ! ?j) x"
    unfolding oset_lower_bound_def by (rule nth_length_takeWhile)
  show ?thesis
  proof (cases "i = ?j")
    case False
    then have "lt (xs ! ?j) (xs ! i)" using assms by (simp add: sorted_wrt_iff_nth_less)
    then show ?thesis using j trans by blast
  qed (use j in simp)
qed

lemma find_Some:
  "sorted_wrt lt xs \<Longrightarrow> oset_find lt xs x < length xs \<Longrightarrow>
   \<not> lt x (xs ! oset_find lt xs x) \<and> \<not> lt (xs ! oset_find lt xs x) x"
  using from_lower_bound [of xs x "oset_lower_bound lt xs x"]
  by (auto simp: oset_find_def Let_def split: if_splits)

lemma find_member:
  assumes "sorted_wrt lt xs" and "y \<in> set xs" and "\<not> lt x y" and "\<not> lt y x"
  shows "oset_find lt xs x < length xs"
proof -
  let ?j = "oset_lower_bound lt xs x"
  obtain i where i: "i < length xs" "xs ! i = y" using assms(2) by (auto simp: in_set_conv_nth)
  have ji: "?j \<le> i" using before_lower_bound [of i xs x] i assms(4) by (metis not_less)
  then have j: "?j < length xs" using i by simp
  have "\<not> lt x (xs ! ?j)"
  proof (cases "i = ?j")
    case False
    then have "lt (xs ! ?j) y" using assms(1) ji i by (auto simp: sorted_wrt_iff_nth_less)
    then show ?thesis using assms(3) trans by blast
  qed (use i assms(3) in simp)
  then show ?thesis using j by (simp add: oset_find_def Let_def)
qed

lemma insert_sorted:
  assumes "sorted_wrt lt xs"
  shows "sorted_wrt lt (fst (oset_insert lt xs x))"
proof -
  let ?i = "oset_lower_bound lt xs x"
  show ?thesis
  proof (cases "?i < length xs \<and> \<not> lt x (xs ! ?i)")
    case False
    have a: "lt y x" if "y \<in> set (take ?i xs)" for y
      using that before_lower_bound lower_bound_le by (auto simp: in_set_conv_nth)
    have b: "lt x y" if y: "y \<in> set (drop ?i xs)" for y
    proof -
      obtain k where "k < length (drop ?i xs)" "drop ?i xs ! k = y"
        using y unfolding in_set_conv_nth by blast
      then have k: "?i + k < length xs" "y = xs ! (?i + k)" by simp_all
      then have "lt x (xs ! ?i)" using False by simp
      then show ?thesis
        using k assms trans by (cases "k = 0") (auto simp: sorted_wrt_iff_nth_less)
    qed
    have "sorted_wrt lt (take ?i xs @ x # drop ?i xs)"
      using assms a b trans [of _ x] by (auto simp: sorted_wrt_append sorted_wrt_take sorted_wrt_drop)
    then show ?thesis using False by (auto simp: oset_insert_def Let_def)
  qed (use assms in \<open>simp add: oset_insert_def Let_def\<close>)
qed

lemma insert_new:
  assumes "\<And>y. y \<in> set xs \<Longrightarrow> lt x y \<or> lt y x" and "sorted_wrt lt xs"
  shows "fst (oset_insert lt xs x) =
      take (oset_lower_bound lt xs x) xs @ x # drop (oset_lower_bound lt xs x) xs"
    and "set (fst (oset_insert lt xs x)) = insert x (set xs)"
    and "fst (oset_insert lt xs x) ! snd (oset_insert lt xs x) = x"
proof -
  let ?i = "oset_lower_bound lt xs x"
  have "?i < length xs \<Longrightarrow> lt x (xs ! ?i)"
    using assms(1) [of "xs ! ?i"] from_lower_bound [OF assms(2), of x ?i] by auto
  then have eq: "oset_insert lt xs x = (take ?i xs @ x # drop ?i xs, ?i)"
    by (auto simp: oset_insert_def Let_def)
  then show "fst (oset_insert lt xs x) = take ?i xs @ x # drop ?i xs" by simp
  show "fst (oset_insert lt xs x) ! snd (oset_insert lt xs x) = x"
    using lower_bound_le [of xs x] by (simp add: eq nth_append)
  show "set (fst (oset_insert lt xs x)) = insert x (set xs)"
    using set_append [of "take ?i xs" "drop ?i xs"] by (auto simp: eq)
qed

text \<open>Maps are sets of entries ordered by their keys.\<close>

abbreviation eqv :: "'a \<Rightarrow> 'a \<Rightarrow> bool" where
  "eqv x y \<equiv> \<not> lt x y \<and> \<not> lt y x"

lemma eqv_trans: "eqv x y \<Longrightarrow> eqv y z \<Longrightarrow> eqv x z"
  using weak by blast

definition omap_ok :: "('a \<times> 'v) list \<Rightarrow> bool" where
  "omap_ok m \<longleftrightarrow> sorted_wrt lt (map fst m)"

lemma omap_lb: "omap_lower_bound lt m k = oset_lower_bound lt (map fst m) k"
  by (simp add: omap_lower_bound_def oset_lower_bound_def takeWhile_map comp_def)

lemma omap_lb_le: "omap_lower_bound lt m k \<le> length m"
  using lower_bound_le [of "map fst m" k] by (simp add: omap_lb)

lemma omap_before: "i < omap_lower_bound lt m k \<Longrightarrow> lt (fst (m ! i)) k"
  using before_lower_bound [of i "map fst m" k] omap_lb_le [of m k] by (simp add: omap_lb)

lemma omap_from: "omap_ok m \<Longrightarrow> omap_lower_bound lt m k \<le> i \<Longrightarrow> i < length m \<Longrightarrow> \<not> lt (fst (m ! i)) k"
  using from_lower_bound [of "map fst m" k i] by (simp add: omap_lb omap_ok_def)

lemma omap_behind:
  assumes "omap_ok m" and "omap_lower_bound lt m k < i" and "i < length m"
  shows "lt k (fst (m ! i))"
proof -
  have "lt (fst (m ! omap_lower_bound lt m k)) (fst (m ! i))"
    using assms by (auto simp: omap_ok_def sorted_wrt_map sorted_wrt_iff_nth_less)
  then show ?thesis using omap_from [OF assms(1) order_refl, of k] assms weak by (meson less_trans)
qed

lemma omap_get_iff:
  assumes ok: "omap_ok m"
  shows "omap_get lt m k = Some v \<longleftrightarrow> (\<exists>j. (j, v) \<in> set m \<and> eqv j k)"
proof -
  let ?i = "omap_lower_bound lt m k"
  show ?thesis
  proof
    assume "omap_get lt m k = Some v"
    then have "?i < length m" "\<not> lt k (fst (m ! ?i))" "snd (m ! ?i) = v"
      by (auto simp: omap_get_def Let_def split: if_splits)
    then show "\<exists>j. (j, v) \<in> set m \<and> eqv j k"
      using omap_from [OF ok order_refl] by (metis nth_mem prod.collapse)
  next
    assume "\<exists>j. (j, v) \<in> set m \<and> eqv j k"
    then obtain i where i: "i < length m" "snd (m ! i) = v" "eqv (fst (m ! i)) k"
      by (metis fst_conv in_set_conv_nth snd_conv)
    then have "i = ?i" using omap_before [of i m k] omap_behind [OF ok, of k i] by (metis nat_neq_iff)
    then show "omap_get lt m k = Some v" using i by (simp add: omap_get_def Let_def)
  qed
qed

lemma omap_eqv_unique: "omap_ok m \<Longrightarrow> i < length m \<Longrightarrow> eqv (fst (m ! i)) k \<Longrightarrow> i = omap_lower_bound lt m k"
  using omap_before [of i m k] omap_behind [of m k i] by (metis nat_neq_iff)

lemma omap_put_new:
  assumes "omap_ok m" and "\<not> (omap_lower_bound lt m k < length m \<and> \<not> lt k (fst (m ! omap_lower_bound lt m k)))"
  shows "omap_ok (omap_put lt m k v)"
    and "set (omap_put lt m k v) = insert (k, v) {e \<in> set m. \<not> eqv (fst e) k}"
proof -
  let ?i = "omap_lower_bound lt m k"
  have eq: "omap_put lt m k v = take ?i m @ (k, v) # drop ?i m" using assms(2) by (auto simp: omap_put_def Let_def)
  have "fst (oset_insert lt (map fst m) k) = map fst (omap_put lt m k v)"
    using assms(2) unfolding eq by (auto simp: oset_insert_def Let_def omap_lb take_map drop_map)
  then show "omap_ok (omap_put lt m k v)"
    using insert_sorted [of "map fst m" k] assms(1) by (simp add: omap_ok_def)
  have "set (omap_put lt m k v) = insert (k, v) (set m)"
    unfolding eq using set_append [of "take ?i m" "drop ?i m"] by auto
  moreover have "\<not> eqv (fst (m ! i)) k" if "i < length m" for i
    using that omap_eqv_unique [OF assms(1) that, of k] assms(2) by blast
  then have "\<forall>e \<in> set m. \<not> eqv (fst e) k" by (metis in_set_conv_nth)
  ultimately show "set (omap_put lt m k v) = insert (k, v) {e \<in> set m. \<not> eqv (fst e) k}" by auto
qed

lemma omap_put_old:
  assumes ok: "omap_ok m" and i: "i = omap_lower_bound lt m k" "i < length m" "\<not> lt k (fst (m ! i))"
  shows "omap_ok (omap_put lt m k v)"
    and "set (omap_put lt m k v) = insert (fst (m ! i), v) {e \<in> set m. \<not> eqv (fst e) k}"
    and "eqv (fst (m ! i)) k"
proof -
  have eq: "omap_put lt m k v = m[i := (fst (m ! i), v)]" using i by (simp add: omap_put_def Let_def)
  have "map fst (omap_put lt m k v) = map fst m" using i(2) by (metis eq fst_conv list_update_id map_update nth_map)
  then show "omap_ok (omap_put lt m k v)" using ok by (simp add: omap_ok_def)
  show e: "eqv (fst (m ! i)) k" using i omap_from [OF ok order_refl, of k] by simp
  have n: "\<not> eqv (fst (m ! n)) k" if "n < length m" "n \<noteq> i" for n
    using omap_eqv_unique [OF ok that(1), of k] that(2) i(1) by blast
  have "set (take i m) \<union> set (drop (Suc i) m) = {e \<in> set m. \<not> eqv (fst e) k}"
    using set_without_nth [of i m "\<lambda>e. eqv (fst e) k"] i(2) n e by blast
  then show "set (omap_put lt m k v) = insert (fst (m ! i), v) {e \<in> set m. \<not> eqv (fst e) k}"
    unfolding eq using i(2) by (simp add: upd_conv_take_nth_drop)
qed

lemma omap_put_set:
  assumes "omap_ok m"
  shows "omap_ok (omap_put lt m k v) \<and>
    (\<exists>k'. eqv k' k \<and> set (omap_put lt m k v) = insert (k', v) {e \<in> set m. \<not> eqv (fst e) k})"
  using omap_put_new [OF assms, of k] omap_put_old [OF assms refl, of k] irrefl by meson

lemma omap_get_put:
  assumes ok: "omap_ok m"
  shows "omap_get lt (omap_put lt m k v) j = (if eqv j k then Some v else omap_get lt m j)"
proof -
  obtain k' where k': "omap_ok (omap_put lt m k v)" "eqv k' k"
      "set (omap_put lt m k v) = insert (k', v) {e \<in> set m. \<not> eqv (fst e) k}"
    using omap_put_set [OF ok] by blast
  have kj: "eqv k' j \<longleftrightarrow> eqv j k" using k'(2) eqv_trans by blast
  have "(\<exists>j'. (j', w) \<in> set m \<and> \<not> eqv j' k \<and> eqv j' j) \<longleftrightarrow> \<not> eqv j k \<and> (\<exists>j'. (j', w) \<in> set m \<and> eqv j' j)" for w
    using eqv_trans by blast
  then have "(\<exists>j'. (j', w) \<in> set (omap_put lt m k v) \<and> eqv j' j) \<longleftrightarrow>
      (if eqv j k then w = v else \<exists>j'. (j', w) \<in> set m \<and> eqv j' j)" for w
    using kj unfolding k'(3) by auto
  then have "omap_get lt (omap_put lt m k v) j = Some w \<longleftrightarrow> (if eqv j k then Some v else omap_get lt m j) = Some w" for w
    using omap_get_iff [OF k'(1)] omap_get_iff [OF ok] by auto
  then show ?thesis by (metis not_None_eq)
qed

lemma omap_insert_ok: "omap_ok m \<Longrightarrow> omap_ok (omap_insert lt m k v)"
  using omap_put_set [of m k v] by (simp add: omap_insert_def)

lemma omap_get_eqv: "omap_ok m \<Longrightarrow> eqv j k \<Longrightarrow> omap_get lt m j = omap_get lt m k"
proof -
  assume ok: "omap_ok m" and jk: "eqv j k"
  have "omap_get lt m j = Some v \<longleftrightarrow> omap_get lt m k = Some v" for v
    using omap_get_iff [OF ok] jk eqv_trans by blast
  then show ?thesis by (metis not_None_eq)
qed

lemma omap_get_insert:
  assumes ok: "omap_ok m"
  shows "omap_get lt (omap_insert lt m k v) j =
    (if eqv j k \<and> omap_get lt m k = None then Some v else omap_get lt m j)"
  using omap_get_put [OF ok, of k v j] by (auto simp: omap_insert_def)

lemma omap_del_set:
  assumes ok: "omap_ok m"
  shows "omap_ok (omap_del lt m k) \<and> set (omap_del lt m k) = {e \<in> set m. \<not> eqv (fst e) k}"
proof -
  let ?i = "omap_lower_bound lt m k"
  show ?thesis
  proof (cases "?i < length m \<and> \<not> lt k (fst (m ! ?i))")
    case True
    then have del: "omap_del lt m k = take ?i m @ drop (Suc ?i) m" by (simp add: omap_del_def Let_def)
    have m: "m = take ?i m @ m ! ?i # drop (Suc ?i) m" using True by (simp add: id_take_nth_drop)
    have "sorted_wrt lt (map fst (take ?i m @ m ! ?i # drop (Suc ?i) m))"
      using ok m unfolding omap_ok_def by metis
    then have "omap_ok (omap_del lt m k)" by (auto simp: omap_ok_def del sorted_wrt_append)
    moreover have n: "\<not> eqv (fst (m ! n)) k" if "n < length m" "n \<noteq> ?i" for n
      using omap_eqv_unique [OF ok that(1), of k] that(2) by blast
    have here: "eqv (fst (m ! ?i)) k" using omap_put_old(3) [OF ok refl] True by blast
    have "set (take ?i m) \<union> set (drop (Suc ?i) m) = {e \<in> set m. \<not> eqv (fst e) k}"
      using set_without_nth [of ?i m "\<lambda>e. eqv (fst e) k"] True n here by blast
    ultimately show ?thesis using del by simp
  next
    case False
    then have del: "omap_del lt m k = m" by (auto simp: omap_del_def Let_def)
    have "\<not> eqv (fst (m ! i)) k" if "i < length m" for i
      using omap_eqv_unique [OF ok that, of k] False that by blast
    then have "\<forall>e \<in> set m. \<not> eqv (fst e) k" by (metis in_set_conv_nth)
    then show ?thesis using ok del by auto
  qed
qed

lemma omap_get_del:
  assumes ok: "omap_ok m"
  shows "omap_get lt (omap_del lt m k) j = (if eqv j k then None else omap_get lt m j)"
proof -
  have d: "omap_ok (omap_del lt m k)" "set (omap_del lt m k) = {e \<in> set m. \<not> eqv (fst e) k}"
    using omap_del_set [OF ok] by blast+
  have "omap_get lt (omap_del lt m k) j = Some v \<longleftrightarrow> (if eqv j k then None else omap_get lt m j) = Some v" for v
  proof -
    have "(\<exists>j'. (j', v) \<in> {e \<in> set m. \<not> eqv (fst e) k} \<and> eqv j' j) \<longleftrightarrow> \<not> eqv j k \<and> (\<exists>j'. (j', v) \<in> set m \<and> eqv j' j)"
      by (simp only: mem_Collect_eq fst_conv) (use eqv_trans in blast)
    then show ?thesis
      using omap_get_iff [OF d(1), of j v] omap_get_iff [OF ok, of j v] unfolding d(2) by (cases "eqv j k") auto
  qed
  then show ?thesis by (metis not_None_eq)
qed

end

end
