(* ===== verification/Timer.thy ===== *)
theory Timer
  imports StdSet
begin

text \<open>
  Timers and the timer manager (\<open>src/megalo/timer.h\<close>, \<open>src/megalo/timer.cc\<close>).

  A \<open>Timer::ptr\<close> is the address of a timer object, a natural number; \<open>tm_heap\<close> maps the
  addresses of live objects to their fields and \<open>tm_timers\<close> is the \<open>std::set\<close> of
  addresses in the order of \<open>Timer::Comparator\<close>.  Times are \<open>uint64_t\<close> milliseconds, so
  deadlines wrap.  The current time is an argument \<open>now\<close>, and so is the address a
  \<open>new\<close> expression returns.  Every operation runs under the manager's lock and is one step
  here; \<open>listExpiredCb\<close> releases a read lock before it takes the write lock, and tests for
  emptiness again, so the step from the second test on is the one that counts.

  A callback is what is called (\<open>'f\<close> names user functions), possibly guarded by a weak
  pointer; \<open>nullptr\<close> is \<open>None\<close>.  Operations that invoke \<open>onTimerInsertAtFront\<close> say so
  in their result.  Erasing \<open>end()\<close> or following a dangling pointer is the result \<open>None\<close>.
\<close>

section \<open>State\<close>

datatype 'f timer_cb = Callback 'f | OnTimer_cb nat 'f

record 'f Timer =
  t_recurring :: bool
  t_ms :: u64
  t_next :: u64
  t_cb :: "'f timer_cb option"

record 'f TimerManager =
  tm_timers :: "nat list"
  tm_tickled :: bool
  tm_previousTime :: u64
  tm_heap :: "nat \<rightharpoonup> 'f Timer"

definition Timer_Comparator :: "(nat \<rightharpoonup> 'f Timer) \<Rightarrow> nat option \<Rightarrow> nat option \<Rightarrow> bool" where
  "Timer_Comparator h lhs rhs =
     (if lhs = None \<and> rhs = None then False
      else if lhs = None then True
      else if rhs = None then False
      else if t_next (the (h (the lhs))) < t_next (the (h (the rhs))) then True
      else if t_next (the (h (the lhs))) > t_next (the (h (the rhs))) then False
      else the lhs < the rhs)"

definition timer_less :: "(nat \<rightharpoonup> 'f Timer) \<Rightarrow> nat \<Rightarrow> nat \<Rightarrow> bool" where
  "timer_less h p q = Timer_Comparator h (Some p) (Some q)"

definition new_Timer :: "u64 \<Rightarrow> u64 \<Rightarrow> 'f timer_cb option \<Rightarrow> bool \<Rightarrow> 'f Timer" where
  "new_Timer now ms cb recurring = \<lparr>t_recurring = recurring, t_ms = ms, t_next = now + ms, t_cb = cb\<rparr>"

definition new_Timer_at :: "u64 \<Rightarrow> 'f Timer" where
  "new_Timer_at nxt = \<lparr>t_recurring = False, t_ms = 0, t_next = nxt, t_cb = None\<rparr>"

definition new_TimerManager :: "u64 \<Rightarrow> 'f TimerManager" where
  "new_TimerManager now = \<lparr>tm_timers = [], tm_tickled = False, tm_previousTime = now, tm_heap = Map.empty\<rparr>"

section \<open>Operations\<close>

text \<open>\<open>addTimer(val, lock)\<close>; the flag is whether \<open>onTimerInsertAtFront\<close> is called.\<close>

definition TimerManager_insert :: "'f TimerManager \<Rightarrow> nat \<Rightarrow> bool \<times> 'f TimerManager" where
  "TimerManager_insert m p =
     (let (ts, it) = oset_insert (timer_less (tm_heap m)) (tm_timers m) p;
          at_front = (it = 0 \<and> \<not> tm_tickled m) in
      (at_front, m\<lparr>tm_timers := ts, tm_tickled := (if at_front then True else tm_tickled m)\<rparr>))"

definition TimerManager_addTimer ::
    "'f TimerManager \<Rightarrow> u64 \<Rightarrow> nat \<Rightarrow> u64 \<Rightarrow> 'f timer_cb option \<Rightarrow> bool \<Rightarrow> nat \<times> bool \<times> 'f TimerManager" where
  "TimerManager_addTimer m now p ms cb recurring =
     (p, TimerManager_insert (m\<lparr>tm_heap := (tm_heap m)(p \<mapsto> new_Timer now ms cb recurring)\<rparr>) p)"

definition TimerManager_addConditionTimer ::
    "'f TimerManager \<Rightarrow> u64 \<Rightarrow> nat \<Rightarrow> u64 \<Rightarrow> 'f \<Rightarrow> nat \<Rightarrow> bool \<Rightarrow> nat \<times> bool \<times> 'f TimerManager" where
  "TimerManager_addConditionTimer m now p ms cb weak_cond recurring =
     TimerManager_addTimer m now p ms (Some (OnTimer_cb weak_cond cb)) recurring"

text \<open>
  Calling a stored callback: which user functions run, when \<open>alive\<close> says which objects the
  weak pointers can still lock.
\<close>

definition OnTimer :: "(nat \<Rightarrow> bool) \<Rightarrow> nat \<Rightarrow> 'f \<Rightarrow> 'f list" where
  "OnTimer alive weak_cond cb = (if alive weak_cond then [cb] else [])"

fun run_timer_cb :: "(nat \<Rightarrow> bool) \<Rightarrow> 'f timer_cb \<Rightarrow> 'f list" where
  "run_timer_cb alive (Callback f) = [f]"
| "run_timer_cb alive (OnTimer_cb w f) = OnTimer alive w f"

definition Timer_cancel :: "'f TimerManager \<Rightarrow> nat \<Rightarrow> (bool \<times> 'f TimerManager) option" where
  "Timer_cancel m p =
     (case tm_heap m p of None \<Rightarrow> None
      | Some t \<Rightarrow>
        if t_cb t \<noteq> None
        then let h = (tm_heap m)(p \<mapsto> t\<lparr>t_cb := None\<rparr>);
                 it = oset_find (timer_less h) (tm_timers m) p in
          (case oset_erase (tm_timers m) it of None \<Rightarrow> None
           | Some ts \<Rightarrow> Some (True, m\<lparr>tm_heap := h, tm_timers := ts\<rparr>))
        else Some (False, m))"

definition Timer_refresh :: "'f TimerManager \<Rightarrow> u64 \<Rightarrow> nat \<Rightarrow> (bool \<times> 'f TimerManager) option" where
  "Timer_refresh m now p =
     (case tm_heap m p of None \<Rightarrow> None
      | Some t \<Rightarrow>
        if t_cb t = None then Some (False, m)
        else let it = oset_find (timer_less (tm_heap m)) (tm_timers m) p in
          if it = length (tm_timers m) then Some (False, m)
          else case oset_erase (tm_timers m) it of None \<Rightarrow> None
            | Some ts \<Rightarrow>
              let h = (tm_heap m)(p \<mapsto> t\<lparr>t_next := now + t_ms t\<rparr>) in
              Some (True, m\<lparr>tm_heap := h, tm_timers := fst (oset_insert (timer_less h) ts p)\<rparr>))"

text \<open>The second flag of \<open>reset\<close> is whether \<open>onTimerInsertAtFront\<close> is called.\<close>

definition Timer_reset ::
    "'f TimerManager \<Rightarrow> u64 \<Rightarrow> nat \<Rightarrow> u64 \<Rightarrow> bool \<Rightarrow> (bool \<times> bool \<times> 'f TimerManager) option" where
  "Timer_reset m now p ms from_now =
     (case tm_heap m p of None \<Rightarrow> None
      | Some t \<Rightarrow>
        if ms = t_ms t \<and> \<not> from_now then Some (True, False, m)
        else if t_cb t = None then Some (False, False, m)
        else let it = oset_find (timer_less (tm_heap m)) (tm_timers m) p in
          if it = length (tm_timers m) then Some (False, False, m)
          else case oset_erase (tm_timers m) it of None \<Rightarrow> None
            | Some ts \<Rightarrow>
              let start = (if from_now then now else t_next t - t_ms t);
                  h = (tm_heap m)(p \<mapsto> t\<lparr>t_ms := ms, t_next := start + ms\<rparr>) in
              Some (True, TimerManager_insert (m\<lparr>tm_heap := h, tm_timers := ts\<rparr>) p))"

definition TimerManager_getNextTimer :: "'f TimerManager \<Rightarrow> u64 \<Rightarrow> u64 \<times> 'f TimerManager" where
  "TimerManager_getNextTimer m now =
     (let m' = m\<lparr>tm_tickled := False\<rparr> in
      case tm_timers m of [] \<Rightarrow> (NOT 0, m')
      | p # _ \<Rightarrow>
        let nxt = t_next (the (tm_heap m p)) in
        if now \<ge> nxt then (0, m') else (nxt - now, m'))"

definition TimerManager_hasTimer :: "'f TimerManager \<Rightarrow> bool" where
  "TimerManager_hasTimer m = (tm_timers m \<noteq> [])"

definition TimerManager_deleteClockRollover :: "'f TimerManager \<Rightarrow> u64 \<Rightarrow> bool \<times> 'f TimerManager" where
  "TimerManager_deleteClockRollover m now =
     (now < tm_previousTime m \<and> now < tm_previousTime m - 60 * 60 * 1000, m\<lparr>tm_previousTime := now\<rparr>)"

text \<open>The loop over the expired timers: collect the callback, then reinsert or retire.\<close>

definition expire_timer :: "u64 \<Rightarrow> nat \<Rightarrow> 'f TimerManager \<Rightarrow> 'f timer_cb option \<times> 'f TimerManager" where
  "expire_timer now p m =
     (let t = the (tm_heap m p) in
      (t_cb t,
       if t_recurring t
       then let h = (tm_heap m)(p \<mapsto> t\<lparr>t_next := now + t_ms t\<rparr>) in
            m\<lparr>tm_heap := h, tm_timers := fst (oset_insert (timer_less h) (tm_timers m) p)\<rparr>
       else m\<lparr>tm_heap := (tm_heap m)(p \<mapsto> t\<lparr>t_cb := None\<rparr>)\<rparr>))"

primrec expire_all :: "u64 \<Rightarrow> nat list \<Rightarrow> 'f TimerManager \<Rightarrow> 'f timer_cb option list \<times> 'f TimerManager" where
  "expire_all now [] m = ([], m)"
| "expire_all now (p # ps) m =
     (let (cb, m1) = expire_timer now p m; (cbs, m2) = expire_all now ps m1 in (cb # cbs, m2))"

text \<open>\<open>q\<close> is the address of the temporary \<open>now_timer\<close>.\<close>

definition TimerManager_listExpiredCb ::
    "'f TimerManager \<Rightarrow> u64 \<Rightarrow> nat \<Rightarrow> 'f timer_cb option list \<times> 'f TimerManager" where
  "TimerManager_listExpiredCb m now q =
     (if tm_timers m = [] then ([], m)
      else let (rollover, m1) = TimerManager_deleteClockRollover m now;
               ts = tm_timers m1 in
        if \<not> rollover \<and> t_next (the (tm_heap m1 (hd ts))) > now then ([], m1)
        else let h = (tm_heap m1)(q \<mapsto> new_Timer_at now);
                 it0 = (if rollover then length ts else oset_lower_bound (timer_less h) ts q);
                 it = it0 + length (takeWhile (\<lambda>p. t_next (the (tm_heap m1 p)) = now) (drop it0 ts)) in
          expire_all now (take it ts) (m1\<lparr>tm_timers := drop it ts\<rparr>))"

text \<open>
  The states a manager and its timers can be brought into, whatever the clock does: each step
  is one operation on a timer that \<open>addTimer\<close> returned.
\<close>

inductive tm_step :: "'f TimerManager \<Rightarrow> 'f TimerManager \<Rightarrow> bool" where
  s_add: "tm_heap m p = None \<Longrightarrow> tm_step m (snd (snd (TimerManager_addTimer m now p ms (Some cb) rec)))"
| s_cancel: "Timer_cancel m p = Some (b, m') \<Longrightarrow> tm_step m m'"
| s_refresh: "Timer_refresh m now p = Some (b, m') \<Longrightarrow> tm_step m m'"
| s_reset: "Timer_reset m now p ms from_now = Some (b, f, m') \<Longrightarrow> tm_step m m'"
| s_next: "tm_step m (snd (TimerManager_getNextTimer m now))"
| s_expired: "tm_heap m q = None \<Longrightarrow> tm_step m (snd (TimerManager_listExpiredCb m now q))"

inductive tm_reachable :: "'f TimerManager \<Rightarrow> bool" where
  tm_new: "tm_reachable (new_TimerManager now)"
| tm_more: "tm_reachable m \<Longrightarrow> tm_step m m' \<Longrightarrow> tm_reachable m'"

text \<open>
  The set is ordered and its timers exist and have a callback; a timer with a callback is in
  the set.
\<close>

definition TimerManager_inv :: "'f TimerManager \<Rightarrow> bool" where
  "TimerManager_inv m \<longleftrightarrow>
     sorted_wrt (timer_less (tm_heap m)) (tm_timers m)
     \<and> (\<forall>p t. tm_heap m p = Some t \<longrightarrow> (p \<in> set (tm_timers m) \<longleftrightarrow> t_cb t \<noteq> None))
     \<and> set (tm_timers m) \<subseteq> dom (tm_heap m)"

definition t_deadline :: "'f TimerManager \<Rightarrow> nat \<Rightarrow> u64" where
  "t_deadline m p = t_next (the (tm_heap m p))"

section \<open>The comparator\<close>

lemma timer_less_iff:
  "timer_less h p q \<longleftrightarrow> t_next (the (h p)) < t_next (the (h q)) \<or> t_next (the (h p)) = t_next (the (h q)) \<and> p < q"
  by (auto simp: timer_less_def Timer_Comparator_def)

lemma Timer_Comparator_weak_order: "weak_order (Timer_Comparator h)"
proof
  fix x y z :: "nat option"
  show "\<not> Timer_Comparator h x x" by (cases x) (auto simp: Timer_Comparator_def)
  show "Timer_Comparator h x y \<Longrightarrow> Timer_Comparator h y z \<Longrightarrow> Timer_Comparator h x z"
    by (cases x; cases y; cases z) (auto simp: Timer_Comparator_def split: if_splits)
  show "Timer_Comparator h x y \<Longrightarrow> Timer_Comparator h x z \<or> Timer_Comparator h z y"
    by (cases x; cases y; cases z) (auto simp: Timer_Comparator_def split: if_splits)
qed

interpretation timers: weak_order "timer_less h" for h :: "nat \<rightharpoonup> 'f Timer"
  by unfold_locales (auto simp: timer_less_iff)

lemma timer_less_total: "p \<noteq> q \<Longrightarrow> timer_less h p q \<or> timer_less h q p"
  by (auto simp: timer_less_iff)

text \<open>Objects outside the set, and fields the comparator does not read, do not matter.\<close>

lemma sorted_timers_cong:
  assumes "\<And>p. p \<in> set ts \<Longrightarrow> t_next (the (h p)) = t_next (the (h' p))"
  shows "sorted_wrt (timer_less h) ts \<longleftrightarrow> sorted_wrt (timer_less h') ts"
proof -
  have "timer_less h x y \<longleftrightarrow> timer_less h' x y" if "x \<in> set ts" "y \<in> set ts" for x y
    using assms that by (simp add: timer_less_iff)
  then show ?thesis by (metis (mono_tags, lifting) sorted_wrt_mono_rel)
qed

lemma sorted_timers_upd:
  "p \<notin> set ts \<Longrightarrow> sorted_wrt (timer_less (h(p \<mapsto> t))) ts \<longleftrightarrow> sorted_wrt (timer_less h) ts"
  by (rule sorted_timers_cong) auto

lemma timer_less_cb: "h p = Some t \<Longrightarrow> timer_less (h(p \<mapsto> t\<lparr>t_cb := c\<rparr>)) = timer_less h"
  by (intro ext) (simp add: timer_less_iff)

lemma sorted_timers_distinct: "sorted_wrt (timer_less h) ts \<Longrightarrow> distinct ts"
  by (auto simp: sorted_wrt_iff_nth_less distinct_conv_nth)
    (metis linorder_neqE_nat timers.irrefl)

lemma find_timer:
  assumes "sorted_wrt (timer_less h) ts" and "p \<in> set ts"
  shows "oset_find (timer_less h) ts p < length ts \<and> ts ! oset_find (timer_less h) ts p = p"
  using timers.find_member [OF assms timers.irrefl timers.irrefl]
    timers.find_Some [OF assms(1), of p] timer_less_total by blast

lemma find_no_timer:
  assumes "sorted_wrt (timer_less h) ts" and "p \<notin> set ts"
  shows "oset_find (timer_less h) ts p = length ts"
proof (rule ccontr)
  let ?i = "oset_find (timer_less h) ts p"
  assume "?i \<noteq> length ts"
  moreover have "?i \<le> length ts" by (simp add: oset_find_def Let_def)
  ultimately have i: "?i < length ts" by simp
  then have "ts ! ?i = p" using timers.find_Some [OF assms(1) i] timer_less_total by blast
  then show False using nth_mem [OF i] assms(2) by simp
qed

lemma erase_timer:
  assumes s: "sorted_wrt (timer_less h) ts" and p: "p \<in> set ts"
  shows "\<exists>ts'. oset_erase ts (oset_find (timer_less h) ts p) = Some ts'
    \<and> sorted_wrt (timer_less h) ts' \<and> set ts' = set ts - {p}"
proof -
  let ?i = "oset_find (timer_less h) ts p"
  have i: "?i < length ts" "ts ! ?i = p" using find_timer [OF s p] by auto
  let ?ts = "take ?i ts @ drop (Suc ?i) ts"
  have ts: "ts = take ?i ts @ p # drop (Suc ?i) ts" using i by (metis id_take_nth_drop)
  have "sorted_wrt (timer_less h) ?ts"
    using s by (subst (asm) ts) (simp add: sorted_wrt_append)
  moreover have "set ?ts = set ts - {p}"
    using sorted_timers_distinct [OF s] by (subst (3) ts, subst (asm) ts) auto
  ultimately show ?thesis using i(1) by (simp add: oset_erase_def)
qed

lemma insert_timer:
  assumes s: "sorted_wrt (timer_less h) ts" and p: "p \<notin> set ts"
  shows "sorted_wrt (timer_less h) (fst (oset_insert (timer_less h) ts p))"
    and "set (fst (oset_insert (timer_less h) ts p)) = insert p (set ts)"
    and "snd (oset_insert (timer_less h) ts p) = 0 \<longleftrightarrow> (\<forall>q \<in> set ts. timer_less h p q)"
proof -
  have c: "timer_less h p y \<or> timer_less h y p" if "y \<in> set ts" for y
    using that p timer_less_total by metis
  show "sorted_wrt (timer_less h) (fst (oset_insert (timer_less h) ts p))"
    by (rule timers.insert_sorted [OF s])
  show "set (fst (oset_insert (timer_less h) ts p)) = insert p (set ts)"
    using timers.insert_new(2) [OF c s] .
  have "snd (oset_insert (timer_less h) ts p) = oset_lower_bound (timer_less h) ts p"
    by (simp add: oset_insert_def Let_def)
  also have "\<dots> = 0 \<longleftrightarrow> (\<forall>q \<in> set ts. timer_less h p q)"
  proof (cases ts)
    case (Cons a as)
    then have "oset_lower_bound (timer_less h) ts p = 0 \<longleftrightarrow> timer_less h p a"
      using c [of a] timers.trans [of h p a p] timers.irrefl [of h p] by (auto simp: oset_lower_bound_def)
    moreover have "timer_less h p a \<Longrightarrow> q \<in> set as \<Longrightarrow> timer_less h p q" for q
      using s Cons timers.trans [of h p a q] by auto
    ultimately show ?thesis using Cons by auto
  qed (simp add: oset_lower_bound_def)
  finally show "snd (oset_insert (timer_less h) ts p) = 0 \<longleftrightarrow> (\<forall>q \<in> set ts. timer_less h p q)" .
qed

section \<open>The invariant, with some timers taken out of the set\<close>

definition inv_pending :: "'f TimerManager \<Rightarrow> nat list \<Rightarrow> bool" where
  "inv_pending m ps \<longleftrightarrow>
     sorted_wrt (timer_less (tm_heap m)) (tm_timers m) \<and> distinct ps
     \<and> (\<forall>p t. tm_heap m p = Some t \<longrightarrow> (p \<in> set (tm_timers m) \<union> set ps \<longleftrightarrow> t_cb t \<noteq> None))
     \<and> set (tm_timers m) \<union> set ps \<subseteq> dom (tm_heap m) \<and> set (tm_timers m) \<inter> set ps = {}"

lemma inv_pending_Nil: "inv_pending m [] \<longleftrightarrow> TimerManager_inv m"
  by (simp add: inv_pending_def TimerManager_inv_def)

lemma inv_pendingD:
  assumes "inv_pending m ps"
  shows "sorted_wrt (timer_less (tm_heap m)) (tm_timers m)" and "distinct ps"
    and "tm_heap m p = Some t \<Longrightarrow> p \<in> set (tm_timers m) \<union> set ps \<longleftrightarrow> t_cb t \<noteq> None"
    and "p \<in> set (tm_timers m) \<union> set ps \<Longrightarrow> \<exists>t. tm_heap m p = Some t \<and> t_cb t \<noteq> None"
    and "p \<in> set ps \<Longrightarrow> p \<notin> set (tm_timers m)"
  using assms unfolding inv_pending_def by (blast, blast, blast, blast, blast)

text \<open>Taking a timer out, giving it a new deadline, and putting it back.\<close>

lemma inv_take_out:
  assumes "TimerManager_inv m" and "p \<in> set (tm_timers m)"
  shows "\<exists>ts. oset_erase (tm_timers m) (oset_find (timer_less (tm_heap m)) (tm_timers m) p) = Some ts
    \<and> inv_pending (m\<lparr>tm_timers := ts\<rparr>) [p] \<and> set ts = set (tm_timers m) - {p}"
proof -
  have inv: "sorted_wrt (timer_less (tm_heap m)) (tm_timers m)" using assms(1) by (simp add: TimerManager_inv_def)
  obtain ts where "oset_erase (tm_timers m) (oset_find (timer_less (tm_heap m)) (tm_timers m) p) = Some ts"
      "sorted_wrt (timer_less (tm_heap m)) ts" "set ts = set (tm_timers m) - {p}"
    using erase_timer [OF inv assms(2)] by blast
  then show ?thesis using assms by (auto simp: inv_pending_def TimerManager_inv_def)
qed

lemma inv_reschedule:
  assumes "inv_pending m (p # ps)" and "tm_heap m p = Some t" and "t_cb t' = t_cb t"
  shows "inv_pending (m\<lparr>tm_heap := (tm_heap m)(p \<mapsto> t')\<rparr>) (p # ps)"
proof -
  have "p \<notin> set (tm_timers m)" using assms(1) by (simp add: inv_pending_def)
  then show ?thesis using assms by (auto simp: inv_pending_def sorted_timers_upd)
qed

lemma inv_put_back:
  assumes "inv_pending m (p # ps)"
  shows "inv_pending (m\<lparr>tm_timers := fst (oset_insert (timer_less (tm_heap m)) (tm_timers m) p)\<rparr>) ps"
proof -
  have p: "p \<notin> set (tm_timers m)" using assms by (simp add: inv_pending_def)
  note i = insert_timer [OF inv_pendingD(1) [OF assms] p]
  show ?thesis using assms p i(1) by (auto simp: inv_pending_def i(2))
qed

lemma inv_retire:
  assumes "inv_pending m (p # ps)" and "tm_heap m p = Some t"
  shows "inv_pending (m\<lparr>tm_heap := (tm_heap m)(p \<mapsto> t\<lparr>t_cb := None\<rparr>)\<rparr>) ps"
proof -
  have "p \<notin> set (tm_timers m)" using assms(1) by (simp add: inv_pending_def)
  then show ?thesis using assms by (auto simp: inv_pending_def sorted_timers_upd)
qed

lemma inv_flags [simp]:
  "inv_pending (m\<lparr>tm_tickled := b\<rparr>) ps = inv_pending m ps"
  "inv_pending (m\<lparr>tm_previousTime := n\<rparr>) ps = inv_pending m ps"
  by (simp_all add: inv_pending_def)

lemma inv_insert:
  assumes "inv_pending m [p]"
  shows "TimerManager_inv (snd (TimerManager_insert m p))"
proof -
  have "snd (TimerManager_insert m p) =
      (m\<lparr>tm_timers := fst (oset_insert (timer_less (tm_heap m)) (tm_timers m) p)\<rparr>)
        \<lparr>tm_tickled := snd (oset_insert (timer_less (tm_heap m)) (tm_timers m) p) = 0 \<and> \<not> tm_tickled m
           \<or> tm_tickled m\<rparr>"
    by (auto simp: TimerManager_insert_def Let_def split: prod.splits)
  then show ?thesis using inv_put_back [OF assms] by (simp flip: inv_pending_Nil)
qed

section \<open>Expiry\<close>

definition expired :: "u64 \<Rightarrow> 'f Timer \<Rightarrow> 'f Timer" where
  "expired now t = (if t_recurring t then t\<lparr>t_next := now + t_ms t\<rparr> else t\<lparr>t_cb := None\<rparr>)"

lemma expire_timer_inv:
  fixes m :: "'f TimerManager" and now :: u64
  assumes inv: "inv_pending m (p # ps)" and t: "tm_heap m p = Some t"
  defines "m' \<equiv> snd (expire_timer now p m)"
  shows "inv_pending m' ps" and "fst (expire_timer now p m) = t_cb t"
    and "tm_heap m' = (tm_heap m)(p \<mapsto> expired now t)"
    and "set (tm_timers m') = (if t_recurring t then insert p (set (tm_timers m)) else set (tm_timers m))"
proof -
  let ?h = "(tm_heap m)(p \<mapsto> t\<lparr>t_next := now + t_ms t\<rparr>)"
  have pend: "inv_pending (m\<lparr>tm_heap := ?h\<rparr>) (p # ps)" using inv_reschedule [OF inv t] by simp
  have p: "p \<notin> set (tm_timers m)" using inv by (simp add: inv_pending_def)
  have "set (fst (oset_insert (timer_less ?h) (tm_timers m) p)) = insert p (set (tm_timers m))"
    using insert_timer(2) [OF inv_pendingD(1) [OF pend]] p by simp
  then show "set (tm_timers m') = (if t_recurring t then insert p (set (tm_timers m)) else set (tm_timers m))"
    by (simp add: m'_def expire_timer_def t Let_def)
  show "inv_pending m' ps"
    using inv_put_back [OF pend] inv_retire [OF inv t] by (simp add: m'_def expire_timer_def t Let_def)
qed (simp_all add: m'_def expire_timer_def t Let_def expired_def)

definition expiry_result :: "u64 \<Rightarrow> 'f TimerManager \<Rightarrow> nat list \<Rightarrow> 'f timer_cb option list \<Rightarrow> 'f TimerManager \<Rightarrow> bool" where
  "expiry_result now m ps cbs m' \<longleftrightarrow>
     TimerManager_inv m' \<and> cbs = map (\<lambda>p. t_cb (the (tm_heap m p))) ps
     \<and> tm_heap m' = (\<lambda>q. if q \<in> set ps then Some (expired now (the (tm_heap m q))) else tm_heap m q)
     \<and> set (tm_timers m') = set (tm_timers m) \<union> {p \<in> set ps. t_recurring (the (tm_heap m p))}
     \<and> tm_tickled m' = tm_tickled m"

lemma expiry_resultD:
  assumes "expiry_result now m ps cbs m'"
  shows "TimerManager_inv m'" and "cbs = map (\<lambda>p. t_cb (the (tm_heap m p))) ps"
    and "tm_heap m' q = (if q \<in> set ps then Some (expired now (the (tm_heap m q))) else tm_heap m q)"
    and "set (tm_timers m') = set (tm_timers m) \<union> {p \<in> set ps. t_recurring (the (tm_heap m p))}"
  using assms unfolding expiry_result_def by (blast, blast, metis, blast)

lemma expire_all_result:
  "inv_pending m ps \<Longrightarrow> expire_all now ps m = (cbs, m') \<Longrightarrow> expiry_result now m ps cbs m'"
proof (induction ps arbitrary: m cbs)
  case Nil
  then show ?case by (auto simp: expiry_result_def inv_pending_Nil)
next
  case (Cons p ps)
  obtain t where t: "tm_heap m p = Some t" using inv_pendingD(4) [OF Cons.prems(1), of p] by auto
  let ?m1 = "snd (expire_timer now p m)"
  note e = expire_timer_inv [OF Cons.prems(1) t, of now]
  obtain cbs' where r: "expire_all now ps ?m1 = (cbs', m')" "cbs = t_cb t # cbs'"
    using Cons.prems(2) e(2) by (auto simp: Let_def split: prod.splits)
  have p: "p \<notin> set ps" using Cons.prems(1) by (simp add: inv_pending_def)
  then have other: "tm_heap ?m1 q = tm_heap m q" if "q \<in> set ps" for q using that e(3) by auto
  have "tm_tickled ?m1 = tm_tickled m" by (simp add: expire_timer_def Let_def)
  moreover have "{q \<in> set (p # ps). t_recurring (the (tm_heap m q))} =
      (if t_recurring t then {p} else {}) \<union> {q \<in> set ps. t_recurring (the (tm_heap ?m1 q))}"
    using t other by auto
  ultimately show ?case
    using Cons.IH [OF e(1) r(1)] r(2) t e(3,4) p other by (auto simp: expiry_result_def fun_eq_iff)
qed

text \<open>The iterator arithmetic of \<open>listExpiredCb\<close> finds the timers that are due.\<close>

lemma takeWhile_due:
  assumes "sorted_wrt (timer_less h) ts"
  shows "takeWhile (\<lambda>p. t_next (the (h p)) \<le> now) ts = filter (\<lambda>p. t_next (the (h p)) \<le> now) ts"
    and "dropWhile (\<lambda>p. t_next (the (h p)) \<le> now) ts = filter (\<lambda>p. \<not> t_next (the (h p)) \<le> now) ts"
proof -
  have mono: "t_next (the (h x)) \<le> now" if "timer_less h x y" "t_next (the (h y)) \<le> now" for x y
    using that by (auto simp: timer_less_iff)
  show "takeWhile (\<lambda>p. t_next (the (h p)) \<le> now) ts = filter (\<lambda>p. t_next (the (h p)) \<le> now) ts"
    by (rule takeWhile_sorted_wrt(1) [OF assms mono])
  show "dropWhile (\<lambda>p. t_next (the (h p)) \<le> now) ts = filter (\<lambda>p. \<not> t_next (the (h p)) \<le> now) ts"
    by (rule takeWhile_sorted_wrt(2) [OF assms mono])
qed

lemma due_prefix:
  fixes h :: "nat \<rightharpoonup> 'f Timer" and now :: u64
  assumes s: "sorted_wrt (timer_less h) ts" and q: "q \<notin> set ts" and h': "h' = h(q \<mapsto> new_Timer_at now)"
  defines "it0 \<equiv> oset_lower_bound (timer_less h') ts q"
  defines "it \<equiv> it0 + length (takeWhile (\<lambda>p. t_next (the (h p)) = now) (drop it0 ts))"
  shows "take it ts = filter (\<lambda>p. t_next (the (h p)) \<le> now) ts"
    and "drop it ts = filter (\<lambda>p. \<not> t_next (the (h p)) \<le> now) ts"
proof -
  let ?n = "\<lambda>p. t_next (the (h p))" and ?d = "\<lambda>p. t_next (the (h p)) \<le> now"
  have less: "timer_less h' p q \<longleftrightarrow> ?n p < now \<or> ?n p = now \<and> p < q" if "p \<in> set ts" for p
    using that q by (auto simp: timer_less_iff h' new_Timer_at_def)
  have s': "sorted_wrt (timer_less h') ts" using s q by (simp add: h' sorted_timers_upd)
  have front: "?d p" if p: "p \<in> set (take it0 ts)" for p
  proof -
    obtain i where "i < it0" "i < length ts" "p = ts ! i" using p by (auto simp: in_set_conv_nth)
    then show ?thesis using timers.before_lower_bound [of i h' ts q] less [of p] it0_def by auto
  qed
  have later: "now \<le> ?n p" if p: "p \<in> set (drop it0 ts)" for p
  proof -
    obtain k where "k < length (drop it0 ts)" "drop it0 ts ! k = p"
      using p unfolding in_set_conv_nth by blast
    then have "it0 + k < length ts" "p = ts ! (it0 + k)" by auto
    then show ?thesis
      using timers.from_lower_bound [OF s', of q "it0 + k"] less [of p] it0_def by auto
  qed
  have "takeWhile (\<lambda>p. ?n p = now) (drop it0 ts) = takeWhile ?d (drop it0 ts)"
    using later by (intro takeWhile_cong) fastforce+
  moreover have tw: "takeWhile ?d ts = take it0 ts @ takeWhile ?d (drop it0 ts)"
    using front takeWhile_append2 [of "take it0 ts" ?d "drop it0 ts"] by simp
  moreover have "it0 \<le> length ts" unfolding it0_def by (rule timers.lower_bound_le)
  ultimately have it: "it = length (takeWhile ?d ts)" by (simp add: it_def)
  show "take it ts = filter ?d ts"
    unfolding it takeWhile_due(1) [OF s, symmetric] by (rule takeWhile_eq_take [symmetric])
  show "drop it ts = filter (\<lambda>p. \<not> ?d p) ts"
    unfolding it takeWhile_due(2) [OF s, symmetric] by (rule dropWhile_eq_drop [symmetric])
qed

section \<open>Every operation keeps the invariant\<close>

definition due :: "'f TimerManager \<Rightarrow> u64 \<Rightarrow> nat list" where
  "due m now =
     (if fst (TimerManager_deleteClockRollover m now) then tm_timers m
      else filter (\<lambda>p. t_deadline m p \<le> now) (tm_timers m))"

lemma pending_split:
  assumes "TimerManager_inv m" and "tm_timers m = xs @ ys"
  shows "inv_pending (m\<lparr>tm_timers := ys\<rparr>) xs"
proof -
  have s: "sorted_wrt (timer_less (tm_heap m)) (xs @ ys)" using assms by (simp add: TimerManager_inv_def)
  have "set (xs @ ys) \<subseteq> dom (tm_heap m)"
      "\<And>p t. tm_heap m p = Some t \<Longrightarrow> p \<in> set (xs @ ys) \<longleftrightarrow> t_cb t \<noteq> None"
    using assms unfolding TimerManager_inv_def by auto
  then show ?thesis
    using s sorted_timers_distinct [OF s]
    by (simp add: inv_pending_def sorted_wrt_append Un_commute Int_commute disj_commute)
qed

lemma sorted_hd_due:
  assumes "sorted_wrt (timer_less h) (p # ts)"
  shows "now < t_next (the (h p)) \<Longrightarrow> filter (\<lambda>q. t_next (the (h q)) \<le> now) (p # ts) = []"
  using assms by (auto simp: filter_empty_conv timer_less_iff)

lemma listExpiredCb_result:
  assumes inv: "TimerManager_inv m" and q: "tm_heap m q = None"
    and r: "TimerManager_listExpiredCb m now q = (cbs, m')"
  shows "expiry_result now (m\<lparr>tm_timers := filter (\<lambda>p. p \<notin> set (due m now)) (tm_timers m)\<rparr>) (due m now) cbs m'"
proof (cases "tm_timers m = []")
  case True
  then show ?thesis using inv r
    by (auto simp: TimerManager_listExpiredCb_def expiry_result_def due_def TimerManager_inv_def)
next
  case False
  let ?h = "tm_heap m" and ?ts = "tm_timers m" and ?roll = "fst (TimerManager_deleteClockRollover m now)"
  let ?m1 = "m\<lparr>tm_previousTime := now\<rparr>"
  let ?d = "\<lambda>p. t_next (the (?h p)) \<le> now"
  have s: "sorted_wrt (timer_less ?h) ?ts" and qs: "q \<notin> set ?ts"
    using inv q by (auto simp: TimerManager_inv_def)
  have dcr: "TimerManager_deleteClockRollover m now = (?roll, ?m1)"
    by (simp add: TimerManager_deleteClockRollover_def)
  have keep: "filter (\<lambda>p. p \<notin> set (due m now)) ?ts = (if ?roll then [] else filter (\<lambda>p. \<not> ?d p) ?ts)"
    by (auto simp: due_def t_deadline_def intro!: filter_cong)
  have run: "expiry_result now (m\<lparr>tm_timers := filter (\<lambda>p. p \<notin> set (due m now)) ?ts\<rparr>) (due m now) cbs m'"
    if "expire_all now xs (?m1\<lparr>tm_timers := ys\<rparr>) = (cbs, m')" "?ts = xs @ ys"
      "xs = due m now" "ys = filter (\<lambda>p. p \<notin> set (due m now)) ?ts" for xs ys
  proof -
    have "inv_pending (?m1\<lparr>tm_timers := ys\<rparr>) xs"
      using pending_split [OF inv that(2)] by (simp add: inv_pending_def)
    from expire_all_result [OF this that(1)] show ?thesis
      using that(3,4) by (simp add: expiry_result_def cong del: if_weak_cong)
  qed
  show ?thesis
  proof (cases ?roll)
    case True
    then have "expire_all now ?ts (?m1\<lparr>tm_timers := []\<rparr>) = (cbs, m')"
      using r False dcr by (simp add: TimerManager_listExpiredCb_def Let_def)
    then show ?thesis using True keep by (intro run [of ?ts "[]"]) (simp_all add: due_def)
  next
    case roll: False
    show ?thesis
    proof (cases "now < t_next (the (?h (hd ?ts)))")
      case True
      then have "filter ?d ?ts = []" using sorted_hd_due [of ?h "hd ?ts" "tl ?ts" now] s False by simp
      moreover have "cbs = []" "m' = ?m1"
        using r False roll True dcr by (auto simp: TimerManager_listExpiredCb_def Let_def)
      ultimately show ?thesis
        using roll False
        by (intro run [of "[]" ?ts]) (auto simp: due_def t_deadline_def filter_empty_conv filter_id_conv)
    next
      case nd: False
      let ?h' = "?h(q \<mapsto> new_Timer_at now)"
      let ?it0 = "oset_lower_bound (timer_less ?h') ?ts q"
      let ?it = "?it0 + length (takeWhile (\<lambda>p. t_next (the (?h p)) = now) (drop ?it0 ?ts))"
      note d = due_prefix [OF s qs refl, of now]
      have "expire_all now (take ?it ?ts) (?m1\<lparr>tm_timers := drop ?it ?ts\<rparr>) = (cbs, m')"
        using r False roll nd dcr by (simp add: TimerManager_listExpiredCb_def Let_def)
      then show ?thesis
      proof (rule run)
        show "take ?it ?ts = due m now" using roll d(1) by (simp add: due_def t_deadline_def)
        show "drop ?it ?ts = filter (\<lambda>p. p \<notin> set (due m now)) ?ts" using roll d(2) keep by simp
      qed simp
    qed
  qed
qed

lemma cancel_inv:
  assumes inv: "TimerManager_inv m" and t: "tm_heap m p = Some t"
  shows "\<exists>b m'. Timer_cancel m p = Some (b, m') \<and> TimerManager_inv m' \<and> b = (t_cb t \<noteq> None)
    \<and> p \<notin> set (tm_timers m') \<and> tm_heap m' = (tm_heap m)(p \<mapsto> t\<lparr>t_cb := None\<rparr>)
    \<and> set (tm_timers m') = set (tm_timers m) - {p}"
proof (cases "t_cb t = None")
  case True
  have "(tm_heap m)(p \<mapsto> t\<lparr>t_cb := None\<rparr>) = tm_heap m" using t True by (simp add: fun_upd_idem)
  then show ?thesis using inv t True by (auto simp: Timer_cancel_def TimerManager_inv_def)
next
  case False
  have p: "p \<in> set (tm_timers m)" using inv t False by (auto simp: TimerManager_inv_def)
  obtain ts where ts: "oset_erase (tm_timers m) (oset_find (timer_less (tm_heap m)) (tm_timers m) p) = Some ts"
      "inv_pending (m\<lparr>tm_timers := ts\<rparr>) [p]" "set ts = set (tm_timers m) - {p}"
    using inv_take_out [OF inv p] by blast
  have "TimerManager_inv (m\<lparr>tm_heap := (tm_heap m)(p \<mapsto> t\<lparr>t_cb := None\<rparr>), tm_timers := ts\<rparr>)"
    using inv_retire [OF ts(2), of t] t by (simp add: inv_pending_def TimerManager_inv_def)
  then show ?thesis using t False ts by (auto simp: Timer_cancel_def Let_def timer_less_cb)
qed

text \<open>\<open>refresh\<close> and \<open>reset\<close> take a timer with a callback out and put it back.\<close>

definition same_timers :: "'f TimerManager \<Rightarrow> 'f TimerManager \<Rightarrow> bool" where
  "same_timers m m' \<longleftrightarrow> set (tm_timers m') = set (tm_timers m)
     \<and> (\<forall>q. map_option t_cb (tm_heap m' q) = map_option t_cb (tm_heap m q))"

lemma inv_reinsert:
  assumes inv: "TimerManager_inv m" and t: "tm_heap m p = Some t" and cb: "t_cb t \<noteq> None" "t_cb t' = t_cb t"
  defines "h \<equiv> (tm_heap m)(p \<mapsto> t')"
  shows "\<exists>ts. oset_erase (tm_timers m) (oset_find (timer_less (tm_heap m)) (tm_timers m) p) = Some ts
    \<and> oset_find (timer_less (tm_heap m)) (tm_timers m) p \<noteq> length (tm_timers m)
    \<and> inv_pending (m\<lparr>tm_heap := h, tm_timers := ts\<rparr>) [p]
    \<and> insert p (set ts) = set (tm_timers m)"
proof -
  have p: "p \<in> set (tm_timers m)" using inv t cb by (auto simp: TimerManager_inv_def)
  have s: "sorted_wrt (timer_less (tm_heap m)) (tm_timers m)" using inv by (simp add: TimerManager_inv_def)
  obtain ts where ts: "oset_erase (tm_timers m) (oset_find (timer_less (tm_heap m)) (tm_timers m) p) = Some ts"
      "inv_pending (m\<lparr>tm_timers := ts\<rparr>) [p]" "set ts = set (tm_timers m) - {p}"
    using inv_take_out [OF inv p] by blast
  have "inv_pending (m\<lparr>tm_heap := h, tm_timers := ts\<rparr>) [p]"
    using inv_reschedule [OF ts(2), of t t'] t cb by (simp add: h_def inv_pending_def)
  then show ?thesis using ts p find_timer [OF s p] by auto
qed

lemma insert_timers_set:
  assumes "inv_pending m [p]"
  shows "set (tm_timers (snd (TimerManager_insert m p))) = insert p (set (tm_timers m))"
    and "tm_heap (snd (TimerManager_insert m p)) = tm_heap m"
proof -
  have "p \<notin> set (tm_timers m)" using assms by (simp add: inv_pending_def)
  from insert_timer(2) [OF inv_pendingD(1) [OF assms] this]
  show "set (tm_timers (snd (TimerManager_insert m p))) = insert p (set (tm_timers m))"
    by (simp add: TimerManager_insert_def Let_def split_beta)
  show "tm_heap (snd (TimerManager_insert m p)) = tm_heap m"
    by (simp add: TimerManager_insert_def Let_def split_beta)
qed

lemma refresh_inv:
  assumes inv: "TimerManager_inv m" and r: "Timer_refresh m now p = Some (b, m')"
  shows "TimerManager_inv m' \<and> same_timers m m'"
proof -
  obtain t where t: "tm_heap m p = Some t" using r by (auto simp: Timer_refresh_def split: option.splits)
  show ?thesis
  proof (cases "t_cb t = None")
    case True
    then show ?thesis using inv r t by (auto simp: Timer_refresh_def same_timers_def)
  next
    case False
    let ?h = "(tm_heap m)(p \<mapsto> t\<lparr>t_next := now + t_ms t\<rparr>)"
    obtain ts where ts: "oset_erase (tm_timers m) (oset_find (timer_less (tm_heap m)) (tm_timers m) p) = Some ts"
        "oset_find (timer_less (tm_heap m)) (tm_timers m) p \<noteq> length (tm_timers m)"
        "inv_pending (m\<lparr>tm_heap := ?h, tm_timers := ts\<rparr>) [p]" "insert p (set ts) = set (tm_timers m)"
      using inv_reinsert [OF inv t False, of "t\<lparr>t_next := now + t_ms t\<rparr>"] by auto
    have m': "m' = m\<lparr>tm_heap := ?h, tm_timers := fst (oset_insert (timer_less ?h) ts p)\<rparr>"
      using r t False ts(1,2) by (auto simp: Timer_refresh_def Let_def)
    have "set (tm_timers m') = insert p (set ts)"
      using insert_timer(2) [OF inv_pendingD(1) [OF ts(3)]] inv_pendingD(5) [OF ts(3), of p] by (simp add: m')
    then show ?thesis using inv_put_back [OF ts(3)] ts(4) t by (auto simp: m' inv_pending_Nil same_timers_def)
  qed
qed

lemma reset_inv:
  assumes inv: "TimerManager_inv m" and r: "Timer_reset m now p ms from_now = Some (b, f, m')"
  shows "TimerManager_inv m' \<and> same_timers m m'"
proof -
  obtain t where t: "tm_heap m p = Some t" using r by (auto simp: Timer_reset_def split: option.splits)
  show ?thesis
  proof (cases "ms = t_ms t \<and> \<not> from_now \<or> t_cb t = None")
    case True
    then show ?thesis using inv r t by (auto simp: Timer_reset_def same_timers_def split: if_splits)
  next
    case False
    let ?t = "t\<lparr>t_ms := ms, t_next := (if from_now then now else t_next t - t_ms t) + ms\<rparr>"
    let ?h = "(tm_heap m)(p \<mapsto> ?t)"
    obtain ts where ts: "oset_erase (tm_timers m) (oset_find (timer_less (tm_heap m)) (tm_timers m) p) = Some ts"
        "oset_find (timer_less (tm_heap m)) (tm_timers m) p \<noteq> length (tm_timers m)"
        "inv_pending (m\<lparr>tm_heap := ?h, tm_timers := ts\<rparr>) [p]" "insert p (set ts) = set (tm_timers m)"
      using inv_reinsert [OF inv t, of ?t] False by auto
    have "(b, f, m') = (True, TimerManager_insert (m\<lparr>tm_heap := ?h, tm_timers := ts\<rparr>) p)"
      using r t False ts(1,2) by (auto simp: Timer_reset_def Let_def split: if_splits)
    then have m': "m' = snd (TimerManager_insert (m\<lparr>tm_heap := ?h, tm_timers := ts\<rparr>) p)"
      by (metis prod.inject prod.collapse)
    show ?thesis
      using inv_insert [OF ts(3)] insert_timers_set [OF ts(3)] ts(4) t by (auto simp: m' same_timers_def)
  qed
qed

lemma add_pending:
  assumes "TimerManager_inv m" and "tm_heap m p = None"
  shows "inv_pending (m\<lparr>tm_heap := (tm_heap m)(p \<mapsto> new_Timer now ms (Some cb) rec)\<rparr>) [p]"
proof -
  have "p \<notin> set (tm_timers m)" using assms by (auto simp: TimerManager_inv_def)
  then show ?thesis
    using assms by (auto simp: inv_pending_def TimerManager_inv_def sorted_timers_upd new_Timer_def)
qed

lemma getNextTimer_state: "snd (TimerManager_getNextTimer m now) = m\<lparr>tm_tickled := False\<rparr>"
  by (simp add: TimerManager_getNextTimer_def Let_def split: list.split)

lemma step_inv: "tm_step m m' \<Longrightarrow> TimerManager_inv m \<Longrightarrow> TimerManager_inv m'"
proof (induction rule: tm_step.induct)
  case (s_add m p now ms cb rec)
  then show ?case using inv_insert [OF add_pending] by (simp add: TimerManager_addTimer_def)
next
  case (s_cancel m p b m')
  then obtain t where "tm_heap m p = Some t" by (auto simp: Timer_cancel_def split: option.splits)
  then show ?case using cancel_inv [of m p] s_cancel by auto
next
  case (s_next m now)
  then show ?case by (simp add: getNextTimer_state TimerManager_inv_def)
next
  case (s_expired m q now)
  obtain cbs m' where "TimerManager_listExpiredCb m now q = (cbs, m')" by fastforce
  then show ?case using listExpiredCb_result [OF s_expired(2,1)] by (simp add: expiry_result_def)
qed (blast dest: refresh_inv reset_inv)+

lemma tm_reachable_inv: "tm_reachable m \<Longrightarrow> TimerManager_inv m"
proof (induction rule: tm_reachable.induct)
  case (tm_new now)
  then show ?case by (simp add: TimerManager_inv_def new_TimerManager_def)
qed (rule step_inv)

text \<open>A timer without a callback never comes back.\<close>

definition retired :: "'f TimerManager \<Rightarrow> nat \<Rightarrow> bool" where
  "retired m p \<longleftrightarrow> (\<exists>t. tm_heap m p = Some t \<and> t_cb t = None)"

lemma expired_no_cb: "t_cb t = None \<Longrightarrow> t_cb (expired now t) = None"
  by (simp add: expired_def)

lemma retired_step: "tm_step m m' \<Longrightarrow> TimerManager_inv m \<Longrightarrow> retired m p \<Longrightarrow> retired m' p"
proof (induction rule: tm_step.induct)
  case (s_add m q now ms cb rec)
  then show ?case
    using insert_timers_set(2) [OF add_pending [OF s_add(2,1)]] by (auto simp: TimerManager_addTimer_def retired_def)
next
  case (s_cancel m q b m')
  then obtain t where "tm_heap m q = Some t" by (auto simp: Timer_cancel_def split: option.splits)
  then show ?case using cancel_inv [of m q t] s_cancel by (auto simp: retired_def)
next
  case (s_refresh m now q b m')
  then have "map_option t_cb (tm_heap m' p) = map_option t_cb (tm_heap m p)"
    using refresh_inv [OF s_refresh(2,1)] by (simp add: same_timers_def)
  then show ?case using s_refresh(3) by (auto simp: retired_def)
next
  case (s_reset m now q ms from_now b f m')
  then have "map_option t_cb (tm_heap m' p) = map_option t_cb (tm_heap m p)"
    using reset_inv [OF s_reset(2,1)] by (simp add: same_timers_def)
  then show ?case using s_reset(3) by (auto simp: retired_def)
next
  case (s_next m now)
  then show ?case by (simp add: getNextTimer_state retired_def)
next
  case (s_expired m q now)
  obtain cbs m' where "TimerManager_listExpiredCb m now q = (cbs, m')" by fastforce
  then show ?case
    using listExpiredCb_result [OF s_expired(2,1)] s_expired(3) expired_no_cb
    by (auto simp: expiry_result_def retired_def)
qed

lemma retired_steps:
  assumes "tm_step\<^sup>*\<^sup>* m m'" and "TimerManager_inv m" and "retired m p"
  shows "TimerManager_inv m' \<and> retired m' p"
  using assms by (induction rule: rtranclp_induct) (auto intro: step_inv retired_step)

lemma due_subset: "set (due m now) \<subseteq> set (tm_timers m)"
  by (auto simp: due_def)

lemma retired_not_due: "TimerManager_inv m \<Longrightarrow> retired m p \<Longrightarrow> p \<notin> set (due m now)"
  using due_subset [of m now] by (fastforce simp: TimerManager_inv_def retired_def)

end
