(* ===== verification/TimerProps.thy ===== *)
theory TimerProps
  imports Timer
begin

text \<open>
  The properties of the timer manager: which callbacks expire and in which order, what
  cancelling guarantees, how long the idle thread may sleep, and that inserting an earlier
  deadline wakes it.
\<close>

section \<open>Definitions\<close>

text \<open>A run of \<open>addTimer\<close> calls and whether each of them called \<open>onTimerInsertAtFront\<close>.\<close>

primrec add_timers :: "(u64 \<times> nat \<times> u64 \<times> 'f timer_cb \<times> bool) list \<Rightarrow> 'f TimerManager \<Rightarrow> bool list \<times> 'f TimerManager" where
  "add_timers [] m = ([], m)"
| "add_timers (a # as) m =
     (case a of (now, p, ms, cb, rec) \<Rightarrow>
      case TimerManager_addTimer m now p ms (Some cb) rec of (_, f, m1) \<Rightarrow>
      case add_timers as m1 of (fs, m2) \<Rightarrow> (f # fs, m2))"

definition tm1 :: "nat TimerManager" where
  "tm1 = \<lparr>tm_timers = [7], tm_tickled = True, tm_previousTime = 100,
     tm_heap = [7 \<mapsto> \<lparr>t_recurring = False, t_ms = 50, t_next = 150, t_cb = Some (Callback 1)\<rparr>]\<rparr>"

definition tm2 :: "nat TimerManager" where
  "tm2 = \<lparr>tm_timers = [7, 3], tm_tickled = True, tm_previousTime = 100,
     tm_heap = [7 \<mapsto> \<lparr>t_recurring = False, t_ms = 50, t_next = 150, t_cb = Some (Callback 1)\<rparr>,
                3 \<mapsto> \<lparr>t_recurring = True, t_ms = 70, t_next = 180, t_cb = Some (Callback 2)\<rparr>]\<rparr>"

section \<open>Shared lemmas\<close>

lemma reachable_tm1: "tm_reachable tm1"
proof -
  have "tm_reachable (snd (snd (TimerManager_addTimer (new_TimerManager 100) 100 7 50 (Some (Callback (1::nat))) False)))"
    by (rule tm_more [OF tm_new s_add]) (simp add: new_TimerManager_def)
  moreover have "snd (snd (TimerManager_addTimer (new_TimerManager 100) 100 7 50 (Some (Callback 1)) False)) = tm1"
    by (simp add: TimerManager_addTimer_def TimerManager_insert_def new_TimerManager_def tm1_def
        oset_insert_def oset_lower_bound_def new_Timer_def Let_def)
  ultimately show ?thesis by simp
qed

lemma reachable_tm2: "tm_reachable tm2"
proof -
  have "tm_reachable (snd (snd (TimerManager_addTimer tm1 110 3 70 (Some (Callback 2)) True)))"
    by (rule tm_more [OF reachable_tm1 s_add]) (simp add: tm1_def)
  moreover have "snd (snd (TimerManager_addTimer tm1 110 3 70 (Some (Callback 2)) True)) = tm2"
    by (simp add: TimerManager_addTimer_def TimerManager_insert_def tm1_def tm2_def
        oset_insert_def oset_lower_bound_def new_Timer_def timer_less_iff Let_def)
  ultimately show ?thesis by simp
qed

lemma timers_in_order:
  assumes "TimerManager_inv m" and "tm_timers m = p # ps" and "q \<in> set ps"
  shows "t_deadline m p \<le> t_deadline m q"
  using assms by (auto simp: TimerManager_inv_def timer_less_iff t_deadline_def)

lemma getNextTimer_value:
  assumes inv: "TimerManager_inv m" and ts: "tm_timers m \<noteq> []"
  shows "\<exists>p \<in> set (tm_timers m). (\<forall>q \<in> set (tm_timers m). t_deadline m p \<le> t_deadline m q)
    \<and> fst (TimerManager_getNextTimer m now) = (if t_deadline m p \<le> now then 0 else t_deadline m p - now)"
proof -
  obtain p ps where p: "tm_timers m = p # ps" using ts by (cases "tm_timers m") auto
  then have "\<forall>q \<in> set (tm_timers m). t_deadline m p \<le> t_deadline m q"
    using timers_in_order [OF inv p] by auto
  then show ?thesis using p by (auto simp: TimerManager_getNextTimer_def Let_def t_deadline_def)
qed

lemma add_front:
  assumes inv: "TimerManager_inv m" and p: "tm_heap m p = None" and t: "\<not> tm_tickled m"
    and a: "TimerManager_addTimer m now p ms (Some cb) rec = (q, f, m')"
  shows "TimerManager_inv m' \<and> (if f then tm_tickled m' \<and> hd (tm_timers m') = p
    else \<not> tm_tickled m' \<and> tm_timers m \<noteq> [] \<and> hd (tm_timers m') = hd (tm_timers m))"
proof -
  let ?h = "(tm_heap m)(p \<mapsto> new_Timer now ms (Some cb) rec)"
  let ?lb = "oset_lower_bound (timer_less ?h) (tm_timers m) p"
  have f: "f = (snd (oset_insert (timer_less ?h) (tm_timers m) p) = 0)"
    and m': "tm_timers m' = fst (oset_insert (timer_less ?h) (tm_timers m) p)" "tm_tickled m' = f"
    using a t by (auto simp: TimerManager_addTimer_def TimerManager_insert_def Let_def split: prod.splits)
  have ps: "p \<notin> set (tm_timers m)" using inv p by (auto simp: TimerManager_inv_def)
  have s: "sorted_wrt (timer_less ?h) (tm_timers m)"
    using inv_pendingD(1) [OF add_pending [OF inv p]] by simp
  have c: "timer_less ?h p y \<or> timer_less ?h y p" if "y \<in> set (tm_timers m)" for y
    using that ps timer_less_total by metis
  have new: "fst (oset_insert (timer_less ?h) (tm_timers m) p) = take ?lb (tm_timers m) @ p # drop ?lb (tm_timers m)"
    by (rule timers.insert_new(1) [OF c s])
  have lb: "snd (oset_insert (timer_less ?h) (tm_timers m) p) = ?lb" by (simp add: oset_insert_def Let_def)
  have "tm_timers m \<noteq> []" if "?lb \<noteq> 0" using that by (auto simp: oset_lower_bound_def)
  moreover have "TimerManager_inv m'"
    using step_inv [OF s_add [OF p] inv, of now ms cb rec] a by simp
  ultimately show ?thesis using f m' new lb by (cases "tm_timers m") (auto simp: hd_append take_eq_Nil)
qed

lemma add_timers_front:
  assumes "TimerManager_inv m" and "\<not> tm_tickled m" and "add_timers as m = (fs, m')"
    and "distinct (map (fst \<circ> snd) as)" and "\<forall>a \<in> set as. tm_heap m (fst (snd a)) = None" and "True \<notin> set fs"
  shows "as = [] \<or> tm_timers m \<noteq> [] \<and> hd (tm_timers m') = hd (tm_timers m)"
  using assms
proof (induction as arbitrary: m fs)
  case (Cons a as)
  obtain now p ms cb rec where a: "a = (now, p, ms, cb, rec)" by (cases a) auto
  obtain q f m1 where add: "TimerManager_addTimer m now p ms (Some cb) rec = (q, f, m1)" using prod_cases3 by blast
  obtain fs' where r: "add_timers as m1 = (fs', m')" "fs = f # fs'"
    using Cons.prems(3) a add by (auto split: prod.splits)
  have p: "tm_heap m p = None" using Cons.prems(5) a by simp
  have f: "\<not> f" using Cons.prems(6) r(2) by auto
  note one = add_front [OF Cons.prems(1) p Cons.prems(2) add]
  have h: "tm_heap m1 = (tm_heap m)(p \<mapsto> new_Timer now ms (Some cb) rec)"
    using add by (auto simp: TimerManager_addTimer_def TimerManager_insert_def Let_def split: prod.splits)
  have "as = [] \<or> tm_timers m1 \<noteq> [] \<and> hd (tm_timers m') = hd (tm_timers m1)"
    using Cons.prems(4,5,6) a r(2) one f h by (intro Cons.IH [OF _ _ r(1)]) (auto simp: image_iff)
  then show ?case using one f r(1) by auto
qed simp

section \<open>Properties\<close>



text \<open>C27: Cancelling is safe and final.  For every timer the manager handed out, \<open>cancel\<close>
finds the timer in the set whenever it still has a callback, so it never erases
\<open>end()\<close>; its result says whether it was pending, and whatever operations follow, at
whatever times, the timer is not among those that expire.\<close>

theorem cancelled_timer_never_fires:
  assumes "tm_reachable m" and "tm_heap m p = Some t"
  shows "\<exists>m1. Timer_cancel m p = Some (t_cb t \<noteq> None, m1) \<and>
    (\<forall>m2 now q. tm_step\<^sup>*\<^sup>* m1 m2 \<longrightarrow> tm_heap m2 q = None \<longrightarrow>
       p \<notin> set (tm_timers m2) \<and>
       (\<exists>ps. p \<notin> set ps \<and> fst (TimerManager_listExpiredCb m2 now q) = map (\<lambda>p. t_cb (the (tm_heap m2 p))) ps))"
proof -
  obtain m1 where m1: "Timer_cancel m p = Some (t_cb t \<noteq> None, m1)" "TimerManager_inv m1"
      "tm_heap m1 = (tm_heap m)(p \<mapsto> t\<lparr>t_cb := None\<rparr>)"
    using cancel_inv [OF tm_reachable_inv [OF assms(1)] assms(2)] by blast
  have r: "retired m1 p" by (simp add: retired_def m1(3))
  have "p \<notin> set (tm_timers m2) \<and>
      (\<exists>ps. p \<notin> set ps \<and> fst (TimerManager_listExpiredCb m2 now q) = map (\<lambda>p. t_cb (the (tm_heap m2 p))) ps)"
    if steps: "tm_step\<^sup>*\<^sup>* m1 m2" and q: "tm_heap m2 q = None" for m2 now q
  proof -
    have m2: "TimerManager_inv m2" "retired m2 p" using retired_steps [OF steps m1(2) r] by auto
    then have "p \<notin> set (tm_timers m2)" by (auto simp: TimerManager_inv_def retired_def)
    moreover have "fst (TimerManager_listExpiredCb m2 now q) = map (\<lambda>p. t_cb (the (tm_heap m2 p))) (due m2 now)"
      using listExpiredCb_result [OF m2(1) q surjective_pairing, of now] by (simp add: expiry_result_def)
    ultimately show ?thesis using retired_not_due [OF m2] by blast
  qed
  then show ?thesis using m1(1) by blast
qed

theorem cancelled_timer_never_fires_witness:
  "\<exists>m1. Timer_cancel tm2 3 = Some (True, m1) \<and> 3 \<notin> set (tm_timers m1)"
proof -
  obtain m1 where m1: "Timer_cancel tm2 3 = Some (True, m1)"
      "\<And>m2 q. tm_step\<^sup>*\<^sup>* m1 m2 \<Longrightarrow> tm_heap m2 q = None \<Longrightarrow> 3 \<notin> set (tm_timers m2)"
    using cancelled_timer_never_fires [OF reachable_tm2, of 3] by (fastforce simp: tm2_def)
  have "tm_heap m1 9 = None"
    using m1(1) by (auto simp: Timer_cancel_def tm2_def Let_def split: option.splits)
  then show ?thesis using m1 by blast
qed

text \<open>Sleeping time.  \<open>getNextTimer\<close> returns the maximal value exactly when no timer is
set (for deadlines less than that away), 0 exactly when a timer is due, and otherwise the
distance to the earliest deadline.\<close>

theorem getNextTimer_exact:
  assumes "tm_reachable m" and "tm_timers m \<noteq> []"
  shows "(fst (TimerManager_getNextTimer m now) = 0 \<longleftrightarrow> (\<exists>p \<in> set (tm_timers m). t_deadline m p \<le> now))
    \<and> (\<forall>p \<in> set (tm_timers m). now < t_deadline m p \<longrightarrow>
         fst (TimerManager_getNextTimer m now) \<le> t_deadline m p - now)
    \<and> ((\<forall>p \<in> set (tm_timers m). now < t_deadline m p) \<longrightarrow>
         (\<exists>p \<in> set (tm_timers m). fst (TimerManager_getNextTimer m now) = t_deadline m p - now))"
proof -
  obtain p where p: "p \<in> set (tm_timers m)" "\<forall>q \<in> set (tm_timers m). t_deadline m p \<le> t_deadline m q"
      "fst (TimerManager_getNextTimer m now) = (if t_deadline m p \<le> now then 0 else t_deadline m p - now)"
    using getNextTimer_value [OF tm_reachable_inv [OF assms(1)] assms(2)] by blast
  have le: "t_deadline m p - now \<le> t_deadline m q - now" if "q \<in> set (tm_timers m)" "now < t_deadline m p" for q
  proof -
    have "t_deadline m p \<le> t_deadline m q" using p(2) that(1) by blast
    then show ?thesis using that(2) by (simp add: word_le_nat_alt word_less_nat_alt unat_sub)
  qed
  show ?thesis using p le by (auto simp: not_le intro: order_trans)
qed

theorem getNextTimer_exact_witness:
  "fst (TimerManager_getNextTimer tm2 150) = 0 \<and> fst (TimerManager_getNextTimer tm2 149) \<noteq> 0"
  using getNextTimer_exact [OF reachable_tm2, of 150] getNextTimer_exact [OF reachable_tm2, of 149]
  by (simp add: tm2_def t_deadline_def)

text \<open>C28: No lost wake-up.  After \<open>getNextTimer\<close> told the idle thread how long to sleep, a
run of \<open>addTimer\<close> calls of which none called \<open>onTimerInsertAtFront\<close> left the earliest
timer the same; so whenever the earliest deadline changes by an insertion the thread has
been woken.\<close>

theorem insert_wakes_sleeper:
  assumes "tm_reachable m"
    and "add_timers as (snd (TimerManager_getNextTimer m now)) = (fs, m')"
    and "distinct (map (fst \<circ> snd) as)" and "\<forall>a \<in> set as. tm_heap m (fst (snd a)) = None"
    and "True \<notin> set fs"
  shows "as = [] \<or> tm_timers m \<noteq> [] \<and> hd (tm_timers m') = hd (tm_timers m)"
proof -
  have "TimerManager_inv (m\<lparr>tm_tickled := False\<rparr>)"
    using tm_reachable_inv [OF assms(1)] by (simp add: TimerManager_inv_def)
  from add_timers_front [OF this _ assms(2) [unfolded getNextTimer_state] assms(3)] assms(4,5)
  show ?thesis by simp
qed

theorem insert_wakes_sleeper_witness:
  "fst (add_timers [(120, 4, 500, Callback 3, False)] (snd (TimerManager_getNextTimer tm2 120))) = [False]
   \<and> hd (tm_timers (snd (add_timers [(120, 4, 500, Callback 3, False)] (snd (TimerManager_getNextTimer tm2 120))))) = 7"
  using insert_wakes_sleeper [OF reachable_tm2, of "[(120, 4, 500, Callback 3, False)]" 120, OF surjective_pairing]
  by (simp add: tm2_def getNextTimer_state TimerManager_addTimer_def TimerManager_insert_def
      oset_insert_def oset_lower_bound_def new_Timer_def timer_less_iff Let_def)

text \<open>Progress.  After \<open>listExpiredCb\<close> at time \<open>now\<close> no timer is due at \<open>now\<close>, so the
idle loop does not spin, provided the period of each recurring timer is positive and does
not wrap the clock.\<close>

theorem nothing_due_after_expiry:
  assumes "tm_reachable m" and "tm_heap m q = None"
    and "\<And>p t. tm_heap m p = Some t \<Longrightarrow> t_recurring t \<Longrightarrow> now < now + t_ms t"
    and "\<not> now < tm_previousTime m"
    and "TimerManager_listExpiredCb m now q = (cbs, m')"
  shows "\<forall>p \<in> set (tm_timers m'). now < t_deadline m' p"
proof
  fix p assume p: "p \<in> set (tm_timers m')"
  note inv = tm_reachable_inv [OF assms(1)]
  have d: "due m now = filter (\<lambda>p. t_deadline m p \<le> now) (tm_timers m)"
    using assms(4) by (simp add: due_def TimerManager_deleteClockRollover_def)
  note r = listExpiredCb_result [OF inv assms(2,5)]
  have "p \<in> set (tm_timers m)" using r p by (auto simp: expiry_result_def d)
  then obtain t where t: "tm_heap m p = Some t" using inv by (auto simp: TimerManager_inv_def)
  show "now < t_deadline m' p"
    using r p t assms(3) [OF t] by (auto simp: expiry_result_def d t_deadline_def expired_def split: if_splits)
qed

theorem nothing_due_after_expiry_witness:
  "list_all (\<lambda>p. 200 < t_deadline (snd (TimerManager_listExpiredCb tm2 200 9)) p)
     (tm_timers (snd (TimerManager_listExpiredCb tm2 200 9)))"
  unfolding list_all_iff
  by (rule nothing_due_after_expiry [OF reachable_tm2, of 9 200, OF _ _ _ surjective_pairing])
    (auto simp: tm2_def split: if_splits)

end
