(* ===== verification/Util.thy ===== *)
theory Util
  imports Prelude
begin

text \<open>
  The string and time utilities (\<open>src/megalo/util.cc\<close>): URL encoding and decoding, trimming,
  letter case, the clock readings, the formatting of a backtrace, and the conversions of times and
  wide text.

  A \<open>std::string\<close> is a HOL \<open>string\<close>, a list of 8 bit characters.  The character class and
  case functions of the C library are those of the C locale.  What the operating system and the
  C library deliver (the time of day, the symbols of a backtrace) is an argument.
\<close>

section \<open>Backtraces, clock, case\<close>

text \<open>\<open>strings\<close> is the result of \<open>backtrace_symbols\<close>, \<open>None\<close> when it fails.\<close>

definition Backtrace :: "string list option \<Rightarrow> string list \<Rightarrow> nat \<Rightarrow> string list" where
  "Backtrace strings bt skip = (case strings of None \<Rightarrow> bt | Some ss \<Rightarrow> bt @ drop skip ss)"

definition BacktraceToString :: "string list option \<Rightarrow> nat \<Rightarrow> string \<Rightarrow> string" where
  "BacktraceToString strings skip prefix =
     concat (map (\<lambda>s. prefix @ s @ [CHR 0x0A]) (Backtrace strings [] skip))"

definition GetCurrentMS :: "i64 \<Rightarrow> i64 \<Rightarrow> u64" where
  "GetCurrentMS tv_sec tv_usec =
     tv_sec * 1000 + word_of_int (sgn (sint tv_usec) * (\<bar>sint tv_usec\<bar> div 1000))"

definition GetCurrentUS :: "i64 \<Rightarrow> i64 \<Rightarrow> u64" where
  "GetCurrentUS tv_sec tv_usec = tv_sec * 1000 * 1000 + tv_usec"

definition c_toupper :: "char \<Rightarrow> char" where
  "c_toupper c = (let n = of_char c :: nat in if 97 \<le> n \<and> n \<le> 122 then char_of (n - 32) else c)"

definition c_tolower :: "char \<Rightarrow> char" where
  "c_tolower c = (let n = of_char c :: nat in if 65 \<le> n \<and> n \<le> 90 then char_of (n + 32) else c)"

definition c_isxdigit :: "char \<Rightarrow> bool" where
  "c_isxdigit c = (let n = of_char c :: nat in
     48 \<le> n \<and> n \<le> 57 \<or> 65 \<le> n \<and> n \<le> 70 \<or> 97 \<le> n \<and> n \<le> 102)"

definition ToUpper :: "string \<Rightarrow> string" where
  "ToUpper name = map c_toupper name"

definition ToLower :: "string \<Rightarrow> string" where
  "ToLower name = map c_tolower name"

section \<open>Time and text of the C library\<close>

text \<open>A \<open>std::string\<close> as the C functions see it: up to the first NUL.\<close>

definition c_str :: "string \<Rightarrow> string" where
  "c_str s = takeWhile (\<lambda>c. c \<noteq> CHR 0x00) s"

text \<open>
  \<open>strftime\<close> fills a buffer of 64 bytes; \<open>None\<close> is its failure, after which the buffer holds what
  the stack held.  \<open>strptime\<close> fills the zeroed time and fails on text that does not fit.
\<close>

definition util_Time2Str ::
  "(int \<Rightarrow> 'tm) \<Rightarrow> (nat \<Rightarrow> string \<Rightarrow> 'tm \<Rightarrow> string option) \<Rightarrow> string \<Rightarrow> int \<Rightarrow> string \<Rightarrow> string" where
  "util_Time2Str localtime strftime buf ts format =
     c_str (case strftime 64 (c_str format) (localtime ts) of None \<Rightarrow> buf | Some text \<Rightarrow> text)"

definition Str2Time :: "(string \<Rightarrow> string \<Rightarrow> 'tm \<Rightarrow> 'tm option) \<Rightarrow> ('tm \<Rightarrow> int) \<Rightarrow> 'tm \<Rightarrow> string \<Rightarrow> string \<Rightarrow> int" where
  "Str2Time strptime mktime zero str format =
     (case strptime str format zero of None \<Rightarrow> 0 | Some t \<Rightarrow> mktime t)"

text \<open>\<open>buf\<close> is what \<open>vasprintf\<close> makes of the arguments.\<close>

definition StringUtil_Formatv :: "string option \<Rightarrow> string" where
  "StringUtil_Formatv buf = (case buf of None \<Rightarrow> [] | Some text \<Rightarrow> text)"

text \<open>
  Conversions between narrow and wide text.  They depend on the locale, a state of the process:
  \<open>setlocale(LC_ALL, "")\<close> sets that of the environment and returns its name, so the second call
  sets it once more.  When the library cannot convert, the size is \<open>-1 + 1\<close> and the empty array is
  read beyond its end: \<open>None\<close>.
\<close>

definition WStringToString ::
  "string \<Rightarrow> (string \<Rightarrow> 'wchar list \<Rightarrow> string option) \<Rightarrow> 'wchar list \<Rightarrow> string \<Rightarrow> string option \<times> string" where
  "WStringToString environment wcstombs ws locale =
     (let str_locale = environment in (map_option c_str (wcstombs environment ws), str_locale))"

definition StringToWString ::
  "string \<Rightarrow> (string \<Rightarrow> string \<Rightarrow> 'wchar list option) \<Rightarrow> string \<Rightarrow> string \<Rightarrow> 'wchar list option \<times> string" where
  "StringToWString environment mbstowcs s locale =
     (let str_locale = environment in (mbstowcs environment (c_str s), str_locale))"

text \<open>Stream output of unsigned numbers, decimal and hexadecimal.\<close>

function nat_text :: "nat \<Rightarrow> nat \<Rightarrow> string" where
  "nat_text base n =
     (if base < 2 \<or> n < base then [''0123456789abcdef'' ! n]
      else nat_text base (n div base) @ [''0123456789abcdef'' ! (n mod base)])"
  by pat_completeness auto
termination
  by (relation "measure snd") (auto intro: div_less_dividend)

declare nat_text.simps [simp del]

section \<open>URL encoding\<close>

definition uri_chars :: "nat list" where
  "uri_chars = [
    0, 0, 0, 0, 0, 0, 0, 0,   0, 0, 0, 0, 0, 0, 0, 0,
    0, 0, 0, 0, 0, 0, 0, 0,   0, 0, 0, 0, 0, 0, 0, 0,
    0, 0, 0, 0, 0, 0, 0, 0,   0, 0, 0, 0, 0, 1, 1, 0,
    1, 1, 1, 1, 1, 1, 1, 1,   1, 1, 0, 0, 0, 1, 0, 0,
    0, 1, 1, 1, 1, 1, 1, 1,   1, 1, 1, 1, 1, 1, 1, 1,
    1, 1, 1, 1, 1, 1, 1, 1,   1, 1, 1, 0, 0, 0, 0, 1,
    0, 1, 1, 1, 1, 1, 1, 1,   1, 1, 1, 1, 1, 1, 1, 1,
    1, 1, 1, 1, 1, 1, 1, 1,   1, 1, 1, 0, 0, 0, 1, 0] @ replicate 128 0"

definition xdigit_chars :: "nat list" where
  "xdigit_chars = replicate 48 0 @
    [0, 1, 2, 3, 4, 5, 6, 7, 8, 9, 0, 0, 0, 0, 0, 0,
     0, 10, 11, 12, 13, 14, 15, 0, 0, 0, 0, 0, 0, 0, 0, 0,
     0, 0, 0, 0, 0, 0, 0, 0, 0, 0, 0, 0, 0, 0, 0, 0,
     0, 10, 11, 12, 13, 14, 15, 0, 0, 0, 0, 0, 0, 0, 0, 0] @ replicate 144 0"

definition CHAR_IS_UNRESERVED :: "char \<Rightarrow> bool" where
  "CHAR_IS_UNRESERVED c = (uri_chars ! of_char c \<noteq> 0)"

definition hexdigits :: string where
  "hexdigits = ''0123456789ABCDEF''"

text \<open>The bytes appended for a character that is not unreserved.\<close>

definition url_escape :: "char \<Rightarrow> bool \<Rightarrow> string" where
  "url_escape c space_as_plus =
     (if c = CHR '' '' \<and> space_as_plus then ''+''
      else [CHR ''%'', hexdigits ! (of_char c div 16), hexdigits ! (of_char c mod 16)])"

text \<open>
  The loops keep the text before the cursor (\<open>pre\<close>) and the output string, which is only
  allocated (\<open>Some\<close>) when a first character differs from the input.
\<close>

fun UrlEncode_loop :: "bool \<Rightarrow> string \<Rightarrow> string option \<Rightarrow> string \<Rightarrow> string option" where
  "UrlEncode_loop sp pre ss [] = ss"
| "UrlEncode_loop sp pre ss (c # cs) =
     UrlEncode_loop sp (pre @ [c])
       (if \<not> CHAR_IS_UNRESERVED c then Some ((case ss of None \<Rightarrow> pre | Some s \<Rightarrow> s) @ url_escape c sp)
        else case ss of None \<Rightarrow> None | Some s \<Rightarrow> Some (s @ [c])) cs"

definition UrlEncode :: "string \<Rightarrow> bool \<Rightarrow> string" where
  "UrlEncode str sp = (case UrlEncode_loop sp [] None str of None \<Rightarrow> str | Some s \<Rightarrow> s)"

definition url_byte :: "char \<Rightarrow> char \<Rightarrow> char" where
  "url_byte a b = char_of (xdigit_chars ! of_char a * 16 + xdigit_chars ! of_char b)"

fun UrlDecode_loop :: "bool \<Rightarrow> string \<Rightarrow> string option \<Rightarrow> string \<Rightarrow> string option" where
  "UrlDecode_loop sp pre ss [] = ss"
| "UrlDecode_loop sp pre ss (c # cs) =
     (if c = CHR ''+'' \<and> sp
      then UrlDecode_loop sp (pre @ [c]) (Some ((case ss of None \<Rightarrow> pre | Some s \<Rightarrow> s) @ '' '')) cs
      else (case cs of
        a # b # cs' \<Rightarrow>
          if c = CHR ''%'' \<and> c_isxdigit a \<and> c_isxdigit b
          then UrlDecode_loop sp (pre @ [c, a, b]) (Some ((case ss of None \<Rightarrow> pre | Some s \<Rightarrow> s) @ [url_byte a b])) cs'
          else UrlDecode_loop sp (pre @ [c]) (case ss of None \<Rightarrow> None | Some s \<Rightarrow> Some (s @ [c])) cs
      | _ \<Rightarrow> UrlDecode_loop sp (pre @ [c]) (case ss of None \<Rightarrow> None | Some s \<Rightarrow> Some (s @ [c])) cs))"

definition UrlDecode :: "string \<Rightarrow> bool \<Rightarrow> string" where
  "UrlDecode str sp = (case UrlDecode_loop sp [] None str of None \<Rightarrow> str | Some s \<Rightarrow> s)"

section \<open>Trimming\<close>

definition find_first_not_of :: "string \<Rightarrow> string \<Rightarrow> nat option" where
  "find_first_not_of str delimit =
     (let i = length (takeWhile (\<lambda>c. c \<in> set delimit) str) in if i < length str then Some i else None)"

definition find_last_not_of :: "string \<Rightarrow> string \<Rightarrow> nat option" where
  "find_last_not_of str delimit =
     (let i = length (takeWhile (\<lambda>c. c \<in> set delimit) (rev str)) in
      if i < length str then Some (length str - 1 - i) else None)"

definition str_substr :: "string \<Rightarrow> nat \<Rightarrow> nat \<Rightarrow> string" where
  "str_substr str pos n = take n (drop pos str)"

definition StringUtil_Trim :: "string \<Rightarrow> string \<Rightarrow> string" where
  "StringUtil_Trim str delimit =
     (case find_first_not_of str delimit of None \<Rightarrow> []
      | Some b \<Rightarrow> (case find_last_not_of str delimit of
          None \<Rightarrow> str_substr str b (length str)
        | Some e \<Rightarrow> str_substr str b (e - b + 1)))"

definition StringUtil_TrimLeft :: "string \<Rightarrow> string \<Rightarrow> string" where
  "StringUtil_TrimLeft str delimit =
     (case find_first_not_of str delimit of None \<Rightarrow> [] | Some b \<Rightarrow> drop b str)"

definition StringUtil_TrimRight :: "string \<Rightarrow> string \<Rightarrow> string" where
  "StringUtil_TrimRight str delimit =
     (case find_last_not_of str delimit of None \<Rightarrow> [] | Some e \<Rightarrow> str_substr str 0 e)"

section \<open>The codec, one character at a time\<close>

definition enc_char :: "bool \<Rightarrow> char \<Rightarrow> string" where
  "enc_char sp c = (if CHAR_IS_UNRESERVED c then [c] else url_escape c sp)"

lemma UrlEncode_loop_out:
  "(case UrlEncode_loop sp pre ss cs of None \<Rightarrow> pre @ cs | Some s \<Rightarrow> s)
   = (case ss of None \<Rightarrow> pre | Some s \<Rightarrow> s) @ concat (map (enc_char sp) cs)"
  by (induction sp pre ss cs rule: UrlEncode_loop.induct)
    (auto simp: enc_char_def split: option.split)

lemma UrlEncode_concat: "UrlEncode str sp = concat (map (enc_char sp) str)"
  using UrlEncode_loop_out [where sp = sp and pre = "[]" and ss = None and cs = str] by (simp add: UrlEncode_def cong: option.case_cong)

fun url_decode :: "bool \<Rightarrow> string \<Rightarrow> string" where
  "url_decode sp [] = []"
| "url_decode sp (c # cs) =
     (if c = CHR ''+'' \<and> sp then CHR '' '' # url_decode sp cs
      else (case cs of
        a # b # cs' \<Rightarrow> if c = CHR ''%'' \<and> c_isxdigit a \<and> c_isxdigit b then url_byte a b # url_decode sp cs'
                     else c # url_decode sp cs
      | _ \<Rightarrow> c # url_decode sp cs))"

lemma UrlDecode_loop_out:
  "(case UrlDecode_loop sp pre ss cs of None \<Rightarrow> pre @ cs | Some s \<Rightarrow> s)
   = (case ss of None \<Rightarrow> pre | Some s \<Rightarrow> s) @ url_decode sp cs"
proof (induction "length cs" arbitrary: pre ss cs rule: less_induct)
  case less
  let ?o = "case ss of None \<Rightarrow> pre | Some s \<Rightarrow> s"
  show ?case
  proof (cases cs)
    case (Cons c cs1)
    consider (plus) "c = CHR ''+'' \<and> sp"
      | (hex) a b cs2 where "\<not> (c = CHR ''+'' \<and> sp)" "cs1 = a # b # cs2" "c = CHR ''%'' \<and> c_isxdigit a \<and> c_isxdigit b"
      | (plain) "\<not> (c = CHR ''+'' \<and> sp)" "\<forall>a b cs2. cs1 = a # b # cs2 \<longrightarrow> \<not> (c = CHR ''%'' \<and> c_isxdigit a \<and> c_isxdigit b)"
      by blast
    then show ?thesis
    proof cases
      case plus
      have "UrlDecode_loop sp pre ss cs = UrlDecode_loop sp (pre @ [c]) (Some (?o @ '' '')) cs1"
        using plus Cons by simp
      moreover have "url_decode sp cs = CHR '' '' # url_decode sp cs1" using plus Cons by simp
      ultimately show ?thesis using less [of cs1 "pre @ [c]" "Some (?o @ '' '')"] Cons
        by (simp add: Cons cong: option.case_cong del: UrlDecode_loop.simps url_decode.simps)
    next
      case hex
      have "UrlDecode_loop sp pre ss cs = UrlDecode_loop sp (pre @ [c, a, b]) (Some (?o @ [url_byte a b])) cs2"
        using hex Cons by simp
      moreover have "url_decode sp cs = url_byte a b # url_decode sp cs2" using hex Cons by simp
      ultimately show ?thesis using less [of cs2 "pre @ [c, a, b]" "Some (?o @ [url_byte a b])"] Cons hex(2)
        by (simp add: Cons cong: option.case_cong del: UrlDecode_loop.simps url_decode.simps)
    next
      case plain
      let ?ss = "case ss of None \<Rightarrow> None | Some s \<Rightarrow> Some (s @ [c])"
      have "UrlDecode_loop sp pre ss cs = UrlDecode_loop sp (pre @ [c]) ?ss cs1"
        using plain unfolding Cons
        by (subst UrlDecode_loop.simps) (auto split: list.split simp del: UrlDecode_loop.simps)
      moreover have "url_decode sp cs = c # url_decode sp cs1"
        using plain unfolding Cons
        by (subst url_decode.simps) (auto split: list.split simp del: url_decode.simps)
      ultimately show ?thesis using less [of cs1 "pre @ [c]" ?ss] Cons
        by (cases ss) (simp add: Cons cong: option.case_cong del: UrlDecode_loop.simps url_decode.simps)+
    qed
  qed (simp cong: option.case_cong)
qed

lemma UrlDecode_url_decode: "UrlDecode str sp = url_decode sp str"
  using UrlDecode_loop_out [where sp = sp and pre = "[]" and ss = None and cs = str] by (simp add: UrlDecode_def cong: option.case_cong)

text \<open>The tables: runs of equal entries, and the sixteen digits.\<close>

lemma uri_chars_ranges:
  "uri_chars = map (\<lambda>n. if n = 45 \<or> n = 46 \<or> 48 \<le> n \<and> n \<le> 57 \<or> n = 61 \<or> 65 \<le> n \<and> n \<le> 90 \<or> n = 95
    \<or> 97 \<le> n \<and> n \<le> 122 \<or> n = 126 then 1 else 0) [0..<128] @ replicate 128 0"
  unfolding uri_chars_def by (simp add: upt_rec)

lemma unreserved_iff:
  "CHAR_IS_UNRESERVED c \<longleftrightarrow> of_char c \<in> {45, 46, 61, 95, 126} \<union> {48..57} \<union> {65..90} \<union> ({97..122} :: nat set)"
proof -
  define n :: nat where "n = of_char c"
  have n: "n < 256" unfolding n_def by (rule nat_of_char_less_256)
  have "uri_chars ! n \<noteq> 0 \<longleftrightarrow> n \<in> {45, 46, 61, 95, 126} \<union> {48..57} \<union> {65..90} \<union> {97..122}"
    using n unfolding uri_chars_ranges by (auto simp: nth_append)
  then show ?thesis by (simp add: CHAR_IS_UNRESERVED_def n_def)
qed

lemma hexdigits_ok:
  "a < 16 \<Longrightarrow> c_isxdigit (hexdigits ! a) \<and> xdigit_chars ! of_char (hexdigits ! a) = a
     \<and> CHAR_IS_UNRESERVED (hexdigits ! a)"
proof -
  have "list_all (\<lambda>a. c_isxdigit (hexdigits ! a) \<and> xdigit_chars ! of_char (hexdigits ! a) = a
     \<and> CHAR_IS_UNRESERVED (hexdigits ! a)) [0..<16]" by code_simp
  then show "a < 16 \<Longrightarrow> ?thesis" by (simp add: list_all_iff)
qed

lemma char_nibbles: "of_char c div 16 < (16 :: nat)" "of_char c mod 16 < (16 :: nat)"
  using less_mult_imp_div_less [of "of_char c" 16 16] nat_of_char_less_256 [of c] by simp_all

lemma url_byte_hexdigits: "url_byte (hexdigits ! (of_char c div 16)) (hexdigits ! (of_char c mod 16)) = c"
  using hexdigits_ok [OF char_nibbles(1) [of c]] hexdigits_ok [OF char_nibbles(2) [of c]]
  by (simp add: url_byte_def)

lemma char_okD: "CHAR_IS_UNRESERVED c \<Longrightarrow> c \<noteq> CHR ''+'' \<and> c \<noteq> CHR ''%''"
  by (auto simp: unreserved_iff)

lemma url_decode_plain: "c \<noteq> CHR ''+'' \<Longrightarrow> c \<noteq> CHR ''%'' \<Longrightarrow> url_decode sp (c # cs) = c # url_decode sp cs"
  by (simp split: list.split)

lemma url_decode_enc:
  assumes "sp \<longrightarrow> sp'"
  shows "url_decode sp' (enc_char sp c @ rest) = c # url_decode sp' rest"
proof (cases "CHAR_IS_UNRESERVED c")
  case True
  then show ?thesis using url_decode_plain [of c sp' rest] char_okD [OF True] by (simp add: enc_char_def del: url_decode.simps)
next
  case False
  then show ?thesis
    using hexdigits_ok [OF char_nibbles(1) [of c]] hexdigits_ok [OF char_nibbles(2) [of c]]
      url_byte_hexdigits [of c] assms
    by (auto simp: enc_char_def url_escape_def)
qed

lemma trim_bounds:
  assumes "x \<in> set str" and "x \<notin> set d"
  shows "length (takeWhile (\<lambda>c. c \<in> set d) str) + length (takeWhile (\<lambda>c. c \<in> set d) (rev str)) < length str"
proof -
  let ?P = "\<lambda>c. c \<in> set d"
  let ?a = "length (takeWhile ?P str)" and ?b = "length (takeWhile ?P (rev str))"
  obtain k where k: "k < length str" "str ! k = x" using assms(1) by (auto simp: in_set_conv_nth)
  have "?a \<le> k"
  proof (rule ccontr)
    assume "\<not> ?a \<le> k"
    then have "?P (str ! k)" by (metis not_le nth_mem set_takeWhileD takeWhile_nth)
    then show False using k assms by simp
  qed
  moreover have "?b \<le> length str - 1 - k"
  proof (rule ccontr)
    assume "\<not> ?b \<le> length str - 1 - k"
    then have "?P (rev str ! (length str - 1 - k))" by (metis not_le nth_mem set_takeWhileD takeWhile_nth)
    then show False using k assms by (simp add: rev_nth)
  qed
  ultimately show ?thesis using k(1) by simp
qed

lemma url_decode_encode: "(sp \<longrightarrow> sp') \<Longrightarrow> UrlDecode (UrlEncode str sp) sp' = str"
  unfolding UrlEncode_concat UrlDecode_url_decode by (induction str) (simp_all add: url_decode_enc)

lemma UrlEncode_chars: "c \<in> set (UrlEncode str sp) \<Longrightarrow> CHAR_IS_UNRESERVED c \<or> c = CHR ''%'' \<or> c = CHR ''+''"
  using hexdigits_ok [OF char_nibbles(1)] hexdigits_ok [OF char_nibbles(2)]
  by (auto simp: UrlEncode_concat enc_char_def url_escape_def split: if_splits)

section \<open>Properties\<close>

text \<open>C29: URL round trip.  Decoding an encoded string gives the string back, for every string
of bytes and both treatments of spaces; a string encoded with percent escapes only also
decodes when plus signs stand for spaces.\<close>

theorem url_roundtrip:
  assumes "sp \<longrightarrow> sp'"
  shows "UrlDecode (UrlEncode str sp) sp' = str"
  using url_decode_encode [OF assms] .

theorem url_roundtrip_witness:
  "UrlDecode (UrlEncode ''a b+c%'' True) True = ''a b+c%''"
  by (rule url_roundtrip) simp

text \<open>The output of \<open>UrlEncode\<close> is safe: every byte of it is an unreserved character of
the table, a percent sign, or, when spaces are written so, a plus sign; the lazily allocated
output buffer changes nothing against encoding character by character.\<close>

theorem url_encode_alphabet:
  "UrlEncode str sp = concat (map (\<lambda>c. if CHAR_IS_UNRESERVED c then [c] else url_escape c sp) str)
   \<and> (\<forall>c. c \<in> set (UrlEncode str sp) \<longrightarrow> CHAR_IS_UNRESERVED c \<or> c = CHR ''%'' \<or> sp \<and> c = CHR ''+'')"
proof -
  have "CHAR_IS_UNRESERVED x \<or> x = CHR ''%'' \<or> sp \<and> x = CHR ''+''" if "x \<in> set (enc_char sp c)" for x c
    using that hexdigits_ok [OF char_nibbles(1) [of c]] hexdigits_ok [OF char_nibbles(2) [of c]]
    by (auto simp: enc_char_def url_escape_def split: if_splits)
  then have "\<forall>c. c \<in> set (UrlEncode str sp) \<longrightarrow> CHAR_IS_UNRESERVED c \<or> c = CHR ''%'' \<or> sp \<and> c = CHR ''+''"
    unfolding UrlEncode_concat by fastforce
  then show ?thesis using UrlEncode_concat [of str sp] by (simp add: enc_char_def [abs_def])
qed

theorem url_encode_alphabet_witness:
  "UrlEncode ''a b'' False = ''a%20b'' \<and> list_all (\<lambda>c. CHAR_IS_UNRESERVED c \<or> c = CHR ''%'') (UrlEncode ''a b'' False)"
  using url_encode_alphabet [of "''a b''" False]
  by (simp add: unreserved_iff url_escape_def hexdigits_def list_all_iff)

text \<open>Trimming.  \<open>Trim\<close> removes exactly the delimiters at both ends and \<open>TrimLeft\<close>
those at the front, whereas \<open>TrimRight\<close> also removes the last character that is not a
delimiter, since it passes the index of that character as a length.\<close>

theorem trim_behaviour:
  "StringUtil_TrimLeft str d = dropWhile (\<lambda>c. c \<in> set d) str
   \<and> StringUtil_Trim str d = rev (dropWhile (\<lambda>c. c \<in> set d) (rev (dropWhile (\<lambda>c. c \<in> set d) str)))
   \<and> StringUtil_TrimRight str d = butlast (rev (dropWhile (\<lambda>c. c \<in> set d) (rev str)))"
proof -
  let ?P = "\<lambda>c. c \<in> set d"
  let ?a = "length (takeWhile ?P str)" and ?b = "length (takeWhile ?P (rev str))"
  have left: "StringUtil_TrimLeft str d = dropWhile ?P str"
    by (simp add: StringUtil_TrimLeft_def find_first_not_of_def Let_def dropWhile_eq_drop)
  have right: "rev (dropWhile ?P (rev ys)) = take (length ys - length (takeWhile ?P (rev ys))) ys" for ys
    by (simp add: dropWhile_eq_drop [of ?P "rev ys"] rev_drop)
  have "StringUtil_Trim str d = rev (dropWhile ?P (rev (dropWhile ?P str)))
      \<and> StringUtil_TrimRight str d = butlast (rev (dropWhile ?P (rev str)))"
  proof (cases "\<exists>x \<in> set str. x \<notin> set d")
    case True
    then obtain x where x: "x \<in> set str" "x \<notin> set d" by blast
    have ab: "?a + ?b < length str" by (rule trim_bounds [OF x])
    have "takeWhile ?P (rev (drop ?a str)) = takeWhile ?P (rev str)"
    proof -
      have "\<not> ?P (str ! ?a)" using ab nth_length_takeWhile [of ?P str] by simp
      then have "\<exists>y \<in> set (rev (drop ?a str)). \<not> ?P y" 
        using ab by (intro bexI [of _ "str ! ?a"]) (auto simp flip: Cons_nth_drop_Suc)
      moreover have "rev str = rev (drop ?a str) @ rev (take ?a str)" by (metis append_take_drop_id rev_append)
      ultimately show ?thesis by (metis takeWhile_append1)
    qed
    then have "rev (dropWhile ?P (rev (dropWhile ?P str))) = take (length str - ?a - ?b) (drop ?a str)"
      using right [of "drop ?a str"] by (simp add: dropWhile_eq_drop [of ?P str])
    moreover have "length str - 1 - ?b - ?a + 1 = length str - ?a - ?b" using ab by simp
    ultimately show ?thesis
      using ab right [of str]
      by (simp add: StringUtil_Trim_def StringUtil_TrimRight_def find_first_not_of_def find_last_not_of_def Let_def
          str_substr_def butlast_take)
  next
    case False
    then have "length (takeWhile ?P str) = length str" "length (takeWhile ?P (rev str)) = length str"
      by (simp_all add: takeWhile_eq_all_conv [THEN iffD2])
    then show ?thesis
      by (simp add: StringUtil_Trim_def StringUtil_TrimRight_def find_first_not_of_def find_last_not_of_def Let_def
          dropWhile_eq_drop)
  qed
  then show ?thesis using left by blast
qed

end
