(* ===== verification/Fiber.thy ===== *)
theory Fiber
  imports Prelude
begin

text \<open>
  Fibers (\<open>src/megalo/fiber.h\<close>, \<open>src/megalo/fiber.cc\<close>).

  A fiber object lives at an address of \<open>fw_heap\<close>; the counters \<open>s_fiber_id\<close> and
  \<open>s_fiber_count\<close> are fields of the world all threads share, and \<open>t_fiber\<close> and
  \<open>t_threadFiber\<close> are per thread.  A \<open>ucontext_t\<close> is not represented: an operation that calls
  \<open>swapcontext\<close> says which fiber's context is saved and which one continues, and
  \<open>makecontext\<close> which main function the context will start.  \<open>getcontext\<close>,
  \<open>swapcontext\<close> and \<open>malloc\<close> are taken to succeed.  A failed \<open>MEGALO_ASSERT\<close> aborts the
  process; the operation then has no result (\<open>None\<close>).
\<close>

datatype fiber_state = Fiber_INIT | Fiber_HOLD | Fiber_EXEC | Fiber_TERM | Fiber_READY | Fiber_EXCEPT

datatype fiber_main = MainFunc | CallerMainFunc

record 'f Fiber =
  f_id :: u64
  f_stacksize :: u32
  f_state :: fiber_state
  f_stack :: bool
  f_main :: fiber_main
  f_cb :: "'f option"

record 'f fiber_world =
  fw_heap :: "nat \<rightharpoonup> 'f Fiber"
  s_fiber_id :: u64
  s_fiber_count :: u64

record fiber_tls =
  t_fiber :: "nat option"
  t_threadFiber :: "nat option"

text \<open>A context switch: whose context is saved, whose is resumed.\<close>

record switch =
  sw_from :: nat
  sw_to :: nat

definition fiber_state_at :: "'f fiber_world \<Rightarrow> nat \<Rightarrow> fiber_state" where
  "fiber_state_at w p = f_state (the (fw_heap w p))"

definition set_fiber_state :: "'f fiber_world \<Rightarrow> nat \<Rightarrow> fiber_state \<Rightarrow> 'f fiber_world" where
  "set_fiber_state w p st = w\<lparr>fw_heap := (fw_heap w)(p \<mapsto> (the (fw_heap w p))\<lparr>f_state := st\<rparr>)\<rparr>"

definition SetThis :: "fiber_tls \<Rightarrow> nat option \<Rightarrow> fiber_tls" where
  "SetThis tls f = tls\<lparr>t_fiber := f\<rparr>"

text \<open>The constructor of a thread's main fiber, and of a fiber with a stack.\<close>

definition Fiber_main_new :: "'f fiber_world \<Rightarrow> fiber_tls \<Rightarrow> nat \<Rightarrow> 'f fiber_world \<times> fiber_tls" where
  "Fiber_main_new w tls p =
     (w\<lparr>fw_heap := (fw_heap w)(p \<mapsto> \<lparr>f_id = 0, f_stacksize = 0, f_state = Fiber_EXEC, f_stack = False,
                                    f_main = MainFunc, f_cb = None\<rparr>),
        s_fiber_count := s_fiber_count w + 1\<rparr>,
      SetThis tls (Some p))"

definition Fiber_new ::
    "'f fiber_world \<Rightarrow> nat \<Rightarrow> 'f option \<Rightarrow> u32 \<Rightarrow> u32 \<Rightarrow> bool \<Rightarrow> 'f fiber_world" where
  "Fiber_new w p cb stack_size config_size use_caller =
     w\<lparr>fw_heap := (fw_heap w)(p \<mapsto>
          \<lparr>f_id = s_fiber_id w + 1,
           f_stacksize = (if stack_size \<noteq> 0 then stack_size else config_size),
           f_state = Fiber_INIT, f_stack = True,
           f_main = (if \<not> use_caller then MainFunc else CallerMainFunc), f_cb = cb\<rparr>),
       s_fiber_id := s_fiber_id w + 1,
       s_fiber_count := s_fiber_count w + 1\<rparr>"

definition Fiber_delete :: "'f fiber_world \<Rightarrow> fiber_tls \<Rightarrow> nat \<Rightarrow> ('f fiber_world \<times> fiber_tls) option" where
  "Fiber_delete w tls p =
     (let f = the (fw_heap w p);
          w' = w\<lparr>fw_heap := (fw_heap w)(p := None), s_fiber_count := s_fiber_count w - 1\<rparr> in
      if f_stack f
      then (if f_state f = Fiber_INIT \<or> f_state f = Fiber_TERM then Some (w', tls) else None)
      else if f_cb f = None \<and> f_state f = Fiber_EXEC
      then Some (w', if t_fiber tls = Some p then SetThis tls None else tls)
      else None)"

definition Fiber_reset :: "'f fiber_world \<Rightarrow> nat \<Rightarrow> 'f option \<Rightarrow> 'f fiber_world option" where
  "Fiber_reset w p cb =
     (let f = the (fw_heap w p) in
      if f_stack f \<and> (f_state f = Fiber_TERM \<or> f_state f = Fiber_INIT)
      then Some (w\<lparr>fw_heap := (fw_heap w)(p \<mapsto> f\<lparr>f_cb := cb, f_main := MainFunc, f_state := Fiber_INIT\<rparr>)\<rparr>)
      else None)"

text \<open>Switching into a fiber, from the thread's main fiber or from the scheduler's.\<close>

definition Fiber_call :: "'f fiber_world \<Rightarrow> fiber_tls \<Rightarrow> nat \<Rightarrow> (switch \<times> 'f fiber_world \<times> fiber_tls) option" where
  "Fiber_call w tls p =
     (if fiber_state_at w p \<noteq> Fiber_EXEC
      then Some (\<lparr>sw_from = the (t_threadFiber tls), sw_to = p\<rparr>, set_fiber_state w p Fiber_EXEC, SetThis tls (Some p))
      else None)"

definition Fiber_back :: "fiber_tls \<Rightarrow> nat \<Rightarrow> switch \<times> fiber_tls" where
  "Fiber_back tls p = (\<lparr>sw_from = p, sw_to = the (t_threadFiber tls)\<rparr>, SetThis tls (t_threadFiber tls))"

definition Fiber_swapIn ::
    "'f fiber_world \<Rightarrow> fiber_tls \<Rightarrow> nat \<Rightarrow> nat \<Rightarrow> (switch \<times> 'f fiber_world \<times> fiber_tls) option" where
  "Fiber_swapIn w tls main p =
     (if fiber_state_at w p \<noteq> Fiber_EXEC
      then Some (\<lparr>sw_from = main, sw_to = p\<rparr>, set_fiber_state w p Fiber_EXEC, SetThis tls (Some p))
      else None)"

definition Fiber_swapOut :: "fiber_tls \<Rightarrow> nat \<Rightarrow> nat \<Rightarrow> switch \<times> fiber_tls" where
  "Fiber_swapOut tls main p = (\<lparr>sw_from = p, sw_to = main\<rparr>, SetThis tls (Some main))"

definition Fiber_GetFiberId :: "'f fiber_world \<Rightarrow> fiber_tls \<Rightarrow> u64" where
  "Fiber_GetFiberId w tls = (case t_fiber tls of None \<Rightarrow> 0 | Some p \<Rightarrow> f_id (the (fw_heap w p)))"

text \<open>\<open>GetThis\<close> creates the thread's main fiber, at address \<open>q\<close>, on its first call.\<close>

definition Fiber_GetThis :: "'f fiber_world \<Rightarrow> fiber_tls \<Rightarrow> nat \<Rightarrow> nat \<times> 'f fiber_world \<times> fiber_tls" where
  "Fiber_GetThis w tls q =
     (case t_fiber tls of Some p \<Rightarrow> (p, w, tls)
      | None \<Rightarrow>
        let (w', tls') = Fiber_main_new w tls q in (q, w', tls'\<lparr>t_threadFiber := Some q\<rparr>))"

definition yield_with ::
    "fiber_state \<Rightarrow> 'f fiber_world \<Rightarrow> fiber_tls \<Rightarrow> nat \<Rightarrow> nat \<Rightarrow> (switch \<times> 'f fiber_world \<times> fiber_tls) option" where
  "yield_with st w tls main q =
     (let (cur, w1, tls1) = Fiber_GetThis w tls q in
      if fiber_state_at w1 cur = Fiber_EXEC
      then let (sw, tls2) = Fiber_swapOut tls1 main cur in Some (sw, set_fiber_state w1 cur st, tls2)
      else None)"

definition Fiber_YieldToReady ::
    "'f fiber_world \<Rightarrow> fiber_tls \<Rightarrow> nat \<Rightarrow> nat \<Rightarrow> (switch \<times> 'f fiber_world \<times> fiber_tls) option" where
  "Fiber_YieldToReady = yield_with Fiber_READY"

definition Fiber_YieldToHold ::
    "'f fiber_world \<Rightarrow> fiber_tls \<Rightarrow> nat \<Rightarrow> nat \<Rightarrow> (switch \<times> 'f fiber_world \<times> fiber_tls) option" where
  "Fiber_YieldToHold = yield_with Fiber_HOLD"

definition Fiber_TotalFibers :: "'f fiber_world \<Rightarrow> u64" where
  "Fiber_TotalFibers w = s_fiber_count w"

text \<open>
  The end of a main function: \<open>thrown\<close> says whether the callback left by an exception.
  \<open>MainFunc\<close> returns to the scheduler's fiber, \<open>CallerMainFunc\<close> to the thread's.
\<close>

definition fiber_finish :: "'f fiber_world \<Rightarrow> nat \<Rightarrow> bool \<Rightarrow> 'f fiber_world" where
  "fiber_finish w cur thrown =
     (let f = the (fw_heap w cur) in
      w\<lparr>fw_heap := (fw_heap w)(cur \<mapsto>
          (if thrown then f\<lparr>f_state := Fiber_EXCEPT\<rparr> else f\<lparr>f_cb := None, f_state := Fiber_TERM\<rparr>))\<rparr>)"

definition Fiber_MainFunc ::
    "'f fiber_world \<Rightarrow> fiber_tls \<Rightarrow> nat \<Rightarrow> nat \<Rightarrow> bool \<Rightarrow> switch \<times> 'f fiber_world \<times> fiber_tls" where
  "Fiber_MainFunc w tls main q thrown =
     (let (cur, w1, tls1) = Fiber_GetThis w tls q; w2 = fiber_finish w1 cur thrown;
          (sw, tls2) = Fiber_swapOut tls1 main cur in (sw, w2, tls2))"

definition Fiber_CalllerMainFunc ::
    "'f fiber_world \<Rightarrow> fiber_tls \<Rightarrow> nat \<Rightarrow> bool \<Rightarrow> switch \<times> 'f fiber_world \<times> fiber_tls" where
  "Fiber_CalllerMainFunc w tls q thrown =
     (let (cur, w1, tls1) = Fiber_GetThis w tls q; w2 = fiber_finish w1 cur thrown;
          (sw, tls2) = Fiber_back tls1 cur in (sw, w2, tls2))"

section \<open>Lemmas\<close>

lemma fiber_state_set [simp]:
  "fiber_state_at (set_fiber_state w p st) q = (if q = p then st else fiber_state_at w q)"
  by (simp add: fiber_state_at_def set_fiber_state_def)

lemma dom_set_fiber_state [simp]: "p \<in> dom (fw_heap w) \<Longrightarrow> dom (fw_heap (set_fiber_state w p st)) = dom (fw_heap w)"
  by (auto simp: set_fiber_state_def)

lemma f_stack_set_state [simp]:
  "f_stack (the (fw_heap (set_fiber_state w p st) q)) = f_stack (the (fw_heap w q))"
  by (simp add: set_fiber_state_def)

lemma fiber_state_reset:
  "Fiber_reset w p cb = Some w' \<Longrightarrow>
   fiber_state_at w' q = (if q = p then Fiber_INIT else fiber_state_at w q)
   \<and> f_stack (the (fw_heap w' q)) = f_stack (the (fw_heap w q)) \<and> dom (fw_heap w') = insert p (dom (fw_heap w))"
  by (auto simp: Fiber_reset_def fiber_state_at_def Let_def split: if_splits)

lemma Fiber_reset_iff:
  "Fiber_reset w p cb \<noteq> None \<longleftrightarrow>
     f_stack (the (fw_heap w p)) \<and> fiber_state_at w p \<in> {Fiber_TERM, Fiber_INIT}"
  by (simp add: Fiber_reset_def fiber_state_at_def Let_def)

lemma fiber_state_new:
  "fiber_state_at (Fiber_new w p cb a b c) q = (if q = p then Fiber_INIT else fiber_state_at w q)"
  by (simp add: Fiber_new_def fiber_state_at_def)

lemma f_stack_new:
  "f_stack (the (fw_heap (Fiber_new w p cb a b c) q)) = (q = p \<or> f_stack (the (fw_heap w q)))"
  by (simp add: Fiber_new_def)

lemma fiber_state_finish:
  "fiber_state_at (fiber_finish w p thrown) q =
     (if q = p then if thrown then Fiber_EXCEPT else Fiber_TERM else fiber_state_at w q)"
  by (simp add: fiber_finish_def fiber_state_at_def Let_def)

lemma f_stack_finish [simp]: "f_stack (the (fw_heap (fiber_finish w p thrown) q)) = f_stack (the (fw_heap w q))"
  by (simp add: fiber_finish_def Let_def)

end
