(* ===== verification/Scheduler.thy ===== *)
theory Scheduler
  imports Fiber
begin

text \<open>
  The fiber scheduler (\<open>src/megalo/scheduler.h\<close>, \<open>src/megalo/scheduler.cc\<close>): the shared task
  queue, starting and stopping, and the loop \<open>Scheduler::run\<close> that every worker thread
  executes.

  \<open>run\<close> is cut where another thread can intervene: the section under the lock that takes a task
  (\<open>run_take\<close>), switching into the task (\<open>run_dispatch\<close>), the user code (which may schedule
  further tasks and ends by yielding, returning or throwing, \<open>run_return\<close>), the decrement of
  the active count (\<open>run_back\<close>), and what follows it (\<open>run_post\<close>); \<open>w_phase\<close> says where a worker
  stands.  A failed assertion is \<open>None\<close>.  The atomic counters are integers here; the invariant
  shows that they count threads, so they neither wrap nor go below zero.  \<open>tickle\<close> is virtual:
  operations report whether they call it.  Reference counts of fibers are not represented.
\<close>

section \<open>State\<close>

record 'f FiberAndThread =
  ft_fiber :: "nat option"
  ft_cb :: "'f option"
  ft_thread :: int

record 'f Scheduler =
  s_name :: string
  s_fibers :: "'f FiberAndThread list"
  s_rootFiber :: "nat option"
  s_threadIds :: "int list"
  s_threads :: "int list"
  s_threadCount :: nat
  s_activeThreadCount :: int
  s_idleThreadCount :: int
  s_stopping :: bool
  s_autoStop :: bool
  s_rootThread :: int

datatype 'f wphase =
    PTop | PTaken "'f FiberAndThread" | PRunFiber nat | PBackFiber nat | PPostFiber nat
  | PRunCb nat | PBackCb nat | PPostCb nat | PNoTask | PRunIdle | PPostIdle | PExit

record 'f worker =
  w_tid :: int
  w_main :: nat
  w_cb_fiber :: "nat option"
  w_idle_fiber :: nat
  w_tls :: fiber_tls
  w_phase :: "'f wphase"

datatype fiber_outcome = Yield_Ready | Yield_Hold | Finished | Thrown

section \<open>Tasks and the queue\<close>

text \<open>What \<open>schedule\<close> accepts; a null fiber or an empty function is \<open>None\<close>.\<close>

datatype 'f FiberOrCb = ScheduleFiber "nat option" | ScheduleCb "'f option"

fun FiberAndThread_of :: "'f FiberOrCb \<Rightarrow> int \<Rightarrow> 'f FiberAndThread" where
  "FiberAndThread_of (ScheduleFiber f) thr = \<lparr>ft_fiber = f, ft_cb = None, ft_thread = thr\<rparr>"
| "FiberAndThread_of (ScheduleCb c) thr = \<lparr>ft_fiber = None, ft_cb = c, ft_thread = thr\<rparr>"

definition Scheduler_scheduleNoLock :: "'f Scheduler \<Rightarrow> 'f FiberOrCb \<Rightarrow> int \<Rightarrow> bool \<times> 'f Scheduler" where
  "Scheduler_scheduleNoLock s fc thr =
     (let need_tickle = (s_fibers s = []); ft = FiberAndThread_of fc thr in
      (need_tickle,
       if ft_fiber ft \<noteq> None \<or> ft_cb ft \<noteq> None then s\<lparr>s_fibers := s_fibers s @ [ft]\<rparr> else s))"

text \<open>The flag of the result is whether \<open>tickle\<close> is called.\<close>

definition Scheduler_schedule :: "'f Scheduler \<Rightarrow> 'f FiberOrCb \<Rightarrow> int \<Rightarrow> bool \<times> 'f Scheduler" where
  "Scheduler_schedule s fc thr = Scheduler_scheduleNoLock s fc thr"

text \<open>The iterator version moves the tasks out of the range: what is left there is null.\<close>

primrec Scheduler_schedule_range :: "'f Scheduler \<Rightarrow> 'f FiberOrCb list \<Rightarrow> int \<Rightarrow> bool \<times> 'f Scheduler" where
  "Scheduler_schedule_range s [] thr = (False, s)"
| "Scheduler_schedule_range s (fc # fcs) thr =
     (let (t1, s1) = Scheduler_scheduleNoLock s fc thr; (t2, s2) = Scheduler_schedule_range s1 fcs thr in
      (t1 \<or> t2, s2))"

section \<open>Construction, start, stop\<close>

definition Scheduler_new ::
    "'f fiber_world \<Rightarrow> fiber_tls \<Rightarrow> nat \<Rightarrow> nat \<Rightarrow> 'f \<Rightarrow> u32 \<Rightarrow> int \<Rightarrow> bool \<Rightarrow> nat \<Rightarrow> bool \<Rightarrow> string
      \<Rightarrow> ('f Scheduler \<times> 'f fiber_world \<times> fiber_tls) option" where
  "Scheduler_new w tls q p run_cb config_size tid has_scheduler threads use_caller name =
     (let s = \<lparr>s_name = name, s_fibers = [], s_rootFiber = None, s_threadIds = [], s_threads = [],
               s_threadCount = threads, s_activeThreadCount = 0, s_idleThreadCount = 0,
               s_stopping = True, s_autoStop = False, s_rootThread = - 1\<rparr> in
      if threads = 0 then None
      else if use_caller
      then let (_, w1, tls1) = Fiber_GetThis w tls q in
        (if has_scheduler then None
         else Some (s\<lparr>s_rootFiber := Some p, s_rootThread := tid, s_threadIds := [tid], s_threadCount := threads - 1\<rparr>,
                    Fiber_new w1 p (Some run_cb) 0 config_size True, tls1))
      else Some (s, w, tls))"

definition Scheduler_delete :: "'f Scheduler \<Rightarrow> unit option" where
  "Scheduler_delete s = (if s_stopping s then Some () else None)"

text \<open>\<open>tids\<close> are the identities of the threads that are created.\<close>

definition Scheduler_start :: "'f Scheduler \<Rightarrow> int list \<Rightarrow> 'f Scheduler option" where
  "Scheduler_start s tids =
     (if \<not> s_stopping s then Some s
      else if s_threads s \<noteq> [] then None
      else Some (s\<lparr>s_stopping := False, s_threads := take (s_threadCount s) tids,
                   s_threadIds := s_threadIds s @ take (s_threadCount s) tids\<rparr>))"

definition Scheduler_stopping :: "'f Scheduler \<Rightarrow> bool" where
  "Scheduler_stopping s \<longleftrightarrow>
     s_autoStop s \<and> s_stopping s \<and> s_fibers s = [] \<and> s_activeThreadCount s = 0"

text \<open>
  \<open>stop\<close>: \<open>is_this\<close> says whether \<open>GetThis()\<close> is this scheduler, \<open>root_state\<close> is the state of the
  root fiber, and \<open>call_root\<close> the effect of running the root fiber (the loop \<open>run\<close> on the
  calling thread) to its end.  The result holds the number of \<open>tickle\<close> calls and the threads
  that are joined.
\<close>

definition Scheduler_stop ::
    "'f Scheduler \<Rightarrow> bool \<Rightarrow> fiber_state \<Rightarrow> ('f Scheduler \<Rightarrow> 'f Scheduler) \<Rightarrow> (nat \<times> int list \<times> 'f Scheduler) option" where
  "Scheduler_stop s is_this root_state call_root =
     (let s1 = s\<lparr>s_autoStop := True\<rparr>;
          early = (s_rootFiber s \<noteq> None \<and> s_threadCount s = 0 \<and> (root_state = Fiber_TERM \<or> root_state = Fiber_INIT));
          s2 = (if early then s1\<lparr>s_stopping := True\<rparr> else s1) in
      if early \<and> Scheduler_stopping s2 then Some (0, [], s2)
      else if (s_rootThread s \<noteq> - 1) \<noteq> is_this then None
      else let s3 = s2\<lparr>s_stopping := True\<rparr>;
               tickles = s_threadCount s + (if s_rootFiber s \<noteq> None then 1 else 0);
               s4 = (if s_rootFiber s \<noteq> None \<and> \<not> Scheduler_stopping s3 then call_root s3 else s3) in
        Some (tickles, s_threads s4, s4\<lparr>s_threads := []\<rparr>))"

section \<open>The worker loop\<close>

text \<open>
  The loop under the lock: \<open>st\<close> gives the states of fibers and \<open>tid\<close> is the thread.  The result
  is the task taken, whether to tickle, and the queue that remains.
\<close>

fun take_loop ::
    "(nat \<Rightarrow> fiber_state) \<Rightarrow> int \<Rightarrow> 'f FiberAndThread list \<Rightarrow> ('f FiberAndThread option \<times> bool \<times> 'f FiberAndThread list) option" where
  "take_loop st tid [] = Some (None, False, [])"
| "take_loop st tid (t # ts) =
     (if ft_thread t \<noteq> - 1 \<and> ft_thread t \<noteq> tid
      then (case take_loop st tid ts of None \<Rightarrow> None | Some (r, _, rest) \<Rightarrow> Some (r, True, t # rest))
      else if ft_fiber t = None \<and> ft_cb t = None then None
      else if (\<exists>p. ft_fiber t = Some p \<and> st p = Fiber_EXEC)
      then (case take_loop st tid ts of None \<Rightarrow> None | Some (r, tick, rest) \<Rightarrow> Some (r, tick, t # rest))
      else Some (Some t, ts \<noteq> [], ts))"

definition run_take ::
    "'f Scheduler \<Rightarrow> 'f fiber_world \<Rightarrow> 'f worker \<Rightarrow> (bool \<times> 'f Scheduler \<times> 'f worker) option" where
  "run_take s w k =
     (case take_loop (fiber_state_at w) (w_tid k) (s_fibers s) of None \<Rightarrow> None
      | Some (None, tick, rest) \<Rightarrow> Some (tick, s\<lparr>s_fibers := rest\<rparr>, k\<lparr>w_phase := PNoTask\<rparr>)
      | Some (Some t, tick, rest) \<Rightarrow>
          Some (tick, s\<lparr>s_fibers := rest, s_activeThreadCount := s_activeThreadCount s + 1\<rparr>, k\<lparr>w_phase := PTaken t\<rparr>))"

text \<open>\<open>q\<close> is the address of a new fiber, \<open>config_size\<close> the configured stack size.\<close>

definition cb_fiber_prepare ::
    "'f fiber_world \<Rightarrow> 'f worker \<Rightarrow> 'f \<Rightarrow> nat \<Rightarrow> u32 \<Rightarrow> (nat \<times> 'f fiber_world) option" where
  "cb_fiber_prepare w k cb q config_size =
     (case w_cb_fiber k of
        Some c \<Rightarrow> (case Fiber_reset w c (Some cb) of None \<Rightarrow> None | Some w' \<Rightarrow> Some (c, w'))
      | None \<Rightarrow> Some (q, Fiber_new w q (Some cb) 0 config_size False))"

definition run_dispatch ::
    "'f Scheduler \<Rightarrow> 'f fiber_world \<Rightarrow> 'f worker \<Rightarrow> 'f FiberAndThread \<Rightarrow> nat \<Rightarrow> u32
      \<Rightarrow> ('f Scheduler \<times> 'f fiber_world \<times> 'f worker) option" where
  "run_dispatch s w k ft q config_size =
     (if (\<exists>p. ft_fiber ft = Some p \<and> fiber_state_at w p \<noteq> Fiber_TERM \<and> fiber_state_at w p \<noteq> Fiber_EXCEPT)
      then let p = the (ft_fiber ft) in
        (case Fiber_swapIn w (w_tls k) (w_main k) p of None \<Rightarrow> None
         | Some (_, w', tls) \<Rightarrow> Some (s, w', k\<lparr>w_tls := tls, w_phase := PRunFiber p\<rparr>))
      else case ft_cb ft of
        Some cb \<Rightarrow>
          (case cb_fiber_prepare w k cb q config_size of None \<Rightarrow> None
           | Some (c, w1) \<Rightarrow>
             (case Fiber_swapIn w1 (w_tls k) (w_main k) c of None \<Rightarrow> None
              | Some (_, w2, tls) \<Rightarrow>
                  Some (s, w2, k\<lparr>w_cb_fiber := Some c, w_tls := tls, w_phase := PRunCb c\<rparr>)))
      | None \<Rightarrow> Some (s\<lparr>s_activeThreadCount := s_activeThreadCount s - 1\<rparr>, w, k\<lparr>w_phase := PTop\<rparr>))"

text \<open>The user code of the running fiber ends its turn.\<close>

fun fiber_end_turn ::
    "fiber_outcome \<Rightarrow> 'f fiber_world \<Rightarrow> fiber_tls \<Rightarrow> nat \<Rightarrow> (switch \<times> 'f fiber_world \<times> fiber_tls) option" where
  "fiber_end_turn Yield_Ready w tls main = Fiber_YieldToReady w tls main 0"
| "fiber_end_turn Yield_Hold w tls main = Fiber_YieldToHold w tls main 0"
| "fiber_end_turn Finished w tls main = Some (Fiber_MainFunc w tls main 0 False)"
| "fiber_end_turn Thrown w tls main = Some (Fiber_MainFunc w tls main 0 True)"

fun after_return :: "'f wphase \<Rightarrow> 'f wphase" where
  "after_return (PRunFiber p) = PBackFiber p"
| "after_return (PRunCb p) = PBackCb p"
| "after_return PRunIdle = PPostIdle"
| "after_return ph = ph"

definition run_return ::
    "'f fiber_world \<Rightarrow> 'f worker \<Rightarrow> fiber_outcome \<Rightarrow> ('f fiber_world \<times> 'f worker) option" where
  "run_return w k out =
     (case fiber_end_turn out w (w_tls k) (w_main k) of None \<Rightarrow> None
      | Some (_, w', tls) \<Rightarrow> Some (w', k\<lparr>w_tls := tls, w_phase := after_return (w_phase k)\<rparr>))"

fun after_back :: "'f wphase \<Rightarrow> 'f wphase" where
  "after_back (PBackFiber p) = PPostFiber p"
| "after_back (PBackCb p) = PPostCb p"
| "after_back ph = ph"

definition run_back :: "'f Scheduler \<Rightarrow> 'f worker \<Rightarrow> 'f Scheduler \<times> 'f worker" where
  "run_back s k =
     (s\<lparr>s_activeThreadCount := s_activeThreadCount s - 1\<rparr>, k\<lparr>w_phase := after_back (w_phase k)\<rparr>)"

definition run_post_fiber ::
    "'f Scheduler \<Rightarrow> 'f fiber_world \<Rightarrow> 'f worker \<Rightarrow> nat \<Rightarrow> 'f Scheduler \<times> 'f fiber_world \<times> 'f worker" where
  "run_post_fiber s w k p =
     (let k' = k\<lparr>w_phase := PTop\<rparr> in
      if fiber_state_at w p = Fiber_READY
      then (snd (Scheduler_schedule s (ScheduleFiber (Some p)) (- 1)), w, k')
      else if fiber_state_at w p \<noteq> Fiber_TERM \<and> fiber_state_at w p \<noteq> Fiber_EXCEPT
      then (s, set_fiber_state w p Fiber_HOLD, k')
      else (s, w, k'))"

definition run_post_cb ::
    "'f Scheduler \<Rightarrow> 'f fiber_world \<Rightarrow> 'f worker \<Rightarrow> nat \<Rightarrow> ('f Scheduler \<times> 'f fiber_world \<times> 'f worker) option" where
  "run_post_cb s w k c =
     (let k' = k\<lparr>w_phase := PTop\<rparr> in
      if fiber_state_at w c = Fiber_READY
      then Some (snd (Scheduler_schedule s (ScheduleFiber (Some c)) (- 1)), w, k')
      else if fiber_state_at w c = Fiber_TERM \<or> fiber_state_at w c = Fiber_EXCEPT
      then (case Fiber_reset w c None of None \<Rightarrow> None | Some w' \<Rightarrow> Some (s, w', k'))
      else Some (s, set_fiber_state w c Fiber_HOLD, k'\<lparr>w_cb_fiber := None\<rparr>))"

text \<open>No task: leave the loop when the idle fiber has ended, otherwise run it.\<close>

definition run_idle ::
    "'f Scheduler \<Rightarrow> 'f fiber_world \<Rightarrow> 'f worker \<Rightarrow> ('f Scheduler \<times> 'f fiber_world \<times> 'f worker) option" where
  "run_idle s w k =
     (if fiber_state_at w (w_idle_fiber k) = Fiber_TERM then Some (s, w, k\<lparr>w_phase := PExit\<rparr>)
      else case Fiber_swapIn w (w_tls k) (w_main k) (w_idle_fiber k) of None \<Rightarrow> None
        | Some (_, w', tls) \<Rightarrow>
            Some (s\<lparr>s_idleThreadCount := s_idleThreadCount s + 1\<rparr>, w', k\<lparr>w_tls := tls, w_phase := PRunIdle\<rparr>))"

text \<open>\<open>Scheduler::idle\<close>: hold until the scheduler is stopping, then return.\<close>

definition Scheduler_idle :: "'f Scheduler \<Rightarrow> fiber_outcome" where
  "Scheduler_idle s = (if \<not> Scheduler_stopping s then Yield_Hold else Finished)"

definition run_post_idle ::
    "'f Scheduler \<Rightarrow> 'f fiber_world \<Rightarrow> 'f worker \<Rightarrow> 'f Scheduler \<times> 'f fiber_world \<times> 'f worker" where
  "run_post_idle s w k =
     (let s' = s\<lparr>s_idleThreadCount := s_idleThreadCount s - 1\<rparr>; st = fiber_state_at w (w_idle_fiber k) in
      (s', if st \<noteq> Fiber_TERM \<and> st \<noteq> Fiber_EXCEPT then set_fiber_state w (w_idle_fiber k) Fiber_HOLD else w,
       k\<lparr>w_phase := PTop\<rparr>))"

end
