(* ===== verification/SchedulerSystem.thy ===== *)
theory SchedulerSystem
  imports Scheduler
begin

text \<open>
  A scheduler with its worker threads as a transition system: every step is one of the pieces of
  \<open>Scheduler::run\<close>, a call of \<open>schedule\<close>, or the request to stop, in any interleaving.

  Two rules restrict the user code.  A fiber is scheduled only while nobody else has it: it is
  not queued, not held by a worker and not executing.  A plain callback ends its first turn by
  returning or by yielding to hold; what happens when it throws or yields to ready is the
  subject of separate theorems.
\<close>

section \<open>Definitions\<close>

record 'f sys =
  y_sched :: "'f Scheduler"
  y_world :: "'f fiber_world"
  y_workers :: "nat \<rightharpoonup> 'f worker"

fun task_fiber :: "'f wphase \<Rightarrow> nat option" where
  "task_fiber (PTaken t) = ft_fiber t"
| "task_fiber (PRunFiber p) = Some p"
| "task_fiber (PBackFiber p) = Some p"
| "task_fiber (PPostFiber p) = Some p"
| "task_fiber ph = None"

fun running :: "'f worker \<Rightarrow> 'f wphase \<Rightarrow> nat option" where
  "running k (PRunFiber p) = Some p"
| "running k (PRunCb p) = Some p"
| "running k PRunIdle = Some (w_idle_fiber k)"
| "running k ph = None"

fun active_phase :: "'f wphase \<Rightarrow> bool" where
  "active_phase (PTaken t) = True"
| "active_phase (PRunFiber p) = True"
| "active_phase (PBackFiber p) = True"
| "active_phase (PRunCb p) = True"
| "active_phase (PBackCb p) = True"
| "active_phase ph = False"

fun idle_phase :: "'f wphase \<Rightarrow> bool" where
  "idle_phase PRunIdle = True"
| "idle_phase PPostIdle = True"
| "idle_phase ph = False"

definition put :: "'f sys \<Rightarrow> nat \<Rightarrow> 'f Scheduler \<Rightarrow> 'f fiber_world \<Rightarrow> 'f worker \<Rightarrow> 'f sys" where
  "put y i s w k = \<lparr>y_sched = s, y_world = w, y_workers = (y_workers y)(i \<mapsto> k)\<rparr>"

definition free_fiber :: "'f sys \<Rightarrow> nat \<Rightarrow> bool" where
  "free_fiber y p \<longleftrightarrow>
     p \<in> dom (fw_heap (y_world y)) \<and> f_stack (the (fw_heap (y_world y) p))
     \<and> fiber_state_at (y_world y) p \<noteq> Fiber_EXEC
     \<and> (\<forall>t \<in> set (s_fibers (y_sched y)). ft_fiber t \<noteq> Some p)
     \<and> (\<forall>i k. y_workers y i = Some k \<longrightarrow>
          task_fiber (w_phase k) \<noteq> Some p \<and> w_cb_fiber k \<noteq> Some p \<and> w_idle_fiber k \<noteq> p)"

inductive sys_step :: "'f sys \<Rightarrow> 'f sys \<Rightarrow> bool" where
  y_take: "y_workers y i = Some k \<Longrightarrow> w_phase k = PTop \<Longrightarrow>
    run_take (y_sched y) (y_world y) k = Some (tick, s', k') \<Longrightarrow> sys_step y (put y i s' (y_world y) k')"
| y_dispatch: "y_workers y i = Some k \<Longrightarrow> w_phase k = PTaken t \<Longrightarrow> fw_heap (y_world y) q = None \<Longrightarrow>
    run_dispatch (y_sched y) (y_world y) k t q cs = Some (s', w', k') \<Longrightarrow> sys_step y (put y i s' w' k')"
| y_return: "y_workers y i = Some k \<Longrightarrow> w_phase k = PRunFiber p \<Longrightarrow>
    run_return (y_world y) k out = Some (w', k') \<Longrightarrow> sys_step y (put y i (y_sched y) w' k')"
| y_return_cb: "y_workers y i = Some k \<Longrightarrow> w_phase k = PRunCb p \<Longrightarrow> out \<in> {Yield_Hold, Finished} \<Longrightarrow>
    run_return (y_world y) k out = Some (w', k') \<Longrightarrow> sys_step y (put y i (y_sched y) w' k')"
| y_back: "y_workers y i = Some k \<Longrightarrow> w_phase k = PBackFiber p \<or> w_phase k = PBackCb p \<Longrightarrow>
    run_back (y_sched y) k = (s', k') \<Longrightarrow> sys_step y (put y i s' (y_world y) k')"
| y_post_fiber: "y_workers y i = Some k \<Longrightarrow> w_phase k = PPostFiber p \<Longrightarrow>
    run_post_fiber (y_sched y) (y_world y) k p = (s', w', k') \<Longrightarrow> sys_step y (put y i s' w' k')"
| y_post_cb: "y_workers y i = Some k \<Longrightarrow> w_phase k = PPostCb p \<Longrightarrow>
    run_post_cb (y_sched y) (y_world y) k p = Some (s', w', k') \<Longrightarrow> sys_step y (put y i s' w' k')"
| y_idle: "y_workers y i = Some k \<Longrightarrow> w_phase k = PNoTask \<Longrightarrow>
    run_idle (y_sched y) (y_world y) k = Some (s', w', k') \<Longrightarrow> sys_step y (put y i s' w' k')"
| y_return_idle: "y_workers y i = Some k \<Longrightarrow> w_phase k = PRunIdle \<Longrightarrow>
    run_return (y_world y) k (Scheduler_idle (y_sched y)) = Some (w', k') \<Longrightarrow>
    sys_step y (put y i (y_sched y) w' k')"
| y_post_idle: "y_workers y i = Some k \<Longrightarrow> w_phase k = PPostIdle \<Longrightarrow>
    run_post_idle (y_sched y) (y_world y) k = (s', w', k') \<Longrightarrow> sys_step y (put y i s' w' k')"
| y_schedule_cb: "sys_step y (y\<lparr>y_sched := snd (Scheduler_schedule (y_sched y) (ScheduleCb c) thr)\<rparr>)"
| y_schedule_fiber: "free_fiber y p \<Longrightarrow>
    sys_step y (y\<lparr>y_sched := snd (Scheduler_schedule (y_sched y) (ScheduleFiber (Some p)) thr)\<rparr>)"
| y_stop: "sys_step y (y\<lparr>y_sched := (y_sched y)\<lparr>s_autoStop := True, s_stopping := True\<rparr>\<rparr>)"

text \<open>All workers at the top of their loops, each with a fresh idle fiber of its own.\<close>

definition sys_init :: "'f sys \<Rightarrow> bool" where
  "sys_init y \<longleftrightarrow>
     s_fibers (y_sched y) = [] \<and> s_activeThreadCount (y_sched y) = 0 \<and> s_idleThreadCount (y_sched y) = 0
     \<and> finite (dom (y_workers y))
     \<and> (\<forall>i k. y_workers y i = Some k \<longrightarrow> w_phase k = PTop \<and> w_cb_fiber k = None
          \<and> w_idle_fiber k \<in> dom (fw_heap (y_world y)) \<and> f_stack (the (fw_heap (y_world y) (w_idle_fiber k)))
          \<and> fiber_state_at (y_world y) (w_idle_fiber k) = Fiber_INIT)
     \<and> (\<forall>i j k k'. y_workers y i = Some k \<longrightarrow> y_workers y j = Some k' \<longrightarrow> w_idle_fiber k = w_idle_fiber k' \<longrightarrow> i = j)"

inductive sys_reachable :: "'f sys \<Rightarrow> bool" where
  y_init: "sys_init y \<Longrightarrow> sys_reachable y"
| y_more: "sys_reachable y \<Longrightarrow> sys_step y y' \<Longrightarrow> sys_reachable y'"

section \<open>The invariant\<close>

text \<open>Every fiber with a stack has at most one owner.\<close>

datatype owner = InQueue | AsTask nat | AsCb nat | AsIdle nat

definition own_queue :: "(nat \<rightharpoonup> owner) \<Rightarrow> 'f FiberAndThread list \<Rightarrow> bool" where
  "own_queue own ts \<longleftrightarrow> distinct (List.map_filter ft_fiber ts)
     \<and> (\<forall>t \<in> set ts. \<forall>p. ft_fiber t = Some p \<longrightarrow> own p = Some InQueue)"

definition own_worker :: "(nat \<rightharpoonup> owner) \<Rightarrow> nat \<Rightarrow> 'f worker \<Rightarrow> bool" where
  "own_worker own i k \<longleftrightarrow>
     (\<forall>p. task_fiber (w_phase k) = Some p \<longrightarrow> own p = Some (AsTask i))
     \<and> (\<forall>c. w_cb_fiber k = Some c \<longrightarrow> own c = Some (AsCb i))
     \<and> own (w_idle_fiber k) = Some (AsIdle i)"

definition own_heap :: "(nat \<rightharpoonup> owner) \<Rightarrow> 'f fiber_world \<Rightarrow> bool" where
  "own_heap own w \<longleftrightarrow> (\<forall>p. own p \<noteq> None \<longrightarrow> p \<in> dom (fw_heap w) \<and> f_stack (the (fw_heap w p)))"

text \<open>The states of the fibers a worker holds, by the point it has reached.\<close>

fun idle_ok :: "fiber_state \<Rightarrow> 'f wphase \<Rightarrow> bool" where
  "idle_ok st PRunIdle \<longleftrightarrow> st = Fiber_EXEC"
| "idle_ok st ph \<longleftrightarrow> st \<in> {Fiber_INIT, Fiber_HOLD, Fiber_TERM}"

fun cb_ok :: "(nat \<Rightarrow> fiber_state) \<Rightarrow> nat option \<Rightarrow> 'f wphase \<Rightarrow> bool" where
  "cb_ok st c (PRunCb d) \<longleftrightarrow> c = Some d \<and> st d = Fiber_EXEC"
| "cb_ok st c (PBackCb d) \<longleftrightarrow> c = Some d \<and> st d \<in> {Fiber_HOLD, Fiber_TERM}"
| "cb_ok st c (PPostCb d) \<longleftrightarrow> c = Some d \<and> st d \<in> {Fiber_HOLD, Fiber_TERM}"
| "cb_ok st c ph \<longleftrightarrow> (\<forall>d. c = Some d \<longrightarrow> st d = Fiber_INIT)"

fun task_ok :: "(nat \<Rightarrow> fiber_state) \<Rightarrow> 'f wphase \<Rightarrow> bool" where
  "task_ok st (PTaken t) \<longleftrightarrow> (\<forall>p. ft_fiber t = Some p \<longrightarrow> st p \<noteq> Fiber_EXEC)"
| "task_ok st (PRunFiber p) \<longleftrightarrow> st p = Fiber_EXEC"
| "task_ok st (PBackFiber p) \<longleftrightarrow> st p \<noteq> Fiber_EXEC"
| "task_ok st (PPostFiber p) \<longleftrightarrow> st p \<noteq> Fiber_EXEC"
| "task_ok st ph \<longleftrightarrow> True"

definition worker_ok :: "(nat \<Rightarrow> fiber_state) \<Rightarrow> 'f worker \<Rightarrow> bool" where
  "worker_ok st k \<longleftrightarrow>
     idle_ok (st (w_idle_fiber k)) (w_phase k) \<and> cb_ok st (w_cb_fiber k) (w_phase k)
     \<and> task_ok st (w_phase k)
     \<and> (\<forall>p. running k (w_phase k) = Some p \<longrightarrow> t_fiber (w_tls k) = Some p)"

definition queue_ok :: "(nat \<Rightarrow> fiber_state) \<Rightarrow> 'f FiberAndThread list \<Rightarrow> bool" where
  "queue_ok st ts \<longleftrightarrow> (\<forall>t \<in> set ts. (ft_fiber t \<noteq> None \<or> ft_cb t \<noteq> None)
     \<and> (\<forall>p. ft_fiber t = Some p \<longrightarrow> st p \<noteq> Fiber_EXEC))"

definition count_workers :: "('f worker \<Rightarrow> bool) \<Rightarrow> (nat \<rightharpoonup> 'f worker) \<Rightarrow> int" where
  "count_workers P ws = int (card {i. \<exists>k. ws i = Some k \<and> P k})"

definition counts_ok :: "'f Scheduler \<Rightarrow> (nat \<rightharpoonup> 'f worker) \<Rightarrow> bool" where
  "counts_ok s ws \<longleftrightarrow> finite (dom ws)
     \<and> s_activeThreadCount s = count_workers (\<lambda>k. active_phase (w_phase k)) ws
     \<and> s_idleThreadCount s = count_workers (\<lambda>k. idle_phase (w_phase k)) ws"

definition owned_inv :: "(nat \<rightharpoonup> owner) \<Rightarrow> 'f sys \<Rightarrow> bool" where
  "owned_inv own y \<longleftrightarrow>
     own_queue own (s_fibers (y_sched y)) \<and> own_heap own (y_world y)
     \<and> (\<forall>i k. y_workers y i = Some k \<longrightarrow> own_worker own i k \<and> worker_ok (fiber_state_at (y_world y)) k)
     \<and> queue_ok (fiber_state_at (y_world y)) (s_fibers (y_sched y))"

definition sys_inv :: "'f sys \<Rightarrow> bool" where
  "sys_inv y \<longleftrightarrow> counts_ok (y_sched y) (y_workers y) \<and> (\<exists>own. owned_inv own y)"

section \<open>Taking a task\<close>

definition elsewhere :: "int \<Rightarrow> 'f FiberAndThread \<Rightarrow> bool" where
  "elsewhere tid t \<longleftrightarrow> ft_thread t \<noteq> - 1 \<and> ft_thread t \<noteq> tid"

definition eligible :: "(nat \<Rightarrow> fiber_state) \<Rightarrow> int \<Rightarrow> 'f FiberAndThread \<Rightarrow> bool" where
  "eligible st tid t \<longleftrightarrow> \<not> elsewhere tid t \<and> (\<forall>p. ft_fiber t = Some p \<longrightarrow> st p \<noteq> Fiber_EXEC)"

lemma take_loop_none:
  "\<forall>t \<in> set ts. ft_fiber t \<noteq> None \<or> ft_cb t \<noteq> None \<Longrightarrow> \<forall>t \<in> set ts. \<not> eligible st tid t \<Longrightarrow>
   take_loop st tid ts = Some (None, \<exists>t \<in> set ts. elsewhere tid t, ts)"
  by (induction ts) (auto simp: eligible_def elsewhere_def)

lemma take_loop_some:
  "\<forall>t \<in> set pre. (ft_fiber t \<noteq> None \<or> ft_cb t \<noteq> None) \<and> \<not> eligible st tid t \<Longrightarrow>
   ft_fiber t \<noteq> None \<or> ft_cb t \<noteq> None \<Longrightarrow> eligible st tid t \<Longrightarrow>
   take_loop st tid (pre @ t # post) = Some (Some t, (\<exists>x \<in> set pre. elsewhere tid x) \<or> post \<noteq> [], pre @ post)"
  by (induction pre) (auto simp: eligible_def elsewhere_def)

lemma take_loop_cases:
  assumes "\<forall>t \<in> set ts. ft_fiber t \<noteq> None \<or> ft_cb t \<noteq> None"
  obtains (none) "take_loop st tid ts = Some (None, \<exists>t \<in> set ts. elsewhere tid t, ts)" "\<forall>t \<in> set ts. \<not> eligible st tid t"
    | (some) pre t post where "ts = pre @ t # post" "eligible st tid t" "\<forall>x \<in> set pre. \<not> eligible st tid x"
        "take_loop st tid ts = Some (Some t, (\<exists>x \<in> set pre. elsewhere tid x) \<or> post \<noteq> [], pre @ post)"
proof (cases "\<exists>t \<in> set ts. eligible st tid t")
  case True
  then obtain pre t post where s: "ts = pre @ t # post" "eligible st tid t" "\<forall>x \<in> set pre. \<not> eligible st tid x"
    using split_list_first_prop by metis
  with assms take_loop_some [of pre st tid t post] some [OF s] show ?thesis by auto
next
  case False
  then show ?thesis using none take_loop_none [OF assms] by blast
qed

section \<open>Counting workers\<close>

lemma count_workers_upd:
  assumes fin: "finite (dom ws)" and k: "ws i = Some k"
  shows "count_workers P (ws(i \<mapsto> k')) = count_workers P ws + (if P k' then 1 else 0) - (if P k then 1 else 0)"
proof -
  let ?S = "{j. \<exists>k. ws j = Some k \<and> P k}" and ?R = "{j. j \<noteq> i \<and> (\<exists>k. ws j = Some k \<and> P k)}"
  have sub: "?S \<subseteq> dom ws" by auto
  have finR: "finite ?R" by (rule finite_subset [OF _ fin]) auto
  have "?S = (if P k then insert i ?R else ?R)" using k by auto
  moreover have "{j. \<exists>k. (ws(i \<mapsto> k')) j = Some k \<and> P k} = (if P k' then insert i ?R else ?R)" by auto
  ultimately show ?thesis using finR by (simp add: count_workers_def)
qed

lemma counts_ok_upd:
  assumes "counts_ok s ws" and "ws i = Some k"
    and "s_activeThreadCount s' = s_activeThreadCount s + (if active_phase (w_phase k') then 1 else 0)
      - (if active_phase (w_phase k) then 1 else 0)"
    and "s_idleThreadCount s' = s_idleThreadCount s + (if idle_phase (w_phase k') then 1 else 0)
      - (if idle_phase (w_phase k) then 1 else 0)"
  shows "counts_ok s' (ws(i \<mapsto> k'))"
  using assms by (simp add: counts_ok_def count_workers_upd)

section \<open>Changing one worker\<close>

lemma worker_ok_frame:
  assumes "own_worker own j k" and "worker_ok st k"
    and "\<And>p. own p = Some (AsTask j) \<or> own p = Some (AsCb j) \<or> own p = Some (AsIdle j) \<Longrightarrow> st' p = st p"
  shows "worker_ok st' k"
proof -
  have i: "st' (w_idle_fiber k) = st (w_idle_fiber k)" using assms(1,3) by (simp add: own_worker_def)
  have c: "st' c = st c" if "w_cb_fiber k = Some c" for c using assms(1,3) that by (simp add: own_worker_def)
  have t: "st' p = st p" if "task_fiber (w_phase k) = Some p" for p using assms(1,3) that by (simp add: own_worker_def)
  show ?thesis using assms(2) i c t by (cases "w_phase k") (auto simp: worker_ok_def)
qed

lemma owned_inv_put:
  assumes inv: "owned_inv own y"
    and frame: "\<And>p j. j \<noteq> i \<Longrightarrow> own p = Some (AsTask j) \<or> own p = Some (AsCb j) \<or> own p = Some (AsIdle j) \<Longrightarrow>
      own' p = own p \<and> fiber_state_at w' p = fiber_state_at (y_world y) p"
    and "own_queue own' (s_fibers s')" and "own_heap own' w'" and "own_worker own' i k'"
    and "worker_ok (fiber_state_at w') k'" and "queue_ok (fiber_state_at w') (s_fibers s')"
  shows "owned_inv own' (put y i s' w' k')"
proof -
  have "own_worker own' j k \<and> worker_ok (fiber_state_at w') k" if "y_workers y j = Some k" "j \<noteq> i" for j k
  proof -
    have o: "own_worker own j k" and w: "worker_ok (fiber_state_at (y_world y)) k"
      using inv that(1) by (auto simp: owned_inv_def)
    have "own_worker own' j k" using o frame [OF that(2)] by (simp add: own_worker_def)
    moreover have "worker_ok (fiber_state_at w') k"
      by (rule worker_ok_frame [OF o w]) (use frame [OF that(2)] in blast)
    ultimately show ?thesis by blast
  qed
  then show ?thesis using assms(3-) by (auto simp: owned_inv_def put_def)
qed

lemma ownedD:
  assumes "owned_inv own y" and "y_workers y i = Some k"
  shows "own_queue own (s_fibers (y_sched y))" and "own_heap own (y_world y)" and "own_worker own i k"
    and "worker_ok (fiber_state_at (y_world y)) k" and "queue_ok (fiber_state_at (y_world y)) (s_fibers (y_sched y))"
  using assms by (auto simp: owned_inv_def)

text \<open>Fibers of the queue are not those of worker \<open>i\<close>.\<close>

lemma queue_not_own:
  "own_queue own ts \<Longrightarrow> t \<in> set ts \<Longrightarrow> ft_fiber t = Some p \<Longrightarrow> own p = Some InQueue"
  by (simp add: own_queue_def)

lemma queue_fibers_append: "List.map_filter f (xs @ ys) = List.map_filter f xs @ List.map_filter f ys"
  by (simp add: List.map_filter_def)

lemma queue_fibers_set: "set (List.map_filter f ts) = {p. \<exists>t \<in> set ts. f t = Some p}"
  by (force simp: List.map_filter_def)

lemma own_queue_remove:
  assumes "own_queue own (pre @ t # post)"
  shows "own_queue own (pre @ post)" and "ft_fiber t = Some p \<Longrightarrow> own_queue (own(p \<mapsto> x)) (pre @ post)"
proof -
  have d: "distinct (List.map_filter ft_fiber pre @ List.map_filter ft_fiber [t] @ List.map_filter ft_fiber post)"
    using assms queue_fibers_append [of ft_fiber "[t]" post] by (simp add: own_queue_def queue_fibers_append)
  then show 1: "own_queue own (pre @ post)"
    using assms by (auto simp: own_queue_def queue_fibers_append)
  show "own_queue (own(p \<mapsto> x)) (pre @ post)" if "ft_fiber t = Some p"
  proof -
    have "p \<notin> set (List.map_filter ft_fiber (pre @ post))"
      using d that by (auto simp: queue_fibers_append List.map_filter_simps)
    then show ?thesis using 1 by (auto simp: own_queue_def queue_fibers_set)
  qed
qed

lemma queue_ok_frame:
  assumes "queue_ok st ts" and "own_queue own ts" and "\<And>p. own p = Some InQueue \<Longrightarrow> st' p = st p"
  shows "queue_ok st' ts"
  using assms by (auto simp: queue_ok_def own_queue_def)

lemma queue_ok_other:
  assumes "queue_ok st ts" and "own_queue own ts" and "own p \<noteq> Some InQueue" and "\<And>q. q \<noteq> p \<Longrightarrow> st' q = st q"
  shows "queue_ok st' ts"
  by (rule queue_ok_frame [OF assms(1,2)]) (use assms(3,4) in metis)

lemma own_heap_set_state [simp]: "own_heap own w \<Longrightarrow> own_heap own (set_fiber_state w p st)"
  by (auto simp: own_heap_def set_fiber_state_def)

lemma own_heap_upd: "own_heap own w \<Longrightarrow> p \<in> dom (fw_heap w) \<Longrightarrow> f_stack (the (fw_heap w p)) \<Longrightarrow> own_heap (own(p \<mapsto> x)) w"
  by (auto simp: own_heap_def)

lemma own_heap_del: "own_heap own w \<Longrightarrow> own_heap (own(p := None)) w"
  by (auto simp: own_heap_def)

section \<open>Steps of the task path\<close>

lemma take_step:
  assumes inv: "owned_inv own y" and k: "y_workers y i = Some k" and ph: "w_phase k = PTop"
  shows "\<exists>tick s' k'. run_take (y_sched y) (y_world y) k = Some (tick, s', k')"
    and "run_take (y_sched y) (y_world y) k = Some (tick, s', k') \<Longrightarrow> \<exists>own'. owned_inv own' (put y i s' (y_world y) k')"
proof -
  let ?ts = "s_fibers (y_sched y)" and ?st = "fiber_state_at (y_world y)"
  note D = ownedD [OF inv k]
  have nn: "\<forall>t \<in> set ?ts. ft_fiber t \<noteq> None \<or> ft_cb t \<noteq> None" using D(5) by (simp add: queue_ok_def)
  have both: "(\<exists>tick s' k'. run_take (y_sched y) (y_world y) k = Some (tick, s', k'))
      \<and> (run_take (y_sched y) (y_world y) k = Some (tick, s', k') \<longrightarrow> (\<exists>own'. owned_inv own' (put y i s' (y_world y) k')))"
  proof (rule take_loop_cases [OF nn, of ?st "w_tid k"])
    assume n: "take_loop ?st (w_tid k) ?ts = Some (None, \<exists>t \<in> set ?ts. elsewhere (w_tid k) t, ?ts)"
    have "owned_inv own (put y i ((y_sched y)\<lparr>s_fibers := ?ts\<rparr>) (y_world y) (k\<lparr>w_phase := PNoTask\<rparr>))"
      using D ph by (intro owned_inv_put [OF inv]) (auto simp: own_worker_def worker_ok_def)
    then show ?thesis using n by (auto simp: run_take_def)
  next
    fix pre t post
    assume ts: "?ts = pre @ t # post" and el: "eligible ?st (w_tid k) t"
      and r: "take_loop ?st (w_tid k) ?ts = Some (Some t, (\<exists>x \<in> set pre. elsewhere (w_tid k) x) \<or> post \<noteq> [], pre @ post)"
    let ?own = "case ft_fiber t of None \<Rightarrow> own | Some p \<Rightarrow> own(p \<mapsto> AsTask i)"
    let ?s = "(y_sched y)\<lparr>s_fibers := pre @ post, s_activeThreadCount := s_activeThreadCount (y_sched y) + 1\<rparr>"
    have q: "own_queue ?own (pre @ post)"
      using own_queue_remove [OF D(1) [unfolded ts]] by (auto split: option.splits)
    have inq: "own p = Some InQueue" if "ft_fiber t = Some p" for p
      using D(1) that unfolding ts by (simp add: own_queue_def)
    have "owned_inv ?own (put y i ?s (y_world y) (k\<lparr>w_phase := PTaken t\<rparr>))"
    proof (rule owned_inv_put [OF inv])
      show "own_queue ?own (s_fibers ?s)" using q by simp
      show "queue_ok ?st (s_fibers ?s)" using D(5) unfolding ts by (simp add: queue_ok_def)
      show "own_heap ?own (y_world y)"
        using D(2) inq by (auto simp: own_heap_def split: option.splits)
      show "own_worker ?own i (k\<lparr>w_phase := PTaken t\<rparr>)"
        using D(3) inq ph by (auto simp: own_worker_def split: option.splits)
      show "worker_ok ?st (k\<lparr>w_phase := PTaken t\<rparr>)"
        using D(4) ph el by (auto simp: worker_ok_def eligible_def)
    qed (use inq in \<open>auto split: option.splits\<close>)
    then show ?thesis using r by (auto simp: run_take_def)
  qed
  then show "\<exists>tick s' k'. run_take (y_sched y) (y_world y) k = Some (tick, s', k')" by blast
  show "run_take (y_sched y) (y_world y) k = Some (tick, s', k') \<Longrightarrow> \<exists>own'. owned_inv own' (put y i s' (y_world y) k')"
    using both by blast
qed

lemma dispatch_fiber_step:
  assumes inv: "owned_inv own y" and k: "y_workers y i = Some k" and ph: "w_phase k = PTaken t"
    and p: "ft_fiber t = Some p" "fiber_state_at (y_world y) p \<noteq> Fiber_TERM" "fiber_state_at (y_world y) p \<noteq> Fiber_EXCEPT"
  shows "\<exists>w' k'. run_dispatch (y_sched y) (y_world y) k t q cs = Some (y_sched y, w', k')
    \<and> owned_inv own (put y i (y_sched y) w' k') \<and> w_phase k' = PRunFiber p"
proof -
  note D = ownedD [OF inv k]
  let ?w = "set_fiber_state (y_world y) p Fiber_EXEC"
  let ?k = "k\<lparr>w_tls := SetThis (w_tls k) (Some p), w_phase := PRunFiber p\<rparr>"
  have ow: "own p = Some (AsTask i)" using D(3) ph p by (simp add: own_worker_def)
  have ne: "fiber_state_at (y_world y) p \<noteq> Fiber_EXEC" using D(4) ph p by (simp add: worker_ok_def)
  have "owned_inv own (put y i (y_sched y) ?w ?k)"
  proof (rule owned_inv_put [OF inv])
    show "queue_ok (fiber_state_at ?w) (s_fibers (y_sched y))"
      using ow by (intro queue_ok_frame [OF D(5,1)]) auto
    show "own_worker own i ?k" using D(3) ow by (simp add: own_worker_def)
    show "worker_ok (fiber_state_at ?w) ?k"
      using D(3,4) ph ow by (auto simp: worker_ok_def own_worker_def SetThis_def)
  qed (use D ow in auto)
  then show ?thesis using p ne by (simp add: run_dispatch_def Fiber_swapIn_def)
qed

lemma own_worker_taken: "own_worker own i k \<Longrightarrow> w_phase k = PTaken t \<Longrightarrow> ft_fiber t = Some p \<Longrightarrow> own p = Some (AsTask i)"
  by (simp add: own_worker_def)

text \<open>Giving the taken fiber up: it ended, or the task was a callback.\<close>

definition give_up :: "(nat \<rightharpoonup> owner) \<Rightarrow> nat \<Rightarrow> nat \<rightharpoonup> owner" where
  "give_up own i = (\<lambda>p. if own p = Some (AsTask i) then None else own p)"

lemma give_up_simps [simp]:
  "own p = Some InQueue \<Longrightarrow> give_up own i p = Some InQueue"
  "own p = Some (AsCb j) \<Longrightarrow> give_up own i p = Some (AsCb j)"
  "own p = Some (AsIdle j) \<Longrightarrow> give_up own i p = Some (AsIdle j)"
  "own p = Some (AsTask j) \<Longrightarrow> j \<noteq> i \<Longrightarrow> give_up own i p = Some (AsTask j)"
  by (simp_all add: give_up_def)

lemma give_up_queue: "own_queue own ts \<Longrightarrow> own_queue (give_up own i) ts"
  by (auto simp: own_queue_def give_up_def)

lemma give_up_heap: "own_heap own w \<Longrightarrow> own_heap (give_up own i) w"
  by (auto simp: own_heap_def give_up_def split: if_splits)

lemma dispatch_nothing_step:
  assumes inv: "owned_inv own y" and k: "y_workers y i = Some k" and ph: "w_phase k = PTaken t"
  shows "owned_inv (give_up own i) (put y i ((y_sched y)\<lparr>s_activeThreadCount := n\<rparr>) (y_world y) (k\<lparr>w_phase := PTop\<rparr>))"
proof (rule owned_inv_put [OF inv])
  note D = ownedD [OF inv k]
  show "own_worker (give_up own i) i (k\<lparr>w_phase := PTop\<rparr>)" using D(3) by (simp add: own_worker_def)
  show "worker_ok (fiber_state_at (y_world y)) (k\<lparr>w_phase := PTop\<rparr>)" using D(4) ph by (simp add: worker_ok_def)
qed (use ownedD [OF inv k] in \<open>auto simp: give_up_queue give_up_heap\<close>)

lemma dispatch_cb_step:
  assumes inv: "owned_inv own y" and k: "y_workers y i = Some k" and ph: "w_phase k = PTaken t"
    and cb: "ft_cb t = Some cb" and dead: "\<And>p. ft_fiber t = Some p \<Longrightarrow> fiber_state_at (y_world y) p \<in> {Fiber_TERM, Fiber_EXCEPT}"
    and q: "fw_heap (y_world y) q = None"
  shows "\<exists>w' k' c own'. run_dispatch (y_sched y) (y_world y) k t q cs = Some (y_sched y, w', k')
    \<and> owned_inv own' (put y i (y_sched y) w' k') \<and> w_phase k' = PRunCb c"
proof -
  note D = ownedD [OF inv k]
  have nofiber: "\<not> (\<exists>p. ft_fiber t = Some p \<and> fiber_state_at (y_world y) p \<noteq> Fiber_TERM \<and> fiber_state_at (y_world y) p \<noteq> Fiber_EXCEPT)"
    using dead by auto
  show ?thesis
  proof (cases "w_cb_fiber k")
    case (Some c)
    have oc: "own c = Some (AsCb i)" using D(3) Some by (simp add: own_worker_def)
    have init: "fiber_state_at (y_world y) c = Fiber_INIT" using D(4) ph Some by (simp add: worker_ok_def)
    have st: "f_stack (the (fw_heap (y_world y) c))" using D(2) oc by (auto simp: own_heap_def)
    obtain w1 where w1: "Fiber_reset (y_world y) c (Some cb) = Some w1"
      using Fiber_reset_iff [of "y_world y" c "Some cb"] init st by auto
    note R = fiber_state_reset [OF w1]
    let ?w = "set_fiber_state w1 c Fiber_EXEC"
    let ?k = "k\<lparr>w_cb_fiber := Some c, w_tls := SetThis (w_tls k) (Some c), w_phase := PRunCb c\<rparr>"
    have "owned_inv (give_up own i) (put y i (y_sched y) ?w ?k)"
    proof (rule owned_inv_put [OF inv])
      show "own_worker (give_up own i) i ?k" using D(3) oc by (simp add: own_worker_def)
      show "worker_ok (fiber_state_at ?w) ?k"
        using D(3,4) ph oc R by (auto simp: worker_ok_def own_worker_def SetThis_def)
      show "queue_ok (fiber_state_at ?w) (s_fibers (y_sched y))"
        using oc R by (intro queue_ok_frame [OF D(5,1)]) auto
      have "own_heap own w1" using D(2) R by (auto simp: own_heap_def)
      then show "own_heap (give_up own i) ?w" by (simp add: give_up_heap)
    qed (use D oc R in \<open>auto simp: give_up_queue\<close>)
    moreover have "run_dispatch (y_sched y) (y_world y) k t q cs = Some (y_sched y, ?w, ?k)"
      using nofiber cb Some w1 R by (auto simp: run_dispatch_def cb_fiber_prepare_def Fiber_swapIn_def)
    ultimately show ?thesis by fastforce
  next
    case None
    have oq: "own q = None" using D(2) q by (auto simp: own_heap_def)
    let ?w1 = "Fiber_new (y_world y) q (Some cb) 0 cs False"
    let ?w = "set_fiber_state ?w1 q Fiber_EXEC" and ?own = "(give_up own i)(q \<mapsto> AsCb i)"
    let ?k = "k\<lparr>w_cb_fiber := Some q, w_tls := SetThis (w_tls k) (Some q), w_phase := PRunCb q\<rparr>"
    have ne: "p \<noteq> q" if "own p \<noteq> None" for p using that oq by auto
    have "owned_inv ?own (put y i (y_sched y) ?w ?k)"
    proof (rule owned_inv_put [OF inv])
      show "own_worker ?own i ?k" using D(3) ne by (auto simp: own_worker_def)
      show "worker_ok (fiber_state_at ?w) ?k"
        using D(3,4) ph ne by (auto simp: worker_ok_def own_worker_def SetThis_def fiber_state_new)
      show "queue_ok (fiber_state_at ?w) (s_fibers (y_sched y))"
        using ne by (intro queue_ok_frame [OF D(5,1)]) (auto simp: fiber_state_new)
      show "own_queue ?own (s_fibers (y_sched y))"
        using D(1) ne by (auto simp: own_queue_def give_up_def)
      have "own_heap ?own ?w1"
        using D(2) by (auto simp: own_heap_def give_up_def f_stack_new Fiber_new_def split: if_splits)
      then show "own_heap ?own ?w" by simp
    qed (use ne in \<open>auto simp: fiber_state_new\<close>)
    moreover have "run_dispatch (y_sched y) (y_world y) k t q cs = Some (y_sched y, ?w, ?k)"
      using nofiber cb None by (auto simp: run_dispatch_def cb_fiber_prepare_def Fiber_swapIn_def fiber_state_new)
    ultimately show ?thesis by fastforce
  qed
qed

lemma dispatch_step:
  assumes inv: "owned_inv own y" and k: "y_workers y i = Some k" and ph: "w_phase k = PTaken t"
    and q: "fw_heap (y_world y) q = None"
  shows "\<exists>s' w' k' own'. run_dispatch (y_sched y) (y_world y) k t q cs = Some (s', w', k')
    \<and> owned_inv own' (put y i s' w' k') \<and> s_idleThreadCount s' = s_idleThreadCount (y_sched y)
    \<and> s_activeThreadCount s' = s_activeThreadCount (y_sched y) + (if active_phase (w_phase k') then 1 else 0) - 1
    \<and> \<not> idle_phase (w_phase k')"
proof (cases "\<exists>p. ft_fiber t = Some p \<and> fiber_state_at (y_world y) p \<noteq> Fiber_TERM \<and> fiber_state_at (y_world y) p \<noteq> Fiber_EXCEPT")
  case True
  then obtain p where "ft_fiber t = Some p" "fiber_state_at (y_world y) p \<noteq> Fiber_TERM" "fiber_state_at (y_world y) p \<noteq> Fiber_EXCEPT"
    by blast
  from dispatch_fiber_step [OF inv k ph this, of q cs] show ?thesis by fastforce
next
  case False
  show ?thesis
  proof (cases "ft_cb t")
    case None
    have "run_dispatch (y_sched y) (y_world y) k t q cs
        = Some ((y_sched y)\<lparr>s_activeThreadCount := s_activeThreadCount (y_sched y) - 1\<rparr>, y_world y, k\<lparr>w_phase := PTop\<rparr>)"
      using False None by (auto simp: run_dispatch_def)
    then show ?thesis using dispatch_nothing_step [OF inv k ph] by fastforce
  next
    case (Some cb)
    have dead: "fiber_state_at (y_world y) p \<in> {Fiber_TERM, Fiber_EXCEPT}" if "ft_fiber t = Some p" for p
      using False that by blast
    from dispatch_cb_step [OF inv k ph Some dead q, of cs] show ?thesis by fastforce
  qed
qed

text \<open>The user code returns; then the count is decremented and the task is put away.\<close>

fun outcome_state :: "fiber_outcome \<Rightarrow> fiber_state" where
  "outcome_state Yield_Ready = Fiber_READY"
| "outcome_state Yield_Hold = Fiber_HOLD"
| "outcome_state Finished = Fiber_TERM"
| "outcome_state Thrown = Fiber_EXCEPT"

lemma run_return_result:
  assumes "t_fiber (w_tls k) = Some p" and "fiber_state_at w p = Fiber_EXEC" and "p \<in> dom (fw_heap w)"
  shows "\<exists>w' k'. run_return w k out = Some (w', k')
    \<and> (\<forall>q. fiber_state_at w' q = (if q = p then outcome_state out else fiber_state_at w q))
    \<and> (\<forall>q. f_stack (the (fw_heap w' q)) = f_stack (the (fw_heap w q))) \<and> dom (fw_heap w') = dom (fw_heap w)
    \<and> w_phase k' = after_return (w_phase k) \<and> w_cb_fiber k' = w_cb_fiber k \<and> w_idle_fiber k' = w_idle_fiber k"
proof -
  have "dom (fw_heap (fiber_finish w p b)) = dom (fw_heap w)" for b
    using assms(3) by (auto simp: fiber_finish_def Let_def)
  then show ?thesis
    using assms
    by (cases out) (simp_all add: run_return_def Fiber_YieldToReady_def Fiber_YieldToHold_def yield_with_def
        Fiber_GetThis_def Fiber_swapOut_def Fiber_MainFunc_def fiber_state_finish Let_def)
qed

lemma return_step:
  assumes inv: "owned_inv own y" and k: "y_workers y i = Some k"
    and ph: "w_phase k = PRunFiber p \<or> w_phase k = PRunCb p \<and> out \<in> {Yield_Hold, Finished}
      \<or> w_phase k = PRunIdle \<and> p = w_idle_fiber k \<and> out \<in> {Yield_Hold, Finished}"
  shows "\<exists>w' k'. run_return (y_world y) k out = Some (w', k') \<and> owned_inv own (put y i (y_sched y) w' k')
    \<and> w_phase k' = after_return (w_phase k)"
proof -
  note D = ownedD [OF inv k]
  have run: "t_fiber (w_tls k) = Some p" "fiber_state_at (y_world y) p = Fiber_EXEC"
    using D(4) ph by (auto simp: worker_ok_def)
  have op: "own p = Some (AsTask i) \<or> own p = Some (AsCb i) \<or> own p = Some (AsIdle i)"
    using D(3,4) ph by (auto simp: own_worker_def worker_ok_def)
  then have "p \<in> dom (fw_heap (y_world y))" using D(2) by (auto simp: own_heap_def)
  from run_return_result [OF run this, of out] obtain w' k' where
    r: "run_return (y_world y) k out = Some (w', k')"
      "\<And>q. fiber_state_at w' q = (if q = p then outcome_state out else fiber_state_at (y_world y) q)"
      "\<And>q. f_stack (the (fw_heap w' q)) = f_stack (the (fw_heap (y_world y) q))"
      "dom (fw_heap w') = dom (fw_heap (y_world y))" "w_phase k' = after_return (w_phase k)"
      "w_cb_fiber k' = w_cb_fiber k" "w_idle_fiber k' = w_idle_fiber k"
    by blast
  have "owned_inv own (put y i (y_sched y) w' k')"
  proof (rule owned_inv_put [OF inv])
    show "own_worker own i k'" using D(3) ph r(5-) by (auto simp: own_worker_def)
    show "worker_ok (fiber_state_at w') k'"
      using D(3,4) ph r(2,5-) op by (cases out) (auto simp: worker_ok_def own_worker_def)
    show "queue_ok (fiber_state_at w') (s_fibers (y_sched y))"
      using op r(2) by (intro queue_ok_frame [OF D(5,1)]) auto
    show "own_heap own w'" using D(2) r(3,4) by (simp add: own_heap_def)
  qed (use D op r(2) in auto)
  then show ?thesis using r(1,5) by blast
qed

lemma back_step:
  assumes inv: "owned_inv own y" and k: "y_workers y i = Some k"
    and ph: "w_phase k = PBackFiber p \<or> w_phase k = PBackCb p" and r: "run_back (y_sched y) k = (s', k')"
  shows "owned_inv own (put y i s' (y_world y) k')"
proof (rule owned_inv_put [OF inv])
  note D = ownedD [OF inv k]
  show "own_worker own i k'" using D(3) ph r by (auto simp: run_back_def own_worker_def)
  show "worker_ok (fiber_state_at (y_world y)) k'" using D(4) ph r by (auto simp: run_back_def worker_ok_def)
qed (use ownedD [OF inv k] r in \<open>auto simp: run_back_def\<close>)

lemma schedule_fibers:
  "s_fibers (snd (Scheduler_schedule s (ScheduleFiber (Some p)) thr)) = s_fibers s @ [\<lparr>ft_fiber = Some p, ft_cb = None, ft_thread = thr\<rparr>]"
  "s_fibers (snd (Scheduler_schedule s (ScheduleCb c) thr)) =
     (if c = None then s_fibers s else s_fibers s @ [\<lparr>ft_fiber = None, ft_cb = c, ft_thread = thr\<rparr>])"
  "s_activeThreadCount (snd (Scheduler_schedule s fc thr)) = s_activeThreadCount s"
  "s_idleThreadCount (snd (Scheduler_schedule s fc thr)) = s_idleThreadCount s"
  by (simp_all add: Scheduler_schedule_def Scheduler_scheduleNoLock_def Let_def)

lemma own_queue_add:
  assumes "own_queue own ts" and "own p \<noteq> Some InQueue"
  shows "own_queue (own(p \<mapsto> InQueue)) (ts @ [\<lparr>ft_fiber = Some p, ft_cb = c, ft_thread = thr\<rparr>])"
proof -
  have "p \<notin> set (List.map_filter ft_fiber ts)" using assms by (auto simp: own_queue_def queue_fibers_set)
  then show ?thesis
    using assms by (auto simp: own_queue_def queue_fibers_append List.map_filter_simps)
qed

lemma post_fiber_step:
  assumes inv: "owned_inv own y" and k: "y_workers y i = Some k" and ph: "w_phase k = PPostFiber p"
    and r: "run_post_fiber (y_sched y) (y_world y) k p = (s', w', k')"
  shows "\<exists>own'. owned_inv own' (put y i s' w' k')"
proof -
  note D = ownedD [OF inv k]
  have op: "own p = Some (AsTask i)" using D(3) ph by (simp add: own_worker_def)
  have ne: "fiber_state_at (y_world y) p \<noteq> Fiber_EXEC" using D(4) ph by (simp add: worker_ok_def)
  have k': "k' = k\<lparr>w_phase := PTop\<rparr>" using r by (auto simp: run_post_fiber_def Let_def split: if_splits)
  have w': "\<And>q. q \<noteq> p \<Longrightarrow> fiber_state_at w' q = fiber_state_at (y_world y) q" "fiber_state_at w' p \<noteq> Fiber_EXEC"
      "own_heap own w'"
    using r D(2) ne by (auto simp: run_post_fiber_def Let_def split: if_splits)
  have fr: "fiber_state_at w' q = fiber_state_at (y_world y) q" if "own q \<noteq> own p" for q using w'(1) that by metis
  have "w_idle_fiber k \<noteq> p" "\<And>c. w_cb_fiber k = Some c \<Longrightarrow> c \<noteq> p" using D(3) op by (auto simp: own_worker_def)
  then have wk: "worker_ok (fiber_state_at w') k'"
    using D(4) ph w'(1) by (simp add: k' worker_ok_def)
  show ?thesis
  proof (cases "fiber_state_at (y_world y) p = Fiber_READY")
    case True
    let ?own = "own(p \<mapsto> InQueue)"
    have fs: "s_fibers s' = s_fibers (y_sched y) @ [\<lparr>ft_fiber = Some p, ft_cb = None, ft_thread = - 1\<rparr>]"
      using r True by (auto simp: run_post_fiber_def Let_def schedule_fibers)
    have "owned_inv ?own (put y i s' w' k')"
    proof (rule owned_inv_put [OF inv _ _ _ _ wk])
      show "own_queue ?own (s_fibers s')" unfolding fs using op by (intro own_queue_add [OF D(1)]) simp
      show "own_heap ?own w'" using w'(3) op by (auto simp: own_heap_def)
      show "own_worker ?own i k'" using D(3) op by (auto simp: k' own_worker_def)
      have "queue_ok (fiber_state_at w') (s_fibers (y_sched y))"
        by (rule queue_ok_other [OF D(5,1), of p]) (use op w'(1) in auto)
      then show "queue_ok (fiber_state_at w') (s_fibers s')" using w'(2) by (auto simp: fs queue_ok_def)
    qed (use op fr in auto)
    then show ?thesis by blast
  next
    case False
    then have s': "s' = y_sched y" using r by (auto simp: run_post_fiber_def Let_def split: if_splits)
    have "owned_inv (give_up own i) (put y i s' w' k')"
    proof (rule owned_inv_put [OF inv _ _ _ _ wk])
      show "own_worker (give_up own i) i k'" using D(3) by (simp add: k' own_worker_def)
      show "queue_ok (fiber_state_at w') (s_fibers s')"
        unfolding s' by (rule queue_ok_other [OF D(5,1), of p]) (use op w'(1) in auto)
    qed (use D(1) op fr w'(3) in \<open>auto simp: s' give_up_queue give_up_heap\<close>)
    then show ?thesis by blast
  qed
qed

lemma post_cb_step:
  assumes inv: "owned_inv own y" and k: "y_workers y i = Some k" and ph: "w_phase k = PPostCb c"
  shows "\<exists>w' k' own'. run_post_cb (y_sched y) (y_world y) k c = Some (y_sched y, w', k')
    \<and> owned_inv own' (put y i (y_sched y) w' k') \<and> w_phase k' = PTop"
proof -
  note D = ownedD [OF inv k]
  have c: "w_cb_fiber k = Some c" "fiber_state_at (y_world y) c \<in> {Fiber_HOLD, Fiber_TERM}"
    using D(4) ph by (auto simp: worker_ok_def)
  have oc: "own c = Some (AsCb i)" using D(3) c by (simp add: own_worker_def)
  have ic: "w_idle_fiber k \<noteq> c" using D(3) oc by (auto simp: own_worker_def)
  show ?thesis
  proof (cases "fiber_state_at (y_world y) c = Fiber_TERM")
    case True
    have "f_stack (the (fw_heap (y_world y) c))" using D(2) oc by (auto simp: own_heap_def)
    then obtain w1 where w1: "Fiber_reset (y_world y) c None = Some w1"
      using Fiber_reset_iff [of "y_world y" c None] True by auto
    note R = fiber_state_reset [OF w1]
    let ?k = "k\<lparr>w_phase := PTop\<rparr>"
    have "owned_inv own (put y i (y_sched y) w1 ?k)"
    proof (rule owned_inv_put [OF inv])
      show "own_worker own i ?k" using D(3) by (simp add: own_worker_def)
      show "worker_ok (fiber_state_at w1) ?k" using D(4) ph c(1) R ic by (simp add: worker_ok_def)
      show "queue_ok (fiber_state_at w1) (s_fibers (y_sched y))"
        using oc R by (intro queue_ok_frame [OF D(5,1)]) auto
      show "own_heap own w1" using D(2) R by (auto simp: own_heap_def)
    qed (use D oc R in auto)
    then show ?thesis using True w1 by (auto simp: run_post_cb_def Let_def)
  next
    case False
    let ?k = "k\<lparr>w_phase := PTop, w_cb_fiber := None\<rparr>" and ?w = "set_fiber_state (y_world y) c Fiber_HOLD"
    let ?own = "own(c := None)"
    have "owned_inv ?own (put y i (y_sched y) ?w ?k)"
    proof (rule owned_inv_put [OF inv])
      show "own_worker ?own i ?k" using D(3) ic by (simp add: own_worker_def)
      show "worker_ok (fiber_state_at ?w) ?k" using D(4) ph ic by (simp add: worker_ok_def)
      show "queue_ok (fiber_state_at ?w) (s_fibers (y_sched y))"
        using oc by (intro queue_ok_frame [OF D(5,1)]) auto
      show "own_queue ?own (s_fibers (y_sched y))" using D(1) oc by (auto simp: own_queue_def)
      show "own_heap ?own ?w" using own_heap_del [OF D(2)] by simp
    qed (use oc in auto)
    then show ?thesis using False c(2) by (auto simp: run_post_cb_def Let_def)
  qed
qed

lemma idle_step:
  assumes inv: "owned_inv own y" and k: "y_workers y i = Some k" and ph: "w_phase k = PNoTask"
  shows "\<exists>s' w' k'. run_idle (y_sched y) (y_world y) k = Some (s', w', k') \<and> owned_inv own (put y i s' w' k')
    \<and> s_activeThreadCount s' = s_activeThreadCount (y_sched y) \<and> \<not> active_phase (w_phase k')
    \<and> s_idleThreadCount s' = s_idleThreadCount (y_sched y) + (if idle_phase (w_phase k') then 1 else 0)"
proof -
  note D = ownedD [OF inv k]
  let ?f = "w_idle_fiber k"
  have st: "fiber_state_at (y_world y) ?f \<in> {Fiber_INIT, Fiber_HOLD, Fiber_TERM}" using D(4) ph by (simp add: worker_ok_def)
  have oi: "own ?f = Some (AsIdle i)" using D(3) by (simp add: own_worker_def)
  have ci: "c \<noteq> ?f" if "w_cb_fiber k = Some c" for c using D(3) oi that by (auto simp: own_worker_def)
  show ?thesis
  proof (cases "fiber_state_at (y_world y) ?f = Fiber_TERM")
    case True
    have "owned_inv own (put y i (y_sched y) (y_world y) (k\<lparr>w_phase := PExit\<rparr>))"
      using D ph by (intro owned_inv_put [OF inv]) (auto simp: own_worker_def worker_ok_def)
    then show ?thesis using True by (simp add: run_idle_def)
  next
    case False
    let ?w = "set_fiber_state (y_world y) ?f Fiber_EXEC"
    let ?k = "k\<lparr>w_tls := SetThis (w_tls k) (Some ?f), w_phase := PRunIdle\<rparr>"
    let ?s = "(y_sched y)\<lparr>s_idleThreadCount := s_idleThreadCount (y_sched y) + 1\<rparr>"
    have "owned_inv own (put y i ?s ?w ?k)"
    proof (rule owned_inv_put [OF inv])
      show "own_worker own i ?k" using D(3) by (simp add: own_worker_def)
      show "worker_ok (fiber_state_at ?w) ?k" using D(4) ph ci by (auto simp: worker_ok_def SetThis_def)
      show "queue_ok (fiber_state_at ?w) (s_fibers ?s)"
        using oi queue_ok_other [OF D(5,1), of ?f "fiber_state_at ?w"] by simp
    qed (use D oi in auto)
    moreover have "fiber_state_at (y_world y) ?f \<noteq> Fiber_EXEC" using st by auto
    ultimately show ?thesis using False by (simp add: run_idle_def Fiber_swapIn_def)
  qed
qed

lemma post_idle_step:
  assumes inv: "owned_inv own y" and k: "y_workers y i = Some k" and ph: "w_phase k = PPostIdle"
    and r: "run_post_idle (y_sched y) (y_world y) k = (s', w', k')"
  shows "owned_inv own (put y i s' w' k')"
proof -
  note D = ownedD [OF inv k]
  let ?f = "w_idle_fiber k"
  have oi: "own ?f = Some (AsIdle i)" using D(3) by (simp add: own_worker_def)
  have ci: "c \<noteq> ?f" if "w_cb_fiber k = Some c" for c using D(3) oi that by (auto simp: own_worker_def)
  have w': "\<And>q. q \<noteq> ?f \<Longrightarrow> fiber_state_at w' q = fiber_state_at (y_world y) q" "own_heap own w'"
      "fiber_state_at w' ?f \<in> {Fiber_INIT, Fiber_HOLD, Fiber_TERM}"
    using r D(2,4) ph by (auto simp: run_post_idle_def Let_def worker_ok_def)
  have k': "k' = k\<lparr>w_phase := PTop\<rparr>" and s': "s_fibers s' = s_fibers (y_sched y)"
    using r by (auto simp: run_post_idle_def Let_def)
  have fr: "fiber_state_at w' q = fiber_state_at (y_world y) q" if "own q \<noteq> own ?f" for q using w'(1) that by metis
  show ?thesis
  proof (rule owned_inv_put [OF inv])
    show "own_worker own i k'" using D(3) by (simp add: k' own_worker_def)
    show "worker_ok (fiber_state_at w') k'" using D(4) ph ci w' by (auto simp: k' worker_ok_def)
    show "queue_ok (fiber_state_at w') (s_fibers s')"
      unfolding s' by (rule queue_ok_other [OF D(5,1), of ?f]) (use oi w'(1) in auto)
  qed (use D(1) oi fr w'(2) s' in auto)
qed

lemma schedule_cb_step:
  assumes "owned_inv own y"
  shows "owned_inv own (y\<lparr>y_sched := snd (Scheduler_schedule (y_sched y) (ScheduleCb c) thr)\<rparr>)"
  using assms
  by (auto simp: owned_inv_def schedule_fibers own_queue_def queue_ok_def queue_fibers_append List.map_filter_simps)

lemma schedule_fiber_step:
  assumes inv: "owned_inv own y" and free: "free_fiber y p"
  shows "\<exists>own'. owned_inv own' (y\<lparr>y_sched := snd (Scheduler_schedule (y_sched y) (ScheduleFiber (Some p)) thr)\<rparr>)"
proof -
  let ?own = "own(p \<mapsto> InQueue)"
  have q: "own_queue own (s_fibers (y_sched y))" using inv by (simp add: owned_inv_def)
  have np: "p \<notin> set (List.map_filter ft_fiber (s_fibers (y_sched y)))"
    using free by (auto simp: free_fiber_def queue_fibers_set)
  have "own_queue ?own (s_fibers (y_sched y) @ [\<lparr>ft_fiber = Some p, ft_cb = None, ft_thread = thr\<rparr>])"
    using q np by (auto simp: own_queue_def queue_fibers_append List.map_filter_simps)
  moreover have "own_heap ?own (y_world y)"
    using inv free by (auto simp: owned_inv_def free_fiber_def own_heap_def)
  moreover have "own_worker ?own i k" if "y_workers y i = Some k" for i k
    using inv free that by (auto simp: owned_inv_def free_fiber_def own_worker_def)
  moreover have "queue_ok (fiber_state_at (y_world y)) (s_fibers (y_sched y) @ [\<lparr>ft_fiber = Some p, ft_cb = None, ft_thread = thr\<rparr>])"
    using inv free by (auto simp: owned_inv_def free_fiber_def queue_ok_def)
  ultimately have "owned_inv ?own (y\<lparr>y_sched := snd (Scheduler_schedule (y_sched y) (ScheduleFiber (Some p)) thr)\<rparr>)"
    using inv by (simp add: owned_inv_def schedule_fibers)
  then show ?thesis by blast
qed

section \<open>Every reachable system satisfies the invariant\<close>

lemma init_inv: "sys_init y \<Longrightarrow> sys_inv y"
proof -
  assume i: "sys_init y"
  let ?own = "\<lambda>p. if \<exists>j k. y_workers y j = Some k \<and> w_idle_fiber k = p
    then Some (AsIdle (THE j. \<exists>k. y_workers y j = Some k \<and> w_idle_fiber k = p)) else None"
  have own: "?own (w_idle_fiber k) = Some (AsIdle j)" if "y_workers y j = Some k" for j k
  proof -
    have "(THE i. \<exists>k'. y_workers y i = Some k' \<and> w_idle_fiber k' = w_idle_fiber k) = j"
      using i that by (intro the_equality) (auto simp: sys_init_def)
    then show ?thesis using that by auto
  qed
  have "owned_inv ?own y"
    using i own by (auto simp: owned_inv_def own_queue_def own_heap_def own_worker_def worker_ok_def queue_ok_def
        sys_init_def List.map_filter_simps split: if_splits)
  moreover have "counts_ok (y_sched y) (y_workers y)"
  proof -
    have "{j. \<exists>k. y_workers y j = Some k \<and> active_phase (w_phase k)} = {}"
        "{j. \<exists>k. y_workers y j = Some k \<and> idle_phase (w_phase k)} = {}"
      using i by (auto simp: sys_init_def)
    note e = this
    show ?thesis using i unfolding counts_ok_def count_workers_def e by (simp add: sys_init_def)
  qed
  ultimately show ?thesis by (auto simp: sys_inv_def)
qed

lemma sys_inv_put:
  assumes "counts_ok (y_sched y) (y_workers y)" and "y_workers y i = Some k"
    and "\<exists>own. owned_inv own (put y i s' w' k')"
    and "s_activeThreadCount s' = s_activeThreadCount (y_sched y) + (if active_phase (w_phase k') then 1 else 0)
      - (if active_phase (w_phase k) then 1 else 0)"
    and "s_idleThreadCount s' = s_idleThreadCount (y_sched y) + (if idle_phase (w_phase k') then 1 else 0)
      - (if idle_phase (w_phase k) then 1 else 0)"
  shows "sys_inv (put y i s' w' k')"
  using counts_ok_upd [OF assms(1,2,4,5)] assms(3) by (simp add: sys_inv_def put_def)

lemma take_counts:
  "run_take s w k = Some (tick, s', k') \<Longrightarrow>
   s_activeThreadCount s' = s_activeThreadCount s + (if active_phase (w_phase k') then 1 else 0)
   \<and> s_idleThreadCount s' = s_idleThreadCount s \<and> \<not> idle_phase (w_phase k')"
  by (auto simp: run_take_def split: option.splits)

lemma return_counts:
  assumes "owned_inv own y" and "y_workers y i = Some k" and "counts_ok (y_sched y) (y_workers y)"
    and ph: "w_phase k = PRunFiber p \<or> w_phase k = PRunCb p \<and> out \<in> {Yield_Hold, Finished}
      \<or> w_phase k = PRunIdle \<and> p = w_idle_fiber k \<and> out \<in> {Yield_Hold, Finished}"
    and r: "run_return (y_world y) k out = Some (w', k')"
  shows "sys_inv (put y i (y_sched y) w' k')"
proof -
  have "owned_inv own (put y i (y_sched y) w' k')" "w_phase k' = after_return (w_phase k)"
    using return_step [OF assms(1,2) ph] r by auto
  then show ?thesis using ph by (intro sys_inv_put [OF assms(3,2)]) auto
qed

lemma sys_step_inv: "sys_step y y' \<Longrightarrow> sys_inv y \<Longrightarrow> sys_inv y'"
proof (induction rule: sys_step.induct)
  case (y_take y i k tick s' k')
  then obtain own where o: "owned_inv own y" "counts_ok (y_sched y) (y_workers y)" by (auto simp: sys_inv_def)
  show ?case
    using take_step(2) [OF o(1) y_take(1,2,3)] take_counts [OF y_take(3)] y_take(2)
    by (intro sys_inv_put [OF o(2) y_take(1)]) auto
next
  case (y_dispatch y i k t q cs s' w' k')
  then obtain own where o: "owned_inv own y" "counts_ok (y_sched y) (y_workers y)" by (auto simp: sys_inv_def)
  show ?case
    using dispatch_step [OF o(1) y_dispatch(1,2,3), of cs] y_dispatch(2,4)
    by (intro sys_inv_put [OF o(2) y_dispatch(1)]) auto
next
  case (y_return y i k p out w' k')
  then obtain own where o: "owned_inv own y" "counts_ok (y_sched y) (y_workers y)" by (auto simp: sys_inv_def)
  show ?case using y_return(2) by (intro return_counts [OF o(1) y_return(1) o(2) _ y_return(3)]) auto
next
  case (y_return_cb y i k p out w' k')
  then obtain own where o: "owned_inv own y" "counts_ok (y_sched y) (y_workers y)" by (auto simp: sys_inv_def)
  show ?case using y_return_cb(2,3) by (intro return_counts [OF o(1) y_return_cb(1) o(2) _ y_return_cb(4)]) auto
next
  case (y_back y i k p s' k')
  then obtain own where o: "owned_inv own y" "counts_ok (y_sched y) (y_workers y)" by (auto simp: sys_inv_def)
  show ?case
    using back_step [OF o(1) y_back(1,2,3)] y_back(2,3)
    by (intro sys_inv_put [OF o(2) y_back(1)]) (auto simp: run_back_def)
next
  case (y_post_fiber y i k p s' w' k')
  then obtain own where o: "owned_inv own y" "counts_ok (y_sched y) (y_workers y)" by (auto simp: sys_inv_def)
  show ?case
    using post_fiber_step [OF o(1) y_post_fiber(1,2,3)] y_post_fiber(2,3)
    by (intro sys_inv_put [OF o(2) y_post_fiber(1)])
      (auto simp: run_post_fiber_def Let_def schedule_fibers split: if_splits)
next
  case (y_post_cb y i k p s' w' k')
  then obtain own where o: "owned_inv own y" "counts_ok (y_sched y) (y_workers y)" by (auto simp: sys_inv_def)
  show ?case
    using post_cb_step [OF o(1) y_post_cb(1,2)] y_post_cb(2,3)
    by (intro sys_inv_put [OF o(2) y_post_cb(1)]) auto
next
  case (y_idle y i k s' w' k')
  then obtain own where o: "owned_inv own y" "counts_ok (y_sched y) (y_workers y)" by (auto simp: sys_inv_def)
  show ?case
    using idle_step [OF o(1) y_idle(1,2)] y_idle(2,3) by (intro sys_inv_put [OF o(2) y_idle(1)]) auto
next
  case (y_return_idle y i k w' k')
  then obtain own where o: "owned_inv own y" "counts_ok (y_sched y) (y_workers y)" by (auto simp: sys_inv_def)
  show ?case
    using y_return_idle(2)
    by (intro return_counts [OF o(1) y_return_idle(1) o(2) _ y_return_idle(3)]) (auto simp: Scheduler_idle_def)
next
  case (y_post_idle y i k s' w' k')
  then obtain own where o: "owned_inv own y" "counts_ok (y_sched y) (y_workers y)" by (auto simp: sys_inv_def)
  show ?case
    using post_idle_step [OF o(1) y_post_idle(1,2,3)] y_post_idle(2,3)
    by (intro sys_inv_put [OF o(2) y_post_idle(1)]) (auto simp: run_post_idle_def Let_def)
next
  case (y_schedule_cb y c thr)
  then show ?case
    using schedule_cb_step by (fastforce simp: sys_inv_def counts_ok_def schedule_fibers)
next
  case (y_schedule_fiber y p thr)
  then show ?case
    using schedule_fiber_step by (fastforce simp: sys_inv_def counts_ok_def schedule_fibers)
next
  case (y_stop y)
  then show ?case by (auto simp: sys_inv_def counts_ok_def owned_inv_def)
qed

lemma sys_reachable_inv: "sys_reachable y \<Longrightarrow> sys_inv y"
  by (induction rule: sys_reachable.induct) (auto intro: init_inv sys_step_inv)

end
