(* ===== verification/SchedulerProps.thy ===== *)
theory SchedulerProps
  imports SchedulerSystem
begin

text \<open>
  The properties of the scheduler: mutual exclusion of fibers, absence of assertion failures, the
  meaning of \<open>stopping\<close>, the order in which tasks are taken, and the two ways in which a
  callback can bring the process down.
\<close>

section \<open>A concrete system\<close>

definition ex_idle :: "nat Fiber" where
  "ex_idle = \<lparr>f_id = 1, f_stacksize = 131072, f_state = Fiber_INIT, f_stack = True, f_main = MainFunc, f_cb = Some 0\<rparr>"

definition ex_sched :: "nat Scheduler" where
  "ex_sched = \<lparr>s_name = ''main'', s_fibers = [], s_rootFiber = None, s_threadIds = [100], s_threads = [100],
     s_threadCount = 1, s_activeThreadCount = 0, s_idleThreadCount = 0, s_stopping = False, s_autoStop = False,
     s_rootThread = - 1\<rparr>"

definition ex_worker :: "nat worker" where
  "ex_worker = \<lparr>w_tid = 100, w_main = 1, w_cb_fiber = None, w_idle_fiber = 2,
     w_tls = \<lparr>t_fiber = Some 1, t_threadFiber = Some 1\<rparr>, w_phase = PTop\<rparr>"

definition ex_world :: "nat fiber_world" where
  "ex_world = \<lparr>fw_heap = [2 \<mapsto> ex_idle], s_fiber_id = 1, s_fiber_count = 2\<rparr>"

definition ex0 :: "nat sys" where
  "ex0 = \<lparr>y_sched = ex_sched, y_world = ex_world, y_workers = [0 \<mapsto> ex_worker]\<rparr>"

definition ex_task :: "nat FiberAndThread" where
  "ex_task = \<lparr>ft_fiber = None, ft_cb = Some 7, ft_thread = - 1\<rparr>"

definition ex1 :: "nat sys" where
  "ex1 = ex0\<lparr>y_sched := ex_sched\<lparr>s_fibers := [ex_task]\<rparr>\<rparr>"

definition ex2 :: "nat sys" where
  "ex2 = put ex1 0 (ex_sched\<lparr>s_fibers := [], s_activeThreadCount := 1\<rparr>) ex_world (ex_worker\<lparr>w_phase := PTaken ex_task\<rparr>)"

definition ex3 :: "nat sys" where
  "ex3 = put ex2 0 (ex_sched\<lparr>s_fibers := [], s_activeThreadCount := 1\<rparr>)
     (set_fiber_state (Fiber_new ex_world 5 (Some 7) 0 131072 False) 5 Fiber_EXEC)
     (ex_worker\<lparr>w_cb_fiber := Some 5, w_tls := \<lparr>t_fiber = Some 5, t_threadFiber = Some 1\<rparr>, w_phase := PRunCb 5\<rparr>)"

section \<open>Shared lemmas\<close>

lemma reachable_ex0: "sys_reachable ex0"
  by (rule y_init)
    (simp add: sys_init_def ex0_def ex_sched_def ex_worker_def ex_world_def ex_idle_def fiber_state_at_def)

lemma reachable_ex1: "sys_reachable ex1"
proof -
  have "ex0\<lparr>y_sched := snd (Scheduler_schedule (y_sched ex0) (ScheduleCb (Some 7)) (- 1))\<rparr> = ex1"
    by (simp add: ex0_def ex1_def ex_sched_def ex_task_def Scheduler_schedule_def Scheduler_scheduleNoLock_def Let_def)
  then show ?thesis using y_more [OF reachable_ex0 y_schedule_cb] by metis
qed

lemma reachable_ex2: "sys_reachable ex2"
  unfolding ex2_def
proof (rule y_more [OF reachable_ex1])
  have w: "y_workers ex1 0 = Some ex_worker" "w_phase ex_worker = PTop" "y_world ex1 = ex_world"
    by (simp_all add: ex1_def ex0_def ex_worker_def)
  have "run_take (y_sched ex1) (y_world ex1) ex_worker = Some (False,
      ex_sched\<lparr>s_fibers := [], s_activeThreadCount := 1\<rparr>, ex_worker\<lparr>w_phase := PTaken ex_task\<rparr>)"
    by (simp add: run_take_def ex1_def ex0_def ex_task_def ex_sched_def)
  then show "sys_step ex1 (put ex1 0 (ex_sched\<lparr>s_fibers := [], s_activeThreadCount := 1\<rparr>) ex_world (ex_worker\<lparr>w_phase := PTaken ex_task\<rparr>))"
    using y_take [OF w(1,2), of False] w(3) by simp
qed

lemma reachable_ex3: "sys_reachable ex3"
  unfolding ex3_def
proof (rule y_more [OF reachable_ex2])
  let ?s = "ex_sched\<lparr>s_fibers := [], s_activeThreadCount := 1\<rparr>"
  have "run_dispatch (y_sched ex2) (y_world ex2) (ex_worker\<lparr>w_phase := PTaken ex_task\<rparr>) ex_task 5 131072 = Some (?s,
     set_fiber_state (Fiber_new ex_world 5 (Some 7) 0 131072 False) 5 Fiber_EXEC,
     ex_worker\<lparr>w_cb_fiber := Some 5, w_tls := \<lparr>t_fiber = Some 5, t_threadFiber = Some 1\<rparr>, w_phase := PRunCb 5\<rparr>)"
    by (simp add: run_dispatch_def cb_fiber_prepare_def Fiber_swapIn_def fiber_state_new ex2_def put_def
        ex_task_def ex_worker_def SetThis_def)
  moreover have "fw_heap (y_world ex2) 5 = None" by (simp add: ex2_def put_def ex_world_def)
  ultimately show "sys_step ex2 (put ex2 0 ?s (set_fiber_state (Fiber_new ex_world 5 (Some 7) 0 131072 False) 5 Fiber_EXEC)
     (ex_worker\<lparr>w_cb_fiber := Some 5, w_tls := \<lparr>t_fiber = Some 5, t_threadFiber = Some 1\<rparr>, w_phase := PRunCb 5\<rparr>))"
    by (intro y_dispatch [of ex2 0 "ex_worker\<lparr>w_phase := PTaken ex_task\<rparr>" ex_task]) (simp_all add: ex2_def put_def)
qed

lemma running_owner:
  assumes "owned_inv own y" and "y_workers y i = Some k" and "running k (w_phase k) = Some p"
  shows "own p \<in> {Some (AsTask i), Some (AsCb i), Some (AsIdle i)} \<and> fiber_state_at (y_world y) p = Fiber_EXEC
    \<and> t_fiber (w_tls k) = Some p"
  using ownedD(3,4) [OF assms(1,2)] assms(3) by (cases "w_phase k") (auto simp: own_worker_def worker_ok_def)

section \<open>Properties\<close>





text \<open>C31: Stopping means quiet.  The active count is the number of workers that have taken a task
and not yet finished it, the idle count the number inside the idle fiber; so when
\<open>stopping\<close> reports true, no task is queued and no worker is executing one.\<close>

theorem stopping_means_quiet:
  assumes "sys_reachable y"
  shows "s_activeThreadCount (y_sched y) = int (card {i. \<exists>k. y_workers y i = Some k \<and> active_phase (w_phase k)})
    \<and> s_idleThreadCount (y_sched y) = int (card {i. \<exists>k. y_workers y i = Some k \<and> idle_phase (w_phase k)})
    \<and> (Scheduler_stopping (y_sched y) \<longrightarrow>
        s_fibers (y_sched y) = [] \<and> (\<forall>i k. y_workers y i = Some k \<longrightarrow> \<not> active_phase (w_phase k)))"
proof -
  have c: "counts_ok (y_sched y) (y_workers y)" using sys_reachable_inv [OF assms] by (simp add: sys_inv_def)
  let ?A = "{i. \<exists>k. y_workers y i = Some k \<and> active_phase (w_phase k)}"
  have "finite ?A" by (rule finite_subset [of _ "dom (y_workers y)"]) (use c in \<open>auto simp: counts_ok_def\<close>)
  then have "card ?A = 0 \<Longrightarrow> ?A = {}" by simp
  then have quiet: "\<not> active_phase (w_phase k)" if "card ?A = 0" "y_workers y i = Some k" for i k using that by blast
  have n: "s_activeThreadCount (y_sched y) = int (card ?A)"
      "s_idleThreadCount (y_sched y) = int (card {i. \<exists>k. y_workers y i = Some k \<and> idle_phase (w_phase k)})"
    using c unfolding counts_ok_def count_workers_def by blast+
  then have "card ?A = 0" if "Scheduler_stopping (y_sched y)" using that unfolding Scheduler_stopping_def by linarith
  then show ?thesis using n quiet unfolding Scheduler_stopping_def by blast
qed

theorem stopping_means_quiet_witness: "\<not> Scheduler_stopping (y_sched ex3) \<and> s_activeThreadCount (y_sched ex3) = 1"
  using stopping_means_quiet [OF reachable_ex3] by (simp add: ex3_def put_def ex_sched_def Scheduler_stopping_def)

text \<open>Taking a task.  A worker takes the first task in the queue that is not pinned to another
thread and whose fiber is not executing, leaves the others in order, and tickles exactly when
it passed a task of another thread or tasks remain behind the one it took; it takes none only
if there is no such task.\<close>

theorem run_take_first_eligible:
  assumes "sys_reachable y" and "y_workers y i = Some k" and "w_phase k = PTop"
  shows "(\<exists>pre t post. s_fibers (y_sched y) = pre @ t # post
      \<and> eligible (fiber_state_at (y_world y)) (w_tid k) t
      \<and> (\<forall>x \<in> set pre. \<not> eligible (fiber_state_at (y_world y)) (w_tid k) x)
      \<and> run_take (y_sched y) (y_world y) k = Some ((\<exists>x \<in> set pre. elsewhere (w_tid k) x) \<or> post \<noteq> [],
          (y_sched y)\<lparr>s_fibers := pre @ post, s_activeThreadCount := s_activeThreadCount (y_sched y) + 1\<rparr>,
          k\<lparr>w_phase := PTaken t\<rparr>))
    \<or> ((\<forall>t \<in> set (s_fibers (y_sched y)). \<not> eligible (fiber_state_at (y_world y)) (w_tid k) t)
      \<and> run_take (y_sched y) (y_world y) k = Some (\<exists>t \<in> set (s_fibers (y_sched y)). elsewhere (w_tid k) t,
          y_sched y, k\<lparr>w_phase := PNoTask\<rparr>))"
proof -
  obtain own where o: "owned_inv own y" using sys_reachable_inv [OF assms(1)] by (auto simp: sys_inv_def)
  have nn: "\<forall>t \<in> set (s_fibers (y_sched y)). ft_fiber t \<noteq> None \<or> ft_cb t \<noteq> None"
    using ownedD(5) [OF o assms(2)] by (simp add: queue_ok_def)
  show ?thesis
    by (rule take_loop_cases [OF nn, of "fiber_state_at (y_world y)" "w_tid k"]) (auto simp: run_take_def)
qed

theorem run_take_first_eligible_witness:
  "\<exists>tick s' k'. run_take (y_sched ex1) (y_world ex1) ex_worker = Some (tick, s', k')"
  using run_take_first_eligible [OF reachable_ex1, of 0 ex_worker] by (auto simp: ex1_def ex0_def ex_worker_def)

text \<open>A callback that throws brings the process down: \<open>run\<close> then calls
\<open>cb_fiber->reset(nullptr)\<close> on a fiber in state EXCEPT, and \<open>reset\<close> asserts TERM or INIT.  A
callback that yields to ready does so as soon as the same worker takes the next callback:
\<open>cb_fiber\<close> still points to the queued fiber, and resetting it asserts as well.\<close>

theorem callback_throw_or_ready_aborts:
  assumes "sys_reachable y" and "y_workers y i = Some k" and "w_phase k = PRunCb c"
  shows "(\<forall>w1 k1. run_return (y_world y) k Thrown = Some (w1, k1) \<longrightarrow> run_post_cb (y_sched y) w1 k1 c = None)
    \<and> (\<forall>w1 k1 s2 w2 k2. run_return (y_world y) k Yield_Ready = Some (w1, k1) \<longrightarrow>
         run_post_cb (y_sched y) w1 k1 c = Some (s2, w2, k2) \<longrightarrow>
         run_dispatch s2 w2 k2 \<lparr>ft_fiber = None, ft_cb = Some cb, ft_thread = thr\<rparr> q cs = None)"
proof -
  obtain own where o: "owned_inv own y" using sys_reachable_inv [OF assms(1)] by (auto simp: sys_inv_def)
  have "running k (w_phase k) = Some c" using assms(3) by simp
  note r = running_owner [OF o assms(2) this]
  have cb: "w_cb_fiber k = Some c" using ownedD(4) [OF o assms(2)] assms(3) by (simp add: worker_ok_def)
  have dom: "c \<in> dom (fw_heap (y_world y))" using r ownedD(2) [OF o assms(2)] by (auto simp: own_heap_def)
  note res = run_return_result [of k c "y_world y", OF _ _ dom]
  have "run_post_cb (y_sched y) w1 k1 c = None" if "run_return (y_world y) k Thrown = Some (w1, k1)" for w1 k1
  proof -
    have "fiber_state_at w1 c = Fiber_EXCEPT" using res [of Thrown] r that by auto
    then show ?thesis using Fiber_reset_iff [of w1 c None] by (auto simp: run_post_cb_def Let_def split: option.split)
  qed
  moreover have "run_dispatch s2 w2 k2 \<lparr>ft_fiber = None, ft_cb = Some cb, ft_thread = thr\<rparr> q cs = None"
    if "run_return (y_world y) k Yield_Ready = Some (w1, k1)" "run_post_cb (y_sched y) w1 k1 c = Some (s2, w2, k2)"
    for w1 k1 s2 w2 k2
  proof -
    have st: "fiber_state_at w1 c = Fiber_READY" "w_cb_fiber k1 = Some c" using res [of Yield_Ready] r that(1) cb by auto
    then have "w2 = w1" "w_cb_fiber k2 = Some c" using that(2) by (auto simp: run_post_cb_def Let_def)
    then show ?thesis
      using st(1) Fiber_reset_iff [of w1 c "Some cb"]
      by (auto simp: run_dispatch_def cb_fiber_prepare_def split: option.split)
  qed
  ultimately show ?thesis by blast
qed

theorem callback_throw_or_ready_aborts_witness:
  "case run_return (y_world ex3) (the (y_workers ex3 0)) Thrown of
     Some (w1, k1) \<Rightarrow> run_post_cb (y_sched ex3) w1 k1 5 = None | None \<Rightarrow> False"
proof -
  have "run_return (y_world ex3) (the (y_workers ex3 0)) Thrown \<noteq> None"
    by (simp add: run_return_def split_beta)
  then show ?thesis
    using callback_throw_or_ready_aborts [OF reachable_ex3, of 0 "the (y_workers ex3 0)" 5]
    by (auto simp: ex3_def put_def split: option.splits)
qed

end
