(* ===== verification/IOManager.thy ===== *)
theory IOManager
  imports Timer Scheduler
begin

text \<open>
  The epoll driven scheduler (\<open>src/megalo/iomanager.h\<close>, \<open>src/megalo/iomanager.cc\<close>): the table
  of file descriptor contexts, registering, deleting and cancelling events, and the idle loop
  that turns expired timers and ready descriptors into tasks.

  An \<open>IOManager\<close> is a scheduler and a timer manager; a context names the scheduler its waiter
  belongs to, which may be another one, so the state holds the schedulers by address
  (\<open>io_scheds\<close>) and \<open>io_self\<close> is the address of this object.  Tasks are timer callbacks.
  The constants of \<open>sys/epoll.h\<close> are those of Linux.  The result of each \<open>epoll_ctl\<close> is an
  argument (\<open>rt\<close>); \<open>io_interest\<close> records what the successful calls have asked the kernel to
  watch: \<open>EPOLL_CTL_ADD\<close> and \<open>EPOLL_CTL_MOD\<close> set the mask of a descriptor, \<open>EPOLL_CTL_DEL\<close>
  removes it.  The data of an event is either the tickle pipe or a context pointer, here the
  index of the context.  Each operation is one critical section under the mutex of its context.

  \<open>None\<close> is a failed assertion, a null pointer that is followed, or an index outside the table.
\<close>

section \<open>State\<close>

definition READ_event :: u32 where "READ_event = 0x01"
definition WRITE_event :: u32 where "WRITE_event = 0x04"
definition EPOLLIN :: u32 where "EPOLLIN = 0x01"
definition EPOLLOUT :: u32 where "EPOLLOUT = 0x04"
definition EPOLLERR :: u32 where "EPOLLERR = 0x08"
definition EPOLLHUP :: u32 where "EPOLLHUP = 0x10"
definition EPOLLET :: u32 where "EPOLLET = 0x80000000"

datatype epoll_op = EPOLL_CTL_ADD | EPOLL_CTL_MOD | EPOLL_CTL_DEL

record 'f EventContext =
  ec_scheduler :: "nat option"
  ec_fiber :: "nat option"
  ec_cb :: "'f timer_cb option"

record 'f FdContext =
  fc_read :: "'f EventContext"
  fc_write :: "'f EventContext"
  fc_fd :: nat
  fc_events :: u32

record 'f IOManager =
  io_scheds :: "nat \<Rightarrow> 'f timer_cb Scheduler"
  io_self :: nat
  io_timers :: "'f TimerManager"
  io_fdContexts :: "'f FdContext list"
  io_pending :: u64
  io_pipe :: nat
  io_interest :: "nat \<rightharpoonup> u32"

definition new_EventContext :: "'f EventContext" where
  "new_EventContext = \<lparr>ec_scheduler = None, ec_fiber = None, ec_cb = None\<rparr>"

definition new_FdContext :: "nat \<Rightarrow> 'f FdContext" where
  "new_FdContext fd = \<lparr>fc_read = new_EventContext, fc_write = new_EventContext, fc_fd = fd, fc_events = 0\<rparr>"

section \<open>Contexts\<close>

definition FdContext_getContext :: "'f FdContext \<Rightarrow> u32 \<Rightarrow> 'f EventContext option" where
  "FdContext_getContext fc event =
     (if event = READ_event then Some (fc_read fc)
      else if event = WRITE_event then Some (fc_write fc) else None)"

text \<open>Writing through the reference that \<open>getContext\<close> returns.\<close>

definition FdContext_setContext :: "'f FdContext \<Rightarrow> u32 \<Rightarrow> 'f EventContext \<Rightarrow> 'f FdContext" where
  "FdContext_setContext fc event ctx =
     (if event = READ_event then fc\<lparr>fc_read := ctx\<rparr> else fc\<lparr>fc_write := ctx\<rparr>)"

definition FdContext_resetContext :: "'f EventContext \<Rightarrow> 'f EventContext" where
  "FdContext_resetContext ctx = ctx\<lparr>ec_scheduler := None, ec_fiber := None, ec_cb := None\<rparr>"

definition set_fdContext :: "'f IOManager \<Rightarrow> nat \<Rightarrow> 'f FdContext \<Rightarrow> 'f IOManager" where
  "set_fdContext m i fc = m\<lparr>io_fdContexts := (io_fdContexts m)[i := fc]\<rparr>"

definition IOManager_tickle :: "'f IOManager \<Rightarrow> 'f IOManager" where
  "IOManager_tickle m =
     (if \<not> s_idleThreadCount (io_scheds m (io_self m)) > 0 then m else m\<lparr>io_pipe := io_pipe m + 1\<rparr>)"

text \<open>
  \<open>schedule\<close> on the scheduler at address \<open>s\<close>; it calls the virtual \<open>tickle\<close> of that object,
  which concerns this object only when it is the one.
\<close>

definition schedule_on :: "'f IOManager \<Rightarrow> nat \<Rightarrow> 'f timer_cb FiberOrCb \<Rightarrow> 'f IOManager" where
  "schedule_on m s fc =
     (let (need_tickle, s') = Scheduler_schedule (io_scheds m s) fc (- 1);
          m' = m\<lparr>io_scheds := (io_scheds m)(s := s')\<rparr> in
      if need_tickle \<and> s = io_self m then IOManager_tickle m' else m')"

definition FdContext_triggerEvent :: "'f IOManager \<Rightarrow> nat \<Rightarrow> u32 \<Rightarrow> 'f IOManager option" where
  "FdContext_triggerEvent m i event =
     (let fc = io_fdContexts m ! i in
      if fc_events fc AND event = 0 then None
      else let fc1 = fc\<lparr>fc_events := fc_events fc AND NOT event\<rparr> in
        case FdContext_getContext fc1 event of None \<Rightarrow> None
        | Some ctx \<Rightarrow>
          (case ec_scheduler ctx of None \<Rightarrow> None
           | Some s \<Rightarrow>
             let (task, ctx1) = (if ec_cb ctx \<noteq> None then (ScheduleCb (ec_cb ctx), ctx\<lparr>ec_cb := None\<rparr>)
                                 else (ScheduleFiber (ec_fiber ctx), ctx\<lparr>ec_fiber := None\<rparr>));
                 m1 = schedule_on m s task in
             Some (set_fdContext m1 i (FdContext_setContext fc1 event (ctx1\<lparr>ec_scheduler := None\<rparr>)))))"

section \<open>Construction and the table\<close>

definition contextResize :: "'f IOManager \<Rightarrow> nat \<Rightarrow> 'f IOManager" where
  "contextResize m n =
     m\<lparr>io_fdContexts := take n (io_fdContexts m) @ map new_FdContext [length (io_fdContexts m)..<n]\<rparr>"

text \<open>
  The members of a new object; \<open>sched\<close> and \<open>timers\<close> are its base parts after \<open>start\<close> and
  \<open>tickle_fd\<close> is the read end of the pipe.
\<close>

definition IOManager_new ::
    "(nat \<Rightarrow> 'f timer_cb Scheduler) \<Rightarrow> nat \<Rightarrow> 'f timer_cb Scheduler \<Rightarrow> 'f TimerManager \<Rightarrow> nat \<Rightarrow> 'f IOManager" where
  "IOManager_new scheds self sched timers tickle_fd =
     contextResize
       \<lparr>io_scheds = scheds(self := sched), io_self = self, io_timers = timers, io_fdContexts = [],
        io_pending = 0, io_pipe = 0, io_interest = [tickle_fd \<mapsto> EPOLLIN OR EPOLLET]\<rparr> 32"

definition epoll_ctl_done :: "'f IOManager \<Rightarrow> epoll_op \<Rightarrow> nat \<Rightarrow> u32 \<Rightarrow> 'f IOManager" where
  "epoll_ctl_done m op fd events =
     m\<lparr>io_interest := (io_interest m)(fd := (if op = EPOLL_CTL_DEL then None else Some events))\<rparr>"

section \<open>Registering and removing events\<close>

text \<open>
  \<open>addEvent\<close>: \<open>this\<close> is \<open>Scheduler::GetThis()\<close>, \<open>cur\<close> is \<open>Fiber::GetThis()\<close> and \<open>cur_state\<close> its state.
  \<open>fd * 1.5\<close> is exact in a double and truncated to \<open>size_t\<close>.
\<close>

definition addEvent_context :: "'f IOManager \<Rightarrow> int \<Rightarrow> 'f IOManager" where
  "addEvent_context m fd =
     (if int (length (io_fdContexts m)) > fd then m else contextResize m (nat (fd * 3 div 2)))"

definition addEvent_register ::
    "'f FdContext \<Rightarrow> u32 \<Rightarrow> 'f timer_cb option \<Rightarrow> nat option \<Rightarrow> nat \<Rightarrow> fiber_state \<Rightarrow> 'f FdContext option" where
  "addEvent_register fc event cb this cur cur_state =
     (let fc1 = fc\<lparr>fc_events := fc_events fc OR event\<rparr> in
      case FdContext_getContext fc1 event of None \<Rightarrow> None
      | Some ctx \<Rightarrow>
        if ec_scheduler ctx = None \<and> ec_cb ctx = None \<and> ec_fiber ctx = None
        then (if cb \<noteq> None
              then Some (FdContext_setContext fc1 event (ctx\<lparr>ec_scheduler := this, ec_cb := cb\<rparr>))
              else if cur_state = Fiber_EXEC
              then Some (FdContext_setContext fc1 event (ctx\<lparr>ec_scheduler := this, ec_fiber := Some cur\<rparr>))
              else None)
        else None)"

definition IOManager_addEvent ::
    "'f IOManager \<Rightarrow> int \<Rightarrow> u32 \<Rightarrow> 'f timer_cb option \<Rightarrow> nat option \<Rightarrow> nat \<Rightarrow> fiber_state \<Rightarrow> int
      \<Rightarrow> (int \<times> 'f IOManager) option" where
  "IOManager_addEvent m fd event cb this cur cur_state rt =
     (let m1 = addEvent_context m fd; i = nat fd in
      if fd < 0 \<or> length (io_fdContexts m1) \<le> i then None
      else let fc = io_fdContexts m1 ! i in
        if fc_events fc AND event \<noteq> 0 then None
        else let op = (if fc_events fc \<noteq> 0 then EPOLL_CTL_MOD else EPOLL_CTL_ADD) in
          if rt \<noteq> 0 then Some (- 1, m1)
          else case addEvent_register fc event cb this cur cur_state of None \<Rightarrow> None
            | Some fc' \<Rightarrow>
              let m2 = epoll_ctl_done m1 op i (EPOLLET OR fc_events fc OR event) in
              Some (0, set_fdContext (m2\<lparr>io_pending := io_pending m2 + 1\<rparr>) i fc'))"

text \<open>The operation and the mask \<open>delEvent\<close> and \<open>cancelEvent\<close> pass to \<open>epoll_ctl\<close>.\<close>

definition left_op :: "u32 \<Rightarrow> epoll_op" where
  "left_op left_events = (if left_events \<noteq> 0 then EPOLL_CTL_MOD else EPOLL_CTL_DEL)"

definition IOManager_delEvent :: "'f IOManager \<Rightarrow> int \<Rightarrow> u32 \<Rightarrow> int \<Rightarrow> (bool \<times> 'f IOManager) option" where
  "IOManager_delEvent m fd event rt =
     (if int (length (io_fdContexts m)) \<le> fd then Some (False, m)
      else if fd < 0 then None
      else let i = nat fd; fc = io_fdContexts m ! i in
        if fc_events fc AND event = 0 then Some (False, m)
        else let new_event = fc_events fc AND NOT event in
          if rt \<noteq> 0 then Some (False, m)
          else let m1 = epoll_ctl_done m (left_op new_event) i (EPOLLET OR new_event);
                   m2 = m1\<lparr>io_pending := io_pending m1 - 1\<rparr>; fc1 = fc\<lparr>fc_events := new_event\<rparr> in
            case FdContext_getContext fc1 event of None \<Rightarrow> None
            | Some ctx \<Rightarrow> Some (True, set_fdContext m2 i (FdContext_setContext fc1 event (FdContext_resetContext ctx))))"

definition IOManager_cancelEvent :: "'f IOManager \<Rightarrow> int \<Rightarrow> u32 \<Rightarrow> int \<Rightarrow> (bool \<times> 'f IOManager) option" where
  "IOManager_cancelEvent m fd event rt =
     (if int (length (io_fdContexts m)) \<le> fd then Some (False, m)
      else if fd < 0 then None
      else let i = nat fd; fc = io_fdContexts m ! i in
        if fc_events fc AND event = 0 then Some (False, m)
        else let new_event = fc_events fc AND NOT event in
          if rt \<noteq> 0 then Some (False, m)
          else case FdContext_triggerEvent (epoll_ctl_done m (left_op new_event) i (EPOLLET OR new_event)) i event of
              None \<Rightarrow> None
            | Some m1 \<Rightarrow> Some (True, m1\<lparr>io_pending := io_pending m1 - 1\<rparr>))"

text \<open>\<open>if(events & e)\<close>: trigger the event and count it.\<close>

definition trigger_if :: "'f IOManager \<Rightarrow> nat \<Rightarrow> u32 \<Rightarrow> u32 \<Rightarrow> 'f IOManager option" where
  "trigger_if m i evs event =
     (if evs AND event \<noteq> 0
      then (case FdContext_triggerEvent m i event of None \<Rightarrow> None
            | Some m1 \<Rightarrow> Some (m1\<lparr>io_pending := io_pending m1 - 1\<rparr>))
      else Some m)"

definition IOManager_cancelAll :: "'f IOManager \<Rightarrow> int \<Rightarrow> int \<Rightarrow> (bool \<times> 'f IOManager) option" where
  "IOManager_cancelAll m fd rt =
     (if int (length (io_fdContexts m)) \<le> fd then Some (False, m)
      else if fd < 0 then None
      else let i = nat fd; fc = io_fdContexts m ! i in
        if fc_events fc = 0 then Some (False, m)
        else if rt \<noteq> 0 then Some (False, m)
        else case trigger_if (epoll_ctl_done m EPOLL_CTL_DEL i 0) i (fc_events fc) READ_event of None \<Rightarrow> None
          | Some m1 \<Rightarrow>
            (case trigger_if m1 i (fc_events (io_fdContexts m1 ! i)) WRITE_event of None \<Rightarrow> None
             | Some m2 \<Rightarrow> if fc_events (io_fdContexts m2 ! i) = 0 then Some (True, m2) else None))"

section \<open>The idle loop\<close>

definition IOManager_stopping :: "'f IOManager \<Rightarrow> u64 \<Rightarrow> bool \<times> u64 \<times> 'f IOManager" where
  "IOManager_stopping m now =
     (let (timeout, tm) = TimerManager_getNextTimer (io_timers m) now in
      (timeout = NOT 0 \<and> io_pending m = 0 \<and> Scheduler_stopping (io_scheds m (io_self m)),
       timeout, m\<lparr>io_timers := tm\<rparr>))"

text \<open>The timeout before each \<open>epoll_wait\<close>; the comparison and the call convert it to \<open>int\<close>.\<close>

definition MAX_TIMEOUT :: u64 where "MAX_TIMEOUT = 1000"

definition idle_timeout :: "u64 \<Rightarrow> u64" where
  "idle_timeout next_timeout =
     (if next_timeout \<noteq> NOT 0
      then (if sint (ucast next_timeout :: i32) > sint (ucast MAX_TIMEOUT :: i32) then MAX_TIMEOUT else next_timeout)
      else MAX_TIMEOUT)"

datatype epoll_data = TickleFd | CtxPtr nat

datatype epoll_result = Epoll_EINTR | Epoll_Failed | Epoll_Ready "(epoll_data \<times> u32) list"

text \<open>
  The \<open>do\<close> loop around \<open>epoll_wait\<close>: \<open>results\<close> are the results of its calls.  The value is the
  argument of each call and the final result, or \<open>None\<close> if every call was interrupted.
\<close>

primrec idle_wait :: "u64 \<Rightarrow> epoll_result list \<Rightarrow> (i32 list \<times> epoll_result) option" where
  "idle_wait next_timeout [] = None"
| "idle_wait next_timeout (r # rs) =
     (let t = idle_timeout next_timeout in
      if r = Epoll_EINTR
      then (case idle_wait t rs of None \<Rightarrow> None | Some (ts, res) \<Rightarrow> Some (ucast t # ts, res))
      else Some ([ucast t], r))"

text \<open>The events one ready descriptor stands for.\<close>

definition real_events :: "u32 \<Rightarrow> u32 \<Rightarrow> u32" where
  "real_events ctx_events events =
     (let ev = (if events AND (EPOLLERR OR EPOLLHUP) \<noteq> 0
                then events OR ((EPOLLIN OR EPOLLOUT) AND ctx_events) else events) in
      (if ev AND EPOLLIN \<noteq> 0 then READ_event else 0) OR (if ev AND EPOLLOUT \<noteq> 0 then WRITE_event else 0))"

definition idle_event :: "'f IOManager \<Rightarrow> epoll_data \<Rightarrow> u32 \<Rightarrow> int \<Rightarrow> 'f IOManager option" where
  "idle_event m data events rt =
     (case data of TickleFd \<Rightarrow> Some (m\<lparr>io_pipe := 0\<rparr>)
      | CtxPtr i \<Rightarrow>
        let fc = io_fdContexts m ! i; re = real_events (fc_events fc) events in
        if fc_events fc AND re = 0 then Some m
        else let left_events = fc_events fc AND NOT re in
          if rt \<noteq> 0 then Some m
          else case trigger_if (epoll_ctl_done m (left_op left_events) (fc_fd fc) (EPOLLET OR left_events)) i re READ_event of
              None \<Rightarrow> None
            | Some m1 \<Rightarrow> trigger_if m1 i re WRITE_event)"

text \<open>\<open>rts k\<close> is the result of \<open>epoll_ctl\<close> for the \<open>k\<close>-th event.\<close>

primrec idle_events :: "'f IOManager \<Rightarrow> (epoll_data \<times> u32) list \<Rightarrow> (nat \<Rightarrow> int) \<Rightarrow> 'f IOManager option" where
  "idle_events m [] rts = Some m"
| "idle_events m (e # es) rts =
     (case idle_event m (fst e) (snd e) (rts 0) of None \<Rightarrow> None | Some m' \<Rightarrow> idle_events m' es (rts \<circ> Suc))"

definition idle_expired :: "'f IOManager \<Rightarrow> u64 \<Rightarrow> nat \<Rightarrow> 'f IOManager" where
  "idle_expired m now q =
     (let (cbs, tm) = TimerManager_listExpiredCb (io_timers m) now q; m1 = m\<lparr>io_timers := tm\<rparr> in
      if cbs = [] then m1
      else let (tick, s') = Scheduler_schedule_range (io_scheds m (io_self m)) (map ScheduleCb cbs) (- 1);
               m2 = m1\<lparr>io_scheds := (io_scheds m)(io_self m := s')\<rparr> in
        if tick then IOManager_tickle m2 else m2)"

text \<open>
  One turn of \<open>IOManager::idle\<close>: the flag is whether the loop is left; otherwise the idle fiber
  swaps out at the end of the turn.  \<open>now\<close> and \<open>now'\<close> are the clock before and after the wait
  and \<open>q\<close> the address of a temporary timer.  An \<open>epoll_wait\<close> that never ends is \<open>None\<close> too.
\<close>

definition IOManager_idle ::
    "'f IOManager \<Rightarrow> u64 \<Rightarrow> epoll_result list \<Rightarrow> u64 \<Rightarrow> nat \<Rightarrow> (nat \<Rightarrow> int) \<Rightarrow> (bool \<times> 'f IOManager) option" where
  "IOManager_idle m now waits now' q rts =
     (let (stop, next_timeout, m1) = IOManager_stopping m now in
      if stop then Some (True, m1)
      else case idle_wait next_timeout waits of None \<Rightarrow> None
        | Some (_, res) \<Rightarrow>
          let m2 = idle_expired m1 now' q;
              evs = (case res of Epoll_Ready es \<Rightarrow> es | _ \<Rightarrow> []) in
          (case idle_events m2 evs rts of None \<Rightarrow> None | Some m3 \<Rightarrow> Some (False, m3)))"

definition IOManager_onTimerInsertAtFront :: "'f IOManager \<Rightarrow> 'f IOManager" where
  "IOManager_onTimerInsertAtFront m = IOManager_tickle m"

end
