(* ===== verification/IOManagerProps.thy ===== *)
theory IOManagerProps
  imports IOManager
begin

text \<open>
  What the event table promises.  Abstractly it is a table of waiters, at most one per descriptor
  and direction, and delivering a waiter removes it from the table and queues its task.  The
  operations of the code refine this specification on every branch, failures included.
\<close>

section \<open>The specification\<close>

record 'f io_spec =
  sp_waiting :: "nat \<Rightarrow> u32 \<Rightarrow> (nat \<times> 'f timer_cb FiberAndThread) option"
  sp_queue :: "nat \<Rightarrow> 'f timer_cb FiberAndThread list"

datatype 'f io_op =
    Add int u32 "'f timer_cb option" nat nat int
  | Del int u32 int
  | Cancel int u32 int
  | CancelAll int int
  | Ready nat u32 int

definition sp_remove :: "'f io_spec \<Rightarrow> nat \<Rightarrow> u32 \<Rightarrow> 'f io_spec" where
  "sp_remove sp i ev = sp\<lparr>sp_waiting := (sp_waiting sp)(i := (sp_waiting sp i)(ev := None))\<rparr>"

definition sp_deliver :: "'f io_spec \<Rightarrow> nat \<Rightarrow> u32 \<Rightarrow> 'f io_spec" where
  "sp_deliver sp i ev =
     (case sp_waiting sp i ev of None \<Rightarrow> sp
      | Some (s, t) \<Rightarrow> (sp_remove sp i ev)\<lparr>sp_queue := (sp_queue sp)(s := sp_queue sp s @ [t])\<rparr>)"

definition sp_both :: "'f io_spec \<Rightarrow> nat \<Rightarrow> bool \<Rightarrow> bool \<Rightarrow> 'f io_spec" where
  "sp_both sp i r w =
     (let sp1 = (if r then sp_deliver sp i READ_event else sp) in
      if w then sp_deliver sp1 i WRITE_event else sp1)"

definition sp_has :: "'f io_spec \<Rightarrow> nat \<Rightarrow> u32 \<Rightarrow> bool" where
  "sp_has sp i ev \<longleftrightarrow> sp_waiting sp i ev \<noteq> None"

text \<open>Each operation with its return value; \<open>None\<close> is an aborted process.\<close>

fun spec_op :: "'f io_spec \<Rightarrow> 'f io_op \<Rightarrow> (int \<times> 'f io_spec) option" where
  "spec_op sp (Add fd ev cb this cur rt) =
     (if sp_has sp (nat fd) ev then None
      else if rt \<noteq> 0 then Some (- 1, sp)
      else let t = FiberAndThread_of (if cb \<noteq> None then ScheduleCb cb else ScheduleFiber (Some cur)) (- 1) in
        Some (0, sp\<lparr>sp_waiting := (sp_waiting sp)(nat fd := (sp_waiting sp (nat fd))(ev \<mapsto> (this, t)))\<rparr>))"
| "spec_op sp (Del fd ev rt) =
     Some (if sp_has sp (nat fd) ev \<and> rt = 0 then (1, sp_remove sp (nat fd) ev) else (0, sp))"
| "spec_op sp (Cancel fd ev rt) =
     Some (if sp_has sp (nat fd) ev \<and> rt = 0 then (1, sp_deliver sp (nat fd) ev) else (0, sp))"
| "spec_op sp (CancelAll fd rt) =
     (let r = sp_has sp (nat fd) READ_event; w = sp_has sp (nat fd) WRITE_event in
      Some (if (r \<or> w) \<and> rt = 0 then (1, sp_both sp (nat fd) r w) else (0, sp)))"
| "spec_op sp (Ready i events rt) =
     (let hangup = (events AND (EPOLLERR OR EPOLLHUP) \<noteq> 0);
          hr = sp_has sp i READ_event; hw = sp_has sp i WRITE_event;
          r = (events AND EPOLLIN \<noteq> 0 \<or> hangup \<and> hr);
          w = (events AND EPOLLOUT \<noteq> 0 \<or> hangup \<and> hw) in
      if \<not> (r \<and> hr \<or> w \<and> hw) \<or> rt \<noteq> 0 then Some (0, sp)
      else if (r \<longrightarrow> hr) \<and> (w \<longrightarrow> hw) then Some (0, sp_both sp i r w)
      else None)"

text \<open>The operations of the code, on the thread of scheduler \<open>this\<close> and the running fiber \<open>cur\<close>.\<close>

fun io_run :: "'f IOManager \<Rightarrow> 'f io_op \<Rightarrow> (int \<times> 'f IOManager) option" where
  "io_run m (Add fd ev cb this cur rt) = IOManager_addEvent m fd ev cb (Some this) cur Fiber_EXEC rt"
| "io_run m (Del fd ev rt) = map_option (\<lambda>(b, m'). (of_bool b, m')) (IOManager_delEvent m fd ev rt)"
| "io_run m (Cancel fd ev rt) = map_option (\<lambda>(b, m'). (of_bool b, m')) (IOManager_cancelEvent m fd ev rt)"
| "io_run m (CancelAll fd rt) = map_option (\<lambda>(b, m'). (of_bool b, m')) (IOManager_cancelAll m fd rt)"
| "io_run m (Ready i events rt) = map_option (Pair 0) (idle_event m (CtxPtr i) events rt)"

text \<open>
  The calls a program can make: a descriptor that is not the tickle pipe \<open>tfd\<close>, one direction,
  and ready events of a context in the table.
\<close>

fun io_valid :: "nat \<Rightarrow> 'f IOManager \<Rightarrow> 'f io_op \<Rightarrow> bool" where
  "io_valid tfd m (Add fd ev cb this cur rt) \<longleftrightarrow> 0 \<le> fd \<and> fd < 2 ^ 31 \<and> nat fd \<noteq> tfd \<and> (ev = READ_event \<or> ev = WRITE_event)"
| "io_valid tfd m (Del fd ev rt) \<longleftrightarrow> 0 \<le> fd \<and> nat fd \<noteq> tfd \<and> (ev = READ_event \<or> ev = WRITE_event)"
| "io_valid tfd m (Cancel fd ev rt) \<longleftrightarrow> 0 \<le> fd \<and> nat fd \<noteq> tfd \<and> (ev = READ_event \<or> ev = WRITE_event)"
| "io_valid tfd m (CancelAll fd rt) \<longleftrightarrow> 0 \<le> fd \<and> nat fd \<noteq> tfd"
| "io_valid tfd m (Ready i events rt) \<longleftrightarrow> i < length (io_fdContexts m) \<and> i \<noteq> tfd"

definition event_task :: "'f EventContext \<Rightarrow> 'f timer_cb FiberOrCb" where
  "event_task c = (if ec_cb c \<noteq> None then ScheduleCb (ec_cb c) else ScheduleFiber (ec_fiber c))"

definition fc_waiting :: "'f FdContext \<Rightarrow> u32 \<Rightarrow> (nat \<times> 'f timer_cb FiberAndThread) option" where
  "fc_waiting fc ev =
     (if (ev = READ_event \<or> ev = WRITE_event) \<and> fc_events fc AND ev \<noteq> 0
      then let c = (if ev = READ_event then fc_read fc else fc_write fc) in
        Some (the (ec_scheduler c), FiberAndThread_of (event_task c) (- 1))
      else None)"

definition io_abs :: "'f IOManager \<Rightarrow> 'f io_spec" where
  "io_abs m =
     \<lparr>sp_waiting = (\<lambda>i ev. if i < length (io_fdContexts m) then fc_waiting (io_fdContexts m ! i) ev else None),
      sp_queue = (\<lambda>s. s_fibers (io_scheds m s))\<rparr>"

section \<open>The invariant\<close>

definition slot_ok :: "bool \<Rightarrow> 'f EventContext \<Rightarrow> bool" where
  "slot_ok on c \<longleftrightarrow>
     (if on then ec_scheduler c \<noteq> None \<and> (ec_cb c \<noteq> None) \<noteq> (ec_fiber c \<noteq> None) else c = new_EventContext)"

definition fc_ok :: "'f FdContext \<Rightarrow> bool" where
  "fc_ok fc \<longleftrightarrow> fc_events fc \<in> {0, 1, 4, 5}
     \<and> slot_ok (fc_events fc AND READ_event \<noteq> 0) (fc_read fc)
     \<and> slot_ok (fc_events fc AND WRITE_event \<noteq> 0) (fc_write fc)"

definition event_count :: "u32 \<Rightarrow> nat" where
  "event_count ev = of_bool (ev AND READ_event \<noteq> 0) + of_bool (ev AND WRITE_event \<noteq> 0)"

definition interest_of :: "u32 \<Rightarrow> u32 option" where
  "interest_of ev = (if ev = 0 then None else Some (EPOLLET OR ev))"

text \<open>
  A context knows its descriptor and has a waiter exactly for its events; the kernel watches
  exactly the registered events; the pending count is their number.
\<close>

definition IOManager_inv :: "nat \<Rightarrow> 'f IOManager \<Rightarrow> bool" where
  "IOManager_inv tfd m \<longleftrightarrow>
     32 \<le> length (io_fdContexts m) \<and> length (io_fdContexts m) < 2 ^ 32
     \<and> (\<forall>i < length (io_fdContexts m). fc_ok (io_fdContexts m ! i) \<and> fc_fd (io_fdContexts m ! i) = i)
     \<and> (\<forall>i. i \<noteq> tfd \<longrightarrow> io_interest m i =
          (if i < length (io_fdContexts m) then interest_of (fc_events (io_fdContexts m ! i)) else None))
     \<and> io_interest m tfd = Some (EPOLLIN OR EPOLLET)
     \<and> (tfd < length (io_fdContexts m) \<longrightarrow> fc_events (io_fdContexts m ! tfd) = 0)
     \<and> io_pending m = of_nat (sum_list (map (event_count \<circ> fc_events) (io_fdContexts m)))"

text \<open>
  Reachable states: valid calls and ready events, and whatever the schedulers, the timers and the
  pipe do meanwhile.
\<close>

inductive io_reachable :: "nat \<Rightarrow> 'f IOManager \<Rightarrow> bool" where
  io_init: "io_reachable tfd (IOManager_new scheds self sched timers tfd)"
| io_step: "io_reachable tfd m \<Longrightarrow> io_valid tfd m op \<Longrightarrow> io_run m op = Some (r, m') \<Longrightarrow> io_reachable tfd m'"
| io_other: "io_reachable tfd m \<Longrightarrow>
    io_reachable tfd (m\<lparr>io_scheds := scheds, io_timers := timers, io_pipe := pipe\<rparr>)"

section \<open>Delivering one event\<close>

lemmas event_defs = READ_event_def WRITE_event_def EPOLLIN_def EPOLLOUT_def EPOLLERR_def EPOLLHUP_def

lemma tickle_frame [simp]:
  "io_scheds (IOManager_tickle m) = io_scheds m" "io_self (IOManager_tickle m) = io_self m"
  "io_fdContexts (IOManager_tickle m) = io_fdContexts m" "io_pending (IOManager_tickle m) = io_pending m"
  "io_interest (IOManager_tickle m) = io_interest m" "io_timers (IOManager_tickle m) = io_timers m"
  by (simp_all add: IOManager_tickle_def)

lemma schedule_on_frame [simp]:
  "io_self (schedule_on m s t) = io_self m" "io_fdContexts (schedule_on m s t) = io_fdContexts m"
  "io_pending (schedule_on m s t) = io_pending m" "io_interest (schedule_on m s t) = io_interest m"
  "io_timers (schedule_on m s t) = io_timers m"
  by (simp_all add: schedule_on_def split_beta Let_def)

lemma schedule_on_queue:
  assumes "ft_fiber (FiberAndThread_of t (- 1)) \<noteq> None \<or> ft_cb (FiberAndThread_of t (- 1)) \<noteq> None"
  shows "s_fibers (io_scheds (schedule_on m s t) s') =
     (if s' = s then s_fibers (io_scheds m s) @ [FiberAndThread_of t (- 1)] else s_fibers (io_scheds m s'))"
  using assms by (auto simp: schedule_on_def Scheduler_schedule_def Scheduler_scheduleNoLock_def Let_def)

lemma set_fdContext_frame [simp]:
  "io_self (set_fdContext m i fc) = io_self m" "io_scheds (set_fdContext m i fc) = io_scheds m"
  "io_pending (set_fdContext m i fc) = io_pending m" "io_interest (set_fdContext m i fc) = io_interest m"
  "io_timers (set_fdContext m i fc) = io_timers m"
  "io_fdContexts (set_fdContext m i fc) = (io_fdContexts m)[i := fc]"
  by (simp_all add: set_fdContext_def)

lemma epoll_ctl_done_frame [simp]:
  "io_self (epoll_ctl_done m op i e) = io_self m" "io_scheds (epoll_ctl_done m op i e) = io_scheds m"
  "io_pending (epoll_ctl_done m op i e) = io_pending m" "io_timers (epoll_ctl_done m op i e) = io_timers m"
  "io_fdContexts (epoll_ctl_done m op i e) = io_fdContexts m"
  by (simp_all add: epoll_ctl_done_def)

lemma io_abs_cong:
  "io_fdContexts m = io_fdContexts m' \<Longrightarrow> (\<And>s. s_fibers (io_scheds m s) = s_fibers (io_scheds m' s)) \<Longrightarrow> io_abs m = io_abs m'"
  by (auto simp: io_abs_def fun_eq_iff)

text \<open>The context after its waiter for \<open>ev\<close> is taken out.\<close>

definition fc_without :: "'f FdContext \<Rightarrow> u32 \<Rightarrow> 'f FdContext" where
  "fc_without fc ev = FdContext_setContext (fc\<lparr>fc_events := fc_events fc AND NOT ev\<rparr>) ev new_EventContext"

lemma fc_without_fields [simp]:
  "fc_fd (fc_without fc ev) = fc_fd fc" "fc_events (fc_without fc ev) = fc_events fc AND NOT ev"
  by (simp_all add: fc_without_def FdContext_setContext_def)

lemma fc_without_ok:
  assumes "fc_ok fc" and "ev = READ_event \<or> ev = WRITE_event"
  shows "fc_ok (fc_without fc ev)" and "fc_waiting (fc_without fc ev) = (fc_waiting fc)(ev := None)"
proof -
  have e: "fc_events fc \<in> {0, 1, 4, 5}" using assms(1) by (simp add: fc_ok_def)
  show "fc_ok (fc_without fc ev)"
    using assms e by (auto simp: fc_without_def fc_ok_def FdContext_setContext_def event_defs slot_ok_def)
  show "fc_waiting (fc_without fc ev) = (fc_waiting fc)(ev := None)"
    using assms(2) e by (auto simp: fc_without_def fc_waiting_def FdContext_setContext_def event_defs fun_eq_iff)
qed

lemma fc_waiting_iff:
  "ev = READ_event \<or> ev = WRITE_event \<Longrightarrow> fc_waiting fc ev \<noteq> None \<longleftrightarrow> fc_events fc AND ev \<noteq> 0"
  by (auto simp: fc_waiting_def Let_def)

lemma triggerEvent_cases:
  assumes "fc_ok (io_fdContexts m ! i)" and "ev = READ_event \<or> ev = WRITE_event"
  shows "FdContext_triggerEvent m i ev =
    (if fc_events (io_fdContexts m ! i) AND ev = 0 then None
     else let c = (if ev = READ_event then fc_read else fc_write) (io_fdContexts m ! i) in
       Some (set_fdContext (schedule_on m (the (ec_scheduler c)) (event_task c)) i (fc_without (io_fdContexts m ! i) ev)))"
proof (cases "fc_events (io_fdContexts m ! i) AND ev = 0")
  case True
  then show ?thesis by (simp add: FdContext_triggerEvent_def Let_def)
next
  case False
  let ?fc = "io_fdContexts m ! i"
  define c where "c = (if ev = READ_event then fc_read else fc_write) ?fc"
  have "slot_ok True c" using assms False by (auto simp: c_def fc_ok_def event_defs)
  then obtain s where s: "ec_scheduler c = Some s" and x: "(ec_cb c \<noteq> None) \<noteq> (ec_fiber c \<noteq> None)"
    by (auto simp: slot_ok_def)
  have g: "FdContext_getContext (?fc\<lparr>fc_events := e\<rparr>) ev = Some c" for e
    using assms(2) by (auto simp: FdContext_getContext_def c_def event_defs)
  have cb: "c\<lparr>ec_cb := None, ec_scheduler := None\<rparr> = new_EventContext" if "ec_cb c \<noteq> None"
    using that x by (cases c) (auto simp: new_EventContext_def)
  have fiber: "c\<lparr>ec_fiber := None, ec_scheduler := None\<rparr> = new_EventContext" if "ec_cb c = None"
    using that x by (cases c) (auto simp: new_EventContext_def)
  show ?thesis
    using False s cb fiber unfolding c_def [symmetric]
    by (simp add: FdContext_triggerEvent_def Let_def g fc_without_def event_task_def)
qed

lemma event_task_nonnull:
  "slot_ok True c \<Longrightarrow>
   ft_fiber (FiberAndThread_of (event_task c) (- 1)) \<noteq> None \<or> ft_cb (FiberAndThread_of (event_task c) (- 1)) \<noteq> None"
  by (auto simp: slot_ok_def event_task_def)

lemma triggerEvent_spec:
  assumes ok: "fc_ok (io_fdContexts m ! i)" and ev: "ev = READ_event \<or> ev = WRITE_event"
    and i: "i < length (io_fdContexts m)" and on: "fc_events (io_fdContexts m ! i) AND ev \<noteq> 0"
  obtains m' where "FdContext_triggerEvent m i ev = Some m'"
    and "io_abs m' = sp_deliver (io_abs m) i ev"
    and "io_fdContexts m' = (io_fdContexts m)[i := fc_without (io_fdContexts m ! i) ev]"
    and "io_pending m' = io_pending m" and "io_interest m' = io_interest m" and "io_timers m' = io_timers m"
    and "io_self m' = io_self m"
proof -
  let ?fc = "io_fdContexts m ! i"
  define c where "c = (if ev = READ_event then fc_read else fc_write) ?fc"
  define m' where "m' = set_fdContext (schedule_on m (the (ec_scheduler c)) (event_task c)) i (fc_without ?fc ev)"
  have slot: "slot_ok True c" using ok ev on by (auto simp: c_def fc_ok_def event_defs)
  have w: "fc_waiting ?fc ev = Some (the (ec_scheduler c), FiberAndThread_of (event_task c) (- 1))"
    using ev on by (auto simp: fc_waiting_def c_def Let_def)
  have "io_abs m' = sp_deliver (io_abs m) i ev"
    using i w fc_without_ok(2) [OF ok ev] schedule_on_queue [OF event_task_nonnull [OF slot]]
    by (auto simp: io_abs_def m'_def sp_deliver_def sp_remove_def fun_eq_iff nth_list_update)
  moreover have "FdContext_triggerEvent m i ev = Some m'"
    using triggerEvent_cases [OF ok ev] on by (simp add: m'_def c_def Let_def)
  ultimately show thesis using that by (simp add: m'_def)
qed

text \<open>Delivering a direction if asked to, and then both.\<close>

lemma trigger_if_spec:
  assumes ok: "fc_ok (io_fdContexts m ! i)" and ev: "ev = READ_event \<or> ev = WRITE_event"
    and i: "i < length (io_fdContexts m)" and on: "evs AND ev \<noteq> 0 \<Longrightarrow> fc_events (io_fdContexts m ! i) AND ev \<noteq> 0"
  obtains m' where "trigger_if m i evs ev = Some m'"
    and "io_abs m' = (if evs AND ev \<noteq> 0 then sp_deliver (io_abs m) i ev else io_abs m)"
    and "io_fdContexts m' = (io_fdContexts m)
          [i := if evs AND ev \<noteq> 0 then fc_without (io_fdContexts m ! i) ev else io_fdContexts m ! i]"
    and "io_pending m' = io_pending m - of_bool (evs AND ev \<noteq> 0)" and "io_interest m' = io_interest m"
proof (cases "evs AND ev \<noteq> 0")
  case True
  obtain m' where "FdContext_triggerEvent m i ev = Some m'" "io_abs m' = sp_deliver (io_abs m) i ev"
    "io_fdContexts m' = (io_fdContexts m)[i := fc_without (io_fdContexts m ! i) ev]"
    "io_pending m' = io_pending m" "io_interest m' = io_interest m"
    using triggerEvent_spec [OF ok ev i on [OF True]] by blast
  moreover have "io_abs (m'\<lparr>io_pending := p\<rparr>) = io_abs m'" for p by (rule io_abs_cong) simp_all
  ultimately show thesis using that [of "m'\<lparr>io_pending := io_pending m' - 1\<rparr>"] True by (simp add: trigger_if_def)
qed (use that [of m] in \<open>simp add: trigger_if_def\<close>)

definition fc_both :: "'f FdContext \<Rightarrow> bool \<Rightarrow> bool \<Rightarrow> 'f FdContext" where
  "fc_both fc r w =
     (let fc1 = (if r then fc_without fc READ_event else fc) in if w then fc_without fc1 WRITE_event else fc1)"

lemma fc_both_ok:
  assumes "fc_ok fc"
  shows "fc_ok (fc_both fc r w)" and "fc_fd (fc_both fc r w) = fc_fd fc"
    and "fc_events (fc_both fc r w) =
      fc_events fc AND NOT ((if r then READ_event else 0) OR (if w then WRITE_event else 0))"
proof -
  show "fc_ok (fc_both fc r w)" using assms fc_without_ok(1) by (auto simp: fc_both_def Let_def)
  show "fc_fd (fc_both fc r w) = fc_fd fc" by (simp add: fc_both_def Let_def)
  show "fc_events (fc_both fc r w) =
      fc_events fc AND NOT ((if r then READ_event else 0) OR (if w then WRITE_event else 0))"
    by (rule bit_word_eqI) (auto simp: fc_both_def Let_def bit_simps)
qed

lemma trigger_both:
  assumes ok: "fc_ok (io_fdContexts m ! i)" and i: "i < length (io_fdContexts m)"
    and r: "evs AND READ_event \<noteq> 0 \<Longrightarrow> fc_events (io_fdContexts m ! i) AND READ_event \<noteq> 0"
    and w: "\<And>fc. evs' fc AND WRITE_event \<noteq> 0 \<longleftrightarrow> wr" and wr: "wr \<Longrightarrow> fc_events (io_fdContexts m ! i) AND WRITE_event \<noteq> 0"
  obtains m1 m2 where "trigger_if m i evs READ_event = Some m1"
    and "trigger_if m1 i (evs' m1) WRITE_event = Some m2"
    and "io_abs m2 = sp_both (io_abs m) i (evs AND READ_event \<noteq> 0) wr"
    and "io_fdContexts m2 = (io_fdContexts m)[i := fc_both (io_fdContexts m ! i) (evs AND READ_event \<noteq> 0) wr]"
    and "io_pending m2 = io_pending m - of_bool (evs AND READ_event \<noteq> 0) - of_bool wr"
    and "io_interest m2 = io_interest m"
proof -
  let ?fc = "io_fdContexts m ! i"
  obtain m1 where m1: "trigger_if m i evs READ_event = Some m1"
    "io_abs m1 = (if evs AND READ_event \<noteq> 0 then sp_deliver (io_abs m) i READ_event else io_abs m)"
    "io_fdContexts m1 = (io_fdContexts m)[i := if evs AND READ_event \<noteq> 0 then fc_without ?fc READ_event else ?fc]"
    "io_pending m1 = io_pending m - of_bool (evs AND READ_event \<noteq> 0)" "io_interest m1 = io_interest m"
    using trigger_if_spec [OF ok _ i r] by blast
  have e: "fc_events ?fc \<in> {0, 1, 4, 5}" using ok by (simp add: fc_ok_def)
  have ok1: "fc_ok (io_fdContexts m1 ! i)" using m1(3) i ok fc_without_ok(1) [OF ok, of READ_event] by simp
  have wr1: "evs' m1 AND WRITE_event \<noteq> 0 \<Longrightarrow> fc_events (io_fdContexts m1 ! i) AND WRITE_event \<noteq> 0"
    using w [of m1] wr m1(3) i e by (auto simp: event_defs)
  have i1: "i < length (io_fdContexts m1)" using m1(3) i by simp
  obtain m2 where m2: "trigger_if m1 i (evs' m1) WRITE_event = Some m2"
    "io_abs m2 = (if evs' m1 AND WRITE_event \<noteq> 0 then sp_deliver (io_abs m1) i WRITE_event else io_abs m1)"
    "io_fdContexts m2 = (io_fdContexts m1)[i := if evs' m1 AND WRITE_event \<noteq> 0
        then fc_without (io_fdContexts m1 ! i) WRITE_event else io_fdContexts m1 ! i]"
    "io_pending m2 = io_pending m1 - of_bool (evs' m1 AND WRITE_event \<noteq> 0)" "io_interest m2 = io_interest m1"
    using trigger_if_spec [OF ok1 _ i1 wr1] by blast
  show thesis
    by (rule that [OF m1(1) m2(1)])
      (use m1 m2 w i in \<open>simp_all add: sp_both_def fc_both_def Let_def\<close>)
qed

section \<open>The invariant is kept\<close>

lemma inv_context: "IOManager_inv tfd m \<Longrightarrow> i < length (io_fdContexts m) \<Longrightarrow> fc_ok (io_fdContexts m ! i) \<and> fc_fd (io_fdContexts m ! i) = i"
  by (simp add: IOManager_inv_def)

lemma inv_replace:
  assumes inv: "IOManager_inv tfd m" and i: "i < length (io_fdContexts m)" "i \<noteq> tfd"
    and fc: "fc_ok fc" "fc_fd fc = i"
    and m': "io_fdContexts m' = (io_fdContexts m)[i := fc]"
      "io_interest m' = (io_interest m)(i := interest_of (fc_events fc))"
      "io_pending m' = io_pending m + of_nat (event_count (fc_events fc)) - of_nat (event_count (fc_events (io_fdContexts m ! i)))"
  shows "IOManager_inv tfd m'"
proof -
  let ?ns = "map (event_count \<circ> fc_events) (io_fdContexts m)"
  have "?ns ! i \<le> sum_list ?ns" using i by (intro elem_le_sum_list) simp
  then have "of_nat (sum_list (?ns[i := event_count (fc_events fc)])) =
      (of_nat (sum_list ?ns) + of_nat (event_count (fc_events fc)) - of_nat (?ns ! i) :: u64)"
    using i by (simp add: sum_list_update of_nat_diff)
  then have "io_pending m' = of_nat (sum_list (map (event_count \<circ> fc_events) (io_fdContexts m')))"
    using inv m' i by (simp add: IOManager_inv_def map_update)
  then show ?thesis using inv m' i fc by (auto simp: IOManager_inv_def nth_list_update)
qed

lemma new_FdContext_ok [simp]: "fc_ok (new_FdContext i)" "fc_fd (new_FdContext i) = i" "fc_events (new_FdContext i) = 0"
  by (simp_all add: new_FdContext_def fc_ok_def slot_ok_def)

lemma event_count_0 [simp]: "event_count 0 = 0" and fc_waiting_new [simp]: "fc_waiting (new_FdContext i) ev = None"
  by (simp_all add: event_count_def fc_waiting_def)

lemma contextResize_grow:
  assumes "length (io_fdContexts m) \<le> n"
  shows "io_fdContexts (contextResize m n) = io_fdContexts m @ map new_FdContext [length (io_fdContexts m)..<n]"
    and "length (io_fdContexts (contextResize m n)) = n"
    and "io_abs (contextResize m n) = io_abs m"
  using assms by (auto simp: contextResize_def io_abs_def fun_eq_iff nth_append)

lemma contextResize_inv:
  assumes inv: "IOManager_inv tfd m" and n: "length (io_fdContexts m) \<le> n" "n < 2 ^ 32"
  shows "IOManager_inv tfd (contextResize m n)"
proof -
  let ?m = "contextResize m n"
  have i: "io_fdContexts ?m ! i = (if i < length (io_fdContexts m) then io_fdContexts m ! i else new_FdContext i)"
    if "i < n" for i
    using that n by (simp add: contextResize_grow(1) nth_append)
  have l: "length (io_fdContexts ?m) = n" using contextResize_grow(2) [OF n(1)] .
  have "map (event_count \<circ> fc_events) (io_fdContexts ?m) =
      map (event_count \<circ> fc_events) (io_fdContexts m) @ replicate (n - length (io_fdContexts m)) 0"
    using n by (simp add: contextResize_grow(1) comp_def map_replicate_const)
  moreover have "io_interest ?m = io_interest m" "io_pending ?m = io_pending m" by (simp_all add: contextResize_def)
  ultimately show ?thesis
    using inv n l i unfolding IOManager_inv_def by (auto simp: sum_list_replicate interest_of_def)
qed

lemma addEvent_context_inv:
  assumes inv: "IOManager_inv tfd m" and fd: "0 \<le> fd" "fd < 2 ^ 31"
  shows "IOManager_inv tfd (addEvent_context m fd)" and "io_abs (addEvent_context m fd) = io_abs m"
    and "nat fd < length (io_fdContexts (addEvent_context m fd))"
proof -
  let ?n = "nat (fd * 3 div 2)" and ?l = "length (io_fdContexts m)"
  have l: "32 \<le> ?l" using inv by (simp add: IOManager_inv_def)
  have "IOManager_inv tfd (addEvent_context m fd) \<and> io_abs (addEvent_context m fd) = io_abs m
    \<and> nat fd < length (io_fdContexts (addEvent_context m fd))"
  proof (cases "int ?l > fd")
    case False
    then have n: "?l \<le> ?n" "?n < 2 ^ 32" "nat fd < ?n" using fd l by (simp_all add: nat_less_iff, linarith+)
    show ?thesis
      using False n(3) contextResize_inv [OF inv n(1,2)] contextResize_grow(2,3) [OF n(1)]
      by (simp only: addEvent_context_def if_False simp_thms)
  qed (use inv fd in \<open>simp add: addEvent_context_def nat_less_iff\<close>)
  then show "IOManager_inv tfd (addEvent_context m fd)" "io_abs (addEvent_context m fd) = io_abs m"
    "nat fd < length (io_fdContexts (addEvent_context m fd))" by simp_all
qed

lemma sp_has_iff:
  assumes "ev = READ_event \<or> ev = WRITE_event"
  shows "sp_has (io_abs m) i ev \<longleftrightarrow>
    i < length (io_fdContexts m) \<and> fc_events (io_fdContexts m ! i) AND ev \<noteq> 0"
  using fc_waiting_iff [OF assms, of "io_fdContexts m ! i"] by (simp add: sp_has_def io_abs_def)

lemmas sp_has_simps = sp_has_iff [OF disjI1 [OF refl]] sp_has_iff [OF disjI2 [OF refl]]

section \<open>The operations refine the specification\<close>

definition refines_op :: "nat \<Rightarrow> 'f IOManager \<Rightarrow> 'f io_op \<Rightarrow> bool" where
  "refines_op tfd m op \<longleftrightarrow>
     map_option (map_prod id io_abs) (io_run m op) = spec_op (io_abs m) op
     \<and> (\<forall>r m'. io_run m op = Some (r, m') \<longrightarrow> IOManager_inv tfd m')"

lemma refines_opI:
  "io_run m op = Some (r, m') \<Longrightarrow> spec_op (io_abs m) op = Some (r, io_abs m') \<Longrightarrow> IOManager_inv tfd m' \<Longrightarrow> refines_op tfd m op"
  by (simp add: refines_op_def)

lemma addEvent_register_spec:
  assumes "fc_ok fc" and ev: "ev = READ_event \<or> ev = WRITE_event" and off: "fc_events fc AND ev = 0"
  obtains fc' where "addEvent_register fc ev cb (Some this) cur Fiber_EXEC = Some fc'"
    and "fc_ok fc'" and "fc_fd fc' = fc_fd fc" and "fc_events fc' = fc_events fc OR ev"
    and "event_count (fc_events fc') = event_count (fc_events fc) + 1"
    and "fc_waiting fc' = (fc_waiting fc)(ev \<mapsto>
      (this, FiberAndThread_of (if cb \<noteq> None then ScheduleCb cb else ScheduleFiber (Some cur)) (- 1)))"
proof -
  have e: "fc_events fc \<in> {0, 1, 4, 5}" using assms(1) by (simp add: fc_ok_def)
  have c: "(if ev = READ_event then fc_read fc else fc_write fc) = new_EventContext"
    using assms by (auto simp: fc_ok_def slot_ok_def)
  define c' where "c' = (new_EventContext \<lparr>ec_scheduler := Some this,
    ec_fiber := (if cb \<noteq> None then None else Some cur), ec_cb := cb\<rparr> :: 'a EventContext)"
  define fc' where "fc' = FdContext_setContext (fc\<lparr>fc_events := fc_events fc OR ev\<rparr>) ev c'"
  show thesis
  proof (rule that)
    have "FdContext_getContext (fc\<lparr>fc_events := fc_events fc OR ev\<rparr>) ev = Some new_EventContext"
      using ev c by (auto simp: FdContext_getContext_def split: if_splits)
    then show "addEvent_register fc ev cb (Some this) cur Fiber_EXEC = Some fc'"
      by (simp add: addEvent_register_def fc'_def c'_def Let_def new_EventContext_def)
    show "fc_ok fc'" "fc_fd fc' = fc_fd fc" "fc_events fc' = fc_events fc OR ev"
      using ev e assms(1) by (auto simp: fc'_def fc_ok_def c'_def slot_ok_def FdContext_setContext_def event_defs)
    show "event_count (fc_events fc') = event_count (fc_events fc) + 1"
      using ev e off by (auto simp: fc'_def event_count_def FdContext_setContext_def event_defs)
    show "fc_waiting fc' = (fc_waiting fc)(ev \<mapsto>
      (this, FiberAndThread_of (if cb \<noteq> None then ScheduleCb cb else ScheduleFiber (Some cur)) (- 1)))"
    proof (rule ext)
      fix x
      have here: "fc_events fc' AND ev \<noteq> 0" and other: "x = READ_event \<or> x = WRITE_event \<Longrightarrow> x \<noteq> ev \<Longrightarrow>
          fc_events fc' AND x = fc_events fc AND x"
        using ev e by (auto simp: fc'_def FdContext_setContext_def event_defs)
      have c': "(if ev = READ_event then fc_read fc' else fc_write fc') = c'"
        by (simp add: fc'_def FdContext_setContext_def)
      have slots: "x = READ_event \<or> x = WRITE_event \<Longrightarrow> x \<noteq> ev \<Longrightarrow>
          (if x = READ_event then fc_read fc' else fc_write fc') = (if x = READ_event then fc_read fc else fc_write fc)"
        using ev by (auto simp: fc'_def FdContext_setContext_def)
      show "fc_waiting fc' x = ((fc_waiting fc)(ev \<mapsto>
        (this, FiberAndThread_of (if cb \<noteq> None then ScheduleCb cb else ScheduleFiber (Some cur)) (- 1)))) x"
      proof (cases "x = ev")
        case True
        then show ?thesis
          using ev here c' by (simp add: fc_waiting_def Let_def) (simp add: c'_def event_task_def new_EventContext_def)
      next
        case False
        then show ?thesis
          using other slots by (simp add: fc_waiting_def Let_def cong: conj_cong)
      qed
    qed
  qed
qed

lemma add_refines:
  assumes inv: "IOManager_inv tfd m" and v: "io_valid tfd m (Add fd ev cb this cur rt)"
  shows "refines_op tfd m (Add fd ev cb this cur rt)"
proof -
  let ?i = "nat fd"
  define m1 where "m1 = addEvent_context m fd"
  have ev: "ev = READ_event \<or> ev = WRITE_event" and fd: "0 \<le> fd" "fd < 2 ^ 31" "?i \<noteq> tfd" using v by simp_all
  have m1: "IOManager_inv tfd m1" "io_abs m1 = io_abs m" "?i < length (io_fdContexts m1)"
    using addEvent_context_inv [OF inv fd(1,2)] by (simp_all add: m1_def)
  let ?fc = "io_fdContexts m1 ! ?i"
  have ok: "fc_ok ?fc" "fc_fd ?fc = ?i" using inv_context [OF m1(1,3)] by simp_all
  have has: "sp_has (io_abs m) ?i ev \<longleftrightarrow> fc_events ?fc AND ev \<noteq> 0"
    using sp_has_iff [OF ev, of m1] m1 by simp
  consider "fc_events ?fc AND ev \<noteq> 0" | "fc_events ?fc AND ev = 0" "rt \<noteq> 0" | "fc_events ?fc AND ev = 0" "rt = 0" by blast
  then show ?thesis
  proof cases
    case 3
    obtain fc' where fc': "addEvent_register ?fc ev cb (Some this) cur Fiber_EXEC = Some fc'" "fc_ok fc'"
      "fc_fd fc' = fc_fd ?fc" "fc_events fc' = fc_events ?fc OR ev"
      "event_count (fc_events fc') = event_count (fc_events ?fc) + 1"
      "fc_waiting fc' = (fc_waiting ?fc)(ev \<mapsto>
        (this, FiberAndThread_of (if cb \<noteq> None then ScheduleCb cb else ScheduleFiber (Some cur)) (- 1)))"
      using addEvent_register_spec [OF ok(1) ev 3(1)] by blast
    define op where "op = (if fc_events ?fc \<noteq> 0 then EPOLL_CTL_MOD else EPOLL_CTL_ADD)"
    define m2 where "m2 = epoll_ctl_done m1 op ?i (EPOLLET OR fc_events ?fc OR ev)"
    define m' where "m' = set_fdContext (m2\<lparr>io_pending := io_pending m2 + 1\<rparr>) ?i fc'"
    have run: "io_run m (Add fd ev cb this cur rt) = Some (0, m')"
      using 3 fd m1 fc'(1) by (simp add: IOManager_addEvent_def Let_def m1_def m2_def m'_def op_def)
    have nz: "fc_events fc' \<noteq> 0" using ev ok(1) unfolding fc'(4) by (auto simp: fc_ok_def event_defs)
    have "IOManager_inv tfd m'"
      by (rule inv_replace [OF m1(1,3) fd(3) fc'(2)])
        (use nz fc'(3,4,5) ok in \<open>simp_all add: m'_def m2_def interest_of_def epoll_ctl_done_def op_def or.assoc del: fc'(4)\<close>)
    moreover have "io_abs m' = (io_abs m1)\<lparr>sp_waiting := (sp_waiting (io_abs m1))(?i := fc_waiting fc')\<rparr>"
      using m1(3) by (auto simp: io_abs_def m'_def m2_def fun_eq_iff nth_list_update)
    moreover have "sp_waiting (io_abs m1) ?i = fc_waiting ?fc" using m1(3) by (simp add: io_abs_def fun_eq_iff)
    ultimately show ?thesis
      using run has 3 m1(2) fc'(6) by (simp add: refines_op_def Let_def)
  qed (use fd m1 has in \<open>auto simp: refines_op_def IOManager_addEvent_def Let_def m1_def\<close>)
qed

lemma event_count_without:
  assumes "fc_ok fc" and "ev = READ_event \<or> ev = WRITE_event" and "fc_events fc AND ev \<noteq> 0"
  shows "event_count (fc_events fc) = event_count (fc_events fc AND NOT ev) + 1"
  using assms by (auto simp: fc_ok_def event_count_def event_defs)

lemma event_count_both:
  assumes "fc_ok fc" and "r \<Longrightarrow> fc_events fc AND READ_event \<noteq> 0" and "w \<Longrightarrow> fc_events fc AND WRITE_event \<noteq> 0"
  shows "event_count (fc_events fc) = event_count (fc_events (fc_both fc r w)) + of_bool r + of_bool w"
proof -
  have "fc_events fc \<in> {0, 1, 4, 5}" using assms(1) by (simp add: fc_ok_def)
  then show ?thesis
    using assms(2,3) unfolding fc_both_ok(3) [OF assms(1)]
    by (cases r; cases w) (auto simp: event_count_def event_defs)
qed

lemma interest_left:
  "io_interest (epoll_ctl_done m (left_op e) i (EPOLLET OR e)) = (io_interest m)(i := interest_of e)"
  by (simp add: epoll_ctl_done_def left_op_def interest_of_def)

lemma del_refines:
  assumes inv: "IOManager_inv tfd m" and v: "io_valid tfd m (Del fd ev rt)"
  shows "refines_op tfd m (Del fd ev rt)"
proof -
  let ?i = "nat fd" and ?fc = "io_fdContexts m ! nat fd"
  have ev: "ev = READ_event \<or> ev = WRITE_event" and fd: "0 \<le> fd" "?i \<noteq> tfd" using v by simp_all
  have has: "sp_has (io_abs m) ?i ev \<longleftrightarrow> int (length (io_fdContexts m)) > fd \<and> fc_events ?fc AND ev \<noteq> 0"
    using sp_has_iff [OF ev, of m ?i] fd by (simp add: nat_less_iff)
  show ?thesis
  proof (cases "int (length (io_fdContexts m)) > fd \<and> fc_events ?fc AND ev \<noteq> 0 \<and> rt = 0")
    case True
    let ?e = "fc_events ?fc AND NOT ev"
    have i: "?i < length (io_fdContexts m)" using True fd by (simp add: nat_less_iff)
    have ok: "fc_ok ?fc" "fc_fd ?fc = ?i" using inv_context [OF inv i] by simp_all
    define m1 where "m1 = epoll_ctl_done m (left_op ?e) ?i (EPOLLET OR ?e)"
    define m' where "m' = set_fdContext (m1\<lparr>io_pending := io_pending m1 - 1\<rparr>) ?i (fc_without ?fc ev)"
    have "FdContext_resetContext c = new_EventContext" for c :: "'a EventContext"
      by (cases c) (simp add: FdContext_resetContext_def new_EventContext_def)
    then have run: "io_run m (Del fd ev rt) = Some (1, m')"
      using True fd ev by (auto simp: IOManager_delEvent_def Let_def m1_def m'_def fc_without_def FdContext_getContext_def)
    have "IOManager_inv tfd m'"
      by (rule inv_replace [OF inv i fd(2) fc_without_ok(1) [OF ok(1) ev]])
        (use event_count_without [OF ok(1) ev] True ok in \<open>simp_all add: m'_def m1_def interest_left\<close>)
    moreover have "io_abs m' = sp_remove (io_abs m) ?i ev"
      using i fc_without_ok(2) [OF ok(1) ev] by (auto simp: io_abs_def sp_remove_def m'_def m1_def fun_eq_iff nth_list_update)
    ultimately show ?thesis using has True by (intro refines_opI [OF run]) simp_all
  qed (use has fd inv in \<open>auto simp: refines_op_def IOManager_delEvent_def Let_def\<close>)
qed

lemma cancel_refines:
  assumes inv: "IOManager_inv tfd m" and v: "io_valid tfd m (Cancel fd ev rt)"
  shows "refines_op tfd m (Cancel fd ev rt)"
proof -
  let ?i = "nat fd" and ?fc = "io_fdContexts m ! nat fd"
  have ev: "ev = READ_event \<or> ev = WRITE_event" and fd: "0 \<le> fd" "?i \<noteq> tfd" using v by simp_all
  have has: "sp_has (io_abs m) ?i ev \<longleftrightarrow> int (length (io_fdContexts m)) > fd \<and> fc_events ?fc AND ev \<noteq> 0"
    using sp_has_iff [OF ev, of m ?i] fd by (simp add: nat_less_iff)
  show ?thesis
  proof (cases "int (length (io_fdContexts m)) > fd \<and> fc_events ?fc AND ev \<noteq> 0 \<and> rt = 0")
    case True
    let ?e = "fc_events ?fc AND NOT ev"
    have i: "?i < length (io_fdContexts m)" using True fd by (simp add: nat_less_iff)
    have ok: "fc_ok ?fc" "fc_fd ?fc = ?i" using inv_context [OF inv i] by simp_all
    define m1 where "m1 = epoll_ctl_done m (left_op ?e) ?i (EPOLLET OR ?e)"
    have "io_fdContexts m1 = io_fdContexts m" by (simp add: m1_def)
    moreover have "io_abs m1 = io_abs m" by (rule io_abs_cong) (simp_all add: m1_def)
    ultimately obtain m2 where m2: "FdContext_triggerEvent m1 ?i ev = Some m2" "io_abs m2 = sp_deliver (io_abs m) ?i ev"
      "io_fdContexts m2 = (io_fdContexts m)[?i := fc_without ?fc ev]" "io_pending m2 = io_pending m"
      "io_interest m2 = (io_interest m)(?i := interest_of ?e)"
      using triggerEvent_spec [of m1 ?i ev] ok(1) ev i True interest_left [of m ?e ?i] by (auto simp: m1_def)
    define m' where "m' = m2\<lparr>io_pending := io_pending m2 - 1\<rparr>"
    have run: "io_run m (Cancel fd ev rt) = Some (1, m')"
      using True fd m2(1) by (simp add: IOManager_cancelEvent_def Let_def m'_def m1_def)
    have "IOManager_inv tfd m'"
      by (rule inv_replace [OF inv i fd(2) fc_without_ok(1) [OF ok(1) ev]])
        (use m2 event_count_without [OF ok(1) ev] True ok in \<open>simp_all add: m'_def\<close>)
    moreover have "io_abs m' = io_abs m2" by (rule io_abs_cong) (simp_all add: m'_def)
    ultimately show ?thesis using has True m2(2) by (intro refines_opI [OF run]) simp_all
  qed (use has fd inv in \<open>auto simp: refines_op_def IOManager_cancelEvent_def Let_def\<close>)
qed

text \<open>The common part of \<open>cancelAll\<close> and of a ready descriptor.\<close>

lemma deliver_both:
  assumes inv: "IOManager_inv tfd m" and i: "i < length (io_fdContexts m)" "i \<noteq> tfd"
    and r: "evs AND READ_event \<noteq> 0 \<Longrightarrow> fc_events (io_fdContexts m ! i) AND READ_event \<noteq> 0"
    and w: "\<And>x. evs' x AND WRITE_event \<noteq> 0 \<longleftrightarrow> wr" and wr: "wr \<Longrightarrow> fc_events (io_fdContexts m ! i) AND WRITE_event \<noteq> 0"
    and m0: "io_fdContexts m0 = io_fdContexts m" "io_scheds m0 = io_scheds m" "io_pending m0 = io_pending m"
      "io_interest m0 = (io_interest m)(i := interest_of (fc_events (fc_both (io_fdContexts m ! i) (evs AND READ_event \<noteq> 0) wr)))"
  obtains m1 m2 where "trigger_if m0 i evs READ_event = Some m1" and "trigger_if m1 i (evs' m1) WRITE_event = Some m2"
    and "io_abs m2 = sp_both (io_abs m) i (evs AND READ_event \<noteq> 0) wr" and "IOManager_inv tfd m2"
    and "io_fdContexts m2 ! i = fc_both (io_fdContexts m ! i) (evs AND READ_event \<noteq> 0) wr"
proof -
  let ?fc = "io_fdContexts m ! i" and ?r = "evs AND READ_event \<noteq> 0"
  have ok: "fc_ok ?fc" "fc_fd ?fc = i" using inv_context [OF inv i(1)] by simp_all
  have "io_abs m0 = io_abs m" by (rule io_abs_cong) (simp_all add: m0)
  then obtain m1 m2 where m2: "trigger_if m0 i evs READ_event = Some m1" "trigger_if m1 i (evs' m1) WRITE_event = Some m2"
    "io_abs m2 = sp_both (io_abs m) i ?r wr" "io_fdContexts m2 = (io_fdContexts m)[i := fc_both ?fc ?r wr]"
    "io_pending m2 = io_pending m - of_bool ?r - of_bool wr" "io_interest m2 = io_interest m0"
    using trigger_both [of m0 i evs evs' wr] ok(1) i(1) r w wr m0 by (metis (no_types, lifting))
  have "IOManager_inv tfd m2"
    by (rule inv_replace [OF inv i fc_both_ok(1) [OF ok(1)]])
      (use m2 m0 ok event_count_both [OF ok(1), of ?r wr] r wr in \<open>simp_all add: fc_both_ok(2)\<close>)
  then show thesis using that m2 i(1) by simp
qed

lemma cancelAll_refines:
  assumes inv: "IOManager_inv tfd m" and v: "io_valid tfd m (CancelAll fd rt)"
  shows "refines_op tfd m (CancelAll fd rt)"
proof -
  let ?i = "nat fd" and ?fc = "io_fdContexts m ! nat fd"
  let ?r = "fc_events ?fc AND READ_event \<noteq> 0" and ?w = "fc_events ?fc AND WRITE_event \<noteq> 0"
  have fd: "0 \<le> fd" "?i \<noteq> tfd" using v by simp_all
  have has: "sp_has (io_abs m) ?i READ_event \<longleftrightarrow> int (length (io_fdContexts m)) > fd \<and> ?r"
    "sp_has (io_abs m) ?i WRITE_event \<longleftrightarrow> int (length (io_fdContexts m)) > fd \<and> ?w"
    using fd by (simp_all add: sp_has_simps nat_less_iff)
  have some: "fc_events ?fc \<noteq> 0 \<longleftrightarrow> ?r \<or> ?w" if "int (length (io_fdContexts m)) > fd"
    using inv_context [OF inv, of ?i] that fd by (auto simp: fc_ok_def event_defs nat_less_iff)
  show ?thesis
  proof (cases "int (length (io_fdContexts m)) > fd \<and> fc_events ?fc \<noteq> 0 \<and> rt = 0")
    case True
    have i: "?i < length (io_fdContexts m)" using True fd by (simp add: nat_less_iff)
    have ok: "fc_ok ?fc" using inv_context [OF inv i] by simp
    have e: "fc_events ?fc \<in> {0, 1, 4, 5}" using ok by (simp add: fc_ok_def)
    have z: "fc_events (fc_both ?fc ?r ?w) = 0" using e unfolding fc_both_ok(3) [OF ok] by (auto simp: event_defs)
    define m0 where "m0 = epoll_ctl_done m EPOLL_CTL_DEL ?i 0"
    obtain m1 where m1: "trigger_if m0 ?i (fc_events ?fc) READ_event = Some m1"
      "io_fdContexts m1 = (io_fdContexts m0)[?i := if ?r then fc_without (io_fdContexts m0 ! ?i) READ_event else io_fdContexts m0 ! ?i]"
      using trigger_if_spec [of m0 ?i READ_event "fc_events ?fc"] ok i by (auto simp: m0_def)
    then have w: "fc_events (io_fdContexts m1 ! ?i) AND WRITE_event \<noteq> 0 \<longleftrightarrow> ?w"
      using i e by (auto simp: m0_def event_defs)
    obtain m2 where m2: "trigger_if m1 ?i (fc_events (io_fdContexts m1 ! ?i)) WRITE_event = Some m2"
      "io_abs m2 = sp_both (io_abs m) ?i ?r ?w" "IOManager_inv tfd m2" "io_fdContexts m2 ! ?i = fc_both ?fc ?r ?w"
      using deliver_both [OF inv i fd(2), of "fc_events ?fc" "\<lambda>_. fc_events (io_fdContexts m1 ! ?i)" ?w m0] m1(1) w z
      by (auto simp: m0_def epoll_ctl_done_def interest_of_def)
    have run: "io_run m (CancelAll fd rt) = Some (1, m2)"
      using True fd m1(1) m2(1,4) z by (simp add: IOManager_cancelAll_def Let_def m0_def)
    then show ?thesis using has True m2(2,3) some by (intro refines_opI [OF run]) auto
  qed (use has fd inv some in \<open>auto simp: refines_op_def IOManager_cancelAll_def Let_def\<close>)
qed

lemma real_events_split:
  fixes events :: u32
  assumes "fc_ok fc"
  defines "h \<equiv> events AND (EPOLLERR OR EPOLLHUP) \<noteq> 0"
  shows "real_events (fc_events fc) events =
      (if events AND EPOLLIN \<noteq> 0 \<or> h \<and> fc_events fc AND READ_event \<noteq> 0 then READ_event else 0)
      OR (if events AND EPOLLOUT \<noteq> 0 \<or> h \<and> fc_events fc AND WRITE_event \<noteq> 0 then WRITE_event else 0)"
proof -
  have "fc_events fc \<in> {0, 1, 4, 5}" using assms(1) by (simp add: fc_ok_def)
  moreover have "(events OR 5) AND (1::u32) = 1" "(events OR 5) AND (4::u32) = 4" "(events OR 1) AND (1::u32) = 1"
    "(events OR 4) AND (4::u32) = 4" "(events OR 4) AND (1::u32) = events AND 1" "(events OR 1) AND (4::u32) = events AND 4"
    by (simp_all add: bit.conj_disj_distrib2)
  ultimately show ?thesis unfolding h_def real_events_def Let_def event_defs by (auto split: if_splits)
qed

lemma and_not_and: "(a AND NOT b) AND c = (a AND c) AND NOT (b :: u32)"
  by (simp add: ac_simps)

lemma ready_refines:
  assumes inv: "IOManager_inv tfd m" and v: "io_valid tfd m (Ready i events rt)"
  shows "refines_op tfd m (Ready i events rt)"
proof -
  let ?fc = "io_fdContexts m ! i"
  define h where "h \<longleftrightarrow> events AND (EPOLLERR OR EPOLLHUP) \<noteq> 0"
  define hr where "hr \<longleftrightarrow> fc_events ?fc AND READ_event \<noteq> 0"
  define hw where "hw \<longleftrightarrow> fc_events ?fc AND WRITE_event \<noteq> 0"
  define r where "r \<longleftrightarrow> events AND EPOLLIN \<noteq> 0 \<or> h \<and> hr"
  define w where "w \<longleftrightarrow> events AND EPOLLOUT \<noteq> 0 \<or> h \<and> hw"
  define re where "re = (if r then READ_event else 0) OR (if w then WRITE_event else 0)"
  have i: "i < length (io_fdContexts m)" "i \<noteq> tfd" using v by simp_all
  have ok: "fc_ok ?fc" "fc_fd ?fc = i" using inv_context [OF inv i(1)] by simp_all
  have e: "fc_events ?fc \<in> {0, 1, 4, 5}" using ok by (simp add: fc_ok_def)
  have re: "real_events (fc_events ?fc) events = re"
    unfolding re_def r_def w_def hr_def hw_def h_def by (rule real_events_split [OF ok(1)])
  have reb: "re AND READ_event \<noteq> 0 \<longleftrightarrow> r" "re AND WRITE_event \<noteq> 0 \<longleftrightarrow> w" by (auto simp: re_def event_defs)
  have some: "fc_events ?fc AND re \<noteq> 0 \<longleftrightarrow> r \<and> hr \<or> w \<and> hw"
    using e by (auto simp: re_def hr_def hw_def event_defs)
  have spec: "spec_op (io_abs m) (Ready i events rt) =
      (if \<not> (r \<and> hr \<or> w \<and> hw) \<or> rt \<noteq> 0 then Some (0, io_abs m)
       else if (r \<longrightarrow> hr) \<and> (w \<longrightarrow> hw) then Some (0, sp_both (io_abs m) i r w) else None)"
  proof -
    have "sp_has (io_abs m) i READ_event = hr" "sp_has (io_abs m) i WRITE_event = hw"
      using i by (simp_all add: sp_has_simps hr_def hw_def)
    then show ?thesis
      unfolding spec_op.simps Let_def by (simp only: h_def [symmetric] r_def [symmetric] w_def [symmetric])
  qed
  define m0 where "m0 = epoll_ctl_done m (left_op (fc_events ?fc AND NOT re)) i (EPOLLET OR (fc_events ?fc AND NOT re))"
  have run: "io_run m (Ready i events rt) = map_option (Pair 0)
      (if fc_events ?fc AND re = 0 \<or> rt \<noteq> 0 then Some m
       else case trigger_if m0 i re READ_event of None \<Rightarrow> None | Some m1 \<Rightarrow> trigger_if m1 i re WRITE_event)"
    unfolding io_run.simps idle_event_def epoll_data.case Let_def re ok(2) m0_def by simp
  consider "\<not> (r \<and> hr \<or> w \<and> hw) \<or> rt \<noteq> 0" | "r \<and> hr \<or> w \<and> hw" "rt = 0" "(r \<longrightarrow> hr) \<and> (w \<longrightarrow> hw)"
    | "rt = 0" "r" "\<not> hr" | "rt = 0" "r" "hr" "w" "\<not> hw" by blast
  then show ?thesis
  proof cases
    case 2
    have on: "re AND READ_event \<noteq> 0 \<Longrightarrow> fc_events ?fc AND READ_event \<noteq> 0" "w \<Longrightarrow> fc_events ?fc AND WRITE_event \<noteq> 0"
      using 2 reb by (auto simp: hr_def hw_def)
    have m0: "io_fdContexts m0 = io_fdContexts m" "io_scheds m0 = io_scheds m" "io_pending m0 = io_pending m"
      "io_interest m0 = (io_interest m)(i := interest_of (fc_events (fc_both ?fc (re AND READ_event \<noteq> 0) w)))"
      by (simp_all only: m0_def interest_left epoll_ctl_done_frame fc_both_ok(3) [OF ok(1)] reb re_def [symmetric])
    obtain m1 m2 where m2: "trigger_if m0 i re READ_event = Some m1" "trigger_if m1 i re WRITE_event = Some m2"
      "io_abs m2 = sp_both (io_abs m) i r w" "IOManager_inv tfd m2"
      using deliver_both [OF inv i on(1) reb(2) on(2) m0, unfolded reb(1)] by blast
    then show ?thesis using run spec some 2 by (intro refines_opI [of m _ 0 m2]) auto
  next
    case 3
    have "FdContext_triggerEvent m0 i READ_event = None"
      using 3 by (simp add: FdContext_triggerEvent_def Let_def m0_def hr_def)
    then have "trigger_if m0 i re READ_event = None" using 3 reb by (simp add: trigger_if_def)
    then show ?thesis using run spec some 3 inv by (auto simp: refines_op_def)
  next
    case 4
    obtain m1 where m1: "trigger_if m0 i re READ_event = Some m1"
      "io_fdContexts m1 = (io_fdContexts m)[i := if re AND READ_event \<noteq> 0 then fc_without ?fc READ_event else ?fc]"
    proof -
      have m0: "io_fdContexts m0 = io_fdContexts m" by (simp add: m0_def)
      then have "fc_ok (io_fdContexts m0 ! i)" "i < length (io_fdContexts m0)"
        "re AND READ_event \<noteq> 0 \<Longrightarrow> fc_events (io_fdContexts m0 ! i) AND READ_event \<noteq> 0"
        using ok i 4 by (simp_all add: hr_def)
      from trigger_if_spec [OF this(1) disjI1 [OF refl] this(2,3)] m0 that show thesis by metis
    qed
    have "fc_events (io_fdContexts m1 ! i) = fc_events ?fc AND NOT READ_event"
      using 4(2) reb(1) m1(2) i(1) by simp
    then have "fc_events (io_fdContexts m1 ! i) AND WRITE_event = 0"
      using 4(5) and_not_and [of "fc_events ?fc" READ_event WRITE_event] by (simp only: hw_def) simp
    then have "trigger_if m1 i re WRITE_event = None"
      using 4 reb by (simp add: trigger_if_def FdContext_triggerEvent_def Let_def)
    then show ?thesis using run spec some 4 m1(1) by (auto simp: refines_op_def)
  qed (use run spec some inv in \<open>auto simp: refines_op_def\<close>)
qed

lemma io_run_refines: "IOManager_inv tfd m \<Longrightarrow> io_valid tfd m op \<Longrightarrow> refines_op tfd m op"
  by (cases op; hypsubst; rule add_refines del_refines cancel_refines cancelAll_refines ready_refines; assumption)

lemma io_reachable_inv: "io_reachable tfd m \<Longrightarrow> IOManager_inv tfd m"
proof (induction rule: io_reachable.induct)
  case (io_init tfd scheds self sched timers)
  show ?case
    by (auto simp: IOManager_inv_def IOManager_new_def contextResize_def interest_of_def comp_def
        map_replicate_const sum_list_replicate simp del: upt_rec_numeral)
next
  case (io_step tfd m op r m')
  then show ?case using io_run_refines [of tfd m op] by (simp add: refines_op_def)
qed (simp add: IOManager_inv_def)

text \<open>Sequences of operations; the process ends at the first abort.\<close>

fun spec_ops :: "'f io_spec \<Rightarrow> 'f io_op list \<Rightarrow> (int list \<times> 'f io_spec) option" where
  "spec_ops sp [] = Some ([], sp)"
| "spec_ops sp (x # xs) =
     (case spec_op sp x of None \<Rightarrow> None
      | Some (r, sp') \<Rightarrow> (case spec_ops sp' xs of None \<Rightarrow> None | Some (rs, sp'') \<Rightarrow> Some (r # rs, sp'')))"

fun io_runs :: "'f IOManager \<Rightarrow> 'f io_op list \<Rightarrow> (int list \<times> 'f IOManager) option" where
  "io_runs m [] = Some ([], m)"
| "io_runs m (x # xs) =
     (case io_run m x of None \<Rightarrow> None
      | Some (r, m') \<Rightarrow> (case io_runs m' xs of None \<Rightarrow> None | Some (rs, m'') \<Rightarrow> Some (r # rs, m'')))"

fun io_valids :: "nat \<Rightarrow> 'f IOManager \<Rightarrow> 'f io_op list \<Rightarrow> bool" where
  "io_valids tfd m [] \<longleftrightarrow> True"
| "io_valids tfd m (x # xs) \<longleftrightarrow>
     io_valid tfd m x \<and> (case io_run m x of None \<Rightarrow> True | Some (r, m') \<Rightarrow> io_valids tfd m' xs)"

lemma io_runs_refine:
  "IOManager_inv tfd m \<Longrightarrow> io_valids tfd m ops \<Longrightarrow>
   map_option (map_prod id io_abs) (io_runs m ops) = spec_ops (io_abs m) ops"
proof (induction ops arbitrary: m)
  case (Cons x xs)
  have x: "refines_op tfd m x" using io_run_refines [of tfd m x] Cons.prems by auto
  show ?case
  proof (cases "io_run m x")
    case (Some rm)
    obtain r m' where rm: "rm = (r, m')" by (cases rm)
    then have m': "IOManager_inv tfd m'" "spec_op (io_abs m) x = Some (r, io_abs m')"
      using x Some by (auto simp: refines_op_def)
    have "io_valids tfd m' xs" using Cons.prems Some rm by simp
    from Cons.IH [OF m'(1) this, symmetric] show ?thesis
      using Some rm m'(2) by (cases "io_runs m' xs") auto
  qed (use x in \<open>simp add: refines_op_def\<close>)
qed simp

section \<open>Properties\<close>

text \<open>
C4: In every reachable state, any sequence of \<open>addEvent\<close>, \<open>delEvent\<close>, \<open>cancelEvent\<close>, \<open>cancelAll\<close>
and ready descriptors returns what the table of waiters returns, leaves the same waiters and the
same task queues, and aborts exactly where the specification does: when an event is added twice,
or when the kernel reports, besides an event that is registered, one that is not any more.
\<close>

theorem io_events_refine_wait_table:
  assumes "io_reachable tfd m" and "io_valids tfd m ops"
  shows "map_option (map_prod id io_abs) (io_runs m ops) = spec_ops (io_abs m) ops"
  using io_runs_refine [OF io_reachable_inv [OF assms(1)] assms(2)] .

definition demo_sched :: "nat timer_cb Scheduler" where
  "demo_sched = \<lparr>s_name = [], s_fibers = [], s_rootFiber = None, s_threadIds = [], s_threads = [],
     s_threadCount = 1, s_activeThreadCount = 0, s_idleThreadCount = 1, s_stopping = False, s_autoStop = False,
     s_rootThread = - 1\<rparr>"

definition demo_io :: "nat IOManager" where
  "demo_io = IOManager_new (\<lambda>_. demo_sched) 7 demo_sched (new_TimerManager 0) 3"

lemma demo_io_reachable: "io_reachable 3 demo_io"
  by (simp add: demo_io_def io_init)

lemma demo_contexts: "io_fdContexts demo_io = map new_FdContext [0..<32]"
  by (simp add: demo_io_def IOManager_new_def contextResize_def del: upt_rec_numeral)

lemma demo_abs: "io_abs demo_io = \<lparr>sp_waiting = (\<lambda>i ev. None), sp_queue = (\<lambda>s. [])\<rparr>"
  by (simp add: io_abs_def demo_contexts fun_eq_iff) (simp add: demo_io_def IOManager_new_def contextResize_def demo_sched_def)

theorem io_events_refine_wait_table_witness:
  "map_option (\<lambda>(rs, m). (rs, sp_queue (io_abs m) 7))
     (io_runs demo_io [Add 5 READ_event None 7 42 0, Add 5 WRITE_event None 7 43 0, CancelAll 5 0])
   = Some ([0, 0, 1], [FiberAndThread_of (ScheduleFiber (Some 42)) (- 1), FiberAndThread_of (ScheduleFiber (Some 43)) (- 1)])"
proof -
  let ?ops = "[Add 5 READ_event None 7 42 0, Add 5 WRITE_event None 7 43 0, CancelAll 5 0]"
  have "io_valids 3 demo_io ?ops" by (auto split: option.splits)
  then have "map_option (map_prod id io_abs) (io_runs demo_io ?ops) = spec_ops (io_abs demo_io) ?ops"
    by (rule io_events_refine_wait_table [OF demo_io_reachable])
  moreover have "map_option (\<lambda>(rs, sp). (rs, sp_queue sp 7)) (spec_ops (io_abs demo_io) ?ops) =
      Some ([0, 0, 1], [FiberAndThread_of (ScheduleFiber (Some 42)) (- 1), FiberAndThread_of (ScheduleFiber (Some 43)) (- 1)])"
    unfolding demo_abs by (simp add: sp_has_def sp_both_def sp_deliver_def sp_remove_def Let_def event_defs)
  moreover have "map_option (\<lambda>(rs, sp). (rs, sp_queue sp 7)) (map_option (map_prod id io_abs) x) =
      map_option (\<lambda>(rs, m). (rs, sp_queue (io_abs m) 7)) x" for x :: "(int list \<times> nat IOManager) option"
    by (cases x) auto
  ultimately show ?thesis by metis
qed

lemma of_nat_u64_zero: "n < 2 ^ 64 \<Longrightarrow> (of_nat n :: u64) = 0 \<longleftrightarrow> n = 0"
  by (auto simp: word_of_nat_eq_0_iff dest: dvd_imp_le)

lemma pending_zero_iff:
  assumes inv: "IOManager_inv tfd m"
  shows "io_pending m = 0 \<longleftrightarrow> (\<forall>i ev. sp_waiting (io_abs m) i ev = None)"
proof -
  have e: "fc_events fc \<in> {0, 1, 4, 5}" if "fc \<in> set (io_fdContexts m)" for fc
    using that inv by (auto simp: in_set_conv_nth IOManager_inv_def fc_ok_def)
  let ?n = "sum_list (map (event_count \<circ> fc_events) (io_fdContexts m))"
  have "?n \<le> sum_list (map (\<lambda>_. 2) (io_fdContexts m))"
    by (rule sum_list_mono) (simp add: event_count_def)
  also have "\<dots> < 2 ^ 64" using inv by (simp add: IOManager_inv_def sum_list_triv)
  finally have "io_pending m = 0 \<longleftrightarrow> ?n = 0"
    using inv of_nat_u64_zero [of ?n] by (simp only: IOManager_inv_def simp_thms)
  also have "\<dots> \<longleftrightarrow> (\<forall>fc \<in> set (io_fdContexts m). fc_events fc = 0)"
  proof -
    have "event_count (fc_events fc) = 0 \<longleftrightarrow> fc_events fc = 0" if "fc \<in> set (io_fdContexts m)" for fc
      using e [OF that] by (auto simp: event_count_def event_defs)
    then show ?thesis by simp
  qed
  also have "\<dots> \<longleftrightarrow> (\<forall>i < length (io_fdContexts m). fc_events (io_fdContexts m ! i) = 0)"
    by (metis in_set_conv_nth)
  also have "\<dots> \<longleftrightarrow> (\<forall>i ev. sp_waiting (io_abs m) i ev = None)" (is "?A \<longleftrightarrow> ?B")
  proof
    assume ?A then show ?B by (simp add: io_abs_def fc_waiting_def)
  next
    assume b: ?B
    show ?A
    proof (intro allI impI)
      fix i assume i: "i < length (io_fdContexts m)"
      then have "fc_waiting (io_fdContexts m ! i) ev = None" for ev
        using b [rule_format, of i ev] by (simp add: io_abs_def)
      then show "fc_events (io_fdContexts m ! i) = 0"
        using e [of "io_fdContexts m ! i"] i fc_waiting_iff [of READ_event "io_fdContexts m ! i"]
          fc_waiting_iff [of WRITE_event "io_fdContexts m ! i"] by (auto simp: event_defs)
    qed
  qed
  finally show "io_pending m = 0 \<longleftrightarrow> (\<forall>i ev. sp_waiting (io_abs m) i ev = None)" .
qed

text \<open>
C32: In every reachable state the kernel watches exactly the registered events, each registered
event has exactly one waiter (a scheduler and either a callback or a fiber) and no other event
has one, and the pending count is the number of waiters; it is zero exactly when nobody waits.
\<close>

theorem io_bookkeeping:
  assumes "io_reachable tfd m"
  shows "IOManager_inv tfd m \<and> (io_pending m = 0 \<longleftrightarrow> (\<forall>i ev. sp_waiting (io_abs m) i ev = None))"
  using io_reachable_inv [OF assms] pending_zero_iff by blast

theorem io_bookkeeping_witness:
  "(case IOManager_addEvent demo_io 40 READ_event None (Some 7) 42 Fiber_EXEC 0 of
      Some (r, m) \<Rightarrow> r = 0 \<and> io_pending m \<noteq> 0 \<and> io_interest m 40 \<noteq> None
    | None \<Rightarrow> False)"
proof -
  let ?op = "Add 40 READ_event None 7 42 0"
  have v: "io_valid 3 demo_io ?op" by simp
  have "spec_op (io_abs demo_io) ?op \<noteq> None" by (simp add: demo_abs sp_has_def Let_def)
  then obtain m where m: "io_run demo_io ?op = Some (0, m)"
      "sp_waiting (io_abs m) 40 READ_event = Some (7, FiberAndThread_of (ScheduleFiber (Some 42)) (- 1))"
    using io_run_refines [OF io_reachable_inv [OF demo_io_reachable] v]
    by (auto simp: refines_op_def demo_abs sp_has_def Let_def)
  have inv: "IOManager_inv 3 m" "io_pending m \<noteq> 0"
    using io_bookkeeping [OF io_step [OF demo_io_reachable v m(1)]] m(2) by auto
  moreover have "40 < length (io_fdContexts m)" "fc_events (io_fdContexts m ! 40) AND READ_event \<noteq> 0"
    using m(2) by (auto simp: io_abs_def fc_waiting_def split: if_splits)
  ultimately have "io_interest m 40 \<noteq> None" by (auto simp: IOManager_inv_def interest_of_def)
  then show ?thesis using m inv by simp
qed

text \<open>
\<open>stopping\<close> lets the idle loops end only when no timer is left, no fiber or callback waits for
a descriptor, no task is queued and no worker is active; otherwise it returns the time to the
next timer for the following wait.
\<close>

theorem io_stopping_exact:
  assumes "io_reachable tfd m" and "now \<noteq> 0"
  shows "fst (IOManager_stopping m now) \<longleftrightarrow>
    \<not> TimerManager_hasTimer (io_timers m) \<and> (\<forall>i ev. sp_waiting (io_abs m) i ev = None)
    \<and> Scheduler_stopping (io_scheds m (io_self m))"
proof -
  have "t - now \<noteq> NOT 0" if "now < t" for t
  proof
    assume "t - now = NOT 0"
    then have "t = now - 1" by (simp add: algebra_simps)
    then show False using that assms(2) by (simp add: word_less_nat_alt unat_minus_one)
  qed
  then have "fst (TimerManager_getNextTimer (io_timers m) now) = NOT 0 \<longleftrightarrow> \<not> TimerManager_hasTimer (io_timers m)"
    by (auto simp: TimerManager_getNextTimer_def TimerManager_hasTimer_def Let_def not_le split: list.splits)
  then show ?thesis
    using pending_zero_iff [OF io_reachable_inv [OF assms(1)]] by (simp add: IOManager_stopping_def split_beta)
qed

theorem io_stopping_exact_witness:
  "\<not> fst (IOManager_stopping demo_io 5)"
  using io_stopping_exact [OF demo_io_reachable, of 5]
  by (simp add: demo_io_def IOManager_new_def contextResize_def demo_sched_def Scheduler_stopping_def)

text \<open>
The wait before the next timer: when the time to the next timer is at most a second it is
passed to \<open>epoll_wait\<close> unchanged, and the timeout of every call is between 0 and 1000 ms exactly
when there is no timer or bit 31 of the time is clear.  Otherwise it is negative, that is, the
call has no timeout at all.
\<close>

theorem idle_timeout_exact:
  "(let t = sint (ucast (idle_timeout next) :: i32) in
     (0 \<le> t \<and> t \<le> 1000 \<longleftrightarrow> next = NOT 0 \<or> \<not> bit next 31) \<and> (t < 0 \<longleftrightarrow> next \<noteq> NOT 0 \<and> bit next 31)
     \<and> (unat next \<le> 1000 \<longrightarrow> t = uint next)) \<and> idle_timeout (idle_timeout next) = idle_timeout next"
proof -
  let ?c = "ucast next :: i32" and ?M = "ucast MAX_TIMEOUT :: i32"
  have M: "sint ?M = 1000" by (simp add: MAX_TIMEOUT_def)
  have neg: "sint ?c < 0 \<longleftrightarrow> bit next 31"
    using bit_last_iff [of ?c] by (simp add: bit_ucast_iff)
  have small: "sint ?c = uint next \<and> uint next \<le> 1000" if "unat next \<le> 1000"
  proof -
    have le: "0 \<le> uint next" "uint next \<le> 1000" using that uint_nat [of "next"] by linarith+
    then have "signed_take_bit 31 (uint next) = uint next" 
      by (intro signed_take_bit_int_eq_self order_trans [of "- (2 ^ 31)" 0 "uint next"]) simp_all
    then show ?thesis using le by (simp add: signed_ucast_eq)
  qed
  have max: "next \<noteq> NOT 0" if "unat next \<le> 1000"
    using that by (auto simp: unsigned_minus_1_eq_mask mask_eq_exp_minus_1)
  show ?thesis
    using M neg small max unfolding idle_timeout_def Let_def by (auto simp: MAX_TIMEOUT_def)
qed

theorem idle_timeout_exact_witness:
  "sint (ucast (idle_timeout (2 ^ 31)) :: i32) < 0 \<and> sint (ucast (idle_timeout 30) :: i32) = 30"
  using idle_timeout_exact [of "2 ^ 31"] idle_timeout_exact [of 30] by (simp add: Let_def)

text \<open>
\<open>addEvent\<close> looks at the size of the table under the read lock and resizes it later under the
write lock without looking again.  When other threads have enlarged the table in between, the
resize to \<open>fd * 1.5\<close> shrinks it: it keeps every waiter exactly when nobody waits for a descriptor
beyond the new size; the waiters behind it are forgotten while the pending count still counts
them.
\<close>

theorem late_resize_keeps_waiters_iff:
  "(io_abs (contextResize m n) = io_abs m \<longleftrightarrow> (\<forall>i ev. sp_waiting (io_abs m) (n + i) ev = None))
   \<and> io_pending (contextResize m n) = io_pending m
   \<and> sp_waiting (io_abs (contextResize m n)) (n + j) ev = None"
proof -
  have "sp_waiting (io_abs (contextResize m n)) i e = (if i < n then sp_waiting (io_abs m) i e else None)" for i e
    by (auto simp: io_abs_def contextResize_def nth_append min_def)
  moreover have "sp_queue (io_abs (contextResize m n)) = sp_queue (io_abs m)"
    by (simp add: io_abs_def contextResize_def)
  moreover have "(\<forall>i e. (if i < n then f i e else None) = f i e) \<longleftrightarrow> (\<forall>i e. f (n + i) e = None)"
    for f :: "nat \<Rightarrow> u32 \<Rightarrow> (nat \<times> 'a timer_cb FiberAndThread) option"
    by (metis le_add_diff_inverse not_add_less1 not_less)
  moreover have "a = b \<longleftrightarrow> sp_waiting a = sp_waiting b \<and> sp_queue a = sp_queue b" for a b :: "'a io_spec"
    by (cases a; cases b) simp
  ultimately show ?thesis by (simp add: fun_eq_iff) (simp add: contextResize_def)
qed

end
