(* ===== verification/FdManager.thy ===== *)
theory FdManager
  imports Prelude
begin

text \<open>
  Descriptor contexts (\<open>src/megalo/fd_manager.h\<close>, \<open>src/megalo/fd_manager.cc\<close>): what the hooked
  system calls know about a descriptor.

  A \<open>FdCtx::ptr\<close> is an address of \<open>fm_heap\<close>; the vector \<open>m_datas\<close> holds such pointers.  The
  operating system is a parameter: \<open>os_fstat k fd\<close> is \<open>None\<close> when \<open>fstat\<close> fails and otherwise
  says whether the descriptor is a socket, and \<open>os_fcntl\<close> is the original \<open>fcntl\<close> with the state
  it leaves.  \<open>O_NONBLOCK\<close>, \<open>F_GETFL\<close> and the other constants are those of Linux.  Indexing
  outside the vector is \<open>None\<close>.
\<close>

section \<open>The operating system\<close>

definition O_NONBLOCK :: i32 where "O_NONBLOCK = 0x800"
definition F_DUPFD :: int where "F_DUPFD = 0"
definition F_GETFD :: int where "F_GETFD = 1"
definition F_SETFD :: int where "F_SETFD = 2"
definition F_GETFL :: int where "F_GETFL = 3"
definition F_SETFL :: int where "F_SETFL = 4"
definition SO_RCVTIMEO :: int where "SO_RCVTIMEO = 20"
definition SO_SNDTIMEO :: int where "SO_SNDTIMEO = 21"

record 'k os =
  os_fstat :: "'k \<Rightarrow> int \<Rightarrow> bool option"
  os_fcntl :: "'k \<Rightarrow> int \<Rightarrow> int \<Rightarrow> i32 \<Rightarrow> i32 \<times> 'k"

section \<open>Contexts\<close>

record FdCtx =
  fd_isInit :: bool
  fd_isSocket :: bool
  fd_sysNonblock :: bool
  fd_userNonblock :: bool
  fd_isClosed :: bool
  fd_fd :: int
  fd_recvTimeout :: u64
  fd_sendTimeout :: u64

definition FdCtx_init :: "'k os \<Rightarrow> 'k \<Rightarrow> FdCtx \<Rightarrow> bool \<times> FdCtx \<times> 'k" where
  "FdCtx_init os k c =
     (if fd_isInit c then (True, c, k)
      else let st = os_fstat os k (fd_fd c);
               is_init = (st \<noteq> None); is_socket = (st = Some True);
               k' = (if is_socket
                     then let (flags, k1) = os_fcntl os k (fd_fd c) F_GETFL 0 in
                       (if flags AND O_NONBLOCK = 0 then snd (os_fcntl os k1 (fd_fd c) F_SETFL (flags OR O_NONBLOCK)) else k1)
                     else k) in
        (is_init,
         c\<lparr>fd_isInit := is_init, fd_isSocket := is_socket, fd_sysNonblock := is_socket, fd_userNonblock := False,
           fd_isClosed := False, fd_recvTimeout := - 1, fd_sendTimeout := - 1\<rparr>, k'))"

definition new_FdCtx :: "'k os \<Rightarrow> 'k \<Rightarrow> int \<Rightarrow> FdCtx \<times> 'k" where
  "new_FdCtx os k fd =
     snd (FdCtx_init os k
       \<lparr>fd_isInit = False, fd_isSocket = False, fd_sysNonblock = False, fd_userNonblock = False,
        fd_isClosed = False, fd_fd = fd, fd_recvTimeout = - 1, fd_sendTimeout = - 1\<rparr>)"

definition FdCtx_setUserNonblock :: "FdCtx \<Rightarrow> bool \<Rightarrow> FdCtx" where
  "FdCtx_setUserNonblock c v = c\<lparr>fd_userNonblock := v\<rparr>"

definition FdCtx_setTimeout :: "FdCtx \<Rightarrow> int \<Rightarrow> u64 \<Rightarrow> FdCtx" where
  "FdCtx_setTimeout c type v =
     (if type = SO_RCVTIMEO then c\<lparr>fd_recvTimeout := v\<rparr> else c\<lparr>fd_sendTimeout := v\<rparr>)"

definition FdCtx_getTimeout :: "FdCtx \<Rightarrow> int \<Rightarrow> u64" where
  "FdCtx_getTimeout c type = (if type = SO_RCVTIMEO then fd_recvTimeout c else fd_sendTimeout c)"

section \<open>The manager\<close>

record FdManager =
  fm_datas :: "nat option list"
  fm_heap :: "nat \<rightharpoonup> FdCtx"

definition new_FdManager :: FdManager where
  "new_FdManager = \<lparr>fm_datas = replicate 64 None, fm_heap = Map.empty\<rparr>"

text \<open>\<open>resize\<close> of a vector of pointers.\<close>

definition datas_resize :: "nat option list \<Rightarrow> nat \<Rightarrow> nat option list" where
  "datas_resize ds n = take n ds @ replicate (n - length ds) None"

text \<open>The part of \<open>get\<close> under the write lock; \<open>p\<close> is the address of the new object.\<close>

definition FdManager_create :: "'k os \<Rightarrow> 'k \<Rightarrow> FdManager \<Rightarrow> int \<Rightarrow> nat \<Rightarrow> (nat option \<times> FdManager \<times> 'k) option" where
  "FdManager_create os k m fd p =
     (let (c, k') = new_FdCtx os k fd;
          ds = (if fd \<ge> int (length (fm_datas m)) then datas_resize (fm_datas m) (nat (fd * 3 div 2)) else fm_datas m) in
      if 0 \<le> fd \<and> nat fd < length ds
      then Some (Some p, \<lparr>fm_datas = ds[nat fd := Some p], fm_heap = (fm_heap m)(p \<mapsto> c)\<rparr>, k')
      else None)"

definition FdManager_get ::
    "'k os \<Rightarrow> 'k \<Rightarrow> FdManager \<Rightarrow> int \<Rightarrow> bool \<Rightarrow> nat \<Rightarrow> (nat option \<times> FdManager \<times> 'k) option" where
  "FdManager_get os k m fd auto_created p =
     (if fd = - 1 then Some (None, m, k)
      else if int (length (fm_datas m)) \<le> fd
      then (if \<not> auto_created then Some (None, m, k) else FdManager_create os k m fd p)
      else if fd < 0 then None
      else if fm_datas m ! nat fd \<noteq> None \<or> \<not> auto_created then Some (fm_datas m ! nat fd, m, k)
      else FdManager_create os k m fd p)"

definition FdManager_del :: "FdManager \<Rightarrow> int \<Rightarrow> FdManager option" where
  "FdManager_del m fd =
     (if int (length (fm_datas m)) \<le> fd then Some m
      else if fd < 0 then None
      else Some (m\<lparr>fm_datas := (fm_datas m)[nat fd := None]\<rparr>))"

text \<open>Looking a descriptor up without creating a context, as the hooks do.\<close>

definition fm_lookup :: "FdManager \<Rightarrow> int \<Rightarrow> nat option" where
  "fm_lookup m fd = (if 0 \<le> fd \<and> nat fd < length (fm_datas m) then fm_datas m ! nat fd else None)"

section \<open>Invariant and laws\<close>

text \<open>Every pointer of the table points to the context of its descriptor, and no two are shared.\<close>

definition FdManager_inv :: "FdManager \<Rightarrow> bool" where
  "FdManager_inv m \<longleftrightarrow> 64 \<le> length (fm_datas m)
     \<and> (\<forall>i p. i < length (fm_datas m) \<longrightarrow> fm_datas m ! i = Some p \<longrightarrow>
          (\<exists>c. fm_heap m p = Some c \<and> fd_fd c = int i \<and> (fd_isSocket c \<longrightarrow> fd_sysNonblock c)))
     \<and> (\<forall>i j p. i < length (fm_datas m) \<longrightarrow> j < length (fm_datas m) \<longrightarrow>
          fm_datas m ! i = Some p \<longrightarrow> fm_datas m ! j = Some p \<longrightarrow> i = j)"

lemma new_FdCtx_fields:
  "fd_fd (fst (new_FdCtx os k fd)) = fd"
  "fd_isSocket (fst (new_FdCtx os k fd)) \<longleftrightarrow> os_fstat os k fd = Some True"
  "fd_sysNonblock (fst (new_FdCtx os k fd)) \<longleftrightarrow> os_fstat os k fd = Some True"
  "\<not> fd_userNonblock (fst (new_FdCtx os k fd))" "\<not> fd_isClosed (fst (new_FdCtx os k fd))"
  by (simp_all add: new_FdCtx_def FdCtx_init_def Let_def)

lemma FdManager_get_existing:
  "0 \<le> fd \<Longrightarrow> FdManager_get os k m fd False p = Some (fm_lookup m fd, m, k)"
  by (auto simp: FdManager_get_def fm_lookup_def)

lemma new_FdManager_inv: "FdManager_inv new_FdManager"
  by (simp add: FdManager_inv_def new_FdManager_def)

lemma length_datas_resize [simp]: "length (datas_resize ds n) = n"
  by (simp add: datas_resize_def)

lemma nth_datas_resize:
  "i < n \<Longrightarrow> datas_resize ds n ! i = (if i < length ds then ds ! i else None)"
  by (simp add: datas_resize_def nth_append min_def)

lemma FdManager_create_spec:
  assumes inv: "FdManager_inv m" and fd: "0 \<le> fd" and p: "fm_heap m p = None"
  obtains m' where "FdManager_create os k m fd p = Some (Some p, m', snd (new_FdCtx os k fd))"
    and "FdManager_inv m'" and "fm_lookup m' = (fm_lookup m)(fd \<mapsto> p)"
    and "fm_heap m' = (fm_heap m)(p \<mapsto> fst (new_FdCtx os k fd))"
proof -
  let ?n = "length (fm_datas m)"
  define ds where "ds = (if fd \<ge> int ?n then datas_resize (fm_datas m) (nat (fd * 3 div 2)) else fm_datas m)"
  have n: "64 \<le> ?n" using inv by (simp add: FdManager_inv_def)
  have len: "?n \<le> length ds" "nat fd < length ds"
    unfolding ds_def using fd n by (simp_all, linarith+)
  have at: "ds ! i = (if i < ?n then fm_datas m ! i else None)" if "i < length ds" for i
    using that nth_datas_resize by (auto simp: ds_def)
  define m' where "m' = \<lparr>fm_datas = ds[nat fd := Some p], fm_heap = (fm_heap m)(p \<mapsto> fst (new_FdCtx os k fd))\<rparr>"
  have fresh: "fm_datas m ! i \<noteq> Some p" if "i < ?n" for i
    using that inv p unfolding FdManager_inv_def by (metis option.distinct(1))
  have "FdManager_inv m'"
    using inv n len at fresh fd new_FdCtx_fields [of os k fd]
    by (auto simp: FdManager_inv_def m'_def nth_list_update split: if_splits)
  moreover have "fm_lookup m' = (fm_lookup m)(fd \<mapsto> p)"
    using len at fd by (auto simp: fun_eq_iff fm_lookup_def m'_def nth_list_update)
  moreover have "FdManager_create os k m fd p = Some (Some p, m', snd (new_FdCtx os k fd))"
    using fd len by (simp add: FdManager_create_def split_beta Let_def ds_def [symmetric] m'_def)
  ultimately show thesis using that by (simp add: m'_def)
qed

end
