(* ===== verification/Hook.thy ===== *)
theory Hook
  imports IOManager FdManager
begin

text \<open>
  The hooked system calls (\<open>src/megalo/hook.h\<close>, \<open>src/megalo/hook.cc\<close>): calls that would block
  register the running fiber with the IO manager and yield instead.

  The state joins the descriptor contexts, the IO manager, the \<open>timer_info\<close> objects (address
  to \<open>cancelled\<close>; an object that is gone is \<open>None\<close>) and the state of the kernel.  The original
  calls (\<open>read_f\<close> and so on) are parameters: the results of the successive calls an operation
  makes are a list, and the calls that only pass values through are functions of the kernel state.
  A hooked call is cut where it yields: it ends in \<open>Blocked\<close> with its timer, and continues with the
  function for its resumption once its fiber runs again.  \<open>Looping\<close> says that the listed results
  are used up inside the loop that repeats an interrupted call.
\<close>

section \<open>State and environment\<close>

definition EINTR :: int where "EINTR = 4"
definition EBADF :: int where "EBADF = 9"
definition EAGAIN :: int where "EAGAIN = 11"
definition ETIMEDOUT :: int where "ETIMEDOUT = 110"
definition EINPROGRESS :: int where "EINPROGRESS = 115"
definition SOL_SOCKET :: int where "SOL_SOCKET = 1"
definition FIONBIO :: u64 where "FIONBIO = 0x5421"

text \<open>The callbacks the hooks create: the lambdas given to timers, and a bound \<open>schedule\<close>.\<close>

datatype 'u hook_cb = IoTimeout nat int u32 | WakeFiber nat | User 'u

record ('u, 'k) hook_state =
  hk_fds :: FdManager
  hk_io :: "'u hook_cb IOManager"
  hk_tinfo :: "nat \<rightharpoonup> int"
  hk_kernel :: 'k

text \<open>
  Where a call runs: \<open>t_hook_enable\<close>, whether \<open>IOManager::GetThis()\<close> is not null, the addresses of
  the scheduler and of the running fiber, the clock, fresh addresses, and the result of \<open>epoll_ctl\<close>.
\<close>

record hook_env =
  e_enable :: bool
  e_iom :: bool
  e_this :: nat
  e_cur :: nat
  e_now :: u64
  e_timer :: nat
  e_tinfo :: nat
  e_rt :: int

datatype syscall = Ret int | Fail int

datatype hook_result = Done syscall | Blocked "nat option" | Looping | Aborted

record 'k hook_os = "'k os" +
  os_ioctl :: "'k \<Rightarrow> int \<Rightarrow> u64 \<Rightarrow> i32 \<Rightarrow> i32 \<times> 'k"
  os_setsockopt :: "'k \<Rightarrow> int \<Rightarrow> int \<Rightarrow> int \<Rightarrow> i64 \<times> i64 \<Rightarrow> i32 \<times> 'k"
  os_close :: "'k \<Rightarrow> int \<Rightarrow> i32 \<times> 'k"
  os_socket :: "'k \<Rightarrow> int \<Rightarrow> int \<Rightarrow> int \<Rightarrow> int \<times> 'k"

text \<open>Integer division of C, which truncates.\<close>

definition c_quot :: "int \<Rightarrow> int \<Rightarrow> int" where
  "c_quot a b = sgn a * sgn b * (\<bar>a\<bar> div \<bar>b\<bar>)"

section \<open>Blocking calls\<close>

text \<open>
  The loop \<open>while(n == -1 && errno == EINTR)\<close>: it repeats the call but does not assign its result
  to \<open>n\<close>, and a call that succeeds leaves \<open>errno\<close> alone.  The value is \<open>errno\<close> after the loop.
\<close>

fun interrupted :: "syscall list \<Rightarrow> (int \<times> syscall list) option" where
  "interrupted [] = None"
| "interrupted (Ret n # rs) = interrupted rs"
| "interrupted (Fail e # rs) = (if e = EINTR then interrupted rs else Some (e, rs))"

fun io_call :: "syscall list \<Rightarrow> (syscall \<times> syscall list) option" where
  "io_call [] = None"
| "io_call (Ret n # rs) = Some (Ret n, rs)"
| "io_call (Fail e # rs) =
     (if e = EINTR then (case interrupted rs of None \<Rightarrow> None | Some (e', rs') \<Rightarrow> Some (Fail e', rs'))
      else Some (Fail e, rs))"

definition first_call :: "syscall list \<Rightarrow> hook_result" where
  "first_call rs = (case rs of [] \<Rightarrow> Looping | r # _ \<Rightarrow> Done r)"

definition hook_addConditionTimer ::
    "'u hook_cb IOManager \<Rightarrow> hook_env \<Rightarrow> u64 \<Rightarrow> 'u hook_cb \<Rightarrow> nat \<Rightarrow> 'u hook_cb IOManager" where
  "hook_addConditionTimer m env ms cb t =
     (let (_, front, tm) = TimerManager_addConditionTimer (io_timers m) (e_now env) (e_timer env) ms cb t False;
          m' = m\<lparr>io_timers := tm\<rparr> in
      if front then IOManager_onTimerInsertAtFront m' else m')"

definition hook_cancel :: "'u hook_cb IOManager \<Rightarrow> nat option \<Rightarrow> 'u hook_cb IOManager option" where
  "hook_cancel m timer =
     (case timer of None \<Rightarrow> Some m
      | Some p \<Rightarrow> (case Timer_cancel (io_timers m) p of None \<Rightarrow> None | Some (_, tm) \<Rightarrow> Some (m\<lparr>io_timers := tm\<rparr>)))"

text \<open>The return of a hooked call destroys its \<open>timer_info\<close>.\<close>

definition hook_return ::
    "('u, 'k) hook_state \<Rightarrow> 'u hook_cb IOManager option \<Rightarrow> nat \<Rightarrow> syscall \<Rightarrow> hook_result \<times> ('u, 'k) hook_state" where
  "hook_return s io t r =
     (case io of None \<Rightarrow> (Aborted, s)
      | Some m \<Rightarrow> (Done r, s\<lparr>hk_io := m, hk_tinfo := (hk_tinfo s)(t := None)\<rparr>))"

text \<open>
  The body after \<open>EAGAIN\<close>: a timer if there is a timeout, then the event; the call returns \<open>-1\<close> if the
  event cannot be added (\<open>errno\<close> is then what \<open>epoll_ctl\<close> set, the last argument) and yields otherwise.
\<close>

definition do_io_wait ::
    "('u, 'k) hook_state \<Rightarrow> hook_env \<Rightarrow> nat \<Rightarrow> u64 \<Rightarrow> int \<Rightarrow> u32 \<Rightarrow> int \<Rightarrow> hook_result \<times> ('u, 'k) hook_state" where
  "do_io_wait s env t to fd event errno =
     (if \<not> e_iom env then (Aborted, s)
      else let timer = (if to \<noteq> - 1 then Some (e_timer env) else None);
               m = (if to \<noteq> - 1 then hook_addConditionTimer (hk_io s) env to (IoTimeout t fd event) t else hk_io s) in
        case IOManager_addEvent m fd event None (Some (e_this env)) (e_cur env) Fiber_EXEC (e_rt env) of
          None \<Rightarrow> (Aborted, s)
        | Some (rt, m') \<Rightarrow>
            if rt \<noteq> 0 then hook_return s (hook_cancel m' timer) t (Fail errno)
            else (Blocked timer, s\<lparr>hk_io := m'\<rparr>))"

definition do_io_retry ::
    "('u, 'k) hook_state \<Rightarrow> hook_env \<Rightarrow> nat \<Rightarrow> u64 \<Rightarrow> int \<Rightarrow> u32 \<Rightarrow> int \<Rightarrow> syscall list
      \<Rightarrow> hook_result \<times> ('u, 'k) hook_state" where
  "do_io_retry s env t to fd event errno rs =
     (case io_call rs of None \<Rightarrow> (Looping, s)
      | Some (r, _) \<Rightarrow> if r = Fail EAGAIN then do_io_wait s env t to fd event errno else hook_return s (Some (hk_io s)) t r)"

definition do_io ::
    "'k hook_os \<Rightarrow> ('u, 'k) hook_state \<Rightarrow> hook_env \<Rightarrow> int \<Rightarrow> u32 \<Rightarrow> int \<Rightarrow> int \<Rightarrow> syscall list
      \<Rightarrow> hook_result \<times> ('u, 'k) hook_state" where
  "do_io os s env fd event timeout_so errno rs =
     (if \<not> e_enable env then (first_call rs, s)
      else case FdManager_get (os.truncate os) (hk_kernel s) (hk_fds s) fd False 0 of None \<Rightarrow> (Aborted, s)
        | Some (None, _, _) \<Rightarrow> (first_call rs, s)
        | Some (Some p, _, _) \<Rightarrow>
          let ctx = the (fm_heap (hk_fds s) p) in
          if fd_isClosed ctx then (Done (Fail EBADF), s)
          else if \<not> fd_isSocket ctx \<or> fd_userNonblock ctx then (first_call rs, s)
          else do_io_retry (s\<lparr>hk_tinfo := (hk_tinfo s)(e_tinfo env \<mapsto> 0)\<rparr>) env (e_tinfo env)
                 (FdCtx_getTimeout ctx timeout_so) fd event errno rs)"

text \<open>After the yield: cancel the timer, report a timeout, or try again.\<close>

definition do_io_resume ::
    "('u, 'k) hook_state \<Rightarrow> hook_env \<Rightarrow> nat \<Rightarrow> nat option \<Rightarrow> u64 \<Rightarrow> int \<Rightarrow> u32 \<Rightarrow> int \<Rightarrow> syscall list
      \<Rightarrow> hook_result \<times> ('u, 'k) hook_state" where
  "do_io_resume s env t timer to fd event errno rs =
     (case hook_cancel (hk_io s) timer of None \<Rightarrow> (Aborted, s)
      | Some m \<Rightarrow>
        let cancelled = the (hk_tinfo s t); s1 = s\<lparr>hk_io := m\<rparr> in
        if cancelled \<noteq> 0 then hook_return s1 (Some m) t (Fail cancelled)
        else do_io_retry s1 env t to fd event errno rs)"

text \<open>The callback of the timer; \<open>rt\<close> is the result of \<open>epoll_ctl\<close> in \<open>cancelEvent\<close>.\<close>

definition io_timeout_cb ::
    "('u, 'k) hook_state \<Rightarrow> nat \<Rightarrow> int \<Rightarrow> u32 \<Rightarrow> int \<Rightarrow> ('u, 'k) hook_state option" where
  "io_timeout_cb s t fd event rt =
     (case hk_tinfo s t of None \<Rightarrow> Some s
      | Some c \<Rightarrow>
        if c \<noteq> 0 then Some s
        else let s1 = s\<lparr>hk_tinfo := (hk_tinfo s)(t \<mapsto> ETIMEDOUT)\<rparr> in
          (case IOManager_cancelEvent (hk_io s1) fd event rt of None \<Rightarrow> None
           | Some (_, m) \<Rightarrow> Some (s1\<lparr>hk_io := m\<rparr>)))"

section \<open>The hooked calls\<close>

text \<open>The buffers and flags of the calls go to the original call unchanged and are not represented.\<close>

definition hook_read where
  "hook_read os s env fd errno rs = do_io os s env fd READ_event SO_RCVTIMEO errno rs"

definition hook_readv where
  "hook_readv os s env fd errno rs = do_io os s env fd READ_event SO_RCVTIMEO errno rs"

definition hook_recv where
  "hook_recv os s env fd errno rs = do_io os s env fd READ_event SO_RCVTIMEO errno rs"

definition hook_recvfrom where
  "hook_recvfrom os s env fd errno rs = do_io os s env fd READ_event SO_RCVTIMEO errno rs"

definition hook_recvmsg where
  "hook_recvmsg os s env fd errno rs = do_io os s env fd READ_event SO_RCVTIMEO errno rs"

definition hook_write where
  "hook_write os s env fd errno rs = do_io os s env fd WRITE_event SO_SNDTIMEO errno rs"

definition hook_writev where
  "hook_writev os s env fd errno rs = do_io os s env fd WRITE_event SO_SNDTIMEO errno rs"

definition hook_send where
  "hook_send os s env fd errno rs = do_io os s env fd WRITE_event SO_SNDTIMEO errno rs"

definition hook_sendto where
  "hook_sendto os s env fd errno rs = do_io os s env fd WRITE_event SO_SNDTIMEO errno rs"

definition hook_sendmsg where
  "hook_sendmsg os s env fd errno rs = do_io os s env fd WRITE_event SO_SNDTIMEO errno rs"

definition hook_accept_done :: "'k hook_os \<Rightarrow> ('u, 'k) hook_state \<Rightarrow> int \<Rightarrow> nat \<Rightarrow> ('u, 'k) hook_state option" where
  "hook_accept_done os s fd p =
     (if fd \<ge> 0
      then (case FdManager_get (os.truncate os) (hk_kernel s) (hk_fds s) fd True p of None \<Rightarrow> None
            | Some (_, m, k) \<Rightarrow> Some (s\<lparr>hk_fds := m, hk_kernel := k\<rparr>))
      else Some s)"

text \<open>\<open>accept\<close>: a descriptor that is returned gets a context, whether \<open>do_io\<close> yielded before or not.\<close>

definition hook_accept ::
    "'k hook_os \<Rightarrow> ('u, 'k) hook_state \<Rightarrow> hook_env \<Rightarrow> int \<Rightarrow> int \<Rightarrow> syscall list \<Rightarrow> nat
      \<Rightarrow> hook_result \<times> ('u, 'k) hook_state" where
  "hook_accept os s env fd errno rs p =
     (case do_io os s env fd READ_event SO_RCVTIMEO errno rs of
        (Done (Ret n), s1) \<Rightarrow>
          (case hook_accept_done os s1 n p of None \<Rightarrow> (Aborted, s1) | Some s2 \<Rightarrow> (Done (Ret n), s2))
      | (r, s1) \<Rightarrow> (r, s1))"

text \<open>
  The sleeping calls add a timer that schedules the running fiber, and yield.  \<open>sleep\<close> multiplies an
  \<open>unsigned int\<close>, \<open>nanosleep\<close> goes through an \<open>int\<close>.
\<close>

definition hook_sleep_ms :: "('u, 'k) hook_state \<Rightarrow> hook_env \<Rightarrow> u64 \<Rightarrow> hook_result \<times> ('u, 'k) hook_state" where
  "hook_sleep_ms s env ms =
     (if \<not> e_iom env then (Aborted, s)
      else let (_, front, tm) =
             TimerManager_addTimer (io_timers (hk_io s)) (e_now env) (e_timer env) ms (Some (Callback (WakeFiber (e_cur env)))) False;
           m = (hk_io s)\<lparr>io_timers := tm\<rparr> in
        (Blocked (Some (e_timer env)), s\<lparr>hk_io := (if front then IOManager_onTimerInsertAtFront m else m)\<rparr>))"

definition hook_sleep :: "('u, 'k) hook_state \<Rightarrow> hook_env \<Rightarrow> u32 \<Rightarrow> syscall list \<Rightarrow> hook_result \<times> ('u, 'k) hook_state" where
  "hook_sleep s env seconds rs =
     (if \<not> e_enable env then (first_call rs, s) else hook_sleep_ms s env (ucast (seconds * 1000)))"

definition hook_usleep :: "('u, 'k) hook_state \<Rightarrow> hook_env \<Rightarrow> u32 \<Rightarrow> syscall list \<Rightarrow> hook_result \<times> ('u, 'k) hook_state" where
  "hook_usleep s env usec rs =
     (if \<not> e_enable env then (first_call rs, s) else hook_sleep_ms s env (ucast (usec div 1000)))"

definition hook_nanosleep ::
    "('u, 'k) hook_state \<Rightarrow> hook_env \<Rightarrow> i64 \<Rightarrow> i64 \<Rightarrow> syscall list \<Rightarrow> hook_result \<times> ('u, 'k) hook_state" where
  "hook_nanosleep s env tv_sec tv_nsec rs =
     (if \<not> e_enable env then (first_call rs, s)
      else let timeout_ms = word_of_int (sint tv_sec * 1000 + c_quot (c_quot (sint tv_nsec) 1000) 1000) :: i32 in
        hook_sleep_ms s env (scast timeout_ms))"

definition hook_socket ::
    "'k hook_os \<Rightarrow> ('u, 'k) hook_state \<Rightarrow> hook_env \<Rightarrow> int \<Rightarrow> int \<Rightarrow> int \<Rightarrow> nat \<Rightarrow> (int \<times> ('u, 'k) hook_state) option" where
  "hook_socket os s env domain type protocol p =
     (let (fd, k) = os_socket os (hk_kernel s) domain type protocol; s1 = s\<lparr>hk_kernel := k\<rparr> in
      if \<not> e_enable env \<or> fd = - 1 then Some (fd, s1)
      else case FdManager_get (os.truncate os) k (hk_fds s) fd True p of None \<Rightarrow> None
        | Some (_, m, k') \<Rightarrow> Some (fd, s1\<lparr>hk_fds := m, hk_kernel := k'\<rparr>))"

text \<open>
  \<open>connect_with_timeout\<close>, first part: the list holds the result of \<open>connect_f\<close>.  \<open>so_error\<close> is the result of
  \<open>getsockopt(SO_ERROR)\<close>: \<open>None\<close> when the call fails with \<open>errno\<close>.
\<close>

definition connect_result :: "int option \<Rightarrow> int \<Rightarrow> syscall" where
  "connect_result so_error errno =
     (case so_error of None \<Rightarrow> Fail errno | Some e \<Rightarrow> if e = 0 then Ret 0 else Fail e)"

definition connect_with_timeout ::
    "'k hook_os \<Rightarrow> ('u, 'k) hook_state \<Rightarrow> hook_env \<Rightarrow> int \<Rightarrow> u64 \<Rightarrow> syscall list \<Rightarrow> int option \<Rightarrow> int
      \<Rightarrow> hook_result \<times> ('u, 'k) hook_state" where
  "connect_with_timeout os s env fd timeout_ms rs so_error errno =
     (if \<not> e_enable env then (first_call rs, s)
      else case FdManager_get (os.truncate os) (hk_kernel s) (hk_fds s) fd False 0 of None \<Rightarrow> (Aborted, s)
        | Some (None, _, _) \<Rightarrow> (Done (Fail EBADF), s)
        | Some (Some p, _, _) \<Rightarrow>
          let ctx = the (fm_heap (hk_fds s) p) in
          if fd_isClosed ctx then (Done (Fail EBADF), s)
          else if \<not> fd_isSocket ctx then (first_call rs, s)
          else if fd_userNonblock ctx then (first_call rs, s)
          else if first_call rs \<noteq> Done (Fail EINPROGRESS) then (first_call rs, s)
          else if \<not> e_iom env then (Aborted, s)
          else let t = e_tinfo env; s1 = s\<lparr>hk_tinfo := (hk_tinfo s)(t \<mapsto> 0)\<rparr>;
                   timer = (if timeout_ms \<noteq> - 1 then Some (e_timer env) else None);
                   m = (if timeout_ms \<noteq> - 1
                        then hook_addConditionTimer (hk_io s) env timeout_ms (IoTimeout t fd WRITE_event) t else hk_io s) in
            (case IOManager_addEvent m fd WRITE_event None (Some (e_this env)) (e_cur env) Fiber_EXEC (e_rt env) of
               None \<Rightarrow> (Aborted, s1)
             | Some (rt, m') \<Rightarrow>
                 if rt = 0 then (Blocked timer, s1\<lparr>hk_io := m'\<rparr>)
                 else hook_return s1 (hook_cancel m' timer) t (connect_result so_error errno)))"

definition connect_resume ::
    "('u, 'k) hook_state \<Rightarrow> nat \<Rightarrow> nat option \<Rightarrow> int option \<Rightarrow> int \<Rightarrow> hook_result \<times> ('u, 'k) hook_state" where
  "connect_resume s t timer so_error errno =
     (case hook_cancel (hk_io s) timer of None \<Rightarrow> (Aborted, s)
      | Some m \<Rightarrow>
        let cancelled = the (hk_tinfo s t) in
        hook_return s (Some m) t (if cancelled \<noteq> 0 then Fail cancelled else connect_result so_error errno))"

text \<open>\<open>s_connect_timeout\<close> starts as \<open>-1\<close>; the listener of the configuration variable assigns an \<open>int\<close>.\<close>

definition initial_connect_timeout :: u64 where
  "initial_connect_timeout = - 1"

definition connect_timeout_listener :: "i32 \<Rightarrow> i32 \<Rightarrow> u64" where
  "connect_timeout_listener old_value new_value = scast new_value"

definition hook_connect where
  "hook_connect os s env fd s_connect_timeout rs so_error errno =
     connect_with_timeout os s env fd s_connect_timeout rs so_error errno"

definition hook_close ::
    "'k hook_os \<Rightarrow> ('u, 'k) hook_state \<Rightarrow> hook_env \<Rightarrow> int \<Rightarrow> (i32 \<times> ('u, 'k) hook_state) option" where
  "hook_close os s env fd =
     (let close_with = (\<lambda>s'. let (r, k) = os_close os (hk_kernel s') fd in Some (r, s'\<lparr>hk_kernel := k\<rparr>)) in
      if \<not> e_enable env then close_with s
      else case FdManager_get (os.truncate os) (hk_kernel s) (hk_fds s) fd False 0 of None \<Rightarrow> None
        | Some (None, _, _) \<Rightarrow> close_with s
        | Some (Some p, _, _) \<Rightarrow>
          (case (if e_iom env then IOManager_cancelAll (hk_io s) fd (e_rt env) else Some (False, hk_io s)) of None \<Rightarrow> None
           | Some (_, m) \<Rightarrow>
             (case FdManager_del (hk_fds s) fd of None \<Rightarrow> None
              | Some fds \<Rightarrow> close_with (s\<lparr>hk_io := m, hk_fds := fds\<rparr>))))"

section \<open>Descriptor flags and options\<close>

text \<open>Replacing the object behind a context pointer.\<close>

definition set_ctx :: "('u, 'k) hook_state \<Rightarrow> nat \<Rightarrow> FdCtx \<Rightarrow> ('u, 'k) hook_state" where
  "set_ctx s p c = s\<lparr>hk_fds := (hk_fds s)\<lparr>fm_heap := (fm_heap (hk_fds s))(p \<mapsto> c)\<rparr>\<rparr>"

text \<open>The context of an open socket, or \<open>None\<close> for the condition \<open>!ctx || isClosed || !isSocket\<close>.\<close>

definition socket_ctx :: "('u, 'k) hook_state \<Rightarrow> nat option \<Rightarrow> (nat \<times> FdCtx) option" where
  "socket_ctx s q =
     (case q of None \<Rightarrow> None
      | Some p \<Rightarrow> let c = the (fm_heap (hk_fds s) p) in
          if fd_isClosed c \<or> \<not> fd_isSocket c then None else Some (p, c))"

definition fcntl_through ::
    "'k hook_os \<Rightarrow> ('u, 'k) hook_state \<Rightarrow> int \<Rightarrow> int \<Rightarrow> i32 \<Rightarrow> (i32 \<times> ('u, 'k) hook_state) option" where
  "fcntl_through os s fd cmd arg =
     (let (r, k) = os_fcntl os (hk_kernel s) fd cmd arg in Some (r, s\<lparr>hk_kernel := k\<rparr>))"

text \<open>
  The commands that take an argument: \<open>F_DUPFD\<close>, \<open>F_DUPFD_CLOEXEC\<close>, \<open>F_SETFD\<close>, \<open>F_SETOWN\<close>, \<open>F_SETSIG\<close>,
  \<open>F_SETLEASE\<close>, \<open>F_NOTIFY\<close>, \<open>F_SETPIPE_SZ\<close>, then the lock and owner commands with a pointer.
\<close>

definition fcntl_arg_cmds :: "int list" where
  "fcntl_arg_cmds = [F_DUPFD, 1030, F_SETFD, 8, 10, 1024, 1026, 1031] @ [6, 7, 5] @ [16, 15]"

definition hook_fcntl ::
    "'k hook_os \<Rightarrow> ('u, 'k) hook_state \<Rightarrow> int \<Rightarrow> int \<Rightarrow> i32 \<Rightarrow> (i32 \<times> ('u, 'k) hook_state) option" where
  "hook_fcntl os s fd cmd arg =
     (if cmd = F_SETFL
      then (case FdManager_get (os.truncate os) (hk_kernel s) (hk_fds s) fd False 0 of None \<Rightarrow> None
            | Some (q, _, _) \<Rightarrow>
              (case socket_ctx s q of None \<Rightarrow> fcntl_through os s fd cmd arg
               | Some (p, c) \<Rightarrow>
                   fcntl_through os (set_ctx s p (FdCtx_setUserNonblock c (arg AND O_NONBLOCK \<noteq> 0))) fd cmd
                     (if fd_sysNonblock c then arg OR O_NONBLOCK else arg AND NOT O_NONBLOCK)))
      else if cmd = F_GETFL
      then (case fcntl_through os s fd cmd 0 of None \<Rightarrow> None
            | Some (r, s1) \<Rightarrow>
              (case FdManager_get (os.truncate os) (hk_kernel s1) (hk_fds s1) fd False 0 of None \<Rightarrow> None
               | Some (q, _, _) \<Rightarrow>
                 (case socket_ctx s1 q of None \<Rightarrow> Some (r, s1)
                  | Some (p, c) \<Rightarrow> Some (if fd_userNonblock c then r OR O_NONBLOCK else r AND NOT O_NONBLOCK, s1))))
      else if cmd \<in> set fcntl_arg_cmds then fcntl_through os s fd cmd arg
      else fcntl_through os s fd cmd 0)"

definition hook_ioctl ::
    "'k hook_os \<Rightarrow> ('u, 'k) hook_state \<Rightarrow> int \<Rightarrow> u64 \<Rightarrow> i32 \<Rightarrow> (i32 \<times> ('u, 'k) hook_state) option" where
  "hook_ioctl os s fd request arg =
     (let through = (\<lambda>s'. let (r, k) = os_ioctl os (hk_kernel s') fd request arg in Some (r, s'\<lparr>hk_kernel := k\<rparr>)) in
      if request = FIONBIO
      then (case FdManager_get (os.truncate os) (hk_kernel s) (hk_fds s) fd False 0 of None \<Rightarrow> None
            | Some (q, _, _) \<Rightarrow>
              (case socket_ctx s q of None \<Rightarrow> through s
               | Some (p, c) \<Rightarrow> through (set_ctx s p (FdCtx_setUserNonblock c (arg \<noteq> 0)))))
      else through s)"

text \<open>\<open>getsockopt_f\<close> is the original call.\<close>

definition hook_getsockopt :: "(int \<Rightarrow> int \<Rightarrow> int \<Rightarrow> 'k \<Rightarrow> (i32 \<times> u8 list) \<times> 'k) \<Rightarrow> int \<Rightarrow> int \<Rightarrow> int \<Rightarrow> 'k \<Rightarrow> (i32 \<times> u8 list) \<times> 'k" where
  "hook_getsockopt getsockopt_f sockfd level optname k = getsockopt_f sockfd level optname k"

text \<open>\<open>optval\<close> is read as a \<open>timeval\<close> (seconds, microseconds) for the timeout options.\<close>

definition hook_setsockopt ::
    "'k hook_os \<Rightarrow> ('u, 'k) hook_state \<Rightarrow> hook_env \<Rightarrow> int \<Rightarrow> int \<Rightarrow> int \<Rightarrow> i64 \<times> i64
      \<Rightarrow> (i32 \<times> ('u, 'k) hook_state) option" where
  "hook_setsockopt os s env fd level optname optval =
     (let through = (\<lambda>s'. let (r, k) = os_setsockopt os (hk_kernel s') fd level optname optval in
                       Some (r, s'\<lparr>hk_kernel := k\<rparr>));
          ms = fst optval * 1000 + word_of_int (c_quot (sint (snd optval)) 1000) in
      if e_enable env \<and> level = SOL_SOCKET \<and> (optname = SO_RCVTIMEO \<or> optname = SO_SNDTIMEO)
      then (case FdManager_get (os.truncate os) (hk_kernel s) (hk_fds s) fd False 0 of None \<Rightarrow> None
            | Some (None, _, _) \<Rightarrow> through s
            | Some (Some p, _, _) \<Rightarrow>
                through (set_ctx s p (FdCtx_setTimeout (the (fm_heap (hk_fds s) p)) optname ms)))
      else through s)"

end
