(* ===== verification/HookProps.thy ===== *)
theory HookProps
  imports Hook IOManagerProps
begin

text \<open>
  What the hooked calls promise: the blocking mode a program sees is its own and not the
  descriptor's, a blocked call returns by its event or by its timeout, and what becomes of a call
  that is interrupted.
\<close>

section \<open>Blocking mode\<close>

text \<open>
  The documented behaviour of \<open>fcntl\<close> the hooks rely on: reading the flags changes nothing and a
  successful \<open>F_SETFL\<close> is visible in the blocking flag.
\<close>

definition fcntl_flags_law :: "'k hook_os \<Rightarrow> bool" where
  "fcntl_flags_law os \<longleftrightarrow>
     (\<forall>k fd a. snd (os_fcntl os k fd F_GETFL a) = k)
     \<and> (\<forall>k fd v. fst (os_fcntl os k fd F_SETFL v) = 0 \<longrightarrow>
          fst (os_fcntl os (snd (os_fcntl os k fd F_SETFL v)) fd F_GETFL 0) AND O_NONBLOCK = v AND O_NONBLOCK)"

lemma get_lookup:
  "0 \<le> fd \<Longrightarrow> FdManager_get os k m fd False p = Some (fm_lookup m fd, m, k)"
  by (rule FdManager_get_existing)

lemma flag_or_not: "(v OR b) AND b = b" "(v AND NOT b) AND b = (0 :: i32)"
  by (rule bit_word_eqI; auto simp: bit_simps)+

lemma and_exp: "v AND 2 ^ n = (if bit v n then 2 ^ n else (0 :: i32))"
  by (rule bit_word_eqI) (auto simp: bit_simps)

lemma nonblock_bit: "v AND O_NONBLOCK \<noteq> 0 \<Longrightarrow> v AND O_NONBLOCK = O_NONBLOCK"
proof -
  have "O_NONBLOCK = 2 ^ 11" by (simp add: O_NONBLOCK_def)
  then show "v AND O_NONBLOCK \<noteq> 0 \<Longrightarrow> v AND O_NONBLOCK = O_NONBLOCK"
    using and_exp [of v 11] by (metis (full_types))
qed

text \<open>
For a socket with a context, \<open>fcntl(F_SETFL)\<close> followed by \<open>fcntl(F_GETFL)\<close> shows the program exactly
the blocking flag it has set, while the descriptor itself stays non-blocking.
\<close>

theorem fcntl_virtual_nonblock:
  assumes law: "fcntl_flags_law os" and fd: "0 \<le> fd"
    and ctx: "fm_lookup (hk_fds s) fd = Some p" "fm_heap (hk_fds s) p = Some c"
    and sock: "fd_isSocket c" "fd_sysNonblock c" "\<not> fd_isClosed c"
    and set: "hook_fcntl os s fd F_SETFL v = Some (0, s1)"
  shows "\<exists>r. hook_fcntl os s1 fd F_GETFL 0 = Some (r, s1) \<and> r AND O_NONBLOCK = v AND O_NONBLOCK
    \<and> fst (os_fcntl os (hk_kernel s1) fd F_GETFL 0) AND O_NONBLOCK = O_NONBLOCK"
proof -
  let ?c = "FdCtx_setUserNonblock c (v AND O_NONBLOCK \<noteq> 0)"
  have pure: "snd (os_fcntl os k fd F_GETFL a) = k" for k fd a using law by (simp add: fcntl_flags_law_def)
  have ne: "F_GETFL \<noteq> F_SETFL" by (simp add: F_GETFL_def F_SETFL_def)
  have s1: "fst (os_fcntl os (hk_kernel s) fd F_SETFL (v OR O_NONBLOCK)) = 0"
    "s1 = (set_ctx s p ?c)\<lparr>hk_kernel := snd (os_fcntl os (hk_kernel s) fd F_SETFL (v OR O_NONBLOCK))\<rparr>"
    using set ctx sock fd
    by (auto simp: hook_fcntl_def get_lookup socket_ctx_def fcntl_through_def set_ctx_def split_beta Let_def)
  have k: "fst (os_fcntl os (hk_kernel s1) fd F_GETFL 0) AND O_NONBLOCK = O_NONBLOCK"
    using law s1 flag_or_not(1) [of v O_NONBLOCK] by (simp add: fcntl_flags_law_def)
  have look: "fm_lookup (hk_fds s1) fd = Some p" "fm_heap (hk_fds s1) p = Some ?c"
    using ctx s1(2) by (simp_all add: set_ctx_def fm_lookup_def split: if_splits)
  define r0 where "r0 = fst (os_fcntl os (hk_kernel s1) fd F_GETFL 0)"
  have get: "hook_fcntl os s1 fd F_GETFL 0 =
      Some (if fd_userNonblock ?c then r0 OR O_NONBLOCK else r0 AND NOT O_NONBLOCK, s1)"
    using pure look sock fd ne
    by (simp add: hook_fcntl_def fcntl_through_def split_beta Let_def get_lookup socket_ctx_def
        FdCtx_setUserNonblock_def r0_def)
  show ?thesis
    using get k flag_or_not [of r0 O_NONBLOCK] nonblock_bit [of v]
    by (cases "v AND O_NONBLOCK = 0") (simp_all add: FdCtx_setUserNonblock_def)
qed

definition demo_os :: "(int \<Rightarrow> i32) hook_os" where
  "demo_os = \<lparr>os_fstat = (\<lambda>k fd. Some True),
     os_fcntl = (\<lambda>k fd cmd arg. if cmd = F_GETFL then (k fd, k) else (0, k(fd := arg))),
     os_ioctl = (\<lambda>k fd req arg. (0, k)), os_setsockopt = (\<lambda>k fd l n v. (0, k)), os_close = (\<lambda>k fd. (0, k)),
     os_socket = (\<lambda>k d t pr. (5, k))\<rparr>"

definition demo_ctx :: FdCtx where
  "demo_ctx = \<lparr>fd_isInit = True, fd_isSocket = True, fd_sysNonblock = True, fd_userNonblock = False, fd_isClosed = False,
     fd_fd = 5, fd_recvTimeout = 50, fd_sendTimeout = - 1\<rparr>"

definition demo_hook :: "(nat, int \<Rightarrow> i32) hook_state" where
  "demo_hook = \<lparr>hk_fds = \<lparr>fm_datas = (replicate 64 None)[5 := Some 9], fm_heap = [9 \<mapsto> demo_ctx]\<rparr>,
     hk_io = IOManager_new
       (\<lambda>_. \<lparr>s_name = [], s_fibers = [], s_rootFiber = None, s_threadIds = [], s_threads = [], s_threadCount = 1,
            s_activeThreadCount = 0, s_idleThreadCount = 0, s_stopping = False, s_autoStop = False, s_rootThread = - 1\<rparr>) 7
       \<lparr>s_name = [], s_fibers = [], s_rootFiber = None, s_threadIds = [], s_threads = [], s_threadCount = 1,
        s_activeThreadCount = 0, s_idleThreadCount = 0, s_stopping = False, s_autoStop = False, s_rootThread = - 1\<rparr>
       (new_TimerManager 0) 3,
     hk_tinfo = [21 \<mapsto> 0], hk_kernel = (\<lambda>fd. 2 OR O_NONBLOCK)\<rparr>"

definition demo_env :: hook_env where
  "demo_env = \<lparr>e_enable = True, e_iom = True, e_this = 7, e_cur = 42, e_now = 1000, e_timer = 30, e_tinfo = 21, e_rt = 0\<rparr>"

lemma demo_os_law: "fcntl_flags_law demo_os"
  by (simp add: fcntl_flags_law_def demo_os_def F_GETFL_def F_SETFL_def)

lemma demo_lookup: "fm_lookup (hk_fds demo_hook) 5 = Some 9" "fm_heap (hk_fds demo_hook) 9 = Some demo_ctx"
  by (simp_all add: demo_hook_def fm_lookup_def)

lemma demo_setfl: "\<exists>s1. hook_fcntl demo_os demo_hook 5 F_SETFL 2 = Some (0, s1)"
  by (simp add: hook_fcntl_def get_lookup demo_lookup socket_ctx_def demo_ctx_def fcntl_through_def demo_os_def
      F_GETFL_def F_SETFL_def split_beta)

theorem fcntl_virtual_nonblock_witness:
  "\<exists>s1 r. hook_fcntl demo_os demo_hook 5 F_SETFL 2 = Some (0, s1) \<and> hook_fcntl demo_os s1 5 F_GETFL 0 = Some (r, s1)
     \<and> r AND O_NONBLOCK = 0"
proof -
  obtain s1 where s1: "hook_fcntl demo_os demo_hook 5 F_SETFL 2 = Some (0, s1)" using demo_setfl by blast
  have "fd_isSocket demo_ctx" "fd_sysNonblock demo_ctx" "\<not> fd_isClosed demo_ctx" "(0::int) \<le> 5"
    by (simp_all add: demo_ctx_def)
  from fcntl_virtual_nonblock [OF demo_os_law this(4) demo_lookup this(1-3) s1] s1 show ?thesis
    by (auto simp: O_NONBLOCK_def)
qed

section \<open>Interrupted calls\<close>

lemma interrupted_Some: "interrupted rs = Some (e, rest) \<Longrightarrow> e \<noteq> EINTR"
  by (induction rs rule: interrupted.induct) (auto split: if_splits)

text \<open>
A hooked call on a blocking socket returns a count exactly when the first original call does, and
returns an error other than \<open>EAGAIN\<close> as it is.  Once the call has been interrupted it returns no
count any more: the results of the repeated calls are dropped until one of them fails, and if every
repeated call succeeds the loop goes on.
\<close>

theorem do_io_interrupted:
  "(fst (do_io_retry s env t to fd event errno rs) = Done (Ret n) \<longleftrightarrow> (\<exists>rest. rs = Ret n # rest))
   \<and> (fst (do_io_retry s env t to fd event errno (Fail EINTR # map Ret ns)) = Looping)
   \<and> (e \<noteq> EINTR \<and> e \<noteq> EAGAIN \<longrightarrow>
       fst (do_io_retry s env t to fd event errno (Fail EINTR # map Ret ns @ Fail e # rest)) = Done (Fail e))"
proof -
  have wait: "fst (do_io_wait s env t to fd event errno) \<noteq> Done (Ret n)"
    by (auto simp: do_io_wait_def hook_return_def Let_def split: option.splits)
  have i: "interrupted (map Ret ns) = None" "e \<noteq> EINTR \<Longrightarrow> interrupted (map Ret ns @ Fail e # rest) = Some (e, rest)"
    by (induction ns) simp_all
  have 1: "fst (do_io_retry s env t to fd event errno rs) = Done (Ret n) \<longleftrightarrow> (\<exists>rest. rs = Ret n # rest)"
  proof (cases rs rule: io_call.cases)
    case (3 e rs')
    then show ?thesis using wait
      by (auto simp: do_io_retry_def hook_return_def split: option.splits)
  qed (simp_all add: do_io_retry_def hook_return_def)
  have 2: "fst (do_io_retry s env t to fd event errno (Fail EINTR # map Ret ns)) = Looping"
    by (simp add: do_io_retry_def i)
  have 3: "e \<noteq> EINTR \<and> e \<noteq> EAGAIN \<longrightarrow>
      fst (do_io_retry s env t to fd event errno (Fail EINTR # map Ret ns @ Fail e # rest)) = Done (Fail e)"
    using i by (simp add: do_io_retry_def hook_return_def)
  show ?thesis using 1 2 3 by blast
qed

theorem do_io_interrupted_witness:
  "fst (do_io_retry demo_hook demo_env 21 50 5 READ_event 0 (Fail EINTR # map Ret [100, 200] @ Fail EBADF # [])) = Done (Fail EBADF)"
  using do_io_interrupted [of demo_hook demo_env 21 50 5 READ_event 0 "[]" 0 "[100, 200]" EBADF "[]"]
  by (simp add: EBADF_def EINTR_def EAGAIN_def)

section \<open>Timeouts\<close>

lemma tickle_pipe: "\<exists>n. IOManager_tickle m = m\<lparr>io_pipe := n\<rparr>"
  by (cases m) (auto simp: IOManager_tickle_def)

lemma hook_addConditionTimer_spec:
  fixes cb :: "'u hook_cb" and ms :: u64 and t :: nat
  assumes inv: "TimerManager_inv (io_timers m)" and fresh: "tm_heap (io_timers m) (e_timer env) = None"
  defines "tm \<equiv> snd (snd (TimerManager_addConditionTimer (io_timers m) (e_now env) (e_timer env) ms cb t False))"
  shows "\<exists>n. hook_addConditionTimer m env ms cb t = m\<lparr>io_scheds := io_scheds m, io_timers := tm, io_pipe := n\<rparr>"
    and "TimerManager_inv tm" and "tm_heap tm (e_timer env) \<noteq> None"
proof -
  obtain n where "IOManager_tickle (m\<lparr>io_timers := tm\<rparr>) = m\<lparr>io_timers := tm, io_pipe := n\<rparr>"
    using tickle_pipe [of "m\<lparr>io_timers := tm\<rparr>"] by auto
  moreover have "m\<lparr>io_timers := tm, io_pipe := io_pipe m\<rparr> = m\<lparr>io_timers := tm\<rparr>" by (cases m) simp
  ultimately have "\<exists>n. hook_addConditionTimer m env ms cb t = m\<lparr>io_timers := tm, io_pipe := n\<rparr>"
    unfolding hook_addConditionTimer_def IOManager_onTimerInsertAtFront_def tm_def Let_def split_beta
    by (metis (full_types))
  then show "\<exists>n. hook_addConditionTimer m env ms cb t = m\<lparr>io_scheds := io_scheds m, io_timers := tm, io_pipe := n\<rparr>"
    by (cases m) simp
  have "tm_step (io_timers m) tm"
    unfolding tm_def TimerManager_addConditionTimer_def by (rule s_add [OF fresh])
  then show "TimerManager_inv tm" using step_inv inv by blast
  show "tm_heap tm (e_timer env) \<noteq> None"
    by (simp add: tm_def TimerManager_addConditionTimer_def TimerManager_addTimer_def TimerManager_insert_def split_beta Let_def)
qed

lemma refines_opD:
  assumes "refines_op tfd m op" and "spec_op (io_abs m) op = Some (r, sp)"
  obtains m' where "io_run m op = Some (r, m')" and "io_abs m' = sp" and "IOManager_inv tfd m'"
  using assms by (auto simp: refines_op_def)

lemma cancel_run: "io_run m (Cancel fd ev rt) = Some (1, m') \<longleftrightarrow> IOManager_cancelEvent m fd ev rt = Some (True, m')"
  by auto

lemma cancelEvent_timers:
  assumes "IOManager_cancelEvent m fd ev rt = Some (b, m')"
  shows "io_timers m' = io_timers m"
  using assms
  by (auto simp: IOManager_cancelEvent_def FdContext_triggerEvent_def Let_def split: if_splits option.splits)

lemma addEvent_timers:
  assumes "IOManager_addEvent m fd ev cb this cur st rt = Some (r, m')"
  shows "io_timers m' = io_timers m"
  using assms
  by (auto simp: IOManager_addEvent_def addEvent_context_def contextResize_def Let_def split: if_splits option.splits)

lemma blocked_call_times_out:
  assumes io: "io_reachable tfd (hk_io s)" and inv: "TimerManager_inv (io_timers (hk_io s))"
    and fd: "0 \<le> fd" "fd < 2 ^ 31" "nat fd \<noteq> tfd" and ev: "ev = READ_event \<or> ev = WRITE_event"
    and env: "e_iom env" "e_rt env = 0" "tm_heap (io_timers (hk_io s)) (e_timer env) = None"
    and t: "hk_tinfo s t = Some 0" "to \<noteq> - 1" and free: "\<not> sp_has (io_abs (hk_io s)) (nat fd) ev"
  shows "\<exists>s1 s2 s3. do_io_wait s env t to fd ev errno = (Blocked (Some (e_timer env)), s1)
    \<and> io_timeout_cb s1 t fd ev 0 = Some s2
    \<and> sp_queue (io_abs (hk_io s2)) (e_this env) =
        sp_queue (io_abs (hk_io s)) (e_this env) @ [FiberAndThread_of (ScheduleFiber (Some (e_cur env))) (- 1)]
    \<and> \<not> sp_has (io_abs (hk_io s2)) (nat fd) ev
    \<and> do_io_resume s2 env' t (Some (e_timer env)) to fd ev errno' rs = (Done (Fail ETIMEDOUT), s3)
    \<and> io_timeout_cb s3 t fd ev rt' = Some s3"
proof -
  let ?task = "FiberAndThread_of (ScheduleFiber (Some (e_cur env))) (- 1)"
  define m where "m = hook_addConditionTimer (hk_io s) env to (IoTimeout t fd ev) t"
  obtain n tm where m: "m = (hk_io s)\<lparr>io_scheds := io_scheds (hk_io s), io_timers := tm, io_pipe := n\<rparr>"
    and tm: "TimerManager_inv tm" "tm_heap tm (e_timer env) \<noteq> None"
    unfolding m_def using hook_addConditionTimer_spec [OF inv env(3)] by metis
  have reach: "io_reachable tfd m" unfolding m by (rule io_other [OF io])
  have abs: "io_abs m = io_abs (hk_io s)" by (rule io_abs_cong) (simp_all add: m)
  let ?sp = "(io_abs m)\<lparr>sp_waiting := (sp_waiting (io_abs m))
       (nat fd := (sp_waiting (io_abs m) (nat fd))(ev \<mapsto> (e_this env, ?task)))\<rparr>"
  have add: "refines_op tfd m (Add fd ev None (e_this env) (e_cur env) 0)"
    using io_run_refines [OF io_reachable_inv [OF reach]] fd ev by simp
  have "spec_op (io_abs m) (Add fd ev None (e_this env) (e_cur env) 0) = Some (0, ?sp)"
    using free by (simp add: abs Let_def)
  from refines_opD [OF add this] obtain m1 where
    m1: "IOManager_addEvent m fd ev None (Some (e_this env)) (e_cur env) Fiber_EXEC 0 = Some (0, m1)"
    "IOManager_inv tfd m1" "io_abs m1 = ?sp"
    by (metis io_run.simps(1))
  have w: "sp_waiting (io_abs m1) (nat fd) ev = Some (e_this env, ?task)" by (simp add: m1(3))
  have cancel: "refines_op tfd m1 (Cancel fd ev 0)" using io_run_refines [OF m1(2)] fd ev by simp
  have "spec_op (io_abs m1) (Cancel fd ev 0) = Some (1, sp_deliver (io_abs m1) (nat fd) ev)"
    using w by (simp add: sp_has_def)
  from refines_opD [OF cancel this] obtain m2 where
    m2: "IOManager_cancelEvent m1 fd ev 0 = Some (True, m2)" "io_abs m2 = sp_deliver (io_abs m1) (nat fd) ev"
    by (metis cancel_run)
  have timers: "io_timers m2 = tm" using cancelEvent_timers [OF m2(1)] addEvent_timers [OF m1(1)] by (simp add: m)
  obtain tt where "tm_heap tm (e_timer env) = Some tt" using tm(2) by blast
  from cancel_inv [OF tm(1) this] obtain tm' b where tm': "Timer_cancel (io_timers m2) (e_timer env) = Some (b, tm')"
    unfolding timers by blast
  define s1 where "s1 = s\<lparr>hk_io := m1\<rparr>"
  define s2 where "s2 = s1\<lparr>hk_tinfo := (hk_tinfo s1)(t \<mapsto> ETIMEDOUT), hk_io := m2\<rparr>"
  have "do_io_wait s env t to fd ev errno = (Blocked (Some (e_timer env)), s1)"
    using env t m1(1) by (simp add: do_io_wait_def m_def [symmetric] s1_def)
  moreover have "io_timeout_cb s1 t fd ev 0 = Some s2"
    using t m2(1) by (simp add: io_timeout_cb_def s1_def s2_def Let_def)
  moreover have "sp_queue (io_abs (hk_io s2)) (e_this env) = sp_queue (io_abs (hk_io s)) (e_this env) @ [?task]
      \<and> \<not> sp_has (io_abs (hk_io s2)) (nat fd) ev"
    using w by (simp add: s2_def m2(2) sp_deliver_def sp_remove_def sp_has_def) (simp add: m1(3) abs)
  moreover have "\<exists>s3. do_io_resume s2 env' t (Some (e_timer env)) to fd ev errno' rs = (Done (Fail ETIMEDOUT), s3)
      \<and> io_timeout_cb s3 t fd ev rt' = Some s3"
    using tm' by (simp add: do_io_resume_def hook_cancel_def hook_return_def s2_def ETIMEDOUT_def io_timeout_cb_def Let_def)
  ultimately show ?thesis by blast
qed


lemma demo_hook_io: "io_reachable 3 (hk_io demo_hook)" "\<not> sp_has (io_abs (hk_io demo_hook)) 5 READ_event"
  "io_timers (hk_io demo_hook) = new_TimerManager 0"
proof -
  show "io_reachable 3 (hk_io demo_hook)" by (simp add: demo_hook_def io_init)
  have "io_fdContexts (hk_io demo_hook) = map new_FdContext [0..<32]"
    by (simp add: demo_hook_def IOManager_new_def contextResize_def del: upt_rec_numeral)
  then show "\<not> sp_has (io_abs (hk_io demo_hook)) 5 READ_event"
    by (simp add: sp_has_def io_abs_def del: upt_rec_numeral)
  show "io_timers (hk_io demo_hook) = new_TimerManager 0"
    by (simp add: demo_hook_def IOManager_new_def contextResize_def)
qed


end
