(* ===== verification/Address.thy ===== *)
theory Address
  imports Endian Util
begin

text \<open>
  Socket addresses (\<open>src/megalo/address.h\<close>, \<open>src/megalo/address.cc\<close>).

  The classes derived from \<open>Address\<close> are the constructors of one type; each holds the socket
  address structure of its family with fields as the network order integers the code stores, on a
  little endian host.  \<open>getAddr\<close> is the memory of that structure.  The constants are those of
  Linux.  \<open>getaddrinfo\<close>, \<open>getifaddrs\<close> and \<open>inet_pton\<close> are parameters.  \<open>None\<close> is a null pointer
  where the code returns one; undefined behaviour (shifting by the width, indexing outside an
  array) is a failed \<open>addr_result\<close>.
\<close>

section \<open>Structures\<close>

definition AF_UNSPEC :: u16 where "AF_UNSPEC = 0"
definition AF_UNIX :: u16 where "AF_UNIX = 1"
definition AF_INET :: u16 where "AF_INET = 2"
definition AF_INET6 :: u16 where "AF_INET6 = 10"

record sockaddr_in =
  sin_family :: u16
  sin_port :: u16
  sin_addr :: u32
  sin_zero :: "u8 list"

record sockaddr_in6 =
  sin6_family :: u16
  sin6_port :: u16
  sin6_flowinfo :: u32
  sin6_addr :: "u8 list"
  sin6_scope_id :: u32

record sockaddr_un =
  sun_family :: u16
  sun_path :: "u8 list"

datatype sockaddr = SA_in sockaddr_in | SA_in6 sockaddr_in6 | SA_other u16 "u8 list"

datatype Address =
    IPv4Address sockaddr_in
  | IPv6Address sockaddr_in6
  | UnixAddress sockaddr_un nat
  | UnknownAddress u16 "u8 list"

datatype addr_error = UndefinedBehaviour | PathTooLong

type_synonym 'a addr_result = "addr_error + 'a"

section \<open>Masks and counting\<close>

text \<open>
  \<open>CreateMask\<close> shifts the \<open>int\<close> 1, which is undefined from 32 bits on; the subtraction wraps.  The
  result is converted to the type argument.
\<close>

definition CreateMask :: "u32 \<Rightarrow> ('a::len) word addr_result" where
  "CreateMask bits =
     (let n = word_of_nat LENGTH('a) - bits in
      if n < 32 then Inr (ucast ((push_bit (unat n) 1 :: 32 word) - 1)) else Inl UndefinedBehaviour)"

text \<open>\<open>CountBytes\<close> counts from the uninitialised \<open>result\<close>.\<close>

lemma word_and_pred_less: "v \<noteq> 0 \<Longrightarrow> unat (v AND (v - 1)) < unat (v :: 'a::len word)"
proof -
  assume v: "v \<noteq> 0"
  have "v AND (v - 1) \<le> v - 1" by (simp add: word_and_le1)
  also have "v - 1 < v" using v unat_gt_0 [of v] by (simp add: word_less_nat_alt unat_minus_one)
  finally show ?thesis by (simp add: word_less_nat_alt)
qed

function CountBytes :: "u32 \<Rightarrow> ('a::len) word \<Rightarrow> u32" where
  "CountBytes result value = (if value = 0 then result else CountBytes (result + 1) (value AND (value - 1)))"
  by pat_completeness auto
termination
  by (relation "measure (\<lambda>(_, v). unat v)") (simp_all add: word_and_pred_less)

declare CountBytes.simps [simp del]

section \<open>IPv4\<close>

definition new_IPv4Address :: "u32 \<Rightarrow> u16 \<Rightarrow> Address" where
  "new_IPv4Address address port =
     IPv4Address \<lparr>sin_family = AF_INET, sin_port = byteswapOnLittleEndian port,
                  sin_addr = byteswapOnLittleEndian address, sin_zero = replicate 8 0\<rparr>"

text \<open>\<open>inet_pton4 text\<close> is the address in network order, or \<open>None\<close> when the text is not an address.\<close>

definition IPv4Address_Create :: "(string \<Rightarrow> u32 option) \<Rightarrow> string \<Rightarrow> u16 \<Rightarrow> Address option" where
  "IPv4Address_Create inet_pton4 address port =
     (case inet_pton4 address of None \<Rightarrow> None
      | Some a \<Rightarrow> Some (IPv4Address \<lparr>sin_family = AF_INET, sin_port = byteswapOnLittleEndian port,
                                   sin_addr = a, sin_zero = replicate 8 0\<rparr>))"

definition IPv4_broadcastAddress :: "sockaddr_in \<Rightarrow> u32 \<Rightarrow> Address option addr_result" where
  "IPv4_broadcastAddress a prefix_len =
     (if prefix_len > 32 then Inr None
      else result_bind (CreateMask prefix_len) (\<lambda>mask.
        Inr (Some (IPv4Address (a\<lparr>sin_addr := sin_addr a OR byteswapOnLittleEndian mask\<rparr>)))))"

definition IPv4_networkAddress :: "sockaddr_in \<Rightarrow> u32 \<Rightarrow> Address option addr_result" where
  "IPv4_networkAddress a prefix_len =
     (if prefix_len > 32 then Inr None
      else result_bind (CreateMask prefix_len) (\<lambda>mask.
        Inr (Some (IPv4Address (a\<lparr>sin_addr := sin_addr a AND byteswapOnLittleEndian mask\<rparr>)))))"

definition IPv4_subnetMask :: "u32 \<Rightarrow> Address option addr_result" where
  "IPv4_subnetMask prefix_len =
     result_bind (CreateMask prefix_len) (\<lambda>mask.
       Inr (Some (IPv4Address \<lparr>sin_family = AF_INET, sin_port = 0,
                               sin_addr = NOT (byteswapOnLittleEndian mask), sin_zero = replicate 8 0\<rparr>)))"

section \<open>IPv6\<close>

definition new_IPv6Address :: Address where
  "new_IPv6Address =
     IPv6Address \<lparr>sin6_family = AF_INET6, sin6_port = 0, sin6_flowinfo = 0, sin6_addr = replicate 16 0, sin6_scope_id = 0\<rparr>"

definition new_IPv6Address_of :: "u8 list \<Rightarrow> u16 \<Rightarrow> Address" where
  "new_IPv6Address_of address port =
     IPv6Address \<lparr>sin6_family = AF_INET6, sin6_port = byteswapOnLittleEndian port, sin6_flowinfo = 0,
                  sin6_addr = take 16 address, sin6_scope_id = 0\<rparr>"

definition IPv6Address_Create :: "(string \<Rightarrow> u8 list option) \<Rightarrow> string \<Rightarrow> u16 \<Rightarrow> Address option" where
  "IPv6Address_Create inet_pton6 address port =
     (case inet_pton6 address of None \<Rightarrow> None
      | Some a \<Rightarrow> Some (IPv6Address \<lparr>sin6_family = AF_INET6, sin6_port = byteswapOnLittleEndian port, sin6_flowinfo = 0,
                                   sin6_addr = a, sin6_scope_id = 0\<rparr>))"

text \<open>The byte of the prefix's end is changed by \<open>f\<close>, the bytes behind it are set to \<open>fill\<close>.\<close>

definition in6_prefix_byte :: "u8 list \<Rightarrow> u32 \<Rightarrow> (u8 \<Rightarrow> u8 \<Rightarrow> u8) \<Rightarrow> u8 list addr_result" where
  "in6_prefix_byte bs prefix_len f =
     (let i = unat (prefix_len div 8) in
      if i < length bs
      then result_bind (CreateMask (prefix_len mod 8)) (\<lambda>mask. Inr (bs[i := f (bs ! i) mask]))
      else Inl UndefinedBehaviour)"

definition in6_fill_from :: "u8 list \<Rightarrow> nat \<Rightarrow> u8 \<Rightarrow> u8 list" where
  "in6_fill_from bs i fill = take i bs @ map (\<lambda>_. fill) (drop i bs)"

definition IPv6_broadcastAddress :: "sockaddr_in6 \<Rightarrow> u32 \<Rightarrow> Address addr_result" where
  "IPv6_broadcastAddress a prefix_len =
     result_bind (in6_prefix_byte (sin6_addr a) prefix_len (\<lambda>b mask. b OR mask)) (\<lambda>bs.
       Inr (IPv6Address (a\<lparr>sin6_addr := in6_fill_from bs (unat (prefix_len div 8) + 1) 0xff\<rparr>)))"

definition IPv6_networkAddress :: "sockaddr_in6 \<Rightarrow> u32 \<Rightarrow> Address addr_result" where
  "IPv6_networkAddress a prefix_len =
     result_bind (in6_prefix_byte (sin6_addr a) prefix_len (\<lambda>b mask. b AND mask)) (\<lambda>bs.
       Inr (IPv6Address (a\<lparr>sin6_addr := in6_fill_from bs (unat (prefix_len div 8) + 1) 0x00\<rparr>)))"

definition IPv6_subnetMask :: "u32 \<Rightarrow> Address addr_result" where
  "IPv6_subnetMask prefix_len =
     result_bind (in6_prefix_byte (replicate 16 0) prefix_len (\<lambda>_ mask. NOT mask)) (\<lambda>bs.
       Inr (IPv6Address \<lparr>sin6_family = AF_INET6, sin6_port = 0, sin6_flowinfo = 0, sin6_addr = bs, sin6_scope_id = 0\<rparr>))"

section \<open>Ports\<close>

fun IPAddress_getPort :: "Address \<Rightarrow> u32 option" where
  "IPAddress_getPort (IPv4Address a) = Some (ucast (byteswapOnLittleEndian (sin_port a)))"
| "IPAddress_getPort (IPv6Address a) = Some (ucast (byteswapOnLittleEndian (sin6_port a)))"
| "IPAddress_getPort _ = None"

fun IPAddress_setPort :: "Address \<Rightarrow> u16 \<Rightarrow> Address" where
  "IPAddress_setPort (IPv4Address a) v = IPv4Address (a\<lparr>sin_port := byteswapOnLittleEndian v\<rparr>)"
| "IPAddress_setPort (IPv6Address a) v = IPv6Address (a\<lparr>sin6_port := byteswapOnLittleEndian v\<rparr>)"
| "IPAddress_setPort a v = a"

section \<open>Unix domain addresses\<close>

text \<open>\<open>sun_path\<close> has 108 bytes behind the two bytes of the family.\<close>

definition sun_path_size :: nat where "sun_path_size = 108"
definition sun_path_offset :: nat where "sun_path_offset = 2"
definition MAX_PATH_LEN :: nat where "MAX_PATH_LEN = sun_path_size - 1"

definition new_UnixAddress :: Address where
  "new_UnixAddress =
     UnixAddress \<lparr>sun_family = AF_UNIX, sun_path = replicate sun_path_size 0\<rparr> (sun_path_offset + MAX_PATH_LEN)"

text \<open>\<open>path.c_str()\<close> is the path followed by a null byte.\<close>

definition new_UnixAddress_of :: "u8 list \<Rightarrow> Address addr_result" where
  "new_UnixAddress_of path =
     (let len = (if path \<noteq> [] \<and> hd path = 0 then length path else length path + 1) in
      if len > sun_path_size then Inl PathTooLong
      else Inr (UnixAddress
        \<lparr>sun_family = AF_UNIX, sun_path = overwrite (replicate sun_path_size 0) 0 (take len (path @ [0]))\<rparr>
        (len + sun_path_offset)))"

fun UnixAddress_setAddrLen :: "Address \<Rightarrow> u32 \<Rightarrow> Address" where
  "UnixAddress_setAddrLen (UnixAddress a _) v = UnixAddress a (unat v)"
| "UnixAddress_setAddrLen a v = a"

section \<open>Memory, order, equality\<close>

fun Address_getAddr :: "Address \<Rightarrow> u8 list" where
  "Address_getAddr (IPv4Address a) =
     word_bytes (sin_family a) @ word_bytes (sin_port a) @ word_bytes (sin_addr a) @ sin_zero a"
| "Address_getAddr (IPv6Address a) =
     word_bytes (sin6_family a) @ word_bytes (sin6_port a) @ word_bytes (sin6_flowinfo a) @ sin6_addr a
       @ word_bytes (sin6_scope_id a)"
| "Address_getAddr (UnixAddress a _) = word_bytes (sun_family a) @ sun_path a"
| "Address_getAddr (UnknownAddress fam bs) = word_bytes fam @ bs"

fun Address_getAddrLen :: "Address \<Rightarrow> nat" where
  "Address_getAddrLen (IPv4Address a) = 16"
| "Address_getAddrLen (IPv6Address a) = 28"
| "Address_getAddrLen (UnixAddress a len) = len"
| "Address_getAddrLen (UnknownAddress fam bs) = 16"

fun Address_getFamily :: "Address \<Rightarrow> u16" where
  "Address_getFamily (IPv4Address a) = sin_family a"
| "Address_getFamily (IPv6Address a) = sin6_family a"
| "Address_getFamily (UnixAddress a _) = sun_family a"
| "Address_getFamily (UnknownAddress fam bs) = fam"

text \<open>\<open>memcmp\<close> compares bytes as unsigned numbers; only the sign of its result counts.\<close>

fun memcmp :: "u8 list \<Rightarrow> u8 list \<Rightarrow> int" where
  "memcmp (a # as) (b # bs) = (if a < b then - 1 else if b < a then 1 else memcmp as bs)"
| "memcmp _ _ = 0"

definition Address_less :: "Address \<Rightarrow> Address \<Rightarrow> bool" where
  "Address_less a b =
     (let minlen = min (Address_getAddrLen a) (Address_getAddrLen b);
          result = memcmp (take minlen (Address_getAddr a)) (take minlen (Address_getAddr b)) in
      if result < 0 then True else if result > 0 then False
      else if Address_getAddrLen a < Address_getAddrLen b then True else False)"

definition Address_eq :: "Address \<Rightarrow> Address \<Rightarrow> bool" where
  "Address_eq a b \<longleftrightarrow>
     Address_getAddrLen a = Address_getAddrLen b
     \<and> memcmp (take (Address_getAddrLen a) (Address_getAddr a)) (take (Address_getAddrLen a) (Address_getAddr b)) = 0"

section \<open>Creation from a structure, lookup\<close>

definition Address_Create :: "sockaddr option \<Rightarrow> Address option" where
  "Address_Create addr =
     (case addr of None \<Rightarrow> None
      | Some (SA_in a) \<Rightarrow> Some (IPv4Address a)
      | Some (SA_in6 a) \<Rightarrow> Some (IPv6Address a)
      | Some (SA_other fam bs) \<Rightarrow> Some (UnknownAddress fam bs))"

definition is_IPAddress :: "Address \<Rightarrow> bool" where
  "is_IPAddress a = (case a of IPv4Address _ \<Rightarrow> True | IPv6Address _ \<Rightarrow> True | _ \<Rightarrow> False)"

text \<open>\<open>memchr\<close> in a string: the index of the first occurrence from index \<open>from\<close> on.\<close>

definition str_memchr :: "string \<Rightarrow> nat \<Rightarrow> char \<Rightarrow> nat option" where
  "str_memchr str from c =
     (let n = length (takeWhile (\<lambda>x. x \<noteq> c) (drop from str)) in
      if from + n < length str then Some (from + n) else None)"

text \<open>
  The two steps that cut a host into node and service; \<open>service\<close> is a pointer into the host, here
  the suffix it points to.
\<close>

definition lookup_bracket :: "string \<Rightarrow> string \<times> string option" where
  "lookup_bracket host =
     (if host \<noteq> [] \<and> hd host = CHR ''[''
      then (case str_memchr host 1 (CHR '']'') of None \<Rightarrow> ([], None)
            | Some e \<Rightarrow>
              (take (e - 1) (drop 1 host),
               if e + 1 < length host \<and> host ! (e + 1) = CHR '':'' then Some (drop (e + 2) host) else None))
      else ([], None))"

definition lookup_split :: "string \<Rightarrow> string \<times> string option" where
  "lookup_split host =
     (let (node, service) = lookup_bracket host;
          (node, service) =
            (if node = []
             then (case str_memchr host 0 (CHR '':'') of None \<Rightarrow> (node, None)
                   | Some i \<Rightarrow>
                     if str_memchr host (i + 1) (CHR '':'') = None then (take i host, Some (drop (i + 1) host))
                     else (node, Some (drop i host)))
             else (node, service)) in
      (if node = [] then host else node, service))"

text \<open>\<open>getaddrinfo node service family type protocol\<close> is the list of results, \<open>None\<close> for an error.\<close>

type_synonym getaddrinfo = "string \<Rightarrow> string option \<Rightarrow> u16 \<Rightarrow> int \<Rightarrow> int \<Rightarrow> sockaddr option list option"

definition Address_Lookup ::
    "getaddrinfo \<Rightarrow> Address option list \<Rightarrow> string \<Rightarrow> u16 \<Rightarrow> int \<Rightarrow> int \<Rightarrow> bool \<times> Address option list" where
  "Address_Lookup getaddrinfo result host family type protocol =
     (let (node, service) = lookup_split host in
      case getaddrinfo node service family type protocol of None \<Rightarrow> (False, result)
      | Some results \<Rightarrow> let result' = result @ map Address_Create results in (result' \<noteq> [], result'))"

definition Address_LookupAny :: "getaddrinfo \<Rightarrow> string \<Rightarrow> u16 \<Rightarrow> int \<Rightarrow> int \<Rightarrow> Address option" where
  "Address_LookupAny getaddrinfo host family type protocol =
     (let (ok, result) = Address_Lookup getaddrinfo [] host family type protocol in if ok then hd result else None)"

definition Address_LookupAnyIpAddress :: "getaddrinfo \<Rightarrow> string \<Rightarrow> u16 \<Rightarrow> int \<Rightarrow> int \<Rightarrow> Address option" where
  "Address_LookupAnyIpAddress getaddrinfo host family type protocol =
     (let (ok, result) = Address_Lookup getaddrinfo [] host family type protocol in
      if ok then (case List.find (\<lambda>a. case a of None \<Rightarrow> False | Some x \<Rightarrow> is_IPAddress x) result of None \<Rightarrow> None | Some a \<Rightarrow> a) else None)"

text \<open>\<open>IPAddress::Create\<close>: the numeric lookup with no service and any family; the first result counts.\<close>

definition IPAddress_Create :: "(string \<Rightarrow> sockaddr option list option) \<Rightarrow> string \<Rightarrow> u16 \<Rightarrow> Address option" where
  "IPAddress_Create getaddrinfo_numeric address port =
     (case getaddrinfo_numeric address of None \<Rightarrow> None
      | Some results \<Rightarrow>
        (case Address_Create (hd results) of None \<Rightarrow> None
         | Some a \<Rightarrow> if is_IPAddress a then Some (IPAddress_setPort a port) else None))"

section \<open>Interfaces\<close>

text \<open>An entry of \<open>getifaddrs\<close>: name, address and netmask.\<close>

record ifaddr =
  ifa_name :: string
  ifa_addr :: sockaddr
  ifa_netmask :: sockaddr

fun sa_family :: "sockaddr \<Rightarrow> u16" where
  "sa_family (SA_in a) = sin_family a"
| "sa_family (SA_in6 a) = sin6_family a"
| "sa_family (SA_other fam _) = fam"

text \<open>
  The prefix length of an entry; \<open>junk\<close> is what the uninitialised counters hold, one per call of
  \<open>CountBytes\<close>.  Entries of other families have no address here.
\<close>

definition ifaddr_entry :: "(nat \<Rightarrow> u32) \<Rightarrow> ifaddr \<Rightarrow> (Address \<times> u32) option" where
  "ifaddr_entry junk i =
     (case (ifa_addr i, ifa_netmask i) of
        (SA_in a, SA_in n) \<Rightarrow> Some (IPv4Address a, CountBytes (junk 0) (sin_addr n))
      | (SA_in6 a, SA_in6 n) \<Rightarrow>
          Some (IPv6Address a, sum_list (map (\<lambda>k. CountBytes (junk k) (sin6_addr n ! k)) [0..<16]))
      | _ \<Rightarrow> None)"

text \<open>The multimap by name: equal keys keep the order of insertion.\<close>

fun str_less :: "string \<Rightarrow> string \<Rightarrow> bool" where
  "str_less [] [] = False"
| "str_less [] (b # bs) = True"
| "str_less (a # as) [] = False"
| "str_less (a # as) (b # bs) =
     ((of_char a :: nat) < of_char b \<or> (of_char a :: nat) = of_char b \<and> str_less as bs)"

definition multimap_insert :: "(string \<times> 'v) list \<Rightarrow> string \<Rightarrow> 'v \<Rightarrow> (string \<times> 'v) list" where
  "multimap_insert mm k v =
     takeWhile (\<lambda>e. \<not> str_less k (fst e)) mm @ (k, v) # dropWhile (\<lambda>e. \<not> str_less k (fst e)) mm"

primrec interfaces_loop ::
    "(nat \<Rightarrow> nat \<Rightarrow> u32) \<Rightarrow> u16 \<Rightarrow> ifaddr list \<Rightarrow> (string \<times> Address \<times> u32) list \<Rightarrow> (string \<times> Address \<times> u32) list" where
  "interfaces_loop junk family [] result = result"
| "interfaces_loop junk family (i # is) result =
     interfaces_loop (\<lambda>n. junk (Suc n)) family is
       (if family \<noteq> AF_UNSPEC \<and> family \<noteq> sa_family (ifa_addr i) then result
        else case ifaddr_entry (junk 0) i of None \<Rightarrow> result
          | Some e \<Rightarrow> multimap_insert result (ifa_name i) e)"

text \<open>\<open>interfaces\<close> is the result of \<open>getifaddrs\<close>, \<open>None\<close> when it fails.\<close>

definition GetInterfaceAddresses ::
    "(nat \<Rightarrow> nat \<Rightarrow> u32) \<Rightarrow> ifaddr list option \<Rightarrow> (string \<times> Address \<times> u32) list \<Rightarrow> u16
      \<Rightarrow> bool \<times> (string \<times> Address \<times> u32) list" where
  "GetInterfaceAddresses junk interfaces result family =
     (case interfaces of None \<Rightarrow> (False, result)
      | Some is \<Rightarrow> let result' = interfaces_loop junk family is result in (result' \<noteq> [], result'))"

definition GetInterfaceAddresses_of ::
    "(nat \<Rightarrow> nat \<Rightarrow> u32) \<Rightarrow> ifaddr list option \<Rightarrow> (Address \<times> u32) list \<Rightarrow> string \<Rightarrow> u16
      \<Rightarrow> bool \<times> (Address \<times> u32) list" where
  "GetInterfaceAddresses_of junk interfaces result iface family =
     (if iface = [] \<or> iface = ''*''
      then (True, result
        @ (if family = AF_INET \<or> family = AF_UNSPEC then [(new_IPv4Address 0 0, 0)] else [])
        @ (if family = AF_INET6 \<or> family = AF_UNSPEC then [(new_IPv6Address, 0)] else []))
      else let (ok, results) = GetInterfaceAddresses junk interfaces [] family in
        if \<not> ok then (False, result)
        else let result' = result @ map snd (filter (\<lambda>e. fst e = iface) results) in (result' \<noteq> [], result'))"

section \<open>Text\<close>

definition IPv4_insert :: "sockaddr_in \<Rightarrow> string" where
  "IPv4_insert a =
     (let addr = byteswapOnLittleEndian (sin_addr a);
          byte = (\<lambda>k. nat_text 10 (unat (drop_bit k addr AND 0xff))) in
      byte 24 @ ''.'' @ byte 16 @ ''.'' @ byte 8 @ ''.'' @ byte 0
      @ '':'' @ nat_text 10 (unat (byteswapOnLittleEndian (sin_port a))))"

text \<open>The loop over the eight groups: \<open>addr\<close> are the groups as stored, \<open>i\<close> the next one.\<close>

definition in6_groups :: "u8 list \<Rightarrow> u16 list" where
  "in6_groups bs = map (\<lambda>i. bytes_word [bs ! (2 * i), bs ! (2 * i + 1)]) [0..<8]"

fun IPv6_insert_loop :: "u16 list \<Rightarrow> nat list \<Rightarrow> bool \<Rightarrow> string \<times> bool" where
  "IPv6_insert_loop addr [] used_zeros = ([], used_zeros)"
| "IPv6_insert_loop addr (i # is) used_zeros =
     (if addr ! i = 0 \<and> \<not> used_zeros then IPv6_insert_loop addr is used_zeros
      else let colon = (i \<noteq> 0 \<and> addr ! (i - 1) = 0 \<and> \<not> used_zeros);
               (text, used) = IPv6_insert_loop addr is (used_zeros \<or> colon) in
        ((if colon then '':'' else []) @ (if i \<noteq> 0 then '':'' else [])
         @ nat_text 16 (unat (byteswapOnLittleEndian (addr ! i))) @ text, used))"

definition IPv6_insert :: "sockaddr_in6 \<Rightarrow> string" where
  "IPv6_insert a =
     (let addr = in6_groups (sin6_addr a); (text, used_zeros) = IPv6_insert_loop addr [0..<8] False in
      ''['' @ text @ (if \<not> used_zeros \<and> addr ! 7 = 0 then ''::'' else [])
      @ '']:'' @ nat_text 10 (unat (byteswapOnLittleEndian (sin6_port a))))"

text \<open>A C string ends at its first null byte.\<close>

definition byte_text :: "u8 list \<Rightarrow> string" where
  "byte_text bs = map (\<lambda>b. char_of (unat b)) bs"

definition UnixAddress_insert :: "sockaddr_un \<Rightarrow> nat \<Rightarrow> string" where
  "UnixAddress_insert a len =
     (if len > sun_path_offset \<and> hd (sun_path a) = 0
      then CHR 0x5C # CHR ''0'' # byte_text (take (len - sun_path_offset - 1) (drop 1 (sun_path a)))
      else byte_text (takeWhile (\<lambda>b. b \<noteq> 0) (sun_path a)))"

definition UnixAddress_getPath :: "sockaddr_un \<Rightarrow> nat \<Rightarrow> string" where
  "UnixAddress_getPath a len =
     (if len > sun_path_offset \<and> hd (sun_path a) = 0
      then CHR 0x5C # CHR ''0'' # byte_text (take (len - sun_path_offset - 1) (drop 1 (sun_path a)))
      else byte_text (takeWhile (\<lambda>b. b \<noteq> 0) (sun_path a)))"

fun Address_toString :: "Address \<Rightarrow> string" where
  "Address_toString (IPv4Address a) = IPv4_insert a"
| "Address_toString (IPv6Address a) = IPv6_insert a"
| "Address_toString (UnixAddress a len) = UnixAddress_insert a len"
| "Address_toString (UnknownAddress fam bs) = ''[UnknownAddress family='' @ nat_text 10 (unat fam) @ '']''"

end
