(* ===== verification/AddressProps.thy ===== *)
theory AddressProps
  imports Address
begin

text \<open>
  Network arithmetic on addresses, the order of addresses, prefix lengths from netmasks, and the
  splitting of a host into node and service.
\<close>

section \<open>Masks\<close>

lemma byteswap_not: "8 dvd LENGTH('a) \<Longrightarrow> byteswap (NOT w) = NOT (byteswap (w :: 'a::len word))"
proof (rule bit_word_eqI)
  fix n assume d: "8 dvd LENGTH('a)" and n: "n < LENGTH('a)"
  have "n div 8 < LENGTH('a) div 8" using d n by (auto elim!: dvdE)
  then have "8 * (LENGTH('a) div 8 - Suc (n div 8)) + n mod 8 < LENGTH('a)" using d by (auto elim!: dvdE)
  then show "bit (byteswap (NOT w)) n = bit (NOT (byteswap w)) n"
    using d n by (simp add: bit_byteswap bit_not_iff)
qed

lemma CreateMask_u32:
  assumes "1 \<le> unat n" and "unat n \<le> 32"
  shows "CreateMask n = Inr (mask (32 - unat n) :: u32)"
proof -
  have "n \<le> 32" using assms(2) by (simp add: word_le_nat_alt)
  then have u: "unat (32 - n) = 32 - unat n" by (simp add: unat_sub)
  then have "32 - n < 32" using assms by (simp add: word_less_nat_alt)
  then show ?thesis using u by (simp add: CreateMask_def Let_def mask_eq_exp_minus_1 push_bit_eq_mult)
qed

lemma CreateMask_zero: "CreateMask 0 = (Inl UndefinedBehaviour :: u32 addr_result)"
  by (simp add: CreateMask_def Let_def)

lemma host_part_zero_iff: "h AND m = h AND NOT m \<longleftrightarrow> h = (0 :: u32)"
proof
  assume eq: "h AND m = h AND NOT m"
  have "h = (h AND m) OR (h AND NOT m)" by (rule bit_word_eqI) (auto simp: bit_simps)
  also have "\<dots> = (h AND m) AND (h AND NOT m)" using eq by simp
  also have "\<dots> = 0" by (rule bit_word_eqI) (auto simp: bit_simps)
  finally show "h = 0" .
qed simp

text \<open>
For a prefix length from 1 to 32 and an address with host order value \<open>h\<close>, \<open>broadcastAddress\<close> sets
exactly the host bits and \<open>subnetMask\<close> is the mask of the prefix; a prefix length of 0 shifts by the
width of the type, one above 32 gives a null pointer.  \<open>networkAddress\<close> keeps the host bits
instead of the network bits: it returns the network of the address only for \<open>0.0.0.0\<close>.
\<close>

theorem ipv4_network_arithmetic:
  assumes a: "sin_addr a = byteswap h" and n: "1 \<le> unat n" "unat n \<le> 32"
  defines "m \<equiv> mask (32 - unat n) :: u32"
  shows "IPv4_broadcastAddress a n = Inr (Some (IPv4Address (a\<lparr>sin_addr := byteswap (h OR m)\<rparr>)))
    \<and> IPv4_subnetMask n = Inr (Some (new_IPv4Address (NOT m) 0))
    \<and> IPv4_networkAddress a n = Inr (Some (IPv4Address (a\<lparr>sin_addr := byteswap (h AND m)\<rparr>)))
    \<and> (IPv4_networkAddress a n = Inr (Some (IPv4Address (a\<lparr>sin_addr := byteswap (h AND NOT m)\<rparr>))) \<longleftrightarrow> h = 0)
    \<and> IPv4_broadcastAddress a 0 = Inl UndefinedBehaviour \<and> IPv4_networkAddress a 33 = Inr None"
proof -
  have le: "\<not> n > 32" using n by (simp add: word_less_nat_alt)
  note M = CreateMask_u32 [OF n, folded m_def]
  have net: "IPv4_networkAddress a n = Inr (Some (IPv4Address (a\<lparr>sin_addr := byteswap (h AND m)\<rparr>)))"
    using le by (simp add: IPv4_networkAddress_def M a byteswapOnLittleEndian_def byteswap_and)
  have upd: "a\<lparr>sin_addr := x\<rparr> = a\<lparr>sin_addr := y\<rparr> \<longleftrightarrow> x = y" for x y by (cases a) simp
  have "byteswap (0 :: u16) = 0"
    by (rule bit_word_eqI) (simp add: bit_byteswap)
  then have "IPv4_subnetMask n = Inr (Some (new_IPv4Address (NOT m) 0))"
    by (simp add: IPv4_subnetMask_def M byteswapOnLittleEndian_def byteswap_not new_IPv4Address_def)
  then show ?thesis
    using le net host_part_zero_iff [of h m]
    by (simp add: upd byteswap_inject IPv4_broadcastAddress_def M a byteswapOnLittleEndian_def byteswap_or CreateMask_zero)
      (simp add: IPv4_networkAddress_def)
qed

theorem ipv4_network_arithmetic_witness:
  "IPv4_broadcastAddress \<lparr>sin_family = AF_INET, sin_port = 0, sin_addr = byteswap 0xC0A80105, sin_zero = []\<rparr> 24 =
     Inr (Some (IPv4Address \<lparr>sin_family = AF_INET, sin_port = 0, sin_addr = byteswap 0xC0A801FF, sin_zero = []\<rparr>))"
  using ipv4_network_arithmetic
    [of "\<lparr>sin_family = AF_INET, sin_port = 0, sin_addr = byteswap 0xC0A80105, sin_zero = []\<rparr>" "0xC0A80105" 24]
  by (simp add: mask_eq_exp_minus_1)

section \<open>Counting bits\<close>

definition pop :: "nat \<Rightarrow> nat" where
  "pop n = card {i. bit n i}"

lemma pop_0 [simp]: "pop 0 = 0"
  by (simp add: pop_def)

lemma bit_double_nat: "bit (2 * n :: nat) i \<longleftrightarrow> i \<noteq> 0 \<and> bit n (i - 1)"
  by (cases i) (simp_all add: bit_Suc bit_0)

lemma bit_Suc_double_nat: "bit (Suc (2 * n)) i \<longleftrightarrow> i = 0 \<or> bit n (i - 1)"
  by (cases i) (simp_all add: bit_Suc bit_0)

lemma bits_double: "{i. bit (2 * n :: nat) i} = Suc ` {i. bit n i}"
  by (auto simp: bit_double_nat image_iff) (metis Suc_pred)

lemma bits_Suc_double: "{i. bit (Suc (2 * n)) i} = insert 0 (Suc ` {i. bit n i})"
  by (auto simp: bit_Suc_double_nat image_iff) (metis Suc_pred neq0_conv)

lemma finite_bits: "finite {i. bit (n :: nat) i}"
  by (induction n rule: nat_bit_induct) (simp_all add: bits_double bits_Suc_double)

lemma pop_double: "pop (2 * n) = pop n" "pop (Suc (2 * n)) = Suc (pop n)"
  using finite_bits [of n] by (simp_all add: pop_def bits_double bits_Suc_double card_image)

lemma and_pred_double:
  assumes "0 < n"
  shows "(2 * n) AND (2 * n - 1) = 2 * (n AND (n - 1 :: nat))"
proof (rule bit_eqI)
  fix i
  have "2 * n - 1 = Suc (2 * (n - 1))" using assms by simp
  then show "bit ((2 * n) AND (2 * n - 1)) i = bit (2 * (n AND (n - 1))) i"
    by (auto simp: bit_and_iff bit_double_nat bit_Suc_double_nat)
qed

lemma and_pred_Suc_double: "Suc (2 * n) AND (2 * n) = 2 * n"
proof (rule bit_eqI)
  fix i show "bit (Suc (2 * n) AND (2 * n)) i = bit (2 * n) i"
    by (auto simp: bit_and_iff bit_double_nat bit_Suc_double_nat)
qed

lemma pop_and_pred: "0 < n \<Longrightarrow> Suc (pop (n AND (n - 1))) = pop n"
proof (induction n rule: nat_bit_induct)
  case (even n)
  then show ?case using and_pred_double [of n] by (simp add: pop_double)
next
  case (odd n)
  then show ?case by (simp add: and_pred_Suc_double pop_double)
qed simp

text \<open>
The loop of \<open>CountBytes\<close> ends for every value and adds the number of its one bits to what the
uninitialised variable held, so the prefix length of an interface is right exactly when that
was 0.
\<close>

theorem count_bytes_exact:
  "CountBytes junk v = junk + of_nat (card {i. bit v i}) \<and> (CountBytes junk v = of_nat (card {i. bit v i}) \<longleftrightarrow> junk = 0)"
proof -
  have unat_pop: "card {i. bit (w :: 'a word) i} = pop (unat w)" for w
    by (simp add: pop_def bit_unsigned_iff)
  have "CountBytes junk v = junk + of_nat (pop (unat v))"
  proof (induction junk v rule: CountBytes.induct)
    case (1 junk v)
    show ?case
    proof (cases "v = 0")
      case False
      then have "pop (unat v) = Suc (pop (unat (v AND (v - 1))))"
        using pop_and_pred [of "unat v"] by (simp add: unsigned_and_eq unat_minus_one unat_gt_0)
      then show ?thesis using 1 False by (simp add: CountBytes.simps [of junk v])
    qed (simp add: CountBytes.simps)
  qed
  then show ?thesis by (simp add: unat_pop)
qed

section \<open>The order of addresses\<close>

text \<open>
  The memory that counts.  On addresses whose length lies within their structure the comparison is
  the lexicographic order of it, so the order is total and agrees with equality.
\<close>

definition addr_key :: "Address \<Rightarrow> u8 list" where
  "addr_key a = take (Address_getAddrLen a) (Address_getAddr a)"

definition addr_ok :: "Address \<Rightarrow> bool" where
  "addr_ok a \<longleftrightarrow> Address_getAddrLen a \<le> length (Address_getAddr a)"

lemma memcmp_lexord:
  "(memcmp (take (min (length xs) (length ys)) xs) (take (min (length xs) (length ys)) ys) < 0
    \<or> memcmp (take (min (length xs) (length ys)) xs) (take (min (length xs) (length ys)) ys) = 0 \<and> length xs < length ys)
   \<longleftrightarrow> (xs, ys) \<in> lexord {(a, b). a < b}"
  by (induction xs ys rule: memcmp.induct) (auto simp: not_less_iff_gr_or_eq neq_Nil_conv)

lemma memcmp_eq: "length xs = length ys \<Longrightarrow> memcmp xs ys = 0 \<longleftrightarrow> xs = ys"
  by (induction xs ys rule: memcmp.induct) auto

lemma Address_less_iff:
  assumes "addr_ok a" and "addr_ok b"
  shows "Address_less a b \<longleftrightarrow> (addr_key a, addr_key b) \<in> lexord {(x, y). x < y}"
proof -
  have l: "length (addr_key a) = Address_getAddrLen a" "length (addr_key b) = Address_getAddrLen b"
    using assms by (simp_all add: addr_key_def addr_ok_def)
  have t: "take (min (Address_getAddrLen a) (Address_getAddrLen b)) (addr_key a) =
      take (min (Address_getAddrLen a) (Address_getAddrLen b)) (Address_getAddr a)"
    "take (min (Address_getAddrLen a) (Address_getAddrLen b)) (addr_key b) =
      take (min (Address_getAddrLen a) (Address_getAddrLen b)) (Address_getAddr b)"
    by (simp_all add: addr_key_def min_def)
  show ?thesis
    using memcmp_lexord [of "addr_key a" "addr_key b"] unfolding l t by (auto simp: Address_less_def Let_def)
qed

lemma Address_eq_iff: "addr_ok a \<Longrightarrow> addr_ok b \<Longrightarrow> Address_eq a b \<longleftrightarrow> addr_key a = addr_key b"
proof -
  assume ok: "addr_ok a" "addr_ok b"
  have l: "length (addr_key a) = Address_getAddrLen a" "length (addr_key b) = Address_getAddrLen b"
    using ok by (simp_all add: addr_key_def addr_ok_def)
  show ?thesis
  proof (cases "Address_getAddrLen a = Address_getAddrLen b")
    case True
    then show ?thesis using memcmp_eq [of "addr_key a" "addr_key b"] l by (simp add: Address_eq_def addr_key_def)
  qed (use l in \<open>auto simp: Address_eq_def\<close>)
qed

section \<open>Hosts\<close>

lemma memchr_none: "c \<notin> set (drop from str) \<Longrightarrow> str_memchr str from c = None"
proof -
  assume "c \<notin> set (drop from str)"
  then have "takeWhile (\<lambda>x. x \<noteq> c) (drop from str) = drop from str" by (auto simp: takeWhile_eq_all_conv)
  then show ?thesis by (simp only: str_memchr_def Let_def length_drop) simp
qed

lemma memchr_first:
  assumes "c \<notin> set mid"
  shows "str_memchr (pre @ mid @ c # post) (length pre) c = Some (length pre + length mid)"
proof -
  have "takeWhile (\<lambda>x. x \<noteq> c) (mid @ c # post) = mid" using assms by (subst takeWhile_append2) auto
  then show ?thesis by (simp add: str_memchr_def Let_def)
qed

text \<open>
How \<open>Lookup\<close> cuts a host into node and service: a name alone, a name and a service, a bracketed IPv6
address with or without a service.  For a text with two colons or more outside brackets (a bare IPv6
address) the node is the whole text, but \<open>service\<close> keeps pointing at the first colon, so the
resolver is asked for a service that starts with a colon.
\<close>

theorem lookup_split_exact:
  assumes n: "CHR '':'' \<notin> set n" "n \<noteq> []" "hd n \<noteq> CHR ''[''" and s: "CHR '':'' \<notin> set s"
    and v: "CHR '']'' \<notin> set v" "v \<noteq> []"
  shows "lookup_split n = (n, None) \<and> lookup_split (n @ '':'' @ s) = (n, Some s)
    \<and> lookup_split (''['' @ v @ '']:'' @ r) = (v, Some r) \<and> lookup_split (''['' @ v @ '']'') = (v, None)
    \<and> lookup_split (n @ '':'' @ s @ '':'' @ r) = (n @ '':'' @ s @ '':'' @ r, Some ('':'' @ s @ '':'' @ r))"
proof -
  have plain: "lookup_bracket (n @ x) = ([], None)" for x using n by (simp add: lookup_bracket_def)
  have c: "str_memchr (n @ CHR '':'' # x) 0 (CHR '':'') = Some (length n)" for x
    using memchr_first [OF n(1), of "[]" x] by simp
  have "str_memchr (n @ CHR '':'' # s) (length n + 1) (CHR '':'') = None"
    using s by (intro memchr_none) simp
  then have 2: "lookup_split (n @ '':'' @ s) = (n, Some s)"
    using plain [of "CHR '':'' # s"] c [of s] n(2) by (simp add: lookup_split_def)
  have "str_memchr ((n @ '':'') @ s @ CHR '':'' # r) (length (n @ '':'')) (CHR '':'') = Some (length (n @ '':'') + length s)"
    by (rule memchr_first [OF s])
  then have 5: "lookup_split (n @ '':'' @ s @ '':'' @ r) = (n @ '':'' @ s @ '':'' @ r, Some ('':'' @ s @ '':'' @ r))"
    using plain [of "CHR '':'' # s @ CHR '':'' # r"] c [of "s @ CHR '':'' # r"] by (simp add: lookup_split_def)
  have b: "str_memchr (CHR ''['' # v @ CHR '']'' # x) 1 (CHR '']'') = Some (1 + length v)" for x
    using memchr_first [OF v(1), of "''[''" x] by simp
  have 3: "lookup_split (''['' @ v @ '']:'' @ r) = (v, Some r)"
    using b [of "CHR '':'' # r"] v(2) by (simp add: lookup_split_def lookup_bracket_def nth_append)
  have 4: "lookup_split (''['' @ v @ '']'') = (v, None)"
    using b [of "[]"] v(2) by (simp add: lookup_split_def lookup_bracket_def)
  have 1: "lookup_split n = (n, None)"
    using plain [of "[]"] memchr_none [of "CHR '':''" 0 n] n by (simp add: lookup_split_def)
  show ?thesis using 1 2 3 4 5 by blast
qed

theorem lookup_split_exact_witness:
  "lookup_split (''www'' @ '':'' @ ''80'') = (''www'', Some ''80'')
   \<and> lookup_split (''fe80'' @ '':'' @ [] @ '':'' @ ''1'') = (''fe80::1'', Some ''::1'')"
  using lookup_split_exact [of "''www''" "''80''" "''x''" "[]"] lookup_split_exact [of "''fe80''" "[]" "''x''" "''1''"] by simp

end
