(* ===== verification/Http.thy ===== *)
theory Http
  imports Util StdSet "HOL-Library.List_Lexorder" "HOL-Library.Sublist"
begin

text \<open>
  HTTP requests and responses (\<open>src/megalo/http/http.h\<close>, \<open>http.cc\<close>): methods and status
  codes, the case insensitive header maps, the parsing of query, form and cookie parameters,
  and the text written to the peer.

  A \<open>std::map\<close> with the comparator \<open>CaseInsensitiveLess\<close> is an ordered map of the theory on
  containers; the comparator is interpreted as a strict weak order, so its map laws apply.  The
  members \<open>getX\<close> and \<open>setX\<close> that read or assign one field are the selectors and updates of the
  records.  A status is its number, since the response parser casts any number to the enum.
  \<open>boost::lexical_cast\<close> is a parameter (\<open>None\<close> when it throws), and so is the text of a time.
\<close>

section \<open>Methods and status codes\<close>

datatype HttpMethod =
    DELETE | GET | HEAD | POST | PUT | CONNECT | OPTIONS | TRACE | COPY | LOCK | MKCOL | MOVE |
    PROPFIND | PROPPATCH | SEARCH | UNLOCK | BIND | REBIND | UNBIND | ACL | REPORT |
    MKACTIVITY | CHECKOUT | MERGE | MSEARCH | NOTIFY | SUBSCRIBE | UNSUBSCRIBE | PATCH |
    PURGE | MKCALENDAR | LINK | UNLINK | SOURCE | INVALID_METHOD

text \<open>The table behind the enum: number, enumerator, text.\<close>

definition HTTP_METHOD_MAP :: "(nat \<times> HttpMethod \<times> string) list" where
  "HTTP_METHOD_MAP = [
    (0, DELETE, ''DELETE''), (1, GET, ''GET''), (2, HEAD, ''HEAD''), (3, POST, ''POST''),
    (4, PUT, ''PUT''), (5, CONNECT, ''CONNECT''), (6, OPTIONS, ''OPTIONS''),
    (7, TRACE, ''TRACE''), (8, COPY, ''COPY''), (9, LOCK, ''LOCK''), (10, MKCOL, ''MKCOL''),
    (11, MOVE, ''MOVE''), (12, PROPFIND, ''PROPFIND''), (13, PROPPATCH, ''PROPPATCH''),
    (14, SEARCH, ''SEARCH''), (15, UNLOCK, ''UNLOCK''), (16, BIND, ''BIND''),
    (17, REBIND, ''REBIND''), (18, UNBIND, ''UNBIND''), (19, ACL, ''ACL''),
    (20, REPORT, ''REPORT''), (21, MKACTIVITY, ''MKACTIVITY''), (22, CHECKOUT, ''CHECKOUT''),
    (23, MERGE, ''MERGE''), (24, MSEARCH, ''M-SEARCH''), (25, NOTIFY, ''NOTIFY''),
    (26, SUBSCRIBE, ''SUBSCRIBE''), (27, UNSUBSCRIBE, ''UNSUBSCRIBE''), (28, PATCH, ''PATCH''),
    (29, PURGE, ''PURGE''), (30, MKCALENDAR, ''MKCALENDAR''), (31, LINK, ''LINK''),
    (32, UNLINK, ''UNLINK''), (33, SOURCE, ''SOURCE'')]"

definition HTTP_STATUS_MAP :: "(nat \<times> string) list" where
  "HTTP_STATUS_MAP = [
    (100, ''Continue''), (101, ''Switching Protocols''), (102, ''Processing''), (200, ''OK''),
    (201, ''Created''), (202, ''Accepted''), (203, ''Non-Authoritative Information''),
    (204, ''No Content''), (205, ''Reset Content''), (206, ''Partial Content''),
    (207, ''Multi-Status''), (208, ''Already Reported''), (226, ''IM Used''),
    (300, ''Multiple Choices''), (301, ''Moved Permanently''), (302, ''Found''),
    (303, ''See Other''), (304, ''Not Modified''), (305, ''Use Proxy''),
    (307, ''Temporary Redirect''), (308, ''Permanent Redirect''), (400, ''Bad Request''),
    (401, ''Unauthorized''), (402, ''Payment Required''), (403, ''Forbidden''),
    (404, ''Not Found''), (405, ''Method Not Allowed''), (406, ''Not Acceptable''),
    (407, ''Proxy Authentication Required''), (408, ''Request Timeout''), (409, ''Conflict''),
    (410, ''Gone''), (411, ''Length Required''), (412, ''Precondition Failed''),
    (413, ''Payload Too Large''), (414, ''URI Too Long''), (415, ''Unsupported Media Type''),
    (416, ''Range Not Satisfiable''), (417, ''Expectation Failed''),
    (421, ''Misdirected Request''), (422, ''Unprocessable Entity''), (423, ''Locked''),
    (424, ''Failed Dependency''), (426, ''Upgrade Required''),
    (428, ''Precondition Required''), (429, ''Too Many Requests''),
    (431, ''Request Header Fields Too Large''), (451, ''Unavailable For Legal Reasons''),
    (500, ''Internal Server Error''), (501, ''Not Implemented''), (502, ''Bad Gateway''),
    (503, ''Service Unavailable''), (504, ''Gateway Timeout''),
    (505, ''HTTP Version Not Supported''), (506, ''Variant Also Negotiates''),
    (507, ''Insufficient Storage''), (508, ''Loop Detected''), (510, ''Not Extended''),
    (511, ''Network Authentication Required'')]"

definition StringToHttpMethod :: "string \<Rightarrow> HttpMethod" where
  "StringToHttpMethod s =
     (case find (\<lambda>(num, name, str). str = c_str s) HTTP_METHOD_MAP of
        Some (num, name, str) \<Rightarrow> name | None \<Rightarrow> INVALID_METHOD)"

text \<open>\<open>strncmp(#string, m, strlen(#string)) == 0\<close>: the text is a prefix of \<open>m\<close>.\<close>

definition CharsToHttpMethod :: "string \<Rightarrow> HttpMethod" where
  "CharsToHttpMethod m =
     (case find (\<lambda>(num, name, str). take (length str) (c_str m) = str) HTTP_METHOD_MAP of
        Some (num, name, str) \<Rightarrow> name | None \<Rightarrow> INVALID_METHOD)"

definition method_number :: "HttpMethod \<Rightarrow> nat" where
  "method_number m =
     (case find (\<lambda>(num, name, str). name = m) HTTP_METHOD_MAP of
        Some (num, name, str) \<Rightarrow> num | None \<Rightarrow> length HTTP_METHOD_MAP)"

definition s_method_string :: "string list" where
  "s_method_string = map (\<lambda>(num, name, str). str) HTTP_METHOD_MAP"

definition HttpMethodToString :: "HttpMethod \<Rightarrow> string" where
  "HttpMethodToString m =
     (let idx = method_number m in
      if idx \<ge> length s_method_string then ''<unknown>'' else s_method_string ! idx)"

definition HttpStatusToString :: "nat \<Rightarrow> string" where
  "HttpStatusToString s =
     (case map_of HTTP_STATUS_MAP s of Some msg \<Rightarrow> msg | None \<Rightarrow> ''<unknown'')"

section \<open>Case insensitive comparison\<close>

fun strcasecmp :: "string \<Rightarrow> string \<Rightarrow> int" where
  "strcasecmp [] [] = 0"
| "strcasecmp (a # as) [] = of_char (c_tolower a)"
| "strcasecmp [] (b # bs) = - of_char (c_tolower b)"
| "strcasecmp (a # as) (b # bs) =
     (let d = of_char (c_tolower a) - of_char (c_tolower b) in
      if d \<noteq> 0 then d else strcasecmp as bs)"

definition CaseInsensitiveLess :: "string \<Rightarrow> string \<Rightarrow> bool" where
  "CaseInsensitiveLess lhs rhs = (strcasecmp (c_str lhs) (c_str rhs) < 0)"

text \<open>\<open>strcasestr(haystack, needle) != nullptr\<close>.\<close>

fun strcasestr :: "string \<Rightarrow> string \<Rightarrow> bool" where
  "strcasestr [] n = (n = [])"
| "strcasestr (c # cs) n =
     (ToLower (take (length n) (c # cs)) = ToLower n \<or> strcasestr cs n)"

type_synonym MapType = "(string \<times> string) list"

text \<open>\<open>checkGetAs\<close> returns the flag and the value left in \<open>val\<close>.\<close>

definition checkGetAs :: "(string \<Rightarrow> 'a option) \<Rightarrow> MapType \<Rightarrow> string \<Rightarrow> 'a \<Rightarrow> bool \<times> 'a" where
  "checkGetAs lexical_cast m key def =
     (case omap_get CaseInsensitiveLess m key of None \<Rightarrow> (False, def)
      | Some s \<Rightarrow> (case lexical_cast s of Some x \<Rightarrow> (True, x) | None \<Rightarrow> (False, def)))"

definition getAs :: "(string \<Rightarrow> 'a option) \<Rightarrow> MapType \<Rightarrow> string \<Rightarrow> 'a \<Rightarrow> 'a" where
  "getAs lexical_cast m key def =
     (case omap_get CaseInsensitiveLess m key of None \<Rightarrow> def
      | Some s \<Rightarrow> (case lexical_cast s of Some x \<Rightarrow> x | None \<Rightarrow> def))"

section \<open>Requests\<close>

record HttpRequest =
  rq_method :: HttpMethod
  rq_version :: u8
  rq_close :: bool
  rq_websocket :: bool
  rq_parseParamFlag :: u8
  rq_path :: string
  rq_query :: string
  rq_fragment :: string
  rq_body :: string
  rq_headers :: MapType
  rq_params :: MapType
  rq_cookies :: MapType

definition new_HttpRequest :: "u8 \<Rightarrow> bool \<Rightarrow> HttpRequest" where
  "new_HttpRequest version close =
     \<lparr> rq_method = GET, rq_version = version, rq_close = close, rq_websocket = False,
       rq_parseParamFlag = 0, rq_path = ''/'', rq_query = [], rq_fragment = [], rq_body = [],
       rq_headers = [], rq_params = [], rq_cookies = [] \<rparr>"

definition map_find_or :: "MapType \<Rightarrow> string \<Rightarrow> string \<Rightarrow> string" where
  "map_find_or m key def =
     (case omap_get CaseInsensitiveLess m key of None \<Rightarrow> def | Some v \<Rightarrow> v)"

definition getHeader :: "HttpRequest \<Rightarrow> string \<Rightarrow> string \<Rightarrow> string" where
  "getHeader r key def = map_find_or (rq_headers r) key def"

definition setHeader :: "HttpRequest \<Rightarrow> string \<Rightarrow> string \<Rightarrow> HttpRequest" where
  "setHeader r key val = r\<lparr>rq_headers := omap_put CaseInsensitiveLess (rq_headers r) key val\<rparr>"

definition setParam :: "HttpRequest \<Rightarrow> string \<Rightarrow> string \<Rightarrow> HttpRequest" where
  "setParam r key val = r\<lparr>rq_params := omap_put CaseInsensitiveLess (rq_params r) key val\<rparr>"

definition setCookie :: "HttpRequest \<Rightarrow> string \<Rightarrow> string \<Rightarrow> HttpRequest" where
  "setCookie r key val = r\<lparr>rq_cookies := omap_put CaseInsensitiveLess (rq_cookies r) key val\<rparr>"

definition delHeader :: "HttpRequest \<Rightarrow> string \<Rightarrow> HttpRequest" where
  "delHeader r key = r\<lparr>rq_headers := omap_del CaseInsensitiveLess (rq_headers r) key\<rparr>"

definition delParam :: "HttpRequest \<Rightarrow> string \<Rightarrow> HttpRequest" where
  "delParam r key = r\<lparr>rq_params := omap_del CaseInsensitiveLess (rq_params r) key\<rparr>"

definition delCookie :: "HttpRequest \<Rightarrow> string \<Rightarrow> HttpRequest" where
  "delCookie r key = r\<lparr>rq_cookies := omap_del CaseInsensitiveLess (rq_cookies r) key\<rparr>"

text \<open>
  \<open>hasX(key, val)\<close>: \<open>val\<close> is the object pointed to, \<open>None\<close> for the default \<open>nullptr\<close>.  The
  result is the flag and the object; writing through \<open>nullptr\<close> is undefined (\<open>None\<close>).
\<close>

definition has_key :: "MapType \<Rightarrow> string \<Rightarrow> string option \<Rightarrow> (bool \<times> string option) option" where
  "has_key m key val =
     (case omap_get CaseInsensitiveLess m key of None \<Rightarrow> Some (False, val)
      | Some v \<Rightarrow> (case val of None \<Rightarrow> None | Some old \<Rightarrow> Some (True, Some v)))"

definition hasHeader :: "HttpRequest \<Rightarrow> string \<Rightarrow> string option \<Rightarrow> (bool \<times> string option) option" where
  "hasHeader r key val = has_key (rq_headers r) key val"

definition hasParam :: "HttpRequest \<Rightarrow> string \<Rightarrow> string option \<Rightarrow> (bool \<times> string option) option" where
  "hasParam r key val = has_key (rq_params r) key val"

definition hasCookie :: "HttpRequest \<Rightarrow> string \<Rightarrow> string option \<Rightarrow> (bool \<times> string option) option" where
  "hasCookie r key val = has_key (rq_cookies r) key val"

section \<open>Parameters\<close>

definition str_find :: "string \<Rightarrow> char \<Rightarrow> nat \<Rightarrow> nat option" where
  "str_find str c pos =
     (let i = pos + length (takeWhile (\<lambda>x. x \<noteq> c) (drop pos str)) in
      if i < length str then Some i else None)"

lemma str_find_bounds: "str_find str c pos = Some i \<Longrightarrow> pos \<le> i \<and> i < length str"
  by (auto simp: str_find_def Let_def split: if_splits)

text \<open>The macro \<open>PARSE_PARAM\<close>, from the position \<open>pos\<close> on.\<close>

function PARSE_PARAM :: "string \<Rightarrow> char \<Rightarrow> (string \<Rightarrow> string) \<Rightarrow> MapType \<Rightarrow> nat \<Rightarrow> MapType" where
  "PARSE_PARAM str flag trim m pos =
     (case str_find str (CHR ''='') pos of None \<Rightarrow> m
      | Some key \<Rightarrow>
        let k = trim (str_substr str pos (key - pos)) in
        (case str_find str flag key of
           None \<Rightarrow> omap_insert CaseInsensitiveLess m k (UrlDecode (drop (key + 1) str) True)
         | Some p \<Rightarrow> PARSE_PARAM str flag trim
             (omap_insert CaseInsensitiveLess m k (UrlDecode (str_substr str (key + 1) (p - key - 1)) True)) (p + 1)))"
  by pat_completeness auto
termination
  by (relation "measure (\<lambda>(str, flag, trim, m, pos). length str - pos)")
    (auto dest!: str_find_bounds)

declare PARSE_PARAM.simps [simp del]

definition initQueryParam :: "HttpRequest \<Rightarrow> HttpRequest" where
  "initQueryParam r =
     (if rq_parseParamFlag r AND 0x1 \<noteq> 0 then r
      else r\<lparr>rq_params := PARSE_PARAM (rq_query r) (CHR ''&'') (\<lambda>s. s) (rq_params r) 0,
             rq_parseParamFlag := rq_parseParamFlag r OR 0x1\<rparr>)"

definition initBodyParam :: "HttpRequest \<Rightarrow> HttpRequest" where
  "initBodyParam r =
     (if rq_parseParamFlag r AND 0x2 \<noteq> 0 then r
      else let content_type = getHeader r ''content-type'' [] in
      if \<not> strcasestr (c_str content_type) ''application/x-www-form-urlencode''
      then r\<lparr>rq_parseParamFlag := rq_parseParamFlag r OR 0x2\<rparr>
      else r\<lparr>rq_params := PARSE_PARAM (rq_body r) (CHR ''&'') (\<lambda>s. s) (rq_params r) 0,
             rq_parseParamFlag := rq_parseParamFlag r OR 0x2\<rparr>)"

definition initCookies :: "HttpRequest \<Rightarrow> HttpRequest" where
  "initCookies r =
     (if rq_parseParamFlag r AND 0x4 \<noteq> 0 then r
      else let cookie = getHeader r ''cookie'' [] in
      if cookie = [] then r\<lparr>rq_parseParamFlag := rq_parseParamFlag r OR 0x4\<rparr>
      else r\<lparr>rq_cookies := PARSE_PARAM cookie (CHR '';'')
               (\<lambda>s. StringUtil_Trim s [CHR '' '', CHR 0x09, CHR 0x0D, CHR 0x0A]) (rq_cookies r) 0,
             rq_parseParamFlag := rq_parseParamFlag r OR 0x4\<rparr>)"

definition initParam :: "HttpRequest \<Rightarrow> HttpRequest" where
  "initParam r = initCookies (initBodyParam (initQueryParam r))"

definition getParam :: "HttpRequest \<Rightarrow> string \<Rightarrow> string \<Rightarrow> HttpRequest \<times> string" where
  "getParam r key def =
     (let r1 = initBodyParam (initQueryParam r) in (r1, map_find_or (rq_params r1) key def))"

definition getCookie :: "HttpRequest \<Rightarrow> string \<Rightarrow> string \<Rightarrow> HttpRequest \<times> string" where
  "getCookie r key def = (let r1 = initCookies r in (r1, map_find_or (rq_cookies r1) key def))"

definition checkGetHeaderAs :: "(string \<Rightarrow> 'a option) \<Rightarrow> HttpRequest \<Rightarrow> string \<Rightarrow> 'a \<Rightarrow> bool \<times> 'a" where
  "checkGetHeaderAs lexical_cast r key def = checkGetAs lexical_cast (rq_headers r) key def"

definition getHeaderAs :: "(string \<Rightarrow> 'a option) \<Rightarrow> HttpRequest \<Rightarrow> string \<Rightarrow> 'a \<Rightarrow> 'a" where
  "getHeaderAs lexical_cast r key def = getAs lexical_cast (rq_headers r) key def"

text \<open>The typed readers of parameters and cookies look in the headers, as the code does.\<close>

definition checkGetParamAs :: "(string \<Rightarrow> 'a option) \<Rightarrow> HttpRequest \<Rightarrow> string \<Rightarrow> 'a \<Rightarrow> HttpRequest \<times> bool \<times> 'a" where
  "checkGetParamAs lexical_cast r key def =
     (let r1 = initBodyParam (initQueryParam r) in (r1, checkGetAs lexical_cast (rq_headers r1) key def))"

definition getParamAs :: "(string \<Rightarrow> 'a option) \<Rightarrow> HttpRequest \<Rightarrow> string \<Rightarrow> 'a \<Rightarrow> HttpRequest \<times> 'a" where
  "getParamAs lexical_cast r key def =
     (let r1 = initBodyParam (initQueryParam r) in (r1, getAs lexical_cast (rq_headers r1) key def))"

definition checkGetCookieAs :: "(string \<Rightarrow> 'a option) \<Rightarrow> HttpRequest \<Rightarrow> string \<Rightarrow> 'a \<Rightarrow> HttpRequest \<times> bool \<times> 'a" where
  "checkGetCookieAs lexical_cast r key def =
     (let r1 = initCookies r in (r1, checkGetAs lexical_cast (rq_headers r1) key def))"

definition getCookieAs :: "(string \<Rightarrow> 'a option) \<Rightarrow> HttpRequest \<Rightarrow> string \<Rightarrow> 'a \<Rightarrow> HttpRequest \<times> 'a" where
  "getCookieAs lexical_cast r key def =
     (let r1 = initCookies r in (r1, getAs lexical_cast (rq_headers r1) key def))"

text \<open>\<open>init\<close> derives the flag \<open>m_close\<close> from the header \<open>connection\<close>.\<close>

definition HttpRequest_init :: "HttpRequest \<Rightarrow> HttpRequest" where
  "HttpRequest_init r =
     (let conn = getHeader r ''connection'' [] in
      if conn \<noteq> [] then r\<lparr>rq_close := strcasecmp (c_str conn) ''keep-alive'' \<noteq> 0\<rparr> else r)"

section \<open>Text\<close>

definition crlf :: string where
  "crlf = [CHR 0x0D, CHR 0x0A]"

definition version_text :: "u8 \<Rightarrow> string" where
  "version_text v = nat_text 10 (unat (drop_bit 4 v)) @ ''.'' @ nat_text 10 (unat (v AND 0x0F))"

text \<open>The header lines: \<open>connection\<close> is skipped unless the message is a websocket upgrade.\<close>

definition dump_headers :: "bool \<Rightarrow> MapType \<Rightarrow> string" where
  "dump_headers websocket headers =
     concat (map (\<lambda>(k, v). if \<not> websocket \<and> strcasecmp (c_str k) ''connection'' = 0 then []
                           else k @ '': '' @ v @ crlf) headers)"

definition dump_body :: "string \<Rightarrow> string" where
  "dump_body body =
     (if body \<noteq> [] then ''content-length: '' @ nat_text 10 (length body) @ crlf @ body else crlf)"

definition dump_connection :: "bool \<Rightarrow> bool \<Rightarrow> string" where
  "dump_connection websocket close =
     (if websocket then [] else ''connection: '' @ (if close then ''close'' else ''keep-alive'') @ crlf)"

definition HttpRequest_dump :: "HttpRequest \<Rightarrow> string" where
  "HttpRequest_dump r =
     HttpMethodToString (rq_method r) @ '' '' @ rq_path r
     @ (if rq_query r = [] then [] else ''?'') @ rq_query r
     @ (if rq_fragment r = [] then [] else ''#'') @ rq_fragment r
     @ '' HTTP/'' @ version_text (rq_version r) @ crlf
     @ dump_connection (rq_websocket r) (rq_close r)
     @ dump_headers (rq_websocket r) (rq_headers r)
     @ dump_body (rq_body r)"

section \<open>Responses\<close>

record HttpResponse =
  rs_status :: nat
  rs_version :: u8
  rs_close :: bool
  rs_websocket :: bool
  rs_body :: string
  rs_reason :: string
  rs_headers :: MapType
  rs_cookies :: "string list"

definition new_HttpResponse :: "u8 \<Rightarrow> bool \<Rightarrow> HttpResponse" where
  "new_HttpResponse version close =
     \<lparr> rs_status = 200, rs_version = version, rs_close = close, rs_websocket = False,
       rs_body = [], rs_reason = [], rs_headers = [], rs_cookies = [] \<rparr>"

definition createResponse :: "HttpRequest \<Rightarrow> HttpResponse" where
  "createResponse r = new_HttpResponse (rq_version r) (rq_close r)"

definition rs_getHeader :: "HttpResponse \<Rightarrow> string \<Rightarrow> string \<Rightarrow> string" where
  "rs_getHeader r key def = map_find_or (rs_headers r) key def"

definition rs_setHeader :: "HttpResponse \<Rightarrow> string \<Rightarrow> string \<Rightarrow> HttpResponse" where
  "rs_setHeader r key val = r\<lparr>rs_headers := omap_put CaseInsensitiveLess (rs_headers r) key val\<rparr>"

definition rs_delHeader :: "HttpResponse \<Rightarrow> string \<Rightarrow> HttpResponse" where
  "rs_delHeader r key = r\<lparr>rs_headers := omap_del CaseInsensitiveLess (rs_headers r) key\<rparr>"

definition rs_checkGetHeaderAs :: "(string \<Rightarrow> 'a option) \<Rightarrow> HttpResponse \<Rightarrow> string \<Rightarrow> 'a \<Rightarrow> bool \<times> 'a" where
  "rs_checkGetHeaderAs lexical_cast r key def = checkGetAs lexical_cast (rs_headers r) key def"

definition rs_getHeaderAs :: "(string \<Rightarrow> 'a option) \<Rightarrow> HttpResponse \<Rightarrow> string \<Rightarrow> 'a \<Rightarrow> 'a" where
  "rs_getHeaderAs lexical_cast r key def = getAs lexical_cast (rs_headers r) key def"

definition HttpResponse_dump :: "HttpResponse \<Rightarrow> string" where
  "HttpResponse_dump r =
     ''HTTP/'' @ version_text (rs_version r) @ '' '' @ nat_text 10 (rs_status r) @ '' ''
     @ (if rs_reason r = [] then HttpStatusToString (rs_status r) else rs_reason r) @ crlf
     @ dump_headers (rs_websocket r) (rs_headers r)
     @ concat (map (\<lambda>i. ''Set-Cookie: '' @ i @ crlf) (rs_cookies r))
     @ dump_connection (rs_websocket r) (rs_close r)
     @ dump_body (rs_body r)"

definition setRedirect :: "HttpResponse \<Rightarrow> string \<Rightarrow> HttpResponse" where
  "setRedirect r uri = rs_setHeader (r\<lparr>rs_status := 302\<rparr>) ''Location'' uri"

text \<open>\<open>Time2Str\<close> gives the text of a time in the format the code passes.\<close>

definition rs_setCookie ::
  "(int \<Rightarrow> string) \<Rightarrow> HttpResponse \<Rightarrow> string \<Rightarrow> string \<Rightarrow> int \<Rightarrow> string \<Rightarrow> string \<Rightarrow> bool \<Rightarrow> HttpResponse" where
  "rs_setCookie Time2Str r key val expired path domain secure =
     r\<lparr>rs_cookies := rs_cookies r @
       [key @ ''='' @ val
        @ (if expired > 0 then '';expired='' @ Time2Str expired @ '' GMT'' else [])
        @ (if domain \<noteq> [] then '';domain='' @ domain else [])
        @ (if path \<noteq> [] then '';path='' @ path else [])
        @ (if secure then '';secure'' else [])]\<rparr>"

end
