(* ===== verification/HttpProps.thy ===== *)
theory HttpProps
  imports Http
begin

text \<open>
  What the HTTP messages promise: the method table is a bijection with its texts, header names
  are compared without case and the maps keep the entries a lookup has to find, and the
  parameters of a query string or a form are the pairs it was built from.
\<close>

section \<open>Methods\<close>

lemma methods_exact:
  "list_all (\<lambda>(num, name, str). num < length HTTP_METHOD_MAP \<and> HTTP_METHOD_MAP ! num = (num, name, str)
     \<and> HttpMethodToString name = str \<and> StringToHttpMethod str = name \<and> name \<noteq> INVALID_METHOD
     \<and> c_str str = str) HTTP_METHOD_MAP"
  by code_simp

lemma methods_no_prefix:
  "list_all (\<lambda>(num, name, str). list_all (\<lambda>(num', name', str'). take (length str) str' = str \<longrightarrow> name' = name)
     HTTP_METHOD_MAP) HTTP_METHOD_MAP"
  by code_simp

lemma methods_complete: "m = INVALID_METHOD \<or> (\<exists>num str. (num, m, str) \<in> set HTTP_METHOD_MAP)"
  by (cases m) (auto simp: HTTP_METHOD_MAP_def)

lemma method_entry: "(num, m, str) \<in> set HTTP_METHOD_MAP \<Longrightarrow>
  HttpMethodToString m = str \<and> StringToHttpMethod str = m \<and> m \<noteq> INVALID_METHOD \<and> c_str str = str"
  using methods_exact by (auto simp: list_all_iff)

lemma methods_prefix_unique:
  assumes "(num, m, str) \<in> set HTTP_METHOD_MAP" and "(num', m', str') \<in> set HTTP_METHOD_MAP"
    and "take (length str) s = str" and "take (length str') s = str'"
  shows "m = m'"
proof -
  have "prefix str s" "prefix str' s" using assms(3,4) take_is_prefix by metis+
  then have "prefix str str' \<or> prefix str' str" using prefix_same_cases by blast
  then have "take (length str) str' = str \<or> take (length str') str = str'" by (auto simp: prefix_def)
  then show ?thesis using methods_no_prefix assms(1,2) by (fastforce simp: list_all_iff)
qed

lemma method_scan:
  assumes "\<And>n nm t n' nm' t'. (n, nm, t) \<in> set T \<Longrightarrow> P (n, nm, t) \<Longrightarrow> (n', nm', t') \<in> set T \<Longrightarrow> P (n', nm', t') \<Longrightarrow> nm = nm'"
    and "m \<noteq> INVALID_METHOD"
  shows "(case find P T of Some (num, name, str) \<Rightarrow> name | None \<Rightarrow> INVALID_METHOD) = m
    \<longleftrightarrow> (\<exists>num str. (num, m, str) \<in> set T \<and> P (num, m, str))"
proof (cases "find P T")
  case None
  then have "\<And>e. e \<in> set T \<Longrightarrow> \<not> P e" by (auto simp: find_None_iff)
  then show ?thesis using assms(2) None by simp
next
  case (Some e)
  then have "P e" "e \<in> set T" by (auto simp: find_Some_iff)
  then show ?thesis using assms(1) Some by (cases e) (auto simp: Some)
qed

lemma StringToHttpMethod_iff:
  assumes "m \<noteq> INVALID_METHOD"
  shows "StringToHttpMethod s = m \<longleftrightarrow> c_str s = HttpMethodToString m"
proof -
  have "StringToHttpMethod s = m \<longleftrightarrow> (\<exists>num str. (num, m, str) \<in> set HTTP_METHOD_MAP \<and> str = c_str s)"
    unfolding StringToHttpMethod_def
    by (subst method_scan [OF _ assms]) (auto dest!: method_entry)
  then show ?thesis using method_entry methods_complete [of m] assms by metis
qed

lemma CharsToHttpMethod_iff:
  assumes "m \<noteq> INVALID_METHOD"
  shows "CharsToHttpMethod s = m \<longleftrightarrow> prefix (HttpMethodToString m) (c_str s)"
proof -
  have "CharsToHttpMethod s = m
      \<longleftrightarrow> (\<exists>num str. (num, m, str) \<in> set HTTP_METHOD_MAP \<and> take (length str) (c_str s) = str)"
    unfolding CharsToHttpMethod_def
    by (subst method_scan [OF _ assms]) (use methods_prefix_unique in auto)
  moreover have "take (length str) x = str \<longleftrightarrow> prefix str x" for str x :: string
    using take_is_prefix [of "length str" x] by (auto simp: prefix_def)
  ultimately show ?thesis using method_entry methods_complete [of m] assms by metis
qed

section \<open>The comparator\<close>

definition same_key :: "string \<Rightarrow> string \<Rightarrow> bool" where
  "same_key j k \<longleftrightarrow> ToLower (c_str j) = ToLower (c_str k)"

definition fold_key :: "string \<Rightarrow> nat list" where
  "fold_key s = map (\<lambda>c. of_char (c_tolower c)) (c_str s)"

lemma c_str_append: "CHR 0x00 \<notin> set a \<Longrightarrow> c_str (a @ b) = a @ c_str b"
  by (induction a) (auto simp: c_str_def)

lemma tolower_pos: "c \<noteq> CHR 0x00 \<Longrightarrow> (of_char (c_tolower c) :: nat) > 0"
proof -
  assume c: "c \<noteq> CHR 0x00"
  have "(of_char c :: nat) \<noteq> of_char (CHR 0x00)" using c by (simp only: of_char_eq_iff not_False_eq_True)
  then show ?thesis using nat_of_char_less_256 [of c] by (auto simp: c_tolower_def Let_def)
qed

lemma of_char_int: "(of_char c :: int) = int (of_char c)"
  by (cases c) (simp add: of_char_def horner_sum_foldr)

lemma strcasecmp_less:
  "CHR 0x00 \<notin> set a \<Longrightarrow> CHR 0x00 \<notin> set b \<Longrightarrow>
   strcasecmp a b < 0 \<longleftrightarrow> map (\<lambda>c. of_char (c_tolower c) :: nat) a < map (\<lambda>c. of_char (c_tolower c)) b"
  by (induction a b rule: strcasecmp.induct) (auto simp: Let_def of_char_int tolower_pos)

lemma CaseInsensitiveLess_fold: "CaseInsensitiveLess a b \<longleftrightarrow> fold_key a < fold_key b"
proof -
  have "CHR 0x00 \<notin> set (c_str s)" for s by (auto simp: c_str_def dest: set_takeWhileD)
  then show ?thesis unfolding CaseInsensitiveLess_def fold_key_def by (intro strcasecmp_less) auto
qed

interpretation ci: weak_order CaseInsensitiveLess
  by unfold_locales (auto simp: CaseInsensitiveLess_fold)

lemma same_key_eqv: "same_key j k \<longleftrightarrow> \<not> CaseInsensitiveLess j k \<and> \<not> CaseInsensitiveLess k j"
proof -
  have "inj (of_char :: char \<Rightarrow> nat)" by (rule injI) simp
  moreover have "fold_key s = map of_char (ToLower (c_str s))" for s by (simp add: fold_key_def ToLower_def)
  ultimately have "same_key j k \<longleftrightarrow> fold_key j = fold_key k" by (simp add: same_key_def inj_map_eq_map)
  then show ?thesis by (auto simp: CaseInsensitiveLess_fold)
qed

lemma strcasecmp_zero:
  "CHR 0x00 \<notin> set a \<Longrightarrow> CHR 0x00 \<notin> set b \<Longrightarrow> strcasecmp a b = 0 \<longleftrightarrow> ToLower a = ToLower b"
  by (induction a b rule: strcasecmp.induct) (auto simp: Let_def ToLower_def of_char_int intro!: tolower_pos)

lemma strcasecmp_same: "CHR 0x00 \<notin> set s \<Longrightarrow> strcasecmp (c_str k) s = 0 \<longleftrightarrow> same_key k s"
proof -
  assume s: "CHR 0x00 \<notin> set s"
  then have "c_str s = s" using c_str_append [of s "[]"] by (simp add: c_str_def)
  moreover have "CHR 0x00 \<notin> set (c_str k)" by (auto simp: c_str_def dest: set_takeWhileD)
  ultimately show ?thesis using strcasecmp_zero s by (simp add: same_key_def)
qed

section \<open>Well formed requests\<close>

definition HttpRequest_ok :: "HttpRequest \<Rightarrow> bool" where
  "HttpRequest_ok r \<longleftrightarrow> ci.omap_ok (rq_headers r) \<and> ci.omap_ok (rq_params r) \<and> ci.omap_ok (rq_cookies r)"

lemma empty_map_ok: "ci.omap_ok []"
  by (simp add: ci.omap_ok_def)

lemma PARSE_PARAM_ok: "ci.omap_ok m \<Longrightarrow> ci.omap_ok (PARSE_PARAM str flag trim m pos)"
proof (induction str flag trim m pos rule: PARSE_PARAM.induct)
  case (1 str flag trim m pos)
  then show ?case
    by (subst PARSE_PARAM.simps) (auto simp: Let_def ci.omap_insert_ok split: option.split)
qed

lemma HttpRequest_ok_ops [simp, intro]:
  "HttpRequest_ok (new_HttpRequest v c)"
  "HttpRequest_ok r \<Longrightarrow> HttpRequest_ok (setHeader r k x)"
  "HttpRequest_ok r \<Longrightarrow> HttpRequest_ok (setParam r k x)"
  "HttpRequest_ok r \<Longrightarrow> HttpRequest_ok (setCookie r k x)"
  "HttpRequest_ok r \<Longrightarrow> HttpRequest_ok (delHeader r k)"
  "HttpRequest_ok r \<Longrightarrow> HttpRequest_ok (delParam r k)"
  "HttpRequest_ok r \<Longrightarrow> HttpRequest_ok (delCookie r k)"
  "HttpRequest_ok r \<Longrightarrow> HttpRequest_ok (initQueryParam r)"
  "HttpRequest_ok r \<Longrightarrow> HttpRequest_ok (initBodyParam r)"
  "HttpRequest_ok r \<Longrightarrow> HttpRequest_ok (initCookies r)"
  "HttpRequest_ok r \<Longrightarrow> HttpRequest_ok (HttpRequest_init r)"
  by (auto simp: HttpRequest_ok_def new_HttpRequest_def setHeader_def setParam_def setCookie_def
    delHeader_def delParam_def delCookie_def initQueryParam_def initBodyParam_def initCookies_def
    HttpRequest_init_def PARSE_PARAM_ok Let_def ci.omap_put_set ci.omap_del_set empty_map_ok)

section \<open>Parsing parameters\<close>

lemma str_find_hit: "c \<notin> set a \<Longrightarrow> str_find (pre @ a @ c # rest) c (length pre) = Some (length pre + length a)"
proof -
  assume "c \<notin> set a"
  then have "takeWhile (\<lambda>x. x \<noteq> c) (a @ c # rest) = a" by (induction a) auto
  then show ?thesis by (simp add: str_find_def del: takeWhile_append)
qed

lemma str_find_miss: "c \<notin> set a \<Longrightarrow> str_find (pre @ a) c (length pre) = None"
proof -
  assume "c \<notin> set a"
  then have "length (takeWhile (\<lambda>x. x \<noteq> c) a) = length a" by (induction a) auto
  then show ?thesis by (simp add: str_find_def)
qed

lemma PARSE_PARAM_last:
  assumes "CHR ''='' \<notin> set k" and "flag \<notin> set v" and "flag \<noteq> CHR ''=''"
  shows "PARSE_PARAM (pre @ k @ CHR ''='' # v) flag trim m (length pre)
    = omap_insert CaseInsensitiveLess m (trim k) (UrlDecode v True)"
proof -
  have "str_find (pre @ k @ CHR ''='' # v) flag (length pre + length k) = None"
    using str_find_miss [of flag "CHR ''='' # v" "pre @ k"] assms by auto
  then show ?thesis
    using str_find_hit [OF assms(1), of pre v] by (subst PARSE_PARAM.simps) (simp add: str_substr_def)
qed

lemma PARSE_PARAM_more:
  assumes "CHR ''='' \<notin> set k" and "flag \<notin> set v" and "flag \<noteq> CHR ''=''"
  shows "PARSE_PARAM (pre @ k @ CHR ''='' # v @ flag # rest) flag trim m (length pre)
    = PARSE_PARAM ((pre @ k @ CHR ''='' # v @ [flag]) @ rest) flag trim
        (omap_insert CaseInsensitiveLess m (trim k) (UrlDecode v True)) (length (pre @ k @ CHR ''='' # v @ [flag]))"
proof -
  have "str_find (pre @ k @ CHR ''='' # v @ flag # rest) flag (length pre + length k) = Some (length pre + length k + 1 + length v)"
    using str_find_hit [of flag "CHR ''='' # v" "pre @ k" rest] assms by auto
  then show ?thesis
    using str_find_hit [OF assms(1), of pre "v @ flag # rest"]
    by (subst PARSE_PARAM.simps) (simp add: str_substr_def add.assoc)
qed

text \<open>A query string built from pairs, and the map of the first pair of every key.\<close>

fun query_of :: "(string \<times> string) list \<Rightarrow> string" where
  "query_of [] = []"
| "query_of [(k, v)] = k @ ''='' @ UrlEncode v True"
| "query_of ((k, v) # kvs) = k @ ''='' @ UrlEncode v True @ ''&'' @ query_of kvs"

definition insert_all :: "MapType \<Rightarrow> (string \<times> string) list \<Rightarrow> MapType" where
  "insert_all m kvs = fold (\<lambda>(k, v) m. omap_insert CaseInsensitiveLess m k v) kvs m"

lemma UrlEncode_amp: "CHR ''&'' \<notin> set (UrlEncode v sp)"
  using UrlEncode_chars [of "CHR ''&''" v sp] by (auto simp: unreserved_iff)

lemma PARSE_PARAM_query:
  "list_all (\<lambda>(k, v). CHR ''='' \<notin> set k) kvs \<Longrightarrow>
   PARSE_PARAM (pre @ query_of kvs) (CHR ''&'') (\<lambda>s. s) m (length pre) = insert_all m kvs"
proof (induction kvs arbitrary: pre m rule: query_of.induct)
  case 1
  then show ?case using str_find_miss [of "CHR ''=''" "[]" pre]
    by (subst PARSE_PARAM.simps) (simp add: insert_all_def)
next
  case (2 k v)
  then show ?case
    using PARSE_PARAM_last [of k "CHR ''&''" "UrlEncode v True" pre "\<lambda>s. s" m] UrlEncode_amp
    by (simp add: insert_all_def url_decode_encode)
next
  case (3 k v kv kvs)
  let ?pre = "pre @ k @ ''='' @ UrlEncode v True @ ''&''"
  have k: "CHR ''='' \<notin> set k" using 3(2) by auto
  have "PARSE_PARAM (?pre @ query_of (kv # kvs)) (CHR ''&'') (\<lambda>s. s) (omap_insert CaseInsensitiveLess m k v) (length ?pre)
      = insert_all (omap_insert CaseInsensitiveLess m k v) (kv # kvs)"
    using 3 by (intro 3(1)) auto
  then show ?case
    using PARSE_PARAM_more [of k "CHR ''&''" "UrlEncode v True" pre "query_of (kv # kvs)" "\<lambda>s. s" m] UrlEncode_amp k
    by (simp add: insert_all_def url_decode_encode)
qed

lemma insert_all_get:
  "ci.omap_ok m \<Longrightarrow> omap_get CaseInsensitiveLess (insert_all m kvs) k =
    (case omap_get CaseInsensitiveLess m k of Some v \<Rightarrow> Some v
     | None \<Rightarrow> map_option snd (find (\<lambda>(j, v). same_key j k) kvs))"
proof (induction kvs arbitrary: m)
  case (Cons e kvs)
  obtain j v where e: "e = (j, v)" by (cases e)
  have eq: "same_key j k \<Longrightarrow> omap_get CaseInsensitiveLess m j = omap_get CaseInsensitiveLess m k"
    using ci.omap_get_eqv [OF Cons.prems, of j k] by (simp add: same_key_eqv)
  have "insert_all m (e # kvs) = insert_all (omap_insert CaseInsensitiveLess m j v) kvs"
    by (simp add: insert_all_def e)
  then show ?case
    using Cons.IH [OF ci.omap_insert_ok [OF Cons.prems], of j v] ci.omap_get_insert [OF Cons.prems, of j v k] eq
    by (auto simp: e same_key_eqv split: option.splits)
qed (auto simp: insert_all_def split: option.split)

lemma form_params:
  assumes "HttpRequest_ok r" and "rq_parseParamFlag r = 0" and "rq_params r = []"
    and "rq_query r = query_of qs" and "rq_body r = query_of bs"
    and keys: "list_all (\<lambda>(k, v). CHR ''='' \<notin> set k) (qs @ bs)"
  shows "rq_params (initBodyParam (initQueryParam r)) =
    insert_all [] (qs @ (if strcasestr (c_str (getHeader r ''content-type'' [])) ''application/x-www-form-urlencode''
                         then bs else []))"
    and "rq_parseParamFlag (initBodyParam (initQueryParam r)) = 3"
proof -
  have q: "PARSE_PARAM (query_of qs) (CHR ''&'') (\<lambda>s. s) m 0 = insert_all m qs" for m
    using PARSE_PARAM_query [of qs "[]" m] keys by auto
  have b: "PARSE_PARAM (query_of bs) (CHR ''&'') (\<lambda>s. s) m 0 = insert_all m bs" for m
    using PARSE_PARAM_query [of bs "[]" m] keys by auto
  have iq: "initQueryParam r = r\<lparr>rq_params := insert_all [] qs, rq_parseParamFlag := 1\<rparr>"
    using assms(2-4) q by (simp add: initQueryParam_def)
  show "rq_params (initBodyParam (initQueryParam r)) =
    insert_all [] (qs @ (if strcasestr (c_str (getHeader r ''content-type'' [])) ''application/x-www-form-urlencode''
                         then bs else []))"
    unfolding iq using assms(5) b by (simp add: initBodyParam_def getHeader_def Let_def insert_all_def)
  show "rq_parseParamFlag (initBodyParam (initQueryParam r)) = 3"
    unfolding iq by (simp add: initBodyParam_def Let_def)
qed

lemma init_params_once:
  "rq_parseParamFlag r AND 3 = 3 \<Longrightarrow> initBodyParam (initQueryParam r) = r"
proof -
  assume "rq_parseParamFlag r AND 3 = 3"
  have "rq_parseParamFlag r AND 1 = (rq_parseParamFlag r AND 3) AND 1" "rq_parseParamFlag r AND 2 = (rq_parseParamFlag r AND 3) AND 2"
    unfolding and.assoc by simp_all
  then show ?thesis using \<open>rq_parseParamFlag r AND 3 = 3\<close> by (simp add: initQueryParam_def initBodyParam_def)
qed

section \<open>Properties\<close>

text \<open>
Methods and their texts.  A string is read as a method exactly when it is that method's
text, so printing and reading are inverse; the parser's reader accepts every text that starts
with a method's text, and finds the one method it starts with.
\<close>

theorem http_method_roundtrip:
  assumes "m \<noteq> INVALID_METHOD"
  shows "(StringToHttpMethod s = m \<longleftrightarrow> c_str s = HttpMethodToString m)
    \<and> (CharsToHttpMethod s = m \<longleftrightarrow> prefix (HttpMethodToString m) (c_str s))
    \<and> StringToHttpMethod (HttpMethodToString m) = m"
proof -
  obtain num where "(num, m, HttpMethodToString m) \<in> set HTTP_METHOD_MAP"
    using methods_complete [of m] method_entry assms by blast
  then show ?thesis using StringToHttpMethod_iff [OF assms, of s] CharsToHttpMethod_iff [OF assms, of s] method_entry by blast
qed

theorem http_method_roundtrip_witness:
  "CharsToHttpMethod ''POST / HTTP/1.1'' = POST"
proof -
  have "HttpMethodToString POST = ''POST''" by code_simp
  moreover have "c_str ''POST / HTTP/1.1'' = ''POST / HTTP/1.1''" by (simp add: c_str_def)
  ultimately show ?thesis using http_method_roundtrip [of POST "''POST / HTTP/1.1''"] by simp
qed

text \<open>
Header names do not distinguish case.  After \<open>setHeader\<close> every spelling of the name gives
the new value and every other name what it gave before; after \<open>delHeader\<close> the name is gone in
every spelling.  Both keep the request well formed, which is what the lookups rely on, and
asking \<open>hasHeader\<close> with its default argument for a header that is there dereferences null.
\<close>

theorem headers_case_insensitive:
  assumes ok: "HttpRequest_ok r"
  shows "getHeader (setHeader r k v) j d = (if same_key j k then v else getHeader r j d)
    \<and> getHeader (delHeader r k) j d = (if same_key j k then d else getHeader r j d)
    \<and> HttpRequest_ok (setHeader r k v) \<and> HttpRequest_ok (delHeader r k)
    \<and> hasHeader (setHeader r k v) j None = (if same_key j k then None else hasHeader r j None)"
proof (intro conjI)
  have m: "ci.omap_ok (rq_headers r)" using ok by (simp add: HttpRequest_ok_def)
  show "getHeader (setHeader r k v) j d = (if same_key j k then v else getHeader r j d)"
    using ci.omap_get_put [OF m, of k v j] by (simp add: getHeader_def setHeader_def map_find_or_def same_key_eqv)
  show "getHeader (delHeader r k) j d = (if same_key j k then d else getHeader r j d)"
    using ci.omap_get_del [OF m, of k j] by (simp add: getHeader_def delHeader_def map_find_or_def same_key_eqv)
  show "HttpRequest_ok (setHeader r k v)" "HttpRequest_ok (delHeader r k)" using ok by blast+
  show "hasHeader (setHeader r k v) j None = (if same_key j k then None else hasHeader r j None)"
    using ci.omap_get_put [OF m, of k v j] by (simp add: hasHeader_def has_key_def setHeader_def same_key_eqv)
qed

theorem headers_case_insensitive_witness:
  "getHeader (setHeader (new_HttpRequest 0x11 True) ''Content-Type'' ''text/html'') ''content-type'' [] = ''text/html''
   \<and> hasHeader (setHeader (new_HttpRequest 0x11 True) ''Content-Type'' ''text/html'') ''content-type'' None = None"
proof -
  have "same_key ''content-type'' ''Content-Type''" unfolding same_key_def by code_simp
  then show ?thesis
    using headers_case_insensitive [of "new_HttpRequest 0x11 True" "''Content-Type''" "''text/html''" "''content-type''" "[]"]
    by simp
qed

text \<open>
C33: Parameters come back.  When the query string, and the body of a form, are built from pairs
of a name without \<open>=\<close> and an encoded value, \<open>getParam\<close> returns the decoded value of the first
pair whose name matches, pairs of the query before those of the form; the body counts only when
the content type says it is a form.  The parse is done once: a second call changes nothing.
\<close>

theorem params_roundtrip:
  assumes "HttpRequest_ok r" and "rq_parseParamFlag r = 0" and "rq_params r = []"
    and "rq_query r = query_of qs" and "rq_body r = query_of bs"
    and "list_all (\<lambda>(k, v). CHR ''='' \<notin> set k) (qs @ bs)"
  shows "snd (getParam r key d) =
      (case find (\<lambda>(j, v). same_key j key)
        (qs @ (if strcasestr (c_str (getHeader r ''content-type'' [])) ''application/x-www-form-urlencode''
               then bs else [])) of None \<Rightarrow> d | Some (j, v) \<Rightarrow> v)
    \<and> fst (getParam (fst (getParam r key d)) key' d') = fst (getParam r key d)"
proof (intro conjI)
  note p = form_params [OF assms]
  show "fst (getParam (fst (getParam r key d)) key' d') = fst (getParam r key d)"
    using init_params_once [of "initBodyParam (initQueryParam r)"] p(2) by (simp add: getParam_def Let_def)
  show "snd (getParam r key d) =
      (case find (\<lambda>(j, v). same_key j key)
        (qs @ (if strcasestr (c_str (getHeader r ''content-type'' [])) ''application/x-www-form-urlencode''
               then bs else [])) of None \<Rightarrow> d | Some (j, v) \<Rightarrow> v)"
    unfolding getParam_def Let_def snd_conv map_find_or_def p(1) insert_all_get [OF empty_map_ok]
    by (simp add: omap_get_def omap_lower_bound_def split: option.split)
qed

theorem params_roundtrip_witness:
  "snd (getParam ((new_HttpRequest 0x11 True)\<lparr>rq_query := query_of [(''a'', ''1 2''), (''b'', ''x=y'')]\<rparr>) ''B'' []) = ''x=y''"
proof -
  let ?r = "(new_HttpRequest 0x11 True)\<lparr>rq_query := query_of [(''a'', ''1 2''), (''b'', ''x=y'')]\<rparr>"
  have "HttpRequest_ok ?r" by (simp add: HttpRequest_ok_def new_HttpRequest_def empty_map_ok)
  moreover have "\<not> strcasestr (c_str (getHeader ?r ''content-type'' [])) ''application/x-www-form-urlencode''"
    by code_simp
  moreover have "same_key ''b'' ''B''" "\<not> same_key ''a'' ''B''" unfolding same_key_def by code_simp+
  ultimately show ?thesis
    using params_roundtrip [of ?r "[(''a'', ''1 2''), (''b'', ''x=y'')]" "[]" "''B''" "[]"]
    by (auto simp: new_HttpRequest_def)
qed

end
