(* ===== verification/Servlet.thy ===== *)
theory Servlet
  imports Http
begin

text \<open>
  The servlets and their dispatcher (\<open>src/megalo/http/servlet.h\<close>, \<open>servlet.cc\<close>).

  A servlet is its name and its method \<open>handle\<close>, which transforms the request, the response and
  the session; \<open>None\<close> stands for an exception.  A \<open>Servlet::ptr\<close> is an option, \<open>None\<close> being
  \<open>nullptr\<close>.  The unordered map of exact paths is a HOL map, since the code only looks keys up.
  \<open>fnmatch\<close> of the C library is a parameter.  Every operation of the dispatcher holds the
  mutex for its whole body, so the operations are atomic steps and a history of the dispatcher is
  a list of them.
\<close>

section \<open>Servlets\<close>

type_synonym 's exchange = "HttpRequest \<times> HttpResponse \<times> 's"
type_synonym 's handler = "'s exchange \<Rightarrow> ('s exchange \<times> int) option"

record 's Servlet =
  sv_name :: string
  sv_handle :: "'s handler"

text \<open>An empty \<open>std::function\<close> (\<open>None\<close>) throws when it is called.\<close>

definition new_FunctionServlet :: "'s handler option \<Rightarrow> 's Servlet" where
  "new_FunctionServlet cb =
     \<lparr> sv_name = ''FunctionServlet'', sv_handle = (\<lambda>x. case cb of None \<Rightarrow> None | Some f \<Rightarrow> f x) \<rparr>"

definition NOT_FOUND_BODY :: string where
  "NOT_FOUND_BODY = ''<html><head><title>404 Not Found'' @
     ''</title></head><body><center><h1>404 Not Found</h1></center>'' @
     ''<hr><center>megalo/1.0.0</center></body></html>''"

definition NotFoundServlet_handle :: "'s handler" where
  "NotFoundServlet_handle x =
     (case x of (request, response, session) \<Rightarrow>
        let r1 = response\<lparr>rs_status := 404\<rparr>;
            r2 = rs_setHeader r1 ''Content-type'' ''text/html'';
            r3 = rs_setHeader r2 ''Server'' ''megalo/1.0.0''
        in Some ((request, r3\<lparr>rs_body := NOT_FOUND_BODY\<rparr>, session), 0))"

definition new_NotFoundServlet :: "'s Servlet" where
  "new_NotFoundServlet = \<lparr> sv_name = ''NotFoundServlet'', sv_handle = NotFoundServlet_handle \<rparr>"

section \<open>The dispatcher\<close>

record 's ServletDispatch =
  sd_datas :: "string \<rightharpoonup> 's Servlet option"
  sd_globs :: "(string \<times> 's Servlet option) list"
  sd_default :: "'s Servlet option"

definition new_ServletDispatch :: "'s ServletDispatch" where
  "new_ServletDispatch = \<lparr> sd_datas = Map.empty, sd_globs = [], sd_default = Some new_NotFoundServlet \<rparr>"

definition addServlet :: "'s ServletDispatch \<Rightarrow> string \<Rightarrow> 's Servlet option \<Rightarrow> 's ServletDispatch" where
  "addServlet d uri slt = d\<lparr>sd_datas := (sd_datas d)(uri \<mapsto> slt)\<rparr>"

definition addServlet_cb :: "'s ServletDispatch \<Rightarrow> string \<Rightarrow> 's handler option \<Rightarrow> 's ServletDispatch" where
  "addServlet_cb d uri cb = d\<lparr>sd_datas := (sd_datas d)(uri \<mapsto> Some (new_FunctionServlet cb))\<rparr>"

text \<open>The loop that erases the first entry of a pattern and stops.\<close>

fun erase_glob :: "string \<Rightarrow> (string \<times> 's Servlet option) list \<Rightarrow> (string \<times> 's Servlet option) list" where
  "erase_glob uri [] = []"
| "erase_glob uri ((u, s) # gs) = (if u = uri then gs else (u, s) # erase_glob uri gs)"

definition addGlobServlet :: "'s ServletDispatch \<Rightarrow> string \<Rightarrow> 's Servlet option \<Rightarrow> 's ServletDispatch" where
  "addGlobServlet d uri slt = d\<lparr>sd_globs := erase_glob uri (sd_globs d) @ [(uri, slt)]\<rparr>"

definition addGlobServlet_cb :: "'s ServletDispatch \<Rightarrow> string \<Rightarrow> 's handler option \<Rightarrow> 's ServletDispatch" where
  "addGlobServlet_cb d uri cb = addGlobServlet d uri (Some (new_FunctionServlet cb))"

definition delServlet :: "'s ServletDispatch \<Rightarrow> string \<Rightarrow> 's ServletDispatch" where
  "delServlet d uri = d\<lparr>sd_datas := (sd_datas d)(uri := None)\<rparr>"

definition delGlobServlet :: "'s ServletDispatch \<Rightarrow> string \<Rightarrow> 's ServletDispatch" where
  "delGlobServlet d uri = d\<lparr>sd_globs := erase_glob uri (sd_globs d)\<rparr>"

definition getServlet :: "'s ServletDispatch \<Rightarrow> string \<Rightarrow> 's Servlet option" where
  "getServlet d uri = (case sd_datas d uri of None \<Rightarrow> None | Some s \<Rightarrow> s)"

fun scan_globs :: "(string \<Rightarrow> bool) \<Rightarrow> (string \<times> 's Servlet option) list \<Rightarrow> 's Servlet option \<Rightarrow> 's Servlet option" where
  "scan_globs hit [] d = d"
| "scan_globs hit ((u, s) # gs) d = (if hit u then s else scan_globs hit gs d)"

definition getGlobServlet :: "'s ServletDispatch \<Rightarrow> string \<Rightarrow> 's Servlet option" where
  "getGlobServlet d uri = scan_globs (\<lambda>u. u = uri) (sd_globs d) None"

text \<open>\<open>fnmatch pattern path\<close> is true when the C function returns 0.\<close>

definition getMatchServlet :: "(string \<Rightarrow> string \<Rightarrow> bool) \<Rightarrow> 's ServletDispatch \<Rightarrow> string \<Rightarrow> 's Servlet option" where
  "getMatchServlet fnmatch d uri =
     (case sd_datas d uri of Some s \<Rightarrow> s
      | None \<Rightarrow> scan_globs (\<lambda>u. fnmatch (c_str u) (c_str uri)) (sd_globs d) (sd_default d))"

text \<open>The status of the chosen servlet is dropped, and a null servlet leaves the response alone.\<close>

definition ServletDispatch_handle :: "(string \<Rightarrow> string \<Rightarrow> bool) \<Rightarrow> 's ServletDispatch \<Rightarrow> 's handler" where
  "ServletDispatch_handle fnmatch d x =
     (case x of (request, response, session) \<Rightarrow>
        (case getMatchServlet fnmatch d (rq_path request) of
           None \<Rightarrow> Some (x, 0)
         | Some slt \<Rightarrow> (case sv_handle slt x of None \<Rightarrow> None | Some (x', ret) \<Rightarrow> Some (x', 0))))"

section \<open>Histories\<close>

datatype 's servlet_op =
    AddServlet string "'s Servlet option" | AddServletCb string "'s handler option"
  | AddGlob string "'s Servlet option" | AddGlobCb string "'s handler option"
  | DelServlet string | DelGlob string | SetDefault "'s Servlet option"

primrec servlet_step :: "'s servlet_op \<Rightarrow> 's ServletDispatch \<Rightarrow> 's ServletDispatch" where
  "servlet_step (AddServlet u s) d = addServlet d u s"
| "servlet_step (AddServletCb u c) d = addServlet_cb d u c"
| "servlet_step (AddGlob u s) d = addGlobServlet d u s"
| "servlet_step (AddGlobCb u c) d = addGlobServlet_cb d u c"
| "servlet_step (DelServlet u) d = delServlet d u"
| "servlet_step (DelGlob u) d = delGlobServlet d u"
| "servlet_step (SetDefault s) d = d\<lparr>sd_default := s\<rparr>"

definition servlet_run :: "'s servlet_op list \<Rightarrow> 's ServletDispatch" where
  "servlet_run ops = fold servlet_step ops new_ServletDispatch"

text \<open>
  What the history alone says: the effect of an operation on one exact path, on one pattern, and
  on the default; the last operation that has an effect decides, and patterns are ordered by the
  time of their last registration.
\<close>

fun on_exact :: "string \<Rightarrow> 's servlet_op \<Rightarrow> 's Servlet option option option" where
  "on_exact v (AddServlet u s) = (if u = v then Some (Some s) else None)"
| "on_exact v (AddServletCb u c) = (if u = v then Some (Some (Some (new_FunctionServlet c))) else None)"
| "on_exact v (DelServlet u) = (if u = v then Some None else None)"
| "on_exact v _ = None"

fun on_glob :: "'s servlet_op \<Rightarrow> (string \<times> 's Servlet option option) option" where
  "on_glob (AddGlob u s) = Some (u, Some s)"
| "on_glob (AddGlobCb u c) = Some (u, Some (Some (new_FunctionServlet c)))"
| "on_glob (DelGlob u) = Some (u, None)"
| "on_glob _ = None"

fun on_default :: "'s servlet_op \<Rightarrow> 's Servlet option option" where
  "on_default (SetDefault s) = Some s"
| "on_default _ = None"

fun last_effect :: "('a \<Rightarrow> 'b option) \<Rightarrow> 'b \<Rightarrow> 'a list \<Rightarrow> 'b" where
  "last_effect f d [] = d"
| "last_effect f d (x # xs) = last_effect f (case f x of None \<Rightarrow> d | Some y \<Rightarrow> y) xs"

definition touches :: "string \<Rightarrow> 's servlet_op \<Rightarrow> bool" where
  "touches u op \<longleftrightarrow> (\<exists>r. on_glob op = Some (u, r))"

fun live_globs :: "'s servlet_op list \<Rightarrow> (string \<times> 's Servlet option) list" where
  "live_globs [] = []"
| "live_globs (op # ops) =
     (case on_glob op of
        Some (u, Some s) \<Rightarrow> if \<exists>q \<in> set ops. touches u q then live_globs ops else (u, s) # live_globs ops
      | _ \<Rightarrow> live_globs ops)"

lemma last_effect_snoc: "last_effect f d (xs @ [x]) = (case f x of None \<Rightarrow> last_effect f d xs | Some y \<Rightarrow> y)"
  by (induction xs arbitrary: d) (auto split: option.split)

lemma live_globs_snoc:
  "live_globs (ops @ [op]) =
     (case on_glob op of None \<Rightarrow> live_globs ops
      | Some (u, r) \<Rightarrow> filter (\<lambda>e. fst e \<noteq> u) (live_globs ops) @ (case r of None \<Rightarrow> [] | Some s \<Rightarrow> [(u, s)]))"
  by (induction ops) (auto simp: touches_def split: option.splits)

lemma live_globs_distinct: "distinct (map fst (live_globs ops))"
proof (induction ops rule: rev_induct)
  case (snoc op ops)
  then show ?case by (auto simp: live_globs_snoc distinct_map_filter split: option.splits)
qed simp

lemma erase_glob_filter: "distinct (map fst gs) \<Longrightarrow> erase_glob u gs = filter (\<lambda>e. fst e \<noteq> u) gs"
proof (induction u gs rule: erase_glob.induct)
  case (2 uri u s gs)
  then show ?case by (auto intro!: filter_True [symmetric] simp: image_iff)
qed simp

lemma servlet_run_globs: "sd_globs (servlet_run ops) = live_globs ops"
proof (induction ops rule: rev_induct)
  case (snoc op ops)
  then show ?case using erase_glob_filter [OF live_globs_distinct [of ops]]
    by (cases op) (simp_all add: servlet_run_def live_globs_snoc addServlet_def addServlet_cb_def addGlobServlet_def
      addGlobServlet_cb_def delServlet_def delGlobServlet_def)
qed (simp add: servlet_run_def new_ServletDispatch_def)

lemma servlet_run_exact: "sd_datas (servlet_run ops) u = last_effect (on_exact u) None ops"
proof (induction ops rule: rev_induct)
  case (snoc op ops)
  then show ?case
    by (cases op) (simp_all add: servlet_run_def last_effect_snoc addServlet_def addServlet_cb_def addGlobServlet_def
      addGlobServlet_cb_def delServlet_def delGlobServlet_def)
qed (simp add: servlet_run_def new_ServletDispatch_def)

lemma servlet_run_default: "sd_default (servlet_run ops) = last_effect on_default (Some new_NotFoundServlet) ops"
proof (induction ops rule: rev_induct)
  case (snoc op ops)
  then show ?case
    by (cases op) (simp_all add: servlet_run_def last_effect_snoc addServlet_def addServlet_cb_def addGlobServlet_def
      addGlobServlet_cb_def delServlet_def delGlobServlet_def)
qed (simp add: servlet_run_def new_ServletDispatch_def)

lemma scan_globs_find: "scan_globs hit gs d = (case find (\<lambda>(u, s). hit u) gs of None \<Rightarrow> d | Some (u, s) \<Rightarrow> s)"
  by (induction hit gs d rule: scan_globs.induct) auto

section \<open>Properties\<close>

text \<open>
C34: The dispatcher implements its history.  Whatever sequence of registrations and removals
came before, a path is served by the servlet last registered for exactly that path, when it was
not removed since; otherwise by the first pattern, in the order of their last registrations,
that matches and was not removed since; otherwise by the default.  A pattern is never stored
twice, and \<open>getGlobServlet\<close> finds exactly the stored ones.
\<close>

theorem servlet_dispatch_refines_history:
  "getMatchServlet fnmatch (servlet_run ops) uri =
     (case last_effect (on_exact uri) None ops of Some s \<Rightarrow> s
      | None \<Rightarrow> (case find (\<lambda>(u, s). fnmatch (c_str u) (c_str uri)) (live_globs ops) of
          Some (u, s) \<Rightarrow> s | None \<Rightarrow> last_effect on_default (Some new_NotFoundServlet) ops))
   \<and> distinct (map fst (sd_globs (servlet_run ops)))
   \<and> getGlobServlet (servlet_run ops) uri = (case map_of (live_globs ops) uri of None \<Rightarrow> None | Some s \<Rightarrow> s)"
proof (intro conjI)
  show "getMatchServlet fnmatch (servlet_run ops) uri =
     (case last_effect (on_exact uri) None ops of Some s \<Rightarrow> s
      | None \<Rightarrow> (case find (\<lambda>(u, s). fnmatch (c_str u) (c_str uri)) (live_globs ops) of
          Some (u, s) \<Rightarrow> s | None \<Rightarrow> last_effect on_default (Some new_NotFoundServlet) ops))"
    unfolding getMatchServlet_def servlet_run_exact servlet_run_globs servlet_run_default scan_globs_find ..
  show "distinct (map fst (sd_globs (servlet_run ops)))"
    unfolding servlet_run_globs by (rule live_globs_distinct)
  have "scan_globs (\<lambda>u. u = uri) gs None = (case map_of gs uri of None \<Rightarrow> None | Some s \<Rightarrow> s)" for gs :: "(string \<times> 'a Servlet option) list"
    by (induction gs) auto
  then show "getGlobServlet (servlet_run ops) uri = (case map_of (live_globs ops) uri of None \<Rightarrow> None | Some s \<Rightarrow> s)"
    by (simp add: getGlobServlet_def servlet_run_globs)
qed

end
