(* ===== verification/Ragel.thy ===== *)
theory Ragel
  imports Prelude
begin

text \<open>
  The shape of the two generated HTTP parsers (\<open>src/megalo/http/http11_parser.rl.cc\<close>,
  \<open>httpclient_parser.rl.cc\<close>): a program of labelled blocks joined by \<open>goto\<close>, which reads one
  character per state.  This theory gives the blocks, the loop that runs them and what holds of
  every such program; the blocks themselves are in the two table theories.

  A buffer is the memory block it points to; reading outside of it is an error, as is a failing
  \<open>assert\<close>.
\<close>

datatype parse_error = AssertFailed | OutOfBounds

datatype goto = TR nat | ST nat

text \<open>
  \<open>Tr n acts t\<close>: the label \<open>trn\<close>, its actions, then \<open>goto stt\<close>.  \<open>St n wide tests other\<close>: the
  label \<open>case n\<close>; whether it widens the character first, its tests as ranges in order, and the
  last \<open>goto\<close>.
\<close>

datatype 'a block =
    Tr nat "'a list" nat
  | St nat bool "(int \<times> int \<times> goto) list" goto

text \<open>The value of a \<open>char\<close>, which is signed.\<close>

definition char_value :: "char \<Rightarrow> int" where
  "char_value c = (let n = of_char c :: nat in if n < 128 then int n else int n - 256)"

fun goto_of :: "(int \<times> int \<times> goto) list \<Rightarrow> goto \<Rightarrow> int \<Rightarrow> goto" where
  "goto_of [] other w = other"
| "goto_of ((lo, hi, g) # tests) other w = (if lo \<le> w \<and> w \<le> hi then g else goto_of tests other w)"

fun st_of :: "'a block list \<Rightarrow> nat \<Rightarrow> (bool \<times> (int \<times> int \<times> goto) list \<times> goto) option" where
  "st_of [] n = None"
| "st_of (St k wide tests other # bs) n = (if k = n then Some (wide, tests, other) else st_of bs n)"
| "st_of (Tr k acts t # bs) n = st_of bs n"

fun tr_of :: "'a block list \<Rightarrow> nat \<Rightarrow> 'a list \<times> nat" where
  "tr_of [] n = ([], 0)"
| "tr_of (Tr k acts t # bs) n = (if k = n then (acts, t) else tr_of bs n)"
| "tr_of (St k wide tests other # bs) n = tr_of bs n"

text \<open>Where a \<open>goto\<close> leads: the actions on the way and the state.\<close>

fun edge_of :: "'a block list \<Rightarrow> goto \<Rightarrow> 'a list \<times> nat" where
  "edge_of code (ST n) = ([], n)"
| "edge_of code (TR n) = tr_of code n"

fun run_actions :: "(nat \<Rightarrow> 'a \<Rightarrow> 's \<Rightarrow> parse_error + 's) \<Rightarrow> nat \<Rightarrow> 'a list \<Rightarrow> 's \<Rightarrow> parse_error + 's" where
  "run_actions act p [] s = Inr s"
| "run_actions act p (a # as) s = result_bind (act p a s) (run_actions act p as)"

text \<open>
  The loop, from \<open>case cs\<close> with the cursor at \<open>p\<close>.  At the end of the data (\<open>_test_eof\<close>) it
  stops in the current state; a state the switch does not list falls through to the code behind
  it, which sets state 2; \<open>goto st0\<close> stops in state 0 on the offending character; an action that
  breaks (\<open>fbreak\<close>) stops behind the character.  The result is the parser, the state and the cursor.
\<close>

function ragel_loop ::
  "'a block list \<Rightarrow> ('s \<Rightarrow> int \<Rightarrow> int) \<Rightarrow> (nat \<Rightarrow> 'a \<Rightarrow> 's \<Rightarrow> parse_error + 's) \<Rightarrow> ('a \<Rightarrow> bool) \<Rightarrow>
   string \<Rightarrow> nat \<Rightarrow> nat \<Rightarrow> nat \<Rightarrow> 's \<Rightarrow> parse_error + ('s \<times> nat \<times> nat)" where
  "ragel_loop code widen act breaks mem pe cs p s =
     (if p \<ge> pe then Inr (s, cs, p)
      else case st_of code cs of
        None \<Rightarrow> Inr (s, 2, p)
      | Some (wide, tests, other) \<Rightarrow>
          if p \<ge> length mem then Inl OutOfBounds
          else
            let c = char_value (mem ! p);
                e = edge_of code (goto_of tests other (if wide then widen s c else c))
            in (if e = ([], 0) then Inr (s, 0, p)
                else result_bind (run_actions act p (fst e) s) (\<lambda>s'.
                  if list_ex breaks (fst e) then Inr (s', snd e, p + 1)
                  else ragel_loop code widen act breaks mem pe (snd e) (p + 1) s')))"
  by pat_completeness auto
termination
  by (relation "measure (\<lambda>(code, widen, act, breaks, mem, pe, cs, p, s). pe - p)") auto

declare ragel_loop.simps [simp del]

text \<open>
  Callbacks (\<open>src/megalo/http/http11_common.h\<close>) transform the user data; a null callback is
  \<open>None\<close>.  A callback gets the memory from its pointer on and the length; handing it a range that
  is not inside the buffer is an error.
\<close>

type_synonym 'd element_cb = "('d \<Rightarrow> string \<Rightarrow> nat \<Rightarrow> 'd) option"
type_synonym 'd field_cb = "('d \<Rightarrow> string \<Rightarrow> nat \<Rightarrow> string \<Rightarrow> nat \<Rightarrow> 'd) option"

definition apply_element :: "string \<Rightarrow> nat \<Rightarrow> nat \<Rightarrow> 'd element_cb \<Rightarrow> 'd \<Rightarrow> parse_error + 'd" where
  "apply_element mem at n cb d =
     (case cb of None \<Rightarrow> Inr d
      | Some f \<Rightarrow> if at + n \<le> length mem then Inr (f d (drop at mem) n) else Inl OutOfBounds)"

definition apply_field :: "string \<Rightarrow> nat \<Rightarrow> nat \<Rightarrow> nat \<Rightarrow> nat \<Rightarrow> 'd field_cb \<Rightarrow> 'd \<Rightarrow> parse_error + 'd" where
  "apply_field mem fld flen val vlen cb d =
     (case cb of None \<Rightarrow> Inr d
      | Some f \<Rightarrow> if fld + flen \<le> length mem \<and> val + vlen \<le> length mem
                  then Inr (f d (drop fld mem) flen (drop val mem) vlen) else Inl OutOfBounds)"

lemma apply_element_ok: "at + n \<le> length mem \<Longrightarrow> \<exists>d'. apply_element mem at n cb d = Inr d'"
  by (simp add: apply_element_def split: option.split)

lemma apply_field_ok:
  "fld + flen \<le> length mem \<Longrightarrow> val + vlen \<le> length mem \<Longrightarrow> \<exists>d'. apply_field mem fld flen val vlen cb d = Inr d'"
  by (simp add: apply_field_def split: option.split)

text \<open>Subtraction that need not wrap is evaluated without large naturals.\<close>

lemma size_sub_code [code]:
  "size_sub a b = (if b \<le> a \<and> int a < 2 ^ 64 then a - b
     else if int b \<le> int a + 2 ^ 64 then nat ((int a + 2 ^ 64 - int b) mod 2 ^ 64) else 0)"
proof -
  have "b \<le> a \<and> int a < 2 ^ 64 \<Longrightarrow> size_sub a b = a - b"
    using size_sub_le [of b a] by simp
  moreover have "int b \<le> int a + 2 ^ 64 \<Longrightarrow> size_sub a b = nat ((int a + 2 ^ 64 - int b) mod 2 ^ 64)"
  proof -
    assume "int b \<le> int a + 2 ^ 64"
    then have "int (a + 2 ^ 64 - b) = int a + 2 ^ 64 - int b" by (simp add: of_nat_diff)
    then have "int (size_sub a b) = (int a + 2 ^ 64 - int b) mod 2 ^ 64" by (simp only: size_sub_def zmod_int) simp
    then show ?thesis by (metis nat_int)
  qed
  moreover have "\<not> int b \<le> int a + 2 ^ 64 \<Longrightarrow> size_sub a b = 0" by (simp add: size_sub_def)
  ultimately show ?thesis by presburger
qed

section \<open>What holds of every program\<close>

lemma st_of_block: "st_of code n = Some (wide, tests, other) \<Longrightarrow> St n wide tests other \<in> set code"
  by (induction code n rule: st_of.induct) (auto split: if_splits)

lemma tr_of_block: "tr_of code n = (acts, t) \<Longrightarrow> (acts, t) = ([], 0) \<or> Tr n acts t \<in> set code"
  by (induction code n rule: tr_of.induct) (auto split: if_splits)

lemma goto_of_range: "goto_of tests other w \<in> insert other ((\<lambda>(lo, hi, g). g) ` set tests)"
  by (induction tests other w rule: goto_of.induct) auto

text \<open>
  A property of state, cursor and parser that the edges carry from the state at \<open>p\<close> to the next
  state at \<open>p + 1\<close> holds when the loop stops, and the loop stops without an error: at the end of
  the data, in a final state an action broke off in, or on a character the state rejects.
\<close>

locale ragel_invariant =
  fixes code :: "'a block list" and widen :: "'s \<Rightarrow> int \<Rightarrow> int"
    and act :: "nat \<Rightarrow> 'a \<Rightarrow> 's \<Rightarrow> parse_error + 's" and breaks :: "'a \<Rightarrow> bool"
    and mem :: string and pe :: nat and inv :: "nat \<Rightarrow> nat \<Rightarrow> 's \<Rightarrow> bool" and final :: "nat \<Rightarrow> bool"
  assumes in_mem: "inv cs p s \<Longrightarrow> pe \<le> length mem"
    and known: "inv cs p s \<Longrightarrow> st_of code cs \<noteq> None"
    and edge: "st_of code cs = Some (wide, tests, other) \<Longrightarrow> p < pe \<Longrightarrow> inv cs p s \<Longrightarrow>
      edge_of code (goto_of tests other w) = (acts, t) \<Longrightarrow> (acts, t) \<noteq> ([], 0) \<Longrightarrow>
      \<exists>s'. run_actions act p acts s = Inr s' \<and> inv t (p + 1) s' \<and> (list_ex breaks acts \<longrightarrow> final t)"
begin

lemma loop_step:
  assumes "inv cs p s" and p: "p < pe"
  obtains (reject) "ragel_loop code widen act breaks mem pe cs p s = Inr (s, 0, p)"
  | (stop) s' t where "ragel_loop code widen act breaks mem pe cs p s = Inr (s', t, p + 1)" "inv t (p + 1) s'" "final t"
  | (go) s' t where "ragel_loop code widen act breaks mem pe cs p s = ragel_loop code widen act breaks mem pe t (p + 1) s'"
      "inv t (p + 1) s'"
proof -
  obtain wide tests other where st: "st_of code cs = Some (wide, tests, other)"
    using known [OF assms(1)] by auto
  let ?w = "if wide then widen s (char_value (mem ! p)) else char_value (mem ! p)"
  obtain acts t where e: "edge_of code (goto_of tests other ?w) = (acts, t)" by fastforce
  have np: "\<not> pe \<le> p" "\<not> length mem \<le> p" using p in_mem [OF assms(1)] by simp_all
  have step: "ragel_loop code widen act breaks mem pe cs p s =
    (if (acts, t) = ([], 0) then Inr (s, 0, p)
     else result_bind (run_actions act p acts s) (\<lambda>s'.
       if list_ex breaks acts then Inr (s', t, p + 1) else ragel_loop code widen act breaks mem pe t (p + 1) s'))"
    using np by (subst ragel_loop.simps) (simp only: st e Let_def if_False option.case prod.case fst_conv snd_conv)
  show thesis
  proof (cases "(acts, t) = ([], 0)")
    case True
    then show thesis using step reject by (simp only: if_True simp_thms)
  next
    case False
    obtain s' where s': "run_actions act p acts s = Inr s'" "inv t (p + 1) s'" "list_ex breaks acts \<longrightarrow> final t"
      using edge [OF st p assms(1) e False] by blast
    show thesis
    proof (cases "list_ex breaks acts")
      case True
      then show thesis using step False s' stop by (simp only: if_False if_True result_bind_simps)
    next
      case noBreak: False
      then show thesis using step False s' go by (simp only: if_False result_bind_simps)
    qed
  qed
qed

lemma loop_ok:
  "inv cs p s \<Longrightarrow> p \<le> pe \<Longrightarrow>
   \<exists>s' cs' p' q. ragel_loop code widen act breaks mem pe cs p s = Inr (s', cs', p')
     \<and> p \<le> p' \<and> p' \<le> pe \<and> inv q p' s' \<and> (cs' = 0 \<or> cs' = q \<and> (p' = pe \<or> final q))"
proof (induction "pe - p" arbitrary: cs p s rule: less_induct)
  case less
  show ?case
  proof (cases "p < pe")
    case True
    from less.prems(1) True show ?thesis
    proof (cases rule: loop_step)
      case reject
      then show ?thesis using less.prems by blast
    next
      case (stop s' t)
      then show ?thesis using True by (metis Suc_eq_plus1 Suc_leI le_add1)
    next
      case (go s' t)
      have "pe - (p + 1) < pe - p" "p + 1 \<le> pe" using True by simp_all
      from less.hyps [OF this(1) go(2) this(2)] show ?thesis unfolding go(1) by (metis add_leD1)
    qed
  next
    case False
    then have "ragel_loop code widen act breaks mem pe cs p s = Inr (s, cs, p)"
      by (subst ragel_loop.simps) simp
    then show ?thesis using less.prems False by (metis le_antisym not_less order_refl)
  qed
qed

end

end
