(* ===== verification/Http11Tables.thy ===== *)
theory Http11Tables
  imports Ragel
begin

text \<open>
  The request automaton, block by block in the order of \<open>src/megalo/http/http11_parser.rl.cc\<close>:
  \<open>Tr n\<close> is the label \<open>trn\<close> with its actions and the state it goes to, \<open>St n\<close> the label \<open>case n\<close> with
  its tests on the (possibly widened) character and its last \<open>goto\<close>.  The nested comparisons of a
  state are written as ranges, those that lead where the last \<open>goto\<close> leads being left out.
\<close>

datatype request_action =
    Mark | StartField | WriteField | StartValue | WriteValue | RequestMethod | RequestUri | Fragment
  | StartQuery | QueryString | HttpVersion | RequestPath | Done | Xml | Json

definition http11_code_1 :: "request_action block list" where
  "http11_code_1 = [
     St 1 False [(48, 57, TR 0), (60, 60, TR 2), (64, 64, TR 3), (65, 90, TR 0)] (ST 0),
     Tr 0 [Mark] 2,
     St 2 False [(32, 32, TR 4), (48, 57, ST 175), (65, 90, ST 175)] (ST 0),
     Tr 4 [RequestMethod] 3,
     St 3 True [(32, 32, TR 6), (33, 33, TR 7), (35, 35, TR 8), (36, 36, TR 7), (37, 37, TR 9),
       (38, 46, TR 7), (47, 47, TR 10), (48, 57, TR 7), (59, 59, TR 7), (61, 61, TR 7),
       (63, 63, TR 11), (64, 64, TR 7), (65, 90, TR 12), (95, 95, TR 7), (97, 122, TR 12),
       (126, 126, TR 7), (606, 606, TR 7), (635, 635, TR 7), (637, 637, TR 7)] (ST 0),
     Tr 6 [Mark, RequestPath, RequestUri] 4,
     Tr 37 [RequestPath, RequestUri] 4,
     Tr 43 [Mark, Fragment] 4,
     Tr 46 [Fragment] 4,
     Tr 53 [StartQuery, QueryString, RequestUri] 4]"

definition http11_code_2 :: "request_action block list" where
  "http11_code_2 = [
     Tr 57 [QueryString, RequestUri] 4,
     St 4 False [(72, 72, TR 13)] (ST 0),
     Tr 13 [Mark] 5,
     St 5 False [(84, 84, ST 6)] (ST 0),
     St 6 False [(84, 84, ST 7)] (ST 0),
     St 7 False [(80, 80, ST 8)] (ST 0),
     St 8 False [(47, 47, ST 9)] (ST 0),
     St 9 False [(49, 49, ST 10)] (ST 0),
     St 10 False [(46, 46, ST 11)] (ST 0),
     St 11 False [(48, 49, ST 12)] (ST 0),
     St 12 False [(10, 10, TR 21), (13, 13, TR 22)] (ST 0),
     Tr 21 [HttpVersion] 13,
     Tr 30 [StartValue, WriteValue] 13,
     Tr 33 [WriteValue] 13,
     St 13 False [(1, 8, TR 23), (10, 10, TR 24), (11, 12, TR 23), (13, 13, TR 25), (14, 31, TR 23),
       (33, 33, TR 23), (35, 39, TR 23), (42, 43, TR 23), (45, 46, TR 23), (48, 57, TR 23),
       (65, 90, TR 23), (94, 122, TR 23), (124, 124, TR 23), (126, 126, TR 23)] (ST 0)]"

definition http11_code_3 :: "request_action block list" where
  "http11_code_3 = [
     Tr 23 [StartField] 14,
     St 14 False [(1, 8, ST 14), (10, 31, ST 14), (33, 33, ST 14), (35, 39, ST 14), (42, 43, ST 14),
       (45, 46, ST 14), (48, 57, ST 14), (58, 58, TR 27), (65, 90, ST 14), (94, 122, ST 14),
       (124, 124, ST 14), (126, 126, ST 14)] (ST 0),
     Tr 27 [WriteField] 15,
     Tr 29 [StartValue] 15,
     St 15 False [(0, 0, ST 0), (9, 9, TR 29), (10, 10, TR 30), (13, 13, TR 31), (32, 32, TR 29),
       (127, 127, ST 0)] (TR 28),
     Tr 28 [StartValue] 16,
     St 16 False [(0, 0, ST 0), (10, 10, TR 33), (13, 13, TR 34), (127, 127, ST 0)] (ST 16),
     Tr 22 [HttpVersion] 17,
     Tr 31 [StartValue, WriteValue] 17,
     Tr 34 [WriteValue] 17,
     St 17 False [(10, 10, ST 13)] (ST 0),
     Tr 24 [StartField, Done] 348]"

definition http11_code_4 :: "request_action block list" where
  "http11_code_4 = [
     Tr 36 [Done] 348,
     St 348 False [(1, 8, ST 14), (10, 31, ST 14), (33, 33, ST 14), (35, 39, ST 14),
       (42, 43, ST 14), (45, 46, ST 14), (48, 57, ST 14), (58, 58, TR 27), (65, 90, ST 14),
       (94, 122, ST 14), (124, 124, ST 14), (126, 126, ST 14)] (ST 0),
     Tr 25 [StartField] 18,
     St 18 False [(1, 8, ST 14), (10, 10, TR 36), (11, 31, ST 14), (33, 33, ST 14), (35, 39, ST 14),
       (42, 43, ST 14), (45, 46, ST 14), (48, 57, ST 14), (58, 58, TR 27), (65, 90, ST 14),
       (94, 122, ST 14), (124, 124, ST 14), (126, 126, ST 14)] (ST 0),
     Tr 7 [Mark] 19]"

definition http11_code_5 :: "request_action block list" where
  "http11_code_5 = [
     St 19 True [(32, 32, TR 37), (33, 33, ST 19), (35, 35, TR 39), (36, 36, ST 19),
       (37, 37, ST 24), (38, 46, ST 19), (47, 47, ST 26), (48, 57, ST 19), (59, 59, ST 19),
       (61, 61, ST 19), (63, 63, TR 42), (64, 90, ST 19), (95, 95, ST 19), (97, 122, ST 19),
       (126, 126, ST 19), (606, 606, ST 19), (635, 635, ST 19), (637, 637, ST 19)] (ST 0),
     Tr 8 [Mark, RequestPath, RequestUri] 20,
     Tr 39 [RequestPath, RequestUri] 20,
     Tr 55 [StartQuery, QueryString, RequestUri] 20,
     Tr 59 [QueryString, RequestUri] 20]"

definition http11_code_6 :: "request_action block list" where
  "http11_code_6 = [
     St 20 True [(32, 32, TR 43), (33, 33, TR 44), (36, 36, TR 44), (37, 37, TR 45),
       (38, 59, TR 44), (61, 61, TR 44), (63, 90, TR 44), (95, 95, TR 44), (97, 122, TR 44),
       (126, 126, TR 44), (606, 606, TR 44), (635, 635, TR 44), (637, 637, TR 44)] (ST 0),
     Tr 44 [Mark] 21,
     St 21 True [(32, 32, TR 46), (33, 33, ST 21), (36, 36, ST 21), (37, 37, ST 22),
       (38, 59, ST 21), (61, 61, ST 21), (63, 90, ST 21), (95, 95, ST 21), (97, 122, ST 21),
       (126, 126, ST 21), (606, 606, ST 21), (635, 635, ST 21), (637, 637, ST 21)] (ST 0),
     Tr 45 [Mark] 22,
     St 22 False [(48, 57, ST 23), (65, 70, ST 23), (97, 102, ST 23)] (ST 0),
     St 23 False [(48, 57, ST 21), (65, 70, ST 21), (97, 102, ST 21)] (ST 0),
     Tr 9 [Mark] 24,
     St 24 False [(48, 57, ST 25), (65, 70, ST 25), (97, 102, ST 25)] (ST 0)]"

definition http11_code_7 :: "request_action block list" where
  "http11_code_7 = [
     St 25 False [(48, 57, ST 19), (65, 70, ST 19), (97, 102, ST 19)] (ST 0),
     Tr 203 [Mark] 26,
     St 26 True [(32, 32, TR 37), (33, 33, ST 26), (35, 35, TR 39), (36, 36, ST 26),
       (37, 37, ST 27), (38, 59, ST 26), (61, 61, ST 26), (63, 63, TR 42), (64, 90, ST 26),
       (95, 95, ST 26), (97, 122, ST 26), (126, 126, ST 26), (606, 606, ST 26), (635, 635, ST 26),
       (637, 637, ST 26)] (ST 0),
     Tr 204 [Mark] 27,
     St 27 False [(48, 57, ST 28), (65, 70, ST 28), (97, 102, ST 28)] (ST 0),
     St 28 False [(48, 57, ST 26), (65, 70, ST 26), (97, 102, ST 26)] (ST 0),
     Tr 11 [Mark, RequestPath] 29,
     Tr 42 [RequestPath] 29]"

definition http11_code_8 :: "request_action block list" where
  "http11_code_8 = [
     St 29 True [(32, 32, TR 53), (33, 33, TR 54), (35, 35, TR 55), (36, 36, TR 54),
       (37, 37, TR 56), (38, 59, TR 54), (61, 61, TR 54), (63, 90, TR 54), (95, 95, TR 54),
       (97, 122, TR 54), (126, 126, TR 54), (606, 606, TR 54), (635, 635, TR 54), (637, 637, TR 54)]
       (ST 0),
     Tr 54 [StartQuery] 30,
     St 30 True [(32, 32, TR 57), (33, 33, ST 30), (35, 35, TR 59), (36, 36, ST 30),
       (37, 37, ST 31), (38, 59, ST 30), (61, 61, ST 30), (63, 90, ST 30), (95, 95, ST 30),
       (97, 122, ST 30), (126, 126, ST 30), (606, 606, ST 30), (635, 635, ST 30), (637, 637, ST 30)]
       (ST 0),
     Tr 56 [StartQuery] 31,
     St 31 False [(48, 57, ST 32), (65, 70, ST 32), (97, 102, ST 32)] (ST 0),
     St 32 False [(48, 57, ST 30), (65, 70, ST 30), (97, 102, ST 30)] (ST 0),
     Tr 10 [Mark] 33]"

definition http11_code_9 :: "request_action block list" where
  "http11_code_9 = [
     St 33 True [(32, 32, TR 37), (33, 33, ST 26), (35, 35, TR 39), (36, 36, ST 26),
       (37, 37, ST 27), (38, 46, ST 26), (47, 47, ST 34), (48, 59, ST 26), (61, 61, ST 26),
       (63, 63, TR 42), (64, 90, ST 26), (95, 95, ST 26), (97, 122, ST 26), (126, 126, ST 26),
       (606, 606, ST 26), (635, 635, ST 26), (637, 637, ST 26)] (ST 0),
     St 34 True [(32, 32, TR 37), (33, 33, ST 35), (35, 35, TR 39), (36, 36, ST 35),
       (37, 37, ST 36), (38, 46, ST 35), (47, 47, ST 26), (48, 57, ST 35), (58, 58, ST 38),
       (59, 59, ST 35), (61, 61, ST 35), (63, 63, TR 42), (64, 64, ST 42), (65, 90, ST 35),
       (91, 91, ST 47), (95, 95, ST 35), (97, 122, ST 35), (126, 126, ST 35), (606, 606, ST 35),
       (635, 635, ST 35), (637, 637, ST 35)] (ST 0)]"

definition http11_code_10 :: "request_action block list" where
  "http11_code_10 = [
     St 35 True [(32, 32, TR 37), (33, 33, ST 35), (35, 35, TR 39), (36, 36, ST 35),
       (37, 37, ST 36), (38, 46, ST 35), (47, 47, ST 26), (48, 57, ST 35), (58, 58, ST 38),
       (59, 59, ST 35), (61, 61, ST 35), (63, 63, TR 42), (64, 64, ST 42), (65, 90, ST 35),
       (95, 95, ST 35), (97, 122, ST 35), (126, 126, ST 35), (606, 606, ST 35), (635, 635, ST 35),
       (637, 637, ST 35)] (ST 0),
     St 36 False [(48, 57, ST 37), (65, 70, ST 37), (97, 102, ST 37)] (ST 0),
     St 37 False [(48, 57, ST 35), (65, 70, ST 35), (97, 102, ST 35)] (ST 0),
     St 38 True [(32, 32, TR 37), (33, 33, ST 39), (35, 35, TR 39), (36, 36, ST 39),
       (37, 37, ST 40), (38, 46, ST 39), (47, 47, ST 26), (48, 57, ST 38), (58, 59, ST 39),
       (61, 61, ST 39), (63, 63, TR 42), (64, 64, ST 42), (65, 90, ST 39), (95, 95, ST 39),
       (97, 122, ST 39), (126, 126, ST 39), (606, 606, ST 39), (635, 635, ST 39), (637, 637, ST 39)]
       (ST 0)]"

definition http11_code_11 :: "request_action block list" where
  "http11_code_11 = [
     St 39 True [(33, 33, ST 39), (36, 36, ST 39), (37, 37, ST 40), (38, 46, ST 39),
       (48, 59, ST 39), (61, 61, ST 39), (64, 64, ST 42), (65, 90, ST 39), (95, 95, ST 39),
       (97, 122, ST 39), (126, 126, ST 39), (606, 606, ST 39), (635, 635, ST 39), (637, 637, ST 39)]
       (ST 0),
     St 40 False [(48, 57, ST 41), (65, 70, ST 41), (97, 102, ST 41)] (ST 0),
     St 41 False [(48, 57, ST 39), (65, 70, ST 39), (97, 102, ST 39)] (ST 0),
     St 42 True [(32, 32, TR 37), (33, 33, ST 43), (35, 35, TR 39), (36, 36, ST 43),
       (37, 37, ST 44), (38, 46, ST 43), (47, 47, ST 26), (48, 57, ST 43), (58, 58, ST 46),
       (59, 59, ST 43), (61, 61, ST 43), (63, 63, TR 42), (65, 90, ST 43), (91, 91, ST 47),
       (95, 95, ST 43), (97, 122, ST 43), (126, 126, ST 43), (606, 606, ST 43), (635, 635, ST 43),
       (637, 637, ST 43)] (ST 0)]"

definition http11_code_12 :: "request_action block list" where
  "http11_code_12 = [
     St 43 True [(32, 32, TR 37), (33, 33, ST 43), (35, 35, TR 39), (36, 36, ST 43),
       (37, 37, ST 44), (38, 46, ST 43), (47, 47, ST 26), (48, 57, ST 43), (58, 58, ST 46),
       (59, 59, ST 43), (61, 61, ST 43), (63, 63, TR 42), (65, 90, ST 43), (95, 95, ST 43),
       (97, 122, ST 43), (126, 126, ST 43), (606, 606, ST 43), (635, 635, ST 43), (637, 637, ST 43)]
       (ST 0),
     St 44 False [(48, 57, ST 45), (65, 70, ST 45), (97, 102, ST 45)] (ST 0),
     St 45 False [(48, 57, ST 43), (65, 70, ST 43), (97, 102, ST 43)] (ST 0),
     St 46 False [(32, 32, TR 37), (35, 35, TR 39), (47, 47, ST 26), (48, 57, ST 46),
       (63, 63, TR 42)] (ST 0),
     St 47 False [(6, 6, ST 48), (48, 57, ST 91), (58, 58, ST 167), (65, 70, ST 91),
       (97, 102, ST 91), (118, 118, ST 169)] (ST 0),
     St 48 False [(48, 57, ST 49), (65, 70, ST 49), (97, 102, ST 49)] (ST 0),
     St 49 False [(48, 57, ST 50), (58, 58, ST 53), (65, 70, ST 50), (97, 102, ST 50)] (ST 0)]"

definition http11_code_13 :: "request_action block list" where
  "http11_code_13 = [
     St 50 False [(48, 57, ST 51), (58, 58, ST 53), (65, 70, ST 51), (97, 102, ST 51)] (ST 0),
     St 51 False [(48, 57, ST 52), (58, 58, ST 53), (65, 70, ST 52), (97, 102, ST 52)] (ST 0),
     St 52 False [(58, 58, ST 53)] (ST 0),
     St 53 False [(48, 48, ST 54), (49, 49, ST 84), (50, 50, ST 87), (51, 57, ST 54),
       (65, 70, ST 90), (97, 102, ST 90)] (ST 0),
     St 54 False [(46, 46, ST 55), (48, 57, ST 77), (58, 58, ST 80), (65, 70, ST 77),
       (97, 102, ST 77)] (ST 0),
     St 55 False [(48, 48, ST 56), (49, 49, ST 72), (50, 50, ST 74), (51, 57, ST 56)] (ST 0),
     St 56 False [(46, 46, ST 57)] (ST 0),
     St 57 False [(48, 48, ST 58), (49, 49, ST 67), (50, 50, ST 69), (51, 57, ST 58)] (ST 0),
     St 58 False [(46, 46, ST 59)] (ST 0),
     St 59 False [(48, 48, ST 60), (49, 49, ST 62), (50, 50, ST 64), (51, 57, ST 60)] (ST 0),
     St 60 False [(93, 93, ST 61)] (ST 0),
     St 61 False [(32, 32, TR 37), (35, 35, TR 39), (47, 47, ST 26), (58, 58, ST 46),
       (63, 63, TR 42)] (ST 0)]"

definition http11_code_14 :: "request_action block list" where
  "http11_code_14 = [
     St 62 False [(48, 57, ST 63), (93, 93, ST 61)] (ST 0),
     St 63 False [(48, 57, ST 60), (93, 93, ST 61)] (ST 0),
     St 64 False [(48, 48, ST 65), (53, 53, ST 66), (93, 93, ST 61)] (ST 0),
     St 65 False [(48, 57, ST 60)] (ST 0),
     St 66 False [(48, 48, ST 60)] (ST 0),
     St 67 False [(46, 46, ST 59), (48, 57, ST 68)] (ST 0),
     St 68 False [(46, 46, ST 59), (48, 57, ST 58)] (ST 0),
     St 69 False [(46, 46, ST 59), (48, 48, ST 70), (53, 53, ST 71)] (ST 0),
     St 70 False [(48, 57, ST 58)] (ST 0),
     St 71 False [(48, 48, ST 58)] (ST 0),
     St 72 False [(46, 46, ST 57), (48, 57, ST 73)] (ST 0),
     St 73 False [(46, 46, ST 57), (48, 57, ST 56)] (ST 0),
     St 74 False [(46, 46, ST 57), (48, 48, ST 75), (53, 53, ST 76)] (ST 0),
     St 75 False [(48, 57, ST 56)] (ST 0),
     St 76 False [(48, 48, ST 56)] (ST 0),
     St 77 False [(48, 57, ST 78), (58, 58, ST 80), (65, 70, ST 78), (97, 102, ST 78)] (ST 0)]"

definition http11_code_15 :: "request_action block list" where
  "http11_code_15 = [
     St 78 False [(48, 57, ST 79), (58, 58, ST 80), (65, 70, ST 79), (97, 102, ST 79)] (ST 0),
     St 79 False [(58, 58, ST 80)] (ST 0),
     St 80 False [(48, 57, ST 81), (65, 70, ST 81), (97, 102, ST 81)] (ST 0),
     St 81 False [(48, 57, ST 82), (65, 70, ST 82), (93, 93, ST 61), (97, 102, ST 82)] (ST 0),
     St 82 False [(48, 57, ST 83), (65, 70, ST 83), (93, 93, ST 61), (97, 102, ST 83)] (ST 0),
     St 83 False [(48, 57, ST 60), (65, 70, ST 60), (93, 93, ST 61), (97, 102, ST 60)] (ST 0),
     St 84 False [(46, 46, ST 55), (48, 57, ST 85), (58, 58, ST 80), (65, 70, ST 77),
       (97, 102, ST 77)] (ST 0),
     St 85 False [(46, 46, ST 55), (48, 57, ST 86), (58, 58, ST 80), (65, 70, ST 78),
       (97, 102, ST 78)] (ST 0),
     St 86 False [(46, 46, ST 55), (48, 57, ST 79), (58, 58, ST 80), (65, 70, ST 79),
       (97, 102, ST 79)] (ST 0)]"

definition http11_code_16 :: "request_action block list" where
  "http11_code_16 = [
     St 87 False [(46, 46, ST 55), (48, 48, ST 88), (49, 52, ST 77), (53, 53, ST 89),
       (54, 57, ST 77), (58, 58, ST 80), (65, 70, ST 77), (97, 102, ST 77)] (ST 0),
     St 88 False [(48, 57, ST 86), (58, 58, ST 80), (65, 70, ST 78), (97, 102, ST 78)] (ST 0),
     St 89 False [(48, 48, ST 86), (49, 57, ST 78), (58, 58, ST 80), (65, 70, ST 78),
       (97, 102, ST 78)] (ST 0),
     St 90 False [(48, 57, ST 77), (58, 58, ST 80), (65, 70, ST 77), (97, 102, ST 77)] (ST 0),
     St 91 False [(48, 57, ST 92), (58, 58, ST 95), (65, 70, ST 92), (97, 102, ST 92)] (ST 0),
     St 92 False [(48, 57, ST 93), (58, 58, ST 95), (65, 70, ST 93), (97, 102, ST 93)] (ST 0),
     St 93 False [(48, 57, ST 94), (58, 58, ST 95), (65, 70, ST 94), (97, 102, ST 94)] (ST 0),
     St 94 False [(58, 58, ST 95)] (ST 0),
     St 95 False [(48, 57, ST 96), (58, 58, ST 166), (65, 70, ST 96), (97, 102, ST 96)] (ST 0)]"

definition http11_code_17 :: "request_action block list" where
  "http11_code_17 = [
     St 96 False [(48, 57, ST 97), (58, 58, ST 100), (65, 70, ST 97), (97, 102, ST 97)] (ST 0),
     St 97 False [(48, 57, ST 98), (58, 58, ST 100), (65, 70, ST 98), (97, 102, ST 98)] (ST 0),
     St 98 False [(48, 57, ST 99), (58, 58, ST 100), (65, 70, ST 99), (97, 102, ST 99)] (ST 0),
     St 99 False [(58, 58, ST 100)] (ST 0),
     St 100 False [(48, 57, ST 101), (58, 58, ST 165), (65, 70, ST 101), (97, 102, ST 101)] (ST 0),
     St 101 False [(48, 57, ST 102), (58, 58, ST 105), (65, 70, ST 102), (97, 102, ST 102)] (ST 0),
     St 102 False [(48, 57, ST 103), (58, 58, ST 105), (65, 70, ST 103), (97, 102, ST 103)] (ST 0),
     St 103 False [(48, 57, ST 104), (58, 58, ST 105), (65, 70, ST 104), (97, 102, ST 104)] (ST 0),
     St 104 False [(58, 58, ST 105)] (ST 0),
     St 105 False [(48, 57, ST 106), (58, 58, ST 164), (65, 70, ST 106), (97, 102, ST 106)] (ST 0)]"

definition http11_code_18 :: "request_action block list" where
  "http11_code_18 = [
     St 106 False [(48, 57, ST 107), (58, 58, ST 110), (65, 70, ST 107), (97, 102, ST 107)] (ST 0),
     St 107 False [(48, 57, ST 108), (58, 58, ST 110), (65, 70, ST 108), (97, 102, ST 108)] (ST 0),
     St 108 False [(48, 57, ST 109), (58, 58, ST 110), (65, 70, ST 109), (97, 102, ST 109)] (ST 0),
     St 109 False [(58, 58, ST 110)] (ST 0),
     St 110 False [(48, 57, ST 111), (58, 58, ST 163), (65, 70, ST 111), (97, 102, ST 111)] (ST 0),
     St 111 False [(48, 57, ST 112), (58, 58, ST 115), (65, 70, ST 112), (97, 102, ST 112)] (ST 0),
     St 112 False [(48, 57, ST 113), (58, 58, ST 115), (65, 70, ST 113), (97, 102, ST 113)] (ST 0),
     St 113 False [(48, 57, ST 114), (58, 58, ST 115), (65, 70, ST 114), (97, 102, ST 114)] (ST 0),
     St 114 False [(58, 58, ST 115)] (ST 0),
     St 115 False [(48, 57, ST 116), (58, 58, ST 151), (65, 70, ST 116), (97, 102, ST 116)] (ST 0)]"

definition http11_code_19 :: "request_action block list" where
  "http11_code_19 = [
     St 116 False [(48, 57, ST 117), (58, 58, ST 120), (65, 70, ST 117), (97, 102, ST 117)] (ST 0),
     St 117 False [(48, 57, ST 118), (58, 58, ST 120), (65, 70, ST 118), (97, 102, ST 118)] (ST 0),
     St 118 False [(48, 57, ST 119), (58, 58, ST 120), (65, 70, ST 119), (97, 102, ST 119)] (ST 0),
     St 119 False [(58, 58, ST 120)] (ST 0),
     St 120 False [(48, 57, ST 121), (58, 58, ST 150), (65, 70, ST 121), (97, 102, ST 121)] (ST 0),
     St 121 False [(48, 57, ST 122), (58, 58, ST 125), (65, 70, ST 122), (97, 102, ST 122)] (ST 0),
     St 122 False [(48, 57, ST 123), (58, 58, ST 125), (65, 70, ST 123), (97, 102, ST 123)] (ST 0),
     St 123 False [(48, 57, ST 124), (58, 58, ST 125), (65, 70, ST 124), (97, 102, ST 124)] (ST 0),
     St 124 False [(58, 58, ST 125)] (ST 0),
     St 125 False [(48, 57, ST 121), (58, 58, ST 126), (65, 70, ST 121), (97, 102, ST 121)] (ST 0)]"

definition http11_code_20 :: "request_action block list" where
  "http11_code_20 = [
     St 126 False [(2, 3, ST 48), (48, 48, ST 127), (49, 49, ST 143), (50, 50, ST 146),
       (51, 57, ST 127), (65, 70, ST 149), (93, 93, ST 61), (97, 102, ST 149)] (ST 0),
     St 127 False [(46, 46, ST 55), (48, 57, ST 128), (58, 58, ST 131), (65, 70, ST 128),
       (93, 93, ST 61), (97, 102, ST 128)] (ST 0),
     St 128 False [(48, 57, ST 129), (58, 58, ST 131), (65, 70, ST 129), (93, 93, ST 61),
       (97, 102, ST 129)] (ST 0),
     St 129 False [(48, 57, ST 130), (58, 58, ST 131), (65, 70, ST 130), (93, 93, ST 61),
       (97, 102, ST 130)] (ST 0),
     St 130 False [(58, 58, ST 131), (93, 93, ST 61)] (ST 0),
     St 131 False [(48, 48, ST 132), (49, 49, ST 136), (50, 50, ST 139), (51, 57, ST 132),
       (65, 70, ST 142), (97, 102, ST 142)] (ST 0),
     St 132 False [(46, 46, ST 55), (48, 57, ST 133), (58, 58, ST 80), (65, 70, ST 133),
       (93, 93, ST 61), (97, 102, ST 133)] (ST 0),
     St 133 False [(48, 57, ST 134), (58, 58, ST 80), (65, 70, ST 134), (93, 93, ST 61),
       (97, 102, ST 134)] (ST 0)]"

definition http11_code_21 :: "request_action block list" where
  "http11_code_21 = [
     St 134 False [(48, 57, ST 135), (58, 58, ST 80), (65, 70, ST 135), (93, 93, ST 61),
       (97, 102, ST 135)] (ST 0),
     St 135 False [(58, 58, ST 80), (93, 93, ST 61)] (ST 0),
     St 136 False [(46, 46, ST 55), (48, 57, ST 137), (58, 58, ST 80), (65, 70, ST 133),
       (93, 93, ST 61), (97, 102, ST 133)] (ST 0),
     St 137 False [(46, 46, ST 55), (48, 57, ST 138), (58, 58, ST 80), (65, 70, ST 134),
       (93, 93, ST 61), (97, 102, ST 134)] (ST 0),
     St 138 False [(46, 46, ST 55), (48, 57, ST 135), (58, 58, ST 80), (65, 70, ST 135),
       (93, 93, ST 61), (97, 102, ST 135)] (ST 0),
     St 139 False [(46, 46, ST 55), (48, 48, ST 140), (49, 52, ST 133), (53, 53, ST 141),
       (54, 57, ST 133), (58, 58, ST 80), (65, 70, ST 133), (93, 93, ST 61), (97, 102, ST 133)] (ST
       0),
     St 140 False [(48, 57, ST 138), (58, 58, ST 80), (65, 70, ST 134), (93, 93, ST 61),
       (97, 102, ST 134)] (ST 0),
     St 141 False [(48, 48, ST 138), (49, 57, ST 134), (58, 58, ST 80), (65, 70, ST 134),
       (93, 93, ST 61), (97, 102, ST 134)] (ST 0)]"

definition http11_code_22 :: "request_action block list" where
  "http11_code_22 = [
     St 142 False [(48, 57, ST 133), (58, 58, ST 80), (65, 70, ST 133), (93, 93, ST 61),
       (97, 102, ST 133)] (ST 0),
     St 143 False [(46, 46, ST 55), (48, 57, ST 144), (58, 58, ST 131), (65, 70, ST 128),
       (93, 93, ST 61), (97, 102, ST 128)] (ST 0),
     St 144 False [(46, 46, ST 55), (48, 57, ST 145), (58, 58, ST 131), (65, 70, ST 129),
       (93, 93, ST 61), (97, 102, ST 129)] (ST 0),
     St 145 False [(46, 46, ST 55), (48, 57, ST 130), (58, 58, ST 131), (65, 70, ST 130),
       (93, 93, ST 61), (97, 102, ST 130)] (ST 0),
     St 146 False [(46, 46, ST 55), (48, 48, ST 147), (49, 52, ST 128), (53, 53, ST 148),
       (54, 57, ST 128), (58, 58, ST 131), (65, 70, ST 128), (93, 93, ST 61), (97, 102, ST 128)] (ST
       0),
     St 147 False [(48, 57, ST 145), (58, 58, ST 131), (65, 70, ST 129), (93, 93, ST 61),
       (97, 102, ST 129)] (ST 0),
     St 148 False [(48, 48, ST 145), (49, 57, ST 129), (58, 58, ST 131), (65, 70, ST 129),
       (93, 93, ST 61), (97, 102, ST 129)] (ST 0),
     St 149 False [(48, 57, ST 128), (58, 58, ST 131), (65, 70, ST 128), (93, 93, ST 61),
       (97, 102, ST 128)] (ST 0)]"

definition http11_code_23 :: "request_action block list" where
  "http11_code_23 = [
     St 150 False [(2, 3, ST 48), (48, 48, ST 127), (49, 49, ST 143), (50, 50, ST 146),
       (51, 57, ST 127), (65, 70, ST 149), (97, 102, ST 149)] (ST 0),
     St 151 False [(2, 3, ST 48), (48, 48, ST 152), (49, 49, ST 156), (50, 50, ST 159),
       (51, 57, ST 152), (65, 70, ST 162), (97, 102, ST 162)] (ST 0),
     St 152 False [(46, 46, ST 55), (48, 57, ST 153), (58, 58, ST 131), (65, 70, ST 153),
       (97, 102, ST 153)] (ST 0),
     St 153 False [(48, 57, ST 154), (58, 58, ST 131), (65, 70, ST 154), (97, 102, ST 154)] (ST 0),
     St 154 False [(48, 57, ST 155), (58, 58, ST 131), (65, 70, ST 155), (97, 102, ST 155)] (ST 0),
     St 155 False [(58, 58, ST 131)] (ST 0),
     St 156 False [(46, 46, ST 55), (48, 57, ST 157), (58, 58, ST 131), (65, 70, ST 153),
       (97, 102, ST 153)] (ST 0),
     St 157 False [(46, 46, ST 55), (48, 57, ST 158), (58, 58, ST 131), (65, 70, ST 154),
       (97, 102, ST 154)] (ST 0),
     St 158 False [(46, 46, ST 55), (48, 57, ST 155), (58, 58, ST 131), (65, 70, ST 155),
       (97, 102, ST 155)] (ST 0)]"

definition http11_code_24 :: "request_action block list" where
  "http11_code_24 = [
     St 159 False [(46, 46, ST 55), (48, 48, ST 160), (49, 52, ST 153), (53, 53, ST 161),
       (54, 57, ST 153), (58, 58, ST 131), (65, 70, ST 153), (97, 102, ST 153)] (ST 0),
     St 160 False [(48, 57, ST 158), (58, 58, ST 131), (65, 70, ST 154), (97, 102, ST 154)] (ST 0),
     St 161 False [(48, 48, ST 158), (49, 57, ST 154), (58, 58, ST 131), (65, 70, ST 154),
       (97, 102, ST 154)] (ST 0),
     St 162 False [(48, 57, ST 153), (58, 58, ST 131), (65, 70, ST 153), (97, 102, ST 153)] (ST 0),
     St 163 False [(2, 3, ST 48), (48, 57, ST 49), (65, 70, ST 49), (97, 102, ST 49)] (ST 0),
     St 164 False [(2, 3, ST 48)] (ST 0),
     St 165 False [(3, 3, ST 48)] (ST 0),
     St 166 False [(4, 4, ST 48)] (ST 0),
     St 167 False [(58, 58, ST 168)] (ST 0),
     St 168 False [(2, 5, ST 48), (48, 48, ST 127), (49, 49, ST 143), (50, 50, ST 146),
       (51, 57, ST 127), (65, 70, ST 149), (93, 93, ST 61), (97, 102, ST 149)] (ST 0),
     St 169 False [(48, 57, ST 170), (65, 70, ST 170), (97, 102, ST 170)] (ST 0)]"

definition http11_code_25 :: "request_action block list" where
  "http11_code_25 = [
     St 170 False [(46, 46, ST 171), (48, 57, ST 170), (65, 70, ST 170), (97, 102, ST 170)] (ST 0),
     St 171 True [(33, 33, ST 172), (36, 36, ST 172), (38, 46, ST 172), (48, 59, ST 172),
       (61, 61, ST 172), (65, 90, ST 172), (95, 95, ST 172), (97, 122, ST 172), (126, 126, ST 172),
       (606, 606, ST 172), (635, 635, ST 172), (637, 637, ST 172)] (ST 0),
     St 172 True [(33, 33, ST 172), (36, 36, ST 172), (38, 46, ST 172), (48, 59, ST 172),
       (61, 61, ST 172), (65, 90, ST 172), (93, 93, ST 61), (95, 95, ST 172), (97, 122, ST 172),
       (126, 126, ST 172), (606, 606, ST 172), (635, 635, ST 172), (637, 637, ST 172)] (ST 0),
     Tr 12 [Mark] 173]"

definition http11_code_26 :: "request_action block list" where
  "http11_code_26 = [
     St 173 True [(32, 32, TR 37), (33, 33, ST 19), (35, 35, TR 39), (36, 36, ST 19),
       (37, 37, ST 24), (38, 42, ST 19), (43, 43, ST 173), (44, 44, ST 19), (45, 46, ST 173),
       (47, 47, ST 26), (48, 57, ST 173), (58, 58, ST 174), (59, 59, ST 19), (61, 61, ST 19),
       (63, 63, TR 42), (64, 64, ST 19), (65, 90, ST 173), (95, 95, ST 19), (97, 122, ST 173),
       (126, 126, ST 19), (606, 606, ST 19), (635, 635, ST 19), (637, 637, ST 19)] (ST 0),
     St 174 True [(32, 32, TR 6), (33, 33, TR 203), (35, 35, TR 8), (36, 36, TR 203),
       (37, 37, TR 204), (38, 46, TR 203), (47, 47, TR 10), (48, 59, TR 203), (61, 61, TR 203),
       (63, 63, TR 11), (64, 90, TR 203), (95, 95, TR 203), (97, 122, TR 203), (126, 126, TR 203),
       (606, 606, TR 203), (635, 635, TR 203), (637, 637, TR 203)] (ST 0),
     St 175 False [(32, 32, TR 4), (48, 57, ST 176), (65, 90, ST 176)] (ST 0),
     St 176 False [(32, 32, TR 4), (48, 57, ST 177), (65, 90, ST 177)] (ST 0),
     St 177 False [(32, 32, TR 4), (48, 57, ST 178), (65, 90, ST 178)] (ST 0)]"

definition http11_code_27 :: "request_action block list" where
  "http11_code_27 = [
     St 178 False [(32, 32, TR 4), (48, 57, ST 179), (65, 90, ST 179)] (ST 0),
     St 179 False [(32, 32, TR 4), (48, 57, ST 180), (65, 90, ST 180)] (ST 0),
     St 180 False [(32, 32, TR 4), (48, 57, ST 181), (65, 90, ST 181)] (ST 0),
     St 181 False [(32, 32, TR 4), (48, 57, ST 182), (65, 90, ST 182)] (ST 0),
     St 182 False [(32, 32, TR 4), (48, 57, ST 183), (65, 90, ST 183)] (ST 0),
     St 183 False [(32, 32, TR 4), (48, 57, ST 184), (65, 90, ST 184)] (ST 0),
     St 184 False [(32, 32, TR 4), (48, 57, ST 185), (65, 90, ST 185)] (ST 0),
     St 185 False [(32, 32, TR 4), (48, 57, ST 186), (65, 90, ST 186)] (ST 0),
     St 186 False [(32, 32, TR 4), (48, 57, ST 187), (65, 90, ST 187)] (ST 0),
     St 187 False [(32, 32, TR 4), (48, 57, ST 188), (65, 90, ST 188)] (ST 0),
     St 188 False [(32, 32, TR 4), (48, 57, ST 189), (65, 90, ST 189)] (ST 0),
     St 189 False [(32, 32, TR 4), (48, 57, ST 190), (65, 90, ST 190)] (ST 0)]"

definition http11_code_28 :: "request_action block list" where
  "http11_code_28 = [
     St 190 False [(32, 32, TR 4), (48, 57, ST 191), (65, 90, ST 191)] (ST 0),
     St 191 False [(32, 32, TR 4), (48, 57, ST 192), (65, 90, ST 192)] (ST 0),
     St 192 False [(32, 32, TR 4), (48, 57, ST 193), (65, 90, ST 193)] (ST 0),
     St 193 False [(32, 32, TR 4)] (ST 0),
     Tr 2 [Mark] 194,
     St 194 False [(45, 46, ST 195), (48, 57, ST 195), (65, 90, ST 195), (97, 122, ST 195)] (ST 0),
     St 195 False [(9, 13, TR 224), (32, 32, TR 224), (45, 46, ST 195), (47, 47, TR 224),
       (48, 57, ST 195), (62, 62, TR 224), (65, 90, ST 195), (97, 122, ST 195)] (ST 0),
     Tr 224 [RequestPath] 196,
     St 196 False [(62, 62, ST 197)] (ST 196),
     St 197 False [(0, 0, TR 227), (62, 62, ST 197)] (ST 196),
     Tr 227 [Xml, Done] 349]"

definition http11_code_29 :: "request_action block list" where
  "http11_code_29 = [
     Tr 235 [Json, Done] 349,
     St 349 False [] (ST 0),
     Tr 3 [Mark] 198,
     St 198 True [(32, 32, TR 228), (33, 33, ST 202), (36, 36, ST 202), (37, 37, ST 203),
       (38, 46, ST 202), (47, 47, ST 208), (48, 57, ST 202), (59, 59, ST 202), (61, 61, ST 202),
       (64, 90, ST 202), (95, 95, ST 202), (97, 122, ST 202), (126, 126, ST 202),
       (606, 606, ST 202), (635, 635, ST 202), (637, 637, ST 202)] (ST 0),
     Tr 228 [RequestPath] 199,
     St 199 False [(123, 123, TR 232)] (ST 0),
     Tr 232 [Mark] 200,
     St 200 False [(125, 125, ST 201)] (ST 200),
     St 201 False [(0, 0, TR 235), (125, 125, ST 201)] (ST 200)]"

definition http11_code_30 :: "request_action block list" where
  "http11_code_30 = [
     St 202 True [(32, 32, TR 228), (33, 33, ST 202), (36, 36, ST 202), (37, 37, ST 203),
       (38, 46, ST 202), (47, 47, ST 205), (48, 57, ST 202), (59, 59, ST 202), (61, 61, ST 202),
       (64, 90, ST 202), (95, 95, ST 202), (97, 122, ST 202), (126, 126, ST 202),
       (606, 606, ST 202), (635, 635, ST 202), (637, 637, ST 202)] (ST 0),
     St 203 False [(48, 57, ST 204), (65, 70, ST 204), (97, 102, ST 204)] (ST 0),
     St 204 False [(48, 57, ST 202), (65, 70, ST 202), (97, 102, ST 202)] (ST 0),
     St 205 True [(32, 32, TR 228), (33, 33, ST 205), (36, 36, ST 205), (37, 37, ST 206),
       (38, 59, ST 205), (61, 61, ST 205), (64, 90, ST 205), (95, 95, ST 205), (97, 122, ST 205),
       (126, 126, ST 205), (606, 606, ST 205), (635, 635, ST 205), (637, 637, ST 205)] (ST 0),
     St 206 False [(48, 57, ST 207), (65, 70, ST 207), (97, 102, ST 207)] (ST 0),
     St 207 False [(48, 57, ST 205), (65, 70, ST 205), (97, 102, ST 205)] (ST 0)]"

definition http11_code_31 :: "request_action block list" where
  "http11_code_31 = [
     St 208 True [(32, 32, TR 228), (33, 33, ST 205), (36, 36, ST 205), (37, 37, ST 206),
       (38, 46, ST 205), (47, 47, ST 209), (48, 59, ST 205), (61, 61, ST 205), (64, 90, ST 205),
       (95, 95, ST 205), (97, 122, ST 205), (126, 126, ST 205), (606, 606, ST 205),
       (635, 635, ST 205), (637, 637, ST 205)] (ST 0),
     St 209 True [(32, 32, TR 228), (33, 33, ST 210), (36, 36, ST 210), (37, 37, ST 211),
       (38, 46, ST 210), (47, 47, ST 205), (48, 57, ST 210), (58, 58, ST 213), (59, 59, ST 210),
       (61, 61, ST 210), (64, 64, ST 217), (65, 90, ST 210), (91, 91, ST 222), (95, 95, ST 210),
       (97, 122, ST 210), (126, 126, ST 210), (606, 606, ST 210), (635, 635, ST 210),
       (637, 637, ST 210)] (ST 0),
     St 210 True [(32, 32, TR 228), (33, 33, ST 210), (36, 36, ST 210), (37, 37, ST 211),
       (38, 46, ST 210), (47, 47, ST 205), (48, 57, ST 210), (58, 58, ST 213), (59, 59, ST 210),
       (61, 61, ST 210), (64, 64, ST 217), (65, 90, ST 210), (95, 95, ST 210), (97, 122, ST 210),
       (126, 126, ST 210), (606, 606, ST 210), (635, 635, ST 210), (637, 637, ST 210)] (ST 0)]"

definition http11_code_32 :: "request_action block list" where
  "http11_code_32 = [
     St 211 False [(48, 57, ST 212), (65, 70, ST 212), (97, 102, ST 212)] (ST 0),
     St 212 False [(48, 57, ST 210), (65, 70, ST 210), (97, 102, ST 210)] (ST 0),
     St 213 True [(32, 32, TR 228), (33, 33, ST 214), (36, 36, ST 214), (37, 37, ST 215),
       (38, 46, ST 214), (47, 47, ST 205), (48, 57, ST 213), (58, 59, ST 214), (61, 61, ST 214),
       (64, 64, ST 217), (65, 90, ST 214), (95, 95, ST 214), (97, 122, ST 214), (126, 126, ST 214),
       (606, 606, ST 214), (635, 635, ST 214), (637, 637, ST 214)] (ST 0),
     St 214 True [(33, 33, ST 214), (36, 36, ST 214), (37, 37, ST 215), (38, 46, ST 214),
       (48, 59, ST 214), (61, 61, ST 214), (64, 64, ST 217), (65, 90, ST 214), (95, 95, ST 214),
       (97, 122, ST 214), (126, 126, ST 214), (606, 606, ST 214), (635, 635, ST 214),
       (637, 637, ST 214)] (ST 0),
     St 215 False [(48, 57, ST 216), (65, 70, ST 216), (97, 102, ST 216)] (ST 0)]"

definition http11_code_33 :: "request_action block list" where
  "http11_code_33 = [
     St 216 False [(48, 57, ST 214), (65, 70, ST 214), (97, 102, ST 214)] (ST 0),
     St 217 True [(32, 32, TR 228), (33, 33, ST 218), (36, 36, ST 218), (37, 37, ST 219),
       (38, 46, ST 218), (47, 47, ST 205), (48, 57, ST 218), (58, 58, ST 221), (59, 59, ST 218),
       (61, 61, ST 218), (65, 90, ST 218), (91, 91, ST 222), (95, 95, ST 218), (97, 122, ST 218),
       (126, 126, ST 218), (606, 606, ST 218), (635, 635, ST 218), (637, 637, ST 218)] (ST 0),
     St 218 True [(32, 32, TR 228), (33, 33, ST 218), (36, 36, ST 218), (37, 37, ST 219),
       (38, 46, ST 218), (47, 47, ST 205), (48, 57, ST 218), (58, 58, ST 221), (59, 59, ST 218),
       (61, 61, ST 218), (65, 90, ST 218), (95, 95, ST 218), (97, 122, ST 218), (126, 126, ST 218),
       (606, 606, ST 218), (635, 635, ST 218), (637, 637, ST 218)] (ST 0),
     St 219 False [(48, 57, ST 220), (65, 70, ST 220), (97, 102, ST 220)] (ST 0),
     St 220 False [(48, 57, ST 218), (65, 70, ST 218), (97, 102, ST 218)] (ST 0),
     St 221 False [(32, 32, TR 228), (47, 47, ST 205), (48, 57, ST 221)] (ST 0)]"

definition http11_code_34 :: "request_action block list" where
  "http11_code_34 = [
     St 222 False [(6, 6, ST 223), (48, 57, ST 266), (58, 58, ST 342), (65, 70, ST 266),
       (97, 102, ST 266), (118, 118, ST 344)] (ST 0),
     St 223 False [(48, 57, ST 224), (65, 70, ST 224), (97, 102, ST 224)] (ST 0),
     St 224 False [(48, 57, ST 225), (58, 58, ST 228), (65, 70, ST 225), (97, 102, ST 225)] (ST 0),
     St 225 False [(48, 57, ST 226), (58, 58, ST 228), (65, 70, ST 226), (97, 102, ST 226)] (ST 0),
     St 226 False [(48, 57, ST 227), (58, 58, ST 228), (65, 70, ST 227), (97, 102, ST 227)] (ST 0),
     St 227 False [(58, 58, ST 228)] (ST 0),
     St 228 False [(48, 48, ST 229), (49, 49, ST 259), (50, 50, ST 262), (51, 57, ST 229),
       (65, 70, ST 265), (97, 102, ST 265)] (ST 0),
     St 229 False [(46, 46, ST 230), (48, 57, ST 252), (58, 58, ST 255), (65, 70, ST 252),
       (97, 102, ST 252)] (ST 0),
     St 230 False [(48, 48, ST 231), (49, 49, ST 247), (50, 50, ST 249), (51, 57, ST 231)] (ST 0),
     St 231 False [(46, 46, ST 232)] (ST 0)]"

definition http11_code_35 :: "request_action block list" where
  "http11_code_35 = [
     St 232 False [(48, 48, ST 233), (49, 49, ST 242), (50, 50, ST 244), (51, 57, ST 233)] (ST 0),
     St 233 False [(46, 46, ST 234)] (ST 0),
     St 234 False [(48, 48, ST 235), (49, 49, ST 237), (50, 50, ST 239), (51, 57, ST 235)] (ST 0),
     St 235 False [(93, 93, ST 236)] (ST 0),
     St 236 False [(32, 32, TR 228), (47, 47, ST 205), (58, 58, ST 221)] (ST 0),
     St 237 False [(48, 57, ST 238), (93, 93, ST 236)] (ST 0),
     St 238 False [(48, 57, ST 235), (93, 93, ST 236)] (ST 0),
     St 239 False [(48, 48, ST 240), (53, 53, ST 241), (93, 93, ST 236)] (ST 0),
     St 240 False [(48, 57, ST 235)] (ST 0),
     St 241 False [(48, 48, ST 235)] (ST 0),
     St 242 False [(46, 46, ST 234), (48, 57, ST 243)] (ST 0),
     St 243 False [(46, 46, ST 234), (48, 57, ST 233)] (ST 0),
     St 244 False [(46, 46, ST 234), (48, 48, ST 245), (53, 53, ST 246)] (ST 0),
     St 245 False [(48, 57, ST 233)] (ST 0),
     St 246 False [(48, 48, ST 233)] (ST 0),
     St 247 False [(46, 46, ST 232), (48, 57, ST 248)] (ST 0)]"

definition http11_code_36 :: "request_action block list" where
  "http11_code_36 = [
     St 248 False [(46, 46, ST 232), (48, 57, ST 231)] (ST 0),
     St 249 False [(46, 46, ST 232), (48, 48, ST 250), (53, 53, ST 251)] (ST 0),
     St 250 False [(48, 57, ST 231)] (ST 0),
     St 251 False [(48, 48, ST 231)] (ST 0),
     St 252 False [(48, 57, ST 253), (58, 58, ST 255), (65, 70, ST 253), (97, 102, ST 253)] (ST 0),
     St 253 False [(48, 57, ST 254), (58, 58, ST 255), (65, 70, ST 254), (97, 102, ST 254)] (ST 0),
     St 254 False [(58, 58, ST 255)] (ST 0),
     St 255 False [(48, 57, ST 256), (65, 70, ST 256), (97, 102, ST 256)] (ST 0),
     St 256 False [(48, 57, ST 257), (65, 70, ST 257), (93, 93, ST 236), (97, 102, ST 257)] (ST 0),
     St 257 False [(48, 57, ST 258), (65, 70, ST 258), (93, 93, ST 236), (97, 102, ST 258)] (ST 0),
     St 258 False [(48, 57, ST 235), (65, 70, ST 235), (93, 93, ST 236), (97, 102, ST 235)] (ST 0),
     St 259 False [(46, 46, ST 230), (48, 57, ST 260), (58, 58, ST 255), (65, 70, ST 252),
       (97, 102, ST 252)] (ST 0)]"

definition http11_code_37 :: "request_action block list" where
  "http11_code_37 = [
     St 260 False [(46, 46, ST 230), (48, 57, ST 261), (58, 58, ST 255), (65, 70, ST 253),
       (97, 102, ST 253)] (ST 0),
     St 261 False [(46, 46, ST 230), (48, 57, ST 254), (58, 58, ST 255), (65, 70, ST 254),
       (97, 102, ST 254)] (ST 0),
     St 262 False [(46, 46, ST 230), (48, 48, ST 263), (49, 52, ST 252), (53, 53, ST 264),
       (54, 57, ST 252), (58, 58, ST 255), (65, 70, ST 252), (97, 102, ST 252)] (ST 0),
     St 263 False [(48, 57, ST 261), (58, 58, ST 255), (65, 70, ST 253), (97, 102, ST 253)] (ST 0),
     St 264 False [(48, 48, ST 261), (49, 57, ST 253), (58, 58, ST 255), (65, 70, ST 253),
       (97, 102, ST 253)] (ST 0),
     St 265 False [(48, 57, ST 252), (58, 58, ST 255), (65, 70, ST 252), (97, 102, ST 252)] (ST 0),
     St 266 False [(48, 57, ST 267), (58, 58, ST 270), (65, 70, ST 267), (97, 102, ST 267)] (ST 0),
     St 267 False [(48, 57, ST 268), (58, 58, ST 270), (65, 70, ST 268), (97, 102, ST 268)] (ST 0),
     St 268 False [(48, 57, ST 269), (58, 58, ST 270), (65, 70, ST 269), (97, 102, ST 269)] (ST 0)]"

definition http11_code_38 :: "request_action block list" where
  "http11_code_38 = [
     St 269 False [(58, 58, ST 270)] (ST 0),
     St 270 False [(48, 57, ST 271), (58, 58, ST 341), (65, 70, ST 271), (97, 102, ST 271)] (ST 0),
     St 271 False [(48, 57, ST 272), (58, 58, ST 275), (65, 70, ST 272), (97, 102, ST 272)] (ST 0),
     St 272 False [(48, 57, ST 273), (58, 58, ST 275), (65, 70, ST 273), (97, 102, ST 273)] (ST 0),
     St 273 False [(48, 57, ST 274), (58, 58, ST 275), (65, 70, ST 274), (97, 102, ST 274)] (ST 0),
     St 274 False [(58, 58, ST 275)] (ST 0),
     St 275 False [(48, 57, ST 276), (58, 58, ST 340), (65, 70, ST 276), (97, 102, ST 276)] (ST 0),
     St 276 False [(48, 57, ST 277), (58, 58, ST 280), (65, 70, ST 277), (97, 102, ST 277)] (ST 0),
     St 277 False [(48, 57, ST 278), (58, 58, ST 280), (65, 70, ST 278), (97, 102, ST 278)] (ST 0),
     St 278 False [(48, 57, ST 279), (58, 58, ST 280), (65, 70, ST 279), (97, 102, ST 279)] (ST 0),
     St 279 False [(58, 58, ST 280)] (ST 0)]"

definition http11_code_39 :: "request_action block list" where
  "http11_code_39 = [
     St 280 False [(48, 57, ST 281), (58, 58, ST 339), (65, 70, ST 281), (97, 102, ST 281)] (ST 0),
     St 281 False [(48, 57, ST 282), (58, 58, ST 285), (65, 70, ST 282), (97, 102, ST 282)] (ST 0),
     St 282 False [(48, 57, ST 283), (58, 58, ST 285), (65, 70, ST 283), (97, 102, ST 283)] (ST 0),
     St 283 False [(48, 57, ST 284), (58, 58, ST 285), (65, 70, ST 284), (97, 102, ST 284)] (ST 0),
     St 284 False [(58, 58, ST 285)] (ST 0),
     St 285 False [(48, 57, ST 286), (58, 58, ST 338), (65, 70, ST 286), (97, 102, ST 286)] (ST 0),
     St 286 False [(48, 57, ST 287), (58, 58, ST 290), (65, 70, ST 287), (97, 102, ST 287)] (ST 0),
     St 287 False [(48, 57, ST 288), (58, 58, ST 290), (65, 70, ST 288), (97, 102, ST 288)] (ST 0),
     St 288 False [(48, 57, ST 289), (58, 58, ST 290), (65, 70, ST 289), (97, 102, ST 289)] (ST 0),
     St 289 False [(58, 58, ST 290)] (ST 0)]"

definition http11_code_40 :: "request_action block list" where
  "http11_code_40 = [
     St 290 False [(48, 57, ST 291), (58, 58, ST 326), (65, 70, ST 291), (97, 102, ST 291)] (ST 0),
     St 291 False [(48, 57, ST 292), (58, 58, ST 295), (65, 70, ST 292), (97, 102, ST 292)] (ST 0),
     St 292 False [(48, 57, ST 293), (58, 58, ST 295), (65, 70, ST 293), (97, 102, ST 293)] (ST 0),
     St 293 False [(48, 57, ST 294), (58, 58, ST 295), (65, 70, ST 294), (97, 102, ST 294)] (ST 0),
     St 294 False [(58, 58, ST 295)] (ST 0),
     St 295 False [(48, 57, ST 296), (58, 58, ST 325), (65, 70, ST 296), (97, 102, ST 296)] (ST 0),
     St 296 False [(48, 57, ST 297), (58, 58, ST 300), (65, 70, ST 297), (97, 102, ST 297)] (ST 0),
     St 297 False [(48, 57, ST 298), (58, 58, ST 300), (65, 70, ST 298), (97, 102, ST 298)] (ST 0),
     St 298 False [(48, 57, ST 299), (58, 58, ST 300), (65, 70, ST 299), (97, 102, ST 299)] (ST 0),
     St 299 False [(58, 58, ST 300)] (ST 0)]"

definition http11_code_41 :: "request_action block list" where
  "http11_code_41 = [
     St 300 False [(48, 57, ST 296), (58, 58, ST 301), (65, 70, ST 296), (97, 102, ST 296)] (ST 0),
     St 301 False [(2, 3, ST 223), (48, 48, ST 302), (49, 49, ST 318), (50, 50, ST 321),
       (51, 57, ST 302), (65, 70, ST 324), (93, 93, ST 236), (97, 102, ST 324)] (ST 0),
     St 302 False [(46, 46, ST 230), (48, 57, ST 303), (58, 58, ST 306), (65, 70, ST 303),
       (93, 93, ST 236), (97, 102, ST 303)] (ST 0),
     St 303 False [(48, 57, ST 304), (58, 58, ST 306), (65, 70, ST 304), (93, 93, ST 236),
       (97, 102, ST 304)] (ST 0),
     St 304 False [(48, 57, ST 305), (58, 58, ST 306), (65, 70, ST 305), (93, 93, ST 236),
       (97, 102, ST 305)] (ST 0),
     St 305 False [(58, 58, ST 306), (93, 93, ST 236)] (ST 0),
     St 306 False [(48, 48, ST 307), (49, 49, ST 311), (50, 50, ST 314), (51, 57, ST 307),
       (65, 70, ST 317), (97, 102, ST 317)] (ST 0),
     St 307 False [(46, 46, ST 230), (48, 57, ST 308), (58, 58, ST 255), (65, 70, ST 308),
       (93, 93, ST 236), (97, 102, ST 308)] (ST 0)]"

definition http11_code_42 :: "request_action block list" where
  "http11_code_42 = [
     St 308 False [(48, 57, ST 309), (58, 58, ST 255), (65, 70, ST 309), (93, 93, ST 236),
       (97, 102, ST 309)] (ST 0),
     St 309 False [(48, 57, ST 310), (58, 58, ST 255), (65, 70, ST 310), (93, 93, ST 236),
       (97, 102, ST 310)] (ST 0),
     St 310 False [(58, 58, ST 255), (93, 93, ST 236)] (ST 0),
     St 311 False [(46, 46, ST 230), (48, 57, ST 312), (58, 58, ST 255), (65, 70, ST 308),
       (93, 93, ST 236), (97, 102, ST 308)] (ST 0),
     St 312 False [(46, 46, ST 230), (48, 57, ST 313), (58, 58, ST 255), (65, 70, ST 309),
       (93, 93, ST 236), (97, 102, ST 309)] (ST 0),
     St 313 False [(46, 46, ST 230), (48, 57, ST 310), (58, 58, ST 255), (65, 70, ST 310),
       (93, 93, ST 236), (97, 102, ST 310)] (ST 0),
     St 314 False [(46, 46, ST 230), (48, 48, ST 315), (49, 52, ST 308), (53, 53, ST 316),
       (54, 57, ST 308), (58, 58, ST 255), (65, 70, ST 308), (93, 93, ST 236), (97, 102, ST 308)]
       (ST 0),
     St 315 False [(48, 57, ST 313), (58, 58, ST 255), (65, 70, ST 309), (93, 93, ST 236),
       (97, 102, ST 309)] (ST 0)]"

definition http11_code_43 :: "request_action block list" where
  "http11_code_43 = [
     St 316 False [(48, 48, ST 313), (49, 57, ST 309), (58, 58, ST 255), (65, 70, ST 309),
       (93, 93, ST 236), (97, 102, ST 309)] (ST 0),
     St 317 False [(48, 57, ST 308), (58, 58, ST 255), (65, 70, ST 308), (93, 93, ST 236),
       (97, 102, ST 308)] (ST 0),
     St 318 False [(46, 46, ST 230), (48, 57, ST 319), (58, 58, ST 306), (65, 70, ST 303),
       (93, 93, ST 236), (97, 102, ST 303)] (ST 0),
     St 319 False [(46, 46, ST 230), (48, 57, ST 320), (58, 58, ST 306), (65, 70, ST 304),
       (93, 93, ST 236), (97, 102, ST 304)] (ST 0),
     St 320 False [(46, 46, ST 230), (48, 57, ST 305), (58, 58, ST 306), (65, 70, ST 305),
       (93, 93, ST 236), (97, 102, ST 305)] (ST 0),
     St 321 False [(46, 46, ST 230), (48, 48, ST 322), (49, 52, ST 303), (53, 53, ST 323),
       (54, 57, ST 303), (58, 58, ST 306), (65, 70, ST 303), (93, 93, ST 236), (97, 102, ST 303)]
       (ST 0),
     St 322 False [(48, 57, ST 320), (58, 58, ST 306), (65, 70, ST 304), (93, 93, ST 236),
       (97, 102, ST 304)] (ST 0),
     St 323 False [(48, 48, ST 320), (49, 57, ST 304), (58, 58, ST 306), (65, 70, ST 304),
       (93, 93, ST 236), (97, 102, ST 304)] (ST 0)]"

definition http11_code_44 :: "request_action block list" where
  "http11_code_44 = [
     St 324 False [(48, 57, ST 303), (58, 58, ST 306), (65, 70, ST 303), (93, 93, ST 236),
       (97, 102, ST 303)] (ST 0),
     St 325 False [(2, 3, ST 223), (48, 48, ST 302), (49, 49, ST 318), (50, 50, ST 321),
       (51, 57, ST 302), (65, 70, ST 324), (97, 102, ST 324)] (ST 0),
     St 326 False [(2, 3, ST 223), (48, 48, ST 327), (49, 49, ST 331), (50, 50, ST 334),
       (51, 57, ST 327), (65, 70, ST 337), (97, 102, ST 337)] (ST 0),
     St 327 False [(46, 46, ST 230), (48, 57, ST 328), (58, 58, ST 306), (65, 70, ST 328),
       (97, 102, ST 328)] (ST 0),
     St 328 False [(48, 57, ST 329), (58, 58, ST 306), (65, 70, ST 329), (97, 102, ST 329)] (ST 0),
     St 329 False [(48, 57, ST 330), (58, 58, ST 306), (65, 70, ST 330), (97, 102, ST 330)] (ST 0),
     St 330 False [(58, 58, ST 306)] (ST 0),
     St 331 False [(46, 46, ST 230), (48, 57, ST 332), (58, 58, ST 306), (65, 70, ST 328),
       (97, 102, ST 328)] (ST 0),
     St 332 False [(46, 46, ST 230), (48, 57, ST 333), (58, 58, ST 306), (65, 70, ST 329),
       (97, 102, ST 329)] (ST 0)]"

definition http11_code_45 :: "request_action block list" where
  "http11_code_45 = [
     St 333 False [(46, 46, ST 230), (48, 57, ST 330), (58, 58, ST 306), (65, 70, ST 330),
       (97, 102, ST 330)] (ST 0),
     St 334 False [(46, 46, ST 230), (48, 48, ST 335), (49, 52, ST 328), (53, 53, ST 336),
       (54, 57, ST 328), (58, 58, ST 306), (65, 70, ST 328), (97, 102, ST 328)] (ST 0),
     St 335 False [(48, 57, ST 333), (58, 58, ST 306), (65, 70, ST 329), (97, 102, ST 329)] (ST 0),
     St 336 False [(48, 48, ST 333), (49, 57, ST 329), (58, 58, ST 306), (65, 70, ST 329),
       (97, 102, ST 329)] (ST 0),
     St 337 False [(48, 57, ST 328), (58, 58, ST 306), (65, 70, ST 328), (97, 102, ST 328)] (ST 0),
     St 338 False [(2, 3, ST 223), (48, 57, ST 224), (65, 70, ST 224), (97, 102, ST 224)] (ST 0),
     St 339 False [(2, 3, ST 223)] (ST 0),
     St 340 False [(3, 3, ST 223)] (ST 0),
     St 341 False [(4, 4, ST 223)] (ST 0),
     St 342 False [(58, 58, ST 343)] (ST 0)]"

definition http11_code_46 :: "request_action block list" where
  "http11_code_46 = [
     St 343 False [(2, 5, ST 223), (48, 48, ST 302), (49, 49, ST 318), (50, 50, ST 321),
       (51, 57, ST 302), (65, 70, ST 324), (93, 93, ST 236), (97, 102, ST 324)] (ST 0),
     St 344 False [(48, 57, ST 345), (65, 70, ST 345), (97, 102, ST 345)] (ST 0),
     St 345 False [(46, 46, ST 346), (48, 57, ST 345), (65, 70, ST 345), (97, 102, ST 345)] (ST 0),
     St 346 True [(33, 33, ST 347), (36, 36, ST 347), (38, 46, ST 347), (48, 59, ST 347),
       (61, 61, ST 347), (65, 90, ST 347), (95, 95, ST 347), (97, 122, ST 347), (126, 126, ST 347),
       (606, 606, ST 347), (635, 635, ST 347), (637, 637, ST 347)] (ST 0),
     St 347 True [(33, 33, ST 347), (36, 36, ST 347), (38, 46, ST 347), (48, 59, ST 347),
       (61, 61, ST 347), (65, 90, ST 347), (93, 93, ST 236), (95, 95, ST 347), (97, 122, ST 347),
       (126, 126, ST 347), (606, 606, ST 347), (635, 635, ST 347), (637, 637, ST 347)] (ST 0)]"

definition http11_code :: "request_action block list" where
  "http11_code =
     http11_code_1 @ http11_code_2 @ http11_code_3 @ http11_code_4 @ http11_code_5 @ http11_code_6 @
     http11_code_7 @ http11_code_8 @ http11_code_9 @ http11_code_10 @ http11_code_11 @
     http11_code_12 @ http11_code_13 @ http11_code_14 @ http11_code_15 @ http11_code_16 @
     http11_code_17 @ http11_code_18 @ http11_code_19 @ http11_code_20 @ http11_code_21 @
     http11_code_22 @ http11_code_23 @ http11_code_24 @ http11_code_25 @ http11_code_26 @
     http11_code_27 @ http11_code_28 @ http11_code_29 @ http11_code_30 @ http11_code_31 @
     http11_code_32 @ http11_code_33 @ http11_code_34 @ http11_code_35 @ http11_code_36 @
     http11_code_37 @ http11_code_38 @ http11_code_39 @ http11_code_40 @ http11_code_41 @
     http11_code_42 @ http11_code_43 @ http11_code_44 @ http11_code_45 @ http11_code_46"

lemmas http11_code_defs = http11_code_def
  http11_code_1_def http11_code_2_def http11_code_3_def http11_code_4_def http11_code_5_def
  http11_code_6_def http11_code_7_def http11_code_8_def http11_code_9_def http11_code_10_def
  http11_code_11_def http11_code_12_def http11_code_13_def http11_code_14_def http11_code_15_def
  http11_code_16_def http11_code_17_def http11_code_18_def http11_code_19_def http11_code_20_def
  http11_code_21_def http11_code_22_def http11_code_23_def http11_code_24_def http11_code_25_def
  http11_code_26_def http11_code_27_def http11_code_28_def http11_code_29_def http11_code_30_def
  http11_code_31_def http11_code_32_def http11_code_33_def http11_code_34_def http11_code_35_def
  http11_code_36_def http11_code_37_def http11_code_38_def http11_code_39_def http11_code_40_def
  http11_code_41_def http11_code_42_def http11_code_43_def http11_code_44_def http11_code_45_def
  http11_code_46_def

end
