(* ===== verification/Http11Parser.thy ===== *)
theory Http11Parser
  imports Http11Tables
begin

text \<open>
  The request parser around the generated automaton (\<open>src/megalo/http/http11_parser.h\<close> and the
  hand written parts of \<open>http11_parser.rl.cc\<close>).

  Sizes are natural numbers; \<open>LEN\<close> subtracts as \<open>size_t\<close> does.
\<close>

record 'd http_parser =
  hp_cs :: nat
  hp_body_start :: nat
  hp_content_len :: int
  hp_nread :: nat
  hp_mark :: nat
  hp_field_start :: nat
  hp_field_len :: nat
  hp_query_start :: nat
  hp_xml_sent :: bool
  hp_json_sent :: bool
  hp_data :: 'd
  hp_uri_relaxed :: bool
  hp_http_field :: "'d field_cb"
  hp_request_method :: "'d element_cb"
  hp_request_uri :: "'d element_cb"
  hp_fragment :: "'d element_cb"
  hp_request_path :: "'d element_cb"
  hp_query_string :: "'d element_cb"
  hp_http_version :: "'d element_cb"
  hp_header_done :: "'d element_cb"

text \<open>A parser in zeroed memory, with user data \<open>d\<close> and no callbacks.\<close>

definition zeroed_http_parser :: "'d \<Rightarrow> 'd http_parser" where
  "zeroed_http_parser d =
     \<lparr> hp_cs = 0, hp_body_start = 0, hp_content_len = 0, hp_nread = 0, hp_mark = 0, hp_field_start = 0,
       hp_field_len = 0, hp_query_start = 0, hp_xml_sent = False, hp_json_sent = False, hp_data = d,
       hp_uri_relaxed = False, hp_http_field = None, hp_request_method = None, hp_request_uri = None,
       hp_fragment = None, hp_request_path = None, hp_query_string = None, hp_http_version = None,
       hp_header_done = None \<rparr>"

definition http_parser_start :: nat where "http_parser_start = 1"
definition http_parser_first_final :: nat where "http_parser_first_final = 348"
definition http_parser_error :: nat where "http_parser_error = 0"

text \<open>\<open>query_start\<close>, \<open>uri_relaxed\<close> and the callbacks keep what the memory held.\<close>

definition http_parser_init :: "'d http_parser \<Rightarrow> 'd http_parser" where
  "http_parser_init s =
     s\<lparr>hp_cs := http_parser_start, hp_body_start := 0, hp_content_len := 0, hp_mark := 0, hp_nread := 0,
       hp_field_len := 0, hp_field_start := 0, hp_xml_sent := False, hp_json_sent := False\<rparr>"

text \<open>States that widen the character test \<open>^\<close>, \<open>{\<close> and \<open>}\<close> against \<open>uri_relaxed\<close>.\<close>

definition http_widec :: "'d http_parser \<Rightarrow> int \<Rightarrow> int" where
  "http_widec s c =
     (if c = 94 \<or> c = 123 \<or> c = 125 then 128 + (c + 128) + (if hp_uri_relaxed s then 256 else 0) else c)"

definition call_element :: "string \<Rightarrow> nat \<Rightarrow> nat \<Rightarrow> 'd element_cb \<Rightarrow> 'd http_parser \<Rightarrow> parse_error + 'd http_parser" where
  "call_element mem at n cb s =
     result_bind (apply_element mem at n cb (hp_data s)) (\<lambda>d. Inr (s\<lparr>hp_data := d\<rparr>))"

definition call_field ::
  "string \<Rightarrow> nat \<Rightarrow> nat \<Rightarrow> nat \<Rightarrow> nat \<Rightarrow> 'd field_cb \<Rightarrow> 'd http_parser \<Rightarrow> parse_error + 'd http_parser" where
  "call_field mem fld flen val vlen cb s =
     result_bind (apply_field mem fld flen val vlen cb (hp_data s)) (\<lambda>d. Inr (s\<lparr>hp_data := d\<rparr>))"

text \<open>The actions with the cursor at \<open>p\<close>; \<open>Done\<close> also leaves the loop.\<close>

fun request_act :: "string \<Rightarrow> nat \<Rightarrow> nat \<Rightarrow> request_action \<Rightarrow> 'd http_parser \<Rightarrow> parse_error + 'd http_parser" where
  "request_act mem pe p Mark s = Inr (s\<lparr>hp_mark := p\<rparr>)"
| "request_act mem pe p StartField s = Inr (s\<lparr>hp_field_start := p\<rparr>)"
| "request_act mem pe p WriteField s = Inr (s\<lparr>hp_field_len := size_sub p (hp_field_start s)\<rparr>)"
| "request_act mem pe p StartValue s = Inr (s\<lparr>hp_mark := p\<rparr>)"
| "request_act mem pe p WriteValue s =
     call_field mem (hp_field_start s) (hp_field_len s) (hp_mark s) (size_sub p (hp_mark s)) (hp_http_field s) s"
| "request_act mem pe p RequestMethod s = call_element mem (hp_mark s) (size_sub p (hp_mark s)) (hp_request_method s) s"
| "request_act mem pe p RequestUri s = call_element mem (hp_mark s) (size_sub p (hp_mark s)) (hp_request_uri s) s"
| "request_act mem pe p Fragment s = call_element mem (hp_mark s) (size_sub p (hp_mark s)) (hp_fragment s) s"
| "request_act mem pe p StartQuery s = Inr (s\<lparr>hp_query_start := p\<rparr>)"
| "request_act mem pe p QueryString s =
     call_element mem (hp_query_start s) (size_sub p (hp_query_start s)) (hp_query_string s) s"
| "request_act mem pe p HttpVersion s = call_element mem (hp_mark s) (size_sub p (hp_mark s)) (hp_http_version s) s"
| "request_act mem pe p RequestPath s = call_element mem (hp_mark s) (size_sub p (hp_mark s)) (hp_request_path s) s"
| "request_act mem pe p Done s =
     (if hp_xml_sent s \<or> hp_json_sent s
      then Inr (s\<lparr>hp_body_start := hp_mark s, hp_content_len := int p - int (hp_mark s) + 1\<rparr>)
      else call_element mem (p + 1) (pe - p - 1) (hp_header_done s) (s\<lparr>hp_body_start := p + 1\<rparr>))"
| "request_act mem pe p Xml s = Inr (s\<lparr>hp_xml_sent := True\<rparr>)"
| "request_act mem pe p Json s = Inr (s\<lparr>hp_json_sent := True\<rparr>)"

definition http_parser_has_error :: "'d http_parser \<Rightarrow> bool" where
  "http_parser_has_error s \<longleftrightarrow> hp_cs s = http_parser_error"

definition http_parser_is_finished :: "'d http_parser \<Rightarrow> bool" where
  "http_parser_is_finished s \<longleftrightarrow> hp_cs s \<ge> http_parser_first_final"

definition http_parser_finish :: "'d http_parser \<Rightarrow> int" where
  "http_parser_finish s = (if http_parser_has_error s then -1 else if http_parser_is_finished s then 1 else 0)"

definition request_loop ::
  "string \<Rightarrow> nat \<Rightarrow> nat \<Rightarrow> nat \<Rightarrow> 'd http_parser \<Rightarrow> parse_error + ('d http_parser \<times> nat \<times> nat)" where
  "request_loop mem pe cs p s =
     ragel_loop http11_code http_widec (request_act mem pe) (\<lambda>a. a = Done) mem pe cs p s"

text \<open>The state is kept once it is the error state; \<open>nread\<close> adds up over the calls.\<close>

definition http_parser_execute ::
  "'d http_parser \<Rightarrow> string \<Rightarrow> nat \<Rightarrow> nat \<Rightarrow> parse_error + ('d http_parser \<times> nat)" where
  "http_parser_execute s buffer len off =
     (if len = 0 then Inr (s, 0)
      else if \<not> off \<le> len then Inl AssertFailed
      else result_bind (request_loop buffer len (hp_cs s) off s) (\<lambda>(s1, cs, p).
        if \<not> p \<le> len then Inl AssertFailed
        else
          let s2 = (if \<not> http_parser_has_error s1 then s1\<lparr>hp_cs := cs\<rparr> else s1);
              s3 = s2\<lparr>hp_nread := hp_nread s2 + (p - off)\<rparr>
          in (if hp_nread s3 \<le> len \<and> hp_body_start s3 \<le> len \<and> hp_mark s3 < len
                \<and> hp_field_len s3 \<le> len \<and> hp_field_start s3 < len
              then Inr (s3, hp_nread s3) else Inl AssertFailed)))"

end
