(* ===== verification/Http11Props.thy ===== *)
theory Http11Props
  imports Http11Parser
begin

text \<open>
  Safety of the request parser: the dataflow of the automaton's marks, checked block by block on
  the tables, and the invariant of the parser that follows.
\<close>

section \<open>Checks on the tables\<close>

text \<open>
  Two facts about the marks depend on the state.  \<open>query_start\<close> is never initialised, so every use
  must come after \<open>StartQuery\<close>; the states between the two are 30, 31 and 32.  From \<open>StartField\<close>
  on, \<open>field_len\<close> is that of the previous field until \<open>WriteField\<close>, so it must not be used; the
  states between the two are 14 and 18, and the final ones.  An edge may rely on a fact only when
  every state that uses the edge has it.
\<close>

definition query_known :: "nat \<Rightarrow> bool" where
  "query_known n \<longleftrightarrow> n \<in> set [30, 31, 32]"

definition field_known :: "nat \<Rightarrow> bool" where
  "field_known n \<longleftrightarrow> n \<notin> set [14, 18, 348, 349]"

definition edge_query :: "nat \<Rightarrow> bool" where
  "edge_query k \<longleftrightarrow> k \<in> set [57, 59]"

definition edge_field :: "nat \<Rightarrow> bool" where
  "edge_field k \<longleftrightarrow> k \<notin> set [27, 36]"

fun uses_known :: "bool \<Rightarrow> bool \<Rightarrow> request_action list \<Rightarrow> bool" where
  "uses_known q f [] = True"
| "uses_known q f (a # as) = ((a = QueryString \<longrightarrow> q) \<and> (a = WriteValue \<longrightarrow> f)
     \<and> uses_known (q \<or> a = StartQuery) (f \<and> a \<noteq> StartField \<or> a = WriteField) as)"

fun known_after :: "bool \<Rightarrow> bool \<Rightarrow> request_action list \<Rightarrow> bool \<times> bool" where
  "known_after q f [] = (q, f)"
| "known_after q f (a # as) = known_after (q \<or> a = StartQuery) (f \<and> a \<noteq> StartField \<or> a = WriteField) as"

text \<open>An edge with the actions \<open>acts\<close> to the state \<open>t\<close>, when \<open>q\<close> and \<open>f\<close> hold before it.\<close>

definition edge_ok :: "bool \<Rightarrow> bool \<Rightarrow> request_action list \<Rightarrow> nat \<Rightarrow> bool" where
  "edge_ok q f acts t \<longleftrightarrow> uses_known q f acts \<and> (query_known t \<longrightarrow> fst (known_after q f acts))
     \<and> (field_known t \<longrightarrow> snd (known_after q f acts)) \<and> (Done \<in> set acts \<longrightarrow> t \<ge> 348) \<and> t < 350"

fun goto_ok :: "nat \<Rightarrow> goto \<Rightarrow> bool" where
  "goto_ok n (ST m) = (m = 0 \<or> edge_ok (query_known n) (field_known n) [] m)"
| "goto_ok n (TR k) = ((edge_query k \<longrightarrow> query_known n) \<and> (edge_field k \<longrightarrow> field_known n))"

fun block_ok :: "request_action block \<Rightarrow> bool" where
  "block_ok (Tr k acts t) = (edge_ok (edge_query k) (edge_field k) acts t \<and> 0 < t)"
| "block_ok (St n wide tests other) = (list_all (\<lambda>(lo, hi, g). goto_ok n g) tests \<and> goto_ok n other)"

lemmas edge_facts = query_known_def field_known_def edge_query_def edge_field_def

lemma http11_blocks_ok: "list_all block_ok http11_code"
  by (simp add: http11_code_defs edge_ok_def edge_facts)

fun st_numbers :: "'a block list \<Rightarrow> nat list" where
  "st_numbers [] = []"
| "st_numbers (St n wide tests other # bs) = n # st_numbers bs"
| "st_numbers (Tr k acts t # bs) = st_numbers bs"

lemma st_of_numbers: "st_of code n \<noteq> None \<longleftrightarrow> n \<in> set (st_numbers code)"
  by (induction code n rule: st_of.induct) auto

lemma http11_states: "0 < n \<Longrightarrow> n < 350 \<Longrightarrow> st_of http11_code n \<noteq> None"
proof -
  have "st_numbers http11_code = 1 # [2..<18] @ [348..<349] @ [18..<198] @ [349..<350] @ [198..<348]"
    by (simp add: http11_code_defs)
  then have "set (st_numbers http11_code) = {1..<350}" by (simp only: set_append set_upt list.set) auto
  then show "0 < n \<Longrightarrow> n < 350 \<Longrightarrow> st_of http11_code n \<noteq> None"
    unfolding st_of_numbers by simp
qed

lemma edge_ok_mono:
  assumes "edge_ok q f acts t" and "q \<longrightarrow> q'" and "f \<longrightarrow> f'"
  shows "edge_ok q' f' acts t"
proof -
  have "uses_known q f as \<Longrightarrow> (q \<longrightarrow> q') \<Longrightarrow> (f \<longrightarrow> f') \<Longrightarrow> uses_known q' f' as
      \<and> (fst (known_after q f as) \<longrightarrow> fst (known_after q' f' as)) \<and> (snd (known_after q f as) \<longrightarrow> snd (known_after q' f' as))"
    for as and q f q' f' :: bool
  proof (induction q f as arbitrary: q' f' rule: uses_known.induct)
    case (2 q f a as)
    have "uses_known (q \<or> a = StartQuery) (f \<and> a \<noteq> StartField \<or> a = WriteField) as" using 2(2) by simp
    then show ?case using 2(1) [of "q' \<or> a = StartQuery" "f' \<and> a \<noteq> StartField \<or> a = WriteField"] 2(2-4) by auto
  qed simp
  then show ?thesis using assms unfolding edge_ok_def by blast
qed

lemma http11_edge:
  assumes "st_of http11_code cs = Some (wide, tests, other)"
    and "edge_of http11_code (goto_of tests other w) = (acts, t)" and "(acts, t) \<noteq> ([], 0)"
  shows "edge_ok (query_known cs) (field_known cs) acts t \<and> 0 < t"
proof -
  have ok: "block_ok (St cs wide tests other)"
    using http11_blocks_ok st_of_block [OF assms(1)] by (simp only: list_all_iff)
  define g where "g = goto_of tests other w"
  have g: "goto_ok cs g" using goto_of_range [of tests other w] ok
    unfolding g_def [symmetric] by (fastforce simp: list_all_iff)
  show ?thesis
  proof (cases g)
    case (ST m)
    then show ?thesis using assms(2,3) g g_def by auto
  next
    case (TR k)
    then have "tr_of http11_code k = (acts, t)" using assms(2) g_def by simp
    then have "Tr k acts t \<in> set http11_code" using tr_of_block assms(3) by blast
    then have b: "block_ok (Tr k acts t)" using http11_blocks_ok by (simp only: list_all_iff)
    then show ?thesis using g TR edge_ok_mono [of "edge_query k" "edge_field k" acts t] by auto
  qed
qed

section \<open>The invariant of the first call\<close>

text \<open>With the cursor at \<open>p\<close>, between two actions; \<open>s0\<close> is the parser the call started with.\<close>

definition marks_ok :: "nat \<Rightarrow> 'd http_parser \<Rightarrow> nat \<Rightarrow> bool \<Rightarrow> bool \<Rightarrow> 'd http_parser \<Rightarrow> bool" where
  "marks_ok pe s0 p q f s \<longleftrightarrow> hp_mark s \<le> p \<and> hp_mark s < pe \<and> hp_field_start s \<le> p \<and> hp_field_start s < pe
     \<and> hp_field_len s \<le> pe \<and> hp_body_start s \<le> pe \<and> hp_cs s = hp_cs s0 \<and> hp_nread s = hp_nread s0
     \<and> (q \<longrightarrow> hp_query_start s \<le> p) \<and> (f \<longrightarrow> hp_field_start s + hp_field_len s \<le> p)"

definition request_inv :: "string \<Rightarrow> nat \<Rightarrow> 'd http_parser \<Rightarrow> nat \<Rightarrow> nat \<Rightarrow> 'd http_parser \<Rightarrow> bool" where
  "request_inv mem pe s0 cs p s \<longleftrightarrow> marks_ok pe s0 p (query_known cs) (field_known cs) s \<and> 0 < cs \<and> cs < 350
     \<and> pe \<le> length mem \<and> length mem < 2 ^ 64"

lemma request_act_ok:
  assumes "marks_ok pe s0 p q f s" and "p < pe" and "pe \<le> length mem" and "length mem < 2 ^ 64"
    and "a = QueryString \<longrightarrow> q" and "a = WriteValue \<longrightarrow> f"
  shows "\<exists>s'. request_act mem pe p a s = Inr s'
    \<and> marks_ok pe s0 p (q \<or> a = StartQuery) (f \<and> a \<noteq> StartField \<or> a = WriteField) s'"
proof -
  have "size_sub p n = p - n" if "n \<le> p" for n using that assms(2-4) by (intro size_sub_le) auto
  then show ?thesis using assms
    by (cases a) (auto simp: marks_ok_def call_element_def call_field_def apply_element_def apply_field_def
      split: option.split)
qed

lemma run_actions_ok:
  assumes "p < pe" and "pe \<le> length mem" and "length mem < 2 ^ 64"
  shows "marks_ok pe s0 p q f s \<Longrightarrow> uses_known q f acts \<Longrightarrow>
    \<exists>s'. run_actions (request_act mem pe) p acts s = Inr s'
      \<and> marks_ok pe s0 p (fst (known_after q f acts)) (snd (known_after q f acts)) s'"
proof (induction acts arbitrary: q f s)
  case (Cons a acts)
  obtain s' where "request_act mem pe p a s = Inr s'"
    "marks_ok pe s0 p (q \<or> a = StartQuery) (f \<and> a \<noteq> StartField \<or> a = WriteField) s'"
    using request_act_ok [OF Cons.prems(1) assms] Cons.prems(2) by auto
  then show ?case using Cons.IH Cons.prems(2) by simp
qed simp

lemma request_edge_inv:
  assumes "st_of http11_code cs = Some (wide, tests, other)" and "p < pe" and "request_inv mem pe s0 cs p s"
    and "edge_of http11_code (goto_of tests other w) = (acts, t)" and "(acts, t) \<noteq> ([], 0)"
  shows "\<exists>s'. run_actions (request_act mem pe) p acts s = Inr s' \<and> request_inv mem pe s0 t (p + 1) s'
    \<and> (list_ex (\<lambda>a. a = Done) acts \<longrightarrow> t \<ge> 348)"
proof -
  have e: "edge_ok (query_known cs) (field_known cs) acts t" "0 < t" using http11_edge assms(1,4,5) by blast+
  have mem: "pe \<le> length mem" "length mem < 2 ^ 64" using assms(3) by (simp_all add: request_inv_def)
  obtain s' where s': "run_actions (request_act mem pe) p acts s = Inr s'"
    "marks_ok pe s0 p (fst (known_after (query_known cs) (field_known cs) acts))
       (snd (known_after (query_known cs) (field_known cs) acts)) s'"
    using run_actions_ok [OF assms(2) mem] assms(3) e(1) unfolding request_inv_def edge_ok_def by blast
  then have "request_inv mem pe s0 t (p + 1) s'" using e mem unfolding request_inv_def edge_ok_def marks_ok_def by auto
  moreover have "list_ex (\<lambda>a. a = Done) acts \<longrightarrow> 348 \<le> t" using e(1) by (auto simp: edge_ok_def list_ex_iff)
  ultimately show ?thesis using s'(1) by blast
qed

interpretation request: ragel_invariant http11_code http_widec "request_act mem pe" "\<lambda>a. a = Done" mem pe
  "request_inv mem pe s0" "\<lambda>n. 348 \<le> n" for mem pe and s0 :: "'d http_parser"
proof
  show "request_inv mem pe s0 cs p s \<Longrightarrow> st_of http11_code cs \<noteq> None" for cs p and s :: "'d http_parser"
    unfolding request_inv_def using http11_states by blast
  show "request_inv mem pe s0 cs p s \<Longrightarrow> pe \<le> length mem" for cs p and s :: "'d http_parser"
    by (simp add: request_inv_def)
qed (rule request_edge_inv)

lemma first_call:
  assumes "0 < len" and "len \<le> length buffer" and "length buffer < 2 ^ 64"
  obtains s1 cs p where "request_loop buffer len 1 0 (http_parser_init s) = Inr (s1, cs, p)"
    and "http_parser_execute (http_parser_init s) buffer len 0 = Inr (s1\<lparr>hp_cs := cs, hp_nread := p\<rparr>, p)"
    and "p \<le> len" and "p < len \<longrightarrow> cs = 0 \<or> 348 \<le> cs"
proof -
  let ?s = "http_parser_init s"
  have "request_inv buffer len ?s 1 0 ?s" using assms
    by (simp add: request_inv_def marks_ok_def http_parser_init_def edge_facts)
  from request.loop_ok [OF this le0] obtain s1 cs p q where
    l: "request_loop buffer len 1 0 ?s = Inr (s1, cs, p)" "p \<le> len" "request_inv buffer len ?s q p s1"
       "cs = 0 \<or> cs = q \<and> (p = len \<or> 348 \<le> q)"
    unfolding request_loop_def by blast
  have m: "hp_cs s1 = 1" "hp_nread s1 = 0" "hp_body_start s1 \<le> len" "hp_mark s1 < len" "hp_field_len s1 \<le> len" "hp_field_start s1 < len"
    using l(3) by (simp_all add: request_inv_def marks_ok_def http_parser_init_def http_parser_start_def)
  have "http_parser_execute ?s buffer len 0 = Inr (s1\<lparr>hp_cs := cs, hp_nread := p\<rparr>, p)"
    using assms(1) l(1,2) m
    by (simp add: http_parser_execute_def http_parser_init_def http_parser_start_def http_parser_has_error_def http_parser_error_def)
  then show thesis using that l by blast
qed

section \<open>Properties\<close>



end
