(* ===== verification/HttpClientTables.thy ===== *)
theory HttpClientTables
  imports Ragel
begin

text \<open>
  The response automaton, block by block in the order of
  \<open>src/megalo/http/httpclient_parser.rl.cc\<close>, written as the request automaton is.
\<close>

datatype response_action =
    CMark | CStartField | CWriteField | CStartValue | CWriteContentLen | CWriteConnectionClose
  | CWriteValue | CReasonPhrase | CStatusCode | CHttpVersion | CChunkSize | CTransChunked | CDone

definition httpclient_code_1 :: "response_action block list" where
  "httpclient_code_1 = [
     St 1 False [(48, 57, TR 0), (65, 70, TR 0), (72, 72, TR 2), (97, 102, TR 0)] (ST 0),
     Tr 0 [CMark] 2,
     St 2 False [(10, 10, TR 3), (13, 13, TR 4), (48, 57, ST 2), (59, 59, TR 6), (65, 70, ST 2),
       (97, 102, ST 2)] (ST 0),
     Tr 3 [CChunkSize, CDone] 120,
     Tr 7 [CDone] 120,
     Tr 9 [CWriteField, CStartValue, CWriteValue, CDone] 120,
     Tr 15 [CWriteValue, CDone] 120,
     Tr 74 [CWriteConnectionClose, CDone] 120,
     St 120 False [] (ST 0),
     Tr 4 [CChunkSize] 3]"

definition httpclient_code_2 :: "response_action block list" where
  "httpclient_code_2 = [
     Tr 10 [CWriteField, CStartValue, CWriteValue] 3,
     Tr 16 [CWriteValue] 3,
     Tr 75 [CWriteConnectionClose] 3,
     St 3 False [(10, 10, TR 7)] (ST 0),
     Tr 6 [CChunkSize] 4,
     Tr 12 [CWriteField, CStartValue, CWriteValue] 4,
     Tr 18 [CWriteValue] 4,
     St 4 False [(33, 33, TR 8), (35, 39, TR 8), (42, 43, TR 8), (45, 46, TR 8), (48, 57, TR 8),
       (65, 90, TR 8), (94, 122, TR 8), (124, 124, TR 8), (126, 126, TR 8)] (ST 0),
     Tr 8 [CStartField] 5,
     St 5 False [(10, 10, TR 9), (13, 13, TR 10), (33, 33, ST 5), (35, 39, ST 5), (42, 43, ST 5),
       (45, 46, ST 5), (48, 57, ST 5), (59, 59, TR 12), (61, 61, TR 13), (65, 90, ST 5),
       (94, 122, ST 5), (124, 124, ST 5), (126, 126, ST 5)] (ST 0),
     Tr 13 [CWriteField, CStartValue] 6]"

definition httpclient_code_3 :: "response_action block list" where
  "httpclient_code_3 = [
     St 6 False [(33, 33, TR 14), (35, 39, TR 14), (42, 43, TR 14), (45, 46, TR 14),
       (48, 57, TR 14), (65, 90, TR 14), (94, 122, TR 14), (124, 124, TR 14), (126, 126, TR 14)] (ST
       0),
     Tr 14 [CStartValue] 7,
     St 7 False [(10, 10, TR 15), (13, 13, TR 16), (33, 33, ST 7), (35, 39, ST 7), (42, 43, ST 7),
       (45, 46, ST 7), (48, 57, ST 7), (59, 59, TR 18), (65, 90, ST 7), (94, 122, ST 7),
       (124, 124, ST 7), (126, 126, ST 7)] (ST 0),
     Tr 2 [CMark] 8,
     St 8 False [(84, 84, ST 9)] (ST 0),
     St 9 False [(84, 84, ST 10)] (ST 0),
     St 10 False [(80, 80, ST 11)] (ST 0),
     St 11 False [(47, 47, ST 12)] (ST 0),
     St 12 False [(48, 57, ST 13)] (ST 0),
     St 13 False [(46, 46, ST 14), (48, 57, ST 13)] (ST 0),
     St 14 False [(48, 57, ST 15)] (ST 0),
     St 15 False [(32, 32, TR 26), (48, 57, ST 15)] (ST 0),
     Tr 26 [CHttpVersion] 16,
     St 16 False [(48, 57, TR 27)] (ST 0)]"

definition httpclient_code_4 :: "response_action block list" where
  "httpclient_code_4 = [
     Tr 27 [CMark] 17,
     St 17 False [(32, 32, TR 28), (48, 57, ST 17)] (ST 0),
     Tr 28 [CStatusCode] 18,
     St 18 False [(10, 10, ST 0)] (TR 30),
     Tr 30 [CMark] 19,
     St 19 False [(10, 10, TR 32), (13, 13, TR 33)] (ST 19),
     Tr 45 [CWriteValue] 20,
     Tr 32 [CReasonPhrase] 20,
     Tr 42 [CStartValue, CWriteValue] 20,
     Tr 111 [CWriteValue, CTransChunked] 20,
     Tr 113 [CTransChunked] 20,
     Tr 158 [CWriteContentLen, CWriteValue] 20,
     St 20 False [(10, 10, TR 7), (13, 13, ST 3), (33, 33, TR 35), (35, 39, TR 35), (42, 43, TR 35),
       (45, 46, TR 35), (48, 57, TR 35), (65, 66, TR 35), (67, 67, TR 36), (68, 83, TR 35),
       (84, 84, TR 37), (85, 90, TR 35), (94, 98, TR 35), (99, 99, TR 36), (100, 115, TR 35),
       (116, 116, TR 37), (117, 122, TR 35), (124, 124, TR 35), (126, 126, TR 35)] (ST 0),
     Tr 35 [CStartField] 21]"

definition httpclient_code_5 :: "response_action block list" where
  "httpclient_code_5 = [
     Tr 76 [CWriteConnectionClose, CStartField] 21,
     St 21 False [(33, 33, ST 21), (35, 39, ST 21), (42, 43, ST 21), (45, 46, ST 21),
       (48, 57, ST 21), (58, 58, TR 39), (65, 90, ST 21), (94, 122, ST 21), (124, 124, ST 21),
       (126, 126, ST 21)] (ST 0),
     Tr 41 [CStartValue] 22,
     Tr 39 [CWriteField] 22,
     St 22 False [(9, 9, TR 41), (10, 10, TR 42), (11, 12, TR 41), (13, 13, TR 43), (32, 32, TR 41)]
       (TR 40),
     Tr 40 [CStartValue] 23,
     St 23 False [(10, 10, TR 45), (13, 13, TR 46)] (ST 23),
     Tr 46 [CWriteValue] 24,
     Tr 33 [CReasonPhrase] 24,
     Tr 43 [CStartValue, CWriteValue] 24,
     Tr 159 [CWriteContentLen, CWriteValue] 24,
     St 24 False [(10, 10, ST 20)] (ST 0),
     Tr 36 [CStartField] 25,
     Tr 77 [CWriteConnectionClose, CStartField] 25]"

definition httpclient_code_6 :: "response_action block list" where
  "httpclient_code_6 = [
     St 25 False [(33, 33, ST 21), (35, 39, ST 21), (42, 43, ST 21), (45, 46, ST 21),
       (48, 57, ST 21), (58, 58, TR 39), (65, 78, ST 21), (79, 79, ST 26), (80, 90, ST 21),
       (94, 110, ST 21), (111, 111, ST 26), (112, 122, ST 21), (124, 124, ST 21), (126, 126, ST 21)]
       (ST 0),
     St 26 False [(33, 33, ST 21), (35, 39, ST 21), (42, 43, ST 21), (45, 46, ST 21),
       (48, 57, ST 21), (58, 58, TR 39), (65, 77, ST 21), (78, 78, ST 27), (79, 90, ST 21),
       (94, 109, ST 21), (110, 110, ST 27), (111, 122, ST 21), (124, 124, ST 21), (126, 126, ST 21)]
       (ST 0),
     St 27 False [(33, 33, ST 21), (35, 39, ST 21), (42, 43, ST 21), (45, 46, ST 21),
       (48, 57, ST 21), (58, 58, TR 39), (65, 77, ST 21), (78, 78, ST 28), (79, 83, ST 21),
       (84, 84, ST 101), (85, 90, ST 21), (94, 109, ST 21), (110, 110, ST 28), (111, 115, ST 21),
       (116, 116, ST 101), (117, 122, ST 21), (124, 124, ST 21), (126, 126, ST 21)] (ST 0),
     St 28 False [(33, 33, ST 21), (35, 39, ST 21), (42, 43, ST 21), (45, 46, ST 21),
       (48, 57, ST 21), (58, 58, TR 39), (65, 68, ST 21), (69, 69, ST 29), (70, 90, ST 21),
       (94, 100, ST 21), (101, 101, ST 29), (102, 122, ST 21), (124, 124, ST 21), (126, 126, ST 21)]
       (ST 0)]"

definition httpclient_code_7 :: "response_action block list" where
  "httpclient_code_7 = [
     St 29 False [(33, 33, ST 21), (35, 39, ST 21), (42, 43, ST 21), (45, 46, ST 21),
       (48, 57, ST 21), (58, 58, TR 39), (65, 66, ST 21), (67, 67, ST 30), (68, 90, ST 21),
       (94, 98, ST 21), (99, 99, ST 30), (100, 122, ST 21), (124, 124, ST 21), (126, 126, ST 21)]
       (ST 0),
     St 30 False [(33, 33, ST 21), (35, 39, ST 21), (42, 43, ST 21), (45, 46, ST 21),
       (48, 57, ST 21), (58, 58, TR 39), (65, 83, ST 21), (84, 84, ST 31), (85, 90, ST 21),
       (94, 115, ST 21), (116, 116, ST 31), (117, 122, ST 21), (124, 124, ST 21), (126, 126, ST 21)]
       (ST 0),
     St 31 False [(33, 33, ST 21), (35, 39, ST 21), (42, 43, ST 21), (45, 46, ST 21),
       (48, 57, ST 21), (58, 58, TR 39), (65, 72, ST 21), (73, 73, ST 32), (74, 90, ST 21),
       (94, 104, ST 21), (105, 105, ST 32), (106, 122, ST 21), (124, 124, ST 21), (126, 126, ST 21)]
       (ST 0),
     St 32 False [(33, 33, ST 21), (35, 39, ST 21), (42, 43, ST 21), (45, 46, ST 21),
       (48, 57, ST 21), (58, 58, TR 39), (65, 78, ST 21), (79, 79, ST 33), (80, 90, ST 21),
       (94, 110, ST 21), (111, 111, ST 33), (112, 122, ST 21), (124, 124, ST 21), (126, 126, ST 21)]
       (ST 0)]"

definition httpclient_code_8 :: "response_action block list" where
  "httpclient_code_8 = [
     St 33 False [(33, 33, ST 21), (35, 39, ST 21), (42, 43, ST 21), (45, 46, ST 21),
       (48, 57, ST 21), (58, 58, TR 39), (65, 77, ST 21), (78, 78, ST 34), (79, 90, ST 21),
       (94, 109, ST 21), (110, 110, ST 34), (111, 122, ST 21), (124, 124, ST 21), (126, 126, ST 21)]
       (ST 0),
     St 34 False [(33, 33, ST 21), (35, 39, ST 21), (42, 43, ST 21), (45, 46, ST 21),
       (48, 57, ST 21), (58, 58, TR 58), (65, 90, ST 21), (94, 122, ST 21), (124, 124, ST 21),
       (126, 126, ST 21)] (ST 0),
     Tr 59 [CStartValue] 35,
     Tr 58 [CWriteField] 35,
     St 35 False [(9, 9, TR 59), (10, 10, TR 60), (11, 12, TR 59), (13, 13, TR 61), (32, 32, TR 59),
       (67, 67, TR 62), (99, 99, TR 62)] (TR 40),
     Tr 60 [CStartValue, CWriteValue] 36,
     St 36 False [(9, 9, ST 37), (10, 10, TR 64), (11, 12, ST 37), (13, 13, ST 89), (32, 32, ST 37),
       (33, 33, TR 35), (35, 39, TR 35), (42, 43, TR 35), (45, 46, TR 35), (48, 57, TR 35),
       (65, 66, TR 35), (67, 67, TR 66), (68, 83, TR 35), (84, 84, TR 37), (85, 90, TR 35),
       (94, 98, TR 35), (99, 99, TR 66), (100, 115, TR 35), (116, 116, TR 37), (117, 122, TR 35),
       (124, 124, TR 35), (126, 126, TR 35)] (ST 0),
     St 37 False [(9, 13, ST 37), (32, 32, ST 37), (67, 67, ST 38), (99, 99, ST 38)] (ST 0)]"

definition httpclient_code_9 :: "response_action block list" where
  "httpclient_code_9 = [
     St 38 False [(76, 76, ST 39), (108, 108, ST 39)] (ST 0),
     St 39 False [(79, 79, ST 40), (111, 111, ST 40)] (ST 0),
     St 40 False [(83, 83, ST 41), (115, 115, ST 41)] (ST 0),
     St 41 False [(69, 69, ST 42), (101, 101, ST 42)] (ST 0),
     St 42 False [(10, 10, ST 43), (13, 13, ST 88)] (ST 0),
     Tr 136 [CWriteValue] 43,
     St 43 False [(10, 10, TR 74), (13, 13, TR 75), (33, 33, TR 76), (35, 39, TR 76),
       (42, 43, TR 76), (45, 46, TR 76), (48, 57, TR 76), (65, 66, TR 76), (67, 67, TR 77),
       (68, 83, TR 76), (84, 84, TR 78), (85, 90, TR 76), (94, 98, TR 76), (99, 99, TR 77),
       (100, 115, TR 76), (116, 116, TR 78), (117, 122, TR 76), (124, 124, TR 76),
       (126, 126, TR 76)] (ST 0),
     Tr 37 [CStartField] 44,
     Tr 78 [CWriteConnectionClose, CStartField] 44,
     St 44 False [(33, 33, ST 21), (35, 39, ST 21), (42, 43, ST 21), (45, 46, ST 21),
       (48, 57, ST 21), (58, 58, TR 39), (65, 81, ST 21), (82, 82, ST 45), (83, 90, ST 21),
       (94, 113, ST 21), (114, 114, ST 45), (115, 122, ST 21), (124, 124, ST 21), (126, 126, ST 21)]
       (ST 0)]"

definition httpclient_code_10 :: "response_action block list" where
  "httpclient_code_10 = [
     St 45 False [(33, 33, ST 21), (35, 39, ST 21), (42, 43, ST 21), (45, 46, ST 21),
       (48, 57, ST 21), (58, 58, TR 39), (65, 65, ST 46), (66, 90, ST 21), (94, 96, ST 21),
       (97, 97, ST 46), (98, 122, ST 21), (124, 124, ST 21), (126, 126, ST 21)] (ST 0),
     St 46 False [(33, 33, ST 21), (35, 39, ST 21), (42, 43, ST 21), (45, 46, ST 21),
       (48, 57, ST 21), (58, 58, TR 39), (65, 77, ST 21), (78, 78, ST 47), (79, 90, ST 21),
       (94, 109, ST 21), (110, 110, ST 47), (111, 122, ST 21), (124, 124, ST 21), (126, 126, ST 21)]
       (ST 0),
     St 47 False [(33, 33, ST 21), (35, 39, ST 21), (42, 43, ST 21), (45, 46, ST 21),
       (48, 57, ST 21), (58, 58, TR 39), (65, 82, ST 21), (83, 83, ST 48), (84, 90, ST 21),
       (94, 114, ST 21), (115, 115, ST 48), (116, 122, ST 21), (124, 124, ST 21), (126, 126, ST 21)]
       (ST 0),
     St 48 False [(33, 33, ST 21), (35, 39, ST 21), (42, 43, ST 21), (45, 46, ST 21),
       (48, 57, ST 21), (58, 58, TR 39), (65, 69, ST 21), (70, 70, ST 49), (71, 90, ST 21),
       (94, 101, ST 21), (102, 102, ST 49), (103, 122, ST 21), (124, 124, ST 21), (126, 126, ST 21)]
       (ST 0)]"

definition httpclient_code_11 :: "response_action block list" where
  "httpclient_code_11 = [
     St 49 False [(33, 33, ST 21), (35, 39, ST 21), (42, 43, ST 21), (45, 46, ST 21),
       (48, 57, ST 21), (58, 58, TR 39), (65, 68, ST 21), (69, 69, ST 50), (70, 90, ST 21),
       (94, 100, ST 21), (101, 101, ST 50), (102, 122, ST 21), (124, 124, ST 21), (126, 126, ST 21)]
       (ST 0),
     St 50 False [(33, 33, ST 21), (35, 39, ST 21), (42, 43, ST 21), (45, 46, ST 21),
       (48, 57, ST 21), (58, 58, TR 39), (65, 81, ST 21), (82, 82, ST 51), (83, 90, ST 21),
       (94, 113, ST 21), (114, 114, ST 51), (115, 122, ST 21), (124, 124, ST 21), (126, 126, ST 21)]
       (ST 0),
     St 51 False [(33, 33, ST 21), (35, 39, ST 21), (42, 43, ST 21), (45, 45, ST 52),
       (46, 46, ST 21), (48, 57, ST 21), (58, 58, TR 39), (65, 90, ST 21), (94, 122, ST 21),
       (124, 124, ST 21), (126, 126, ST 21)] (ST 0),
     St 52 False [(33, 33, ST 21), (35, 39, ST 21), (42, 43, ST 21), (45, 46, ST 21),
       (48, 57, ST 21), (58, 58, TR 39), (65, 68, ST 21), (69, 69, ST 53), (70, 90, ST 21),
       (94, 100, ST 21), (101, 101, ST 53), (102, 122, ST 21), (124, 124, ST 21), (126, 126, ST 21)]
       (ST 0)]"

definition httpclient_code_12 :: "response_action block list" where
  "httpclient_code_12 = [
     St 53 False [(33, 33, ST 21), (35, 39, ST 21), (42, 43, ST 21), (45, 46, ST 21),
       (48, 57, ST 21), (58, 58, TR 39), (65, 77, ST 21), (78, 78, ST 54), (79, 90, ST 21),
       (94, 109, ST 21), (110, 110, ST 54), (111, 122, ST 21), (124, 124, ST 21), (126, 126, ST 21)]
       (ST 0),
     St 54 False [(33, 33, ST 21), (35, 39, ST 21), (42, 43, ST 21), (45, 46, ST 21),
       (48, 57, ST 21), (58, 58, TR 39), (65, 66, ST 21), (67, 67, ST 55), (68, 90, ST 21),
       (94, 98, ST 21), (99, 99, ST 55), (100, 122, ST 21), (124, 124, ST 21), (126, 126, ST 21)]
       (ST 0),
     St 55 False [(33, 33, ST 21), (35, 39, ST 21), (42, 43, ST 21), (45, 46, ST 21),
       (48, 57, ST 21), (58, 58, TR 39), (65, 78, ST 21), (79, 79, ST 56), (80, 90, ST 21),
       (94, 110, ST 21), (111, 111, ST 56), (112, 122, ST 21), (124, 124, ST 21), (126, 126, ST 21)]
       (ST 0),
     St 56 False [(33, 33, ST 21), (35, 39, ST 21), (42, 43, ST 21), (45, 46, ST 21),
       (48, 57, ST 21), (58, 58, TR 39), (65, 67, ST 21), (68, 68, ST 57), (69, 90, ST 21),
       (94, 99, ST 21), (100, 100, ST 57), (101, 122, ST 21), (124, 124, ST 21), (126, 126, ST 21)]
       (ST 0)]"

definition httpclient_code_13 :: "response_action block list" where
  "httpclient_code_13 = [
     St 57 False [(33, 33, ST 21), (35, 39, ST 21), (42, 43, ST 21), (45, 46, ST 21),
       (48, 57, ST 21), (58, 58, TR 39), (65, 72, ST 21), (73, 73, ST 58), (74, 90, ST 21),
       (94, 104, ST 21), (105, 105, ST 58), (106, 122, ST 21), (124, 124, ST 21), (126, 126, ST 21)]
       (ST 0),
     St 58 False [(33, 33, ST 21), (35, 39, ST 21), (42, 43, ST 21), (45, 46, ST 21),
       (48, 57, ST 21), (58, 58, TR 39), (65, 77, ST 21), (78, 78, ST 59), (79, 90, ST 21),
       (94, 109, ST 21), (110, 110, ST 59), (111, 122, ST 21), (124, 124, ST 21), (126, 126, ST 21)]
       (ST 0),
     St 59 False [(33, 33, ST 21), (35, 39, ST 21), (42, 43, ST 21), (45, 46, ST 21),
       (48, 57, ST 21), (58, 58, TR 39), (65, 70, ST 21), (71, 71, ST 60), (72, 90, ST 21),
       (94, 102, ST 21), (103, 103, ST 60), (104, 122, ST 21), (124, 124, ST 21), (126, 126, ST 21)]
       (ST 0),
     St 60 False [(33, 33, ST 21), (35, 39, ST 21), (42, 43, ST 21), (45, 46, ST 21),
       (48, 57, ST 21), (58, 58, TR 95), (65, 90, ST 21), (94, 122, ST 21), (124, 124, ST 21),
       (126, 126, ST 21)] (ST 0),
     Tr 96 [CStartValue] 61,
     Tr 95 [CWriteField] 61,
     St 61 False [(9, 9, TR 96), (10, 10, TR 97), (11, 12, TR 96), (13, 13, TR 98), (32, 32, TR 96),
       (67, 67, TR 99), (99, 99, TR 99)] (TR 40)]"

definition httpclient_code_14 :: "response_action block list" where
  "httpclient_code_14 = [
     Tr 97 [CStartValue, CWriteValue] 62,
     St 62 False [(9, 9, ST 63), (10, 10, TR 101), (11, 12, ST 63), (13, 13, ST 72),
       (32, 32, ST 63), (33, 33, TR 35), (35, 39, TR 35), (42, 43, TR 35), (45, 46, TR 35),
       (48, 57, TR 35), (65, 66, TR 35), (67, 67, TR 103), (68, 83, TR 35), (84, 84, TR 37),
       (85, 90, TR 35), (94, 98, TR 35), (99, 99, TR 103), (100, 115, TR 35), (116, 116, TR 37),
       (117, 122, TR 35), (124, 124, TR 35), (126, 126, TR 35)] (ST 0),
     St 63 False [(9, 13, ST 63), (32, 32, ST 63), (67, 67, TR 104), (99, 99, TR 104)] (ST 0),
     Tr 104 [CStartValue] 64,
     St 64 False [(72, 72, ST 65), (104, 104, ST 65)] (ST 0),
     St 65 False [(85, 85, ST 66), (117, 117, ST 66)] (ST 0),
     St 66 False [(78, 78, ST 67), (110, 110, ST 67)] (ST 0),
     St 67 False [(75, 75, ST 68), (107, 107, ST 68)] (ST 0),
     St 68 False [(69, 69, ST 69), (101, 101, ST 69)] (ST 0),
     St 69 False [(68, 68, ST 70), (100, 100, ST 70)] (ST 0),
     St 70 False [(10, 10, TR 111), (13, 13, TR 112)] (ST 0),
     Tr 112 [CWriteValue] 71,
     St 71 False [(10, 10, TR 113)] (ST 0)]"

definition httpclient_code_15 :: "response_action block list" where
  "httpclient_code_15 = [
     Tr 101 [CDone] 121,
     St 121 False [(9, 13, ST 63), (32, 32, ST 63), (67, 67, TR 104), (99, 99, TR 104)] (ST 0),
     St 72 False [(9, 9, ST 63), (10, 10, TR 101), (11, 13, ST 63), (32, 32, ST 63),
       (67, 67, TR 104), (99, 99, TR 104)] (ST 0),
     Tr 103 [CStartValue, CStartField] 73,
     St 73 False [(33, 33, ST 21), (35, 39, ST 21), (42, 43, ST 21), (45, 46, ST 21),
       (48, 57, ST 21), (58, 58, TR 39), (65, 71, ST 21), (72, 72, ST 74), (73, 78, ST 21),
       (79, 79, ST 26), (80, 90, ST 21), (94, 103, ST 21), (104, 104, ST 74), (105, 110, ST 21),
       (111, 111, ST 26), (112, 122, ST 21), (124, 124, ST 21), (126, 126, ST 21)] (ST 0),
     St 74 False [(33, 33, ST 21), (35, 39, ST 21), (42, 43, ST 21), (45, 46, ST 21),
       (48, 57, ST 21), (58, 58, TR 39), (65, 84, ST 21), (85, 85, ST 75), (86, 90, ST 21),
       (94, 116, ST 21), (117, 117, ST 75), (118, 122, ST 21), (124, 124, ST 21), (126, 126, ST 21)]
       (ST 0),
     St 75 False [(33, 33, ST 21), (35, 39, ST 21), (42, 43, ST 21), (45, 46, ST 21),
       (48, 57, ST 21), (58, 58, TR 39), (65, 77, ST 21), (78, 78, ST 76), (79, 90, ST 21),
       (94, 109, ST 21), (110, 110, ST 76), (111, 122, ST 21), (124, 124, ST 21), (126, 126, ST 21)]
       (ST 0)]"

definition httpclient_code_16 :: "response_action block list" where
  "httpclient_code_16 = [
     St 76 False [(33, 33, ST 21), (35, 39, ST 21), (42, 43, ST 21), (45, 46, ST 21),
       (48, 57, ST 21), (58, 58, TR 39), (65, 74, ST 21), (75, 75, ST 77), (76, 90, ST 21),
       (94, 106, ST 21), (107, 107, ST 77), (108, 122, ST 21), (124, 124, ST 21), (126, 126, ST 21)]
       (ST 0),
     St 77 False [(33, 33, ST 21), (35, 39, ST 21), (42, 43, ST 21), (45, 46, ST 21),
       (48, 57, ST 21), (58, 58, TR 39), (65, 68, ST 21), (69, 69, ST 78), (70, 90, ST 21),
       (94, 100, ST 21), (101, 101, ST 78), (102, 122, ST 21), (124, 124, ST 21), (126, 126, ST 21)]
       (ST 0),
     St 78 False [(33, 33, ST 21), (35, 39, ST 21), (42, 43, ST 21), (45, 46, ST 21),
       (48, 57, ST 21), (58, 58, TR 39), (65, 67, ST 21), (68, 68, ST 79), (69, 90, ST 21),
       (94, 99, ST 21), (100, 100, ST 79), (101, 122, ST 21), (124, 124, ST 21), (126, 126, ST 21)]
       (ST 0),
     St 79 False [(10, 10, TR 111), (13, 13, TR 112), (33, 33, ST 21), (35, 39, ST 21),
       (42, 43, ST 21), (45, 46, ST 21), (48, 57, ST 21), (58, 58, TR 39), (65, 90, ST 21),
       (94, 122, ST 21), (124, 124, ST 21), (126, 126, ST 21)] (ST 0),
     Tr 98 [CStartValue, CWriteValue] 80,
     St 80 False [(9, 9, ST 63), (10, 10, ST 62), (11, 13, ST 63), (32, 32, ST 63),
       (67, 67, TR 104), (99, 99, TR 104)] (ST 0)]"

definition httpclient_code_17 :: "response_action block list" where
  "httpclient_code_17 = [
     Tr 99 [CStartValue] 81,
     St 81 False [(10, 10, TR 45), (13, 13, TR 46), (72, 72, ST 82), (104, 104, ST 82)] (ST 23),
     St 82 False [(10, 10, TR 45), (13, 13, TR 46), (85, 85, ST 83), (117, 117, ST 83)] (ST 23),
     St 83 False [(10, 10, TR 45), (13, 13, TR 46), (78, 78, ST 84), (110, 110, ST 84)] (ST 23),
     St 84 False [(10, 10, TR 45), (13, 13, TR 46), (75, 75, ST 85), (107, 107, ST 85)] (ST 23),
     St 85 False [(10, 10, TR 45), (13, 13, TR 46), (69, 69, ST 86), (101, 101, ST 86)] (ST 23),
     St 86 False [(10, 10, TR 45), (13, 13, TR 46), (68, 68, ST 87), (100, 100, ST 87)] (ST 23),
     St 87 False [(10, 10, TR 111), (13, 13, TR 112)] (ST 23),
     Tr 137 [CWriteValue] 88,
     St 88 False [(10, 10, ST 43)] (ST 0),
     Tr 64 [CDone] 122,
     St 122 False [(9, 13, ST 37), (32, 32, ST 37), (67, 67, ST 38), (99, 99, ST 38)] (ST 0),
     St 89 False [(9, 9, ST 37), (10, 10, TR 64), (11, 13, ST 37), (32, 32, ST 37), (67, 67, ST 38),
       (99, 99, ST 38)] (ST 0),
     Tr 66 [CStartField] 90]"

definition httpclient_code_18 :: "response_action block list" where
  "httpclient_code_18 = [
     St 90 False [(33, 33, ST 21), (35, 39, ST 21), (42, 43, ST 21), (45, 46, ST 21),
       (48, 57, ST 21), (58, 58, TR 39), (65, 75, ST 21), (76, 76, ST 91), (77, 78, ST 21),
       (79, 79, ST 26), (80, 90, ST 21), (94, 107, ST 21), (108, 108, ST 91), (109, 110, ST 21),
       (111, 111, ST 26), (112, 122, ST 21), (124, 124, ST 21), (126, 126, ST 21)] (ST 0),
     St 91 False [(33, 33, ST 21), (35, 39, ST 21), (42, 43, ST 21), (45, 46, ST 21),
       (48, 57, ST 21), (58, 58, TR 39), (65, 78, ST 21), (79, 79, ST 92), (80, 90, ST 21),
       (94, 110, ST 21), (111, 111, ST 92), (112, 122, ST 21), (124, 124, ST 21), (126, 126, ST 21)]
       (ST 0),
     St 92 False [(33, 33, ST 21), (35, 39, ST 21), (42, 43, ST 21), (45, 46, ST 21),
       (48, 57, ST 21), (58, 58, TR 39), (65, 82, ST 21), (83, 83, ST 93), (84, 90, ST 21),
       (94, 114, ST 21), (115, 115, ST 93), (116, 122, ST 21), (124, 124, ST 21), (126, 126, ST 21)]
       (ST 0),
     St 93 False [(33, 33, ST 21), (35, 39, ST 21), (42, 43, ST 21), (45, 46, ST 21),
       (48, 57, ST 21), (58, 58, TR 39), (65, 68, ST 21), (69, 69, ST 94), (70, 90, ST 21),
       (94, 100, ST 21), (101, 101, ST 94), (102, 122, ST 21), (124, 124, ST 21), (126, 126, ST 21)]
       (ST 0)]"

definition httpclient_code_19 :: "response_action block list" where
  "httpclient_code_19 = [
     St 94 False [(10, 10, ST 43), (13, 13, ST 88), (33, 33, ST 21), (35, 39, ST 21),
       (42, 43, ST 21), (45, 46, ST 21), (48, 57, ST 21), (58, 58, TR 39), (65, 90, ST 21),
       (94, 122, ST 21), (124, 124, ST 21), (126, 126, ST 21)] (ST 0),
     Tr 61 [CStartValue, CWriteValue] 95,
     St 95 False [(9, 9, ST 37), (10, 10, ST 36), (11, 13, ST 37), (32, 32, ST 37), (67, 67, ST 38),
       (99, 99, ST 38)] (ST 0),
     Tr 62 [CStartValue] 96,
     St 96 False [(10, 10, TR 45), (13, 13, TR 46), (76, 76, ST 97), (108, 108, ST 97)] (ST 23),
     St 97 False [(10, 10, TR 45), (13, 13, TR 46), (79, 79, ST 98), (111, 111, ST 98)] (ST 23),
     St 98 False [(10, 10, TR 45), (13, 13, TR 46), (83, 83, ST 99), (115, 115, ST 99)] (ST 23),
     St 99 False [(10, 10, TR 45), (13, 13, TR 46), (69, 69, ST 100), (101, 101, ST 100)] (ST 23),
     St 100 False [(10, 10, TR 136), (13, 13, TR 137)] (ST 23),
     St 101 False [(33, 33, ST 21), (35, 39, ST 21), (42, 43, ST 21), (45, 46, ST 21),
       (48, 57, ST 21), (58, 58, TR 39), (65, 68, ST 21), (69, 69, ST 102), (70, 90, ST 21),
       (94, 100, ST 21), (101, 101, ST 102), (102, 122, ST 21), (124, 124, ST 21),
       (126, 126, ST 21)] (ST 0)]"

definition httpclient_code_20 :: "response_action block list" where
  "httpclient_code_20 = [
     St 102 False [(33, 33, ST 21), (35, 39, ST 21), (42, 43, ST 21), (45, 46, ST 21),
       (48, 57, ST 21), (58, 58, TR 39), (65, 77, ST 21), (78, 78, ST 103), (79, 90, ST 21),
       (94, 109, ST 21), (110, 110, ST 103), (111, 122, ST 21), (124, 124, ST 21),
       (126, 126, ST 21)] (ST 0),
     St 103 False [(33, 33, ST 21), (35, 39, ST 21), (42, 43, ST 21), (45, 46, ST 21),
       (48, 57, ST 21), (58, 58, TR 39), (65, 83, ST 21), (84, 84, ST 104), (85, 90, ST 21),
       (94, 115, ST 21), (116, 116, ST 104), (117, 122, ST 21), (124, 124, ST 21),
       (126, 126, ST 21)] (ST 0),
     St 104 False [(33, 33, ST 21), (35, 39, ST 21), (42, 43, ST 21), (45, 45, ST 105),
       (46, 46, ST 21), (48, 57, ST 21), (58, 58, TR 39), (65, 90, ST 21), (94, 122, ST 21),
       (124, 124, ST 21), (126, 126, ST 21)] (ST 0),
     St 105 False [(33, 33, ST 21), (35, 39, ST 21), (42, 43, ST 21), (45, 46, ST 21),
       (48, 57, ST 21), (58, 58, TR 39), (65, 75, ST 21), (76, 76, ST 106), (77, 90, ST 21),
       (94, 107, ST 21), (108, 108, ST 106), (109, 122, ST 21), (124, 124, ST 21),
       (126, 126, ST 21)] (ST 0)]"

definition httpclient_code_21 :: "response_action block list" where
  "httpclient_code_21 = [
     St 106 False [(33, 33, ST 21), (35, 39, ST 21), (42, 43, ST 21), (45, 46, ST 21),
       (48, 57, ST 21), (58, 58, TR 39), (65, 68, ST 21), (69, 69, ST 107), (70, 90, ST 21),
       (94, 100, ST 21), (101, 101, ST 107), (102, 122, ST 21), (124, 124, ST 21),
       (126, 126, ST 21)] (ST 0),
     St 107 False [(33, 33, ST 21), (35, 39, ST 21), (42, 43, ST 21), (45, 46, ST 21),
       (48, 57, ST 21), (58, 58, TR 39), (65, 77, ST 21), (78, 78, ST 108), (79, 90, ST 21),
       (94, 109, ST 21), (110, 110, ST 108), (111, 122, ST 21), (124, 124, ST 21),
       (126, 126, ST 21)] (ST 0),
     St 108 False [(33, 33, ST 21), (35, 39, ST 21), (42, 43, ST 21), (45, 46, ST 21),
       (48, 57, ST 21), (58, 58, TR 39), (65, 70, ST 21), (71, 71, ST 109), (72, 90, ST 21),
       (94, 102, ST 21), (103, 103, ST 109), (104, 122, ST 21), (124, 124, ST 21),
       (126, 126, ST 21)] (ST 0),
     St 109 False [(33, 33, ST 21), (35, 39, ST 21), (42, 43, ST 21), (45, 46, ST 21),
       (48, 57, ST 21), (58, 58, TR 39), (65, 83, ST 21), (84, 84, ST 110), (85, 90, ST 21),
       (94, 115, ST 21), (116, 116, ST 110), (117, 122, ST 21), (124, 124, ST 21),
       (126, 126, ST 21)] (ST 0)]"

definition httpclient_code_22 :: "response_action block list" where
  "httpclient_code_22 = [
     St 110 False [(33, 33, ST 21), (35, 39, ST 21), (42, 43, ST 21), (45, 46, ST 21),
       (48, 57, ST 21), (58, 58, TR 39), (65, 71, ST 21), (72, 72, ST 111), (73, 90, ST 21),
       (94, 103, ST 21), (104, 104, ST 111), (105, 122, ST 21), (124, 124, ST 21),
       (126, 126, ST 21)] (ST 0),
     St 111 False [(33, 33, ST 21), (35, 39, ST 21), (42, 43, ST 21), (45, 46, ST 21),
       (48, 57, ST 21), (58, 58, TR 148), (65, 90, ST 21), (94, 122, ST 21), (124, 124, ST 21),
       (126, 126, ST 21)] (ST 0),
     Tr 149 [CStartValue] 112,
     Tr 148 [CWriteField] 112,
     St 112 False [(9, 9, TR 149), (10, 10, TR 150), (11, 12, TR 149), (13, 13, TR 151),
       (32, 32, TR 149), (48, 57, TR 152)] (TR 40),
     Tr 150 [CStartValue, CWriteValue] 113,
     St 113 False [(9, 9, ST 114), (10, 10, TR 154), (11, 12, ST 114), (13, 13, ST 116),
       (32, 32, ST 114), (33, 33, TR 35), (35, 39, TR 35), (42, 43, TR 35), (45, 46, TR 35),
       (48, 57, TR 156), (65, 66, TR 35), (67, 67, TR 36), (68, 83, TR 35), (84, 84, TR 37),
       (85, 90, TR 35), (94, 98, TR 35), (99, 99, TR 36), (100, 115, TR 35), (116, 116, TR 37),
       (117, 122, TR 35), (124, 124, TR 35), (126, 126, TR 35)] (ST 0),
     St 114 False [(9, 13, ST 114), (32, 32, ST 114), (48, 57, TR 157)] (ST 0)]"

definition httpclient_code_23 :: "response_action block list" where
  "httpclient_code_23 = [
     Tr 157 [CStartValue] 115,
     St 115 False [(10, 10, TR 158), (13, 13, TR 159), (48, 57, ST 115)] (ST 0),
     Tr 154 [CDone] 123,
     St 123 False [(9, 13, ST 114), (32, 32, ST 114), (48, 57, TR 157)] (ST 0),
     St 116 False [(9, 9, ST 114), (10, 10, TR 154), (11, 13, ST 114), (32, 32, ST 114),
       (48, 57, TR 157)] (ST 0),
     Tr 156 [CStartValue, CStartField] 117,
     St 117 False [(10, 10, TR 158), (13, 13, TR 159), (33, 33, ST 21), (35, 39, ST 21),
       (42, 43, ST 21), (45, 46, ST 21), (48, 57, ST 117), (58, 58, TR 39), (65, 90, ST 21),
       (94, 122, ST 21), (124, 124, ST 21), (126, 126, ST 21)] (ST 0),
     Tr 151 [CStartValue, CWriteValue] 118,
     St 118 False [(9, 9, ST 114), (10, 10, ST 113), (11, 13, ST 114), (32, 32, ST 114),
       (48, 57, TR 157)] (ST 0),
     Tr 152 [CStartValue] 119,
     St 119 False [(10, 10, TR 158), (13, 13, TR 159), (48, 57, ST 119)] (ST 23)]"

definition httpclient_code :: "response_action block list" where
  "httpclient_code =
     httpclient_code_1 @ httpclient_code_2 @ httpclient_code_3 @ httpclient_code_4 @
     httpclient_code_5 @ httpclient_code_6 @ httpclient_code_7 @ httpclient_code_8 @
     httpclient_code_9 @ httpclient_code_10 @ httpclient_code_11 @ httpclient_code_12 @
     httpclient_code_13 @ httpclient_code_14 @ httpclient_code_15 @ httpclient_code_16 @
     httpclient_code_17 @ httpclient_code_18 @ httpclient_code_19 @ httpclient_code_20 @
     httpclient_code_21 @ httpclient_code_22 @ httpclient_code_23"

lemmas httpclient_code_defs = httpclient_code_def
  httpclient_code_1_def httpclient_code_2_def httpclient_code_3_def httpclient_code_4_def
  httpclient_code_5_def httpclient_code_6_def httpclient_code_7_def httpclient_code_8_def
  httpclient_code_9_def httpclient_code_10_def httpclient_code_11_def httpclient_code_12_def
  httpclient_code_13_def httpclient_code_14_def httpclient_code_15_def httpclient_code_16_def
  httpclient_code_17_def httpclient_code_18_def httpclient_code_19_def httpclient_code_20_def
  httpclient_code_21_def httpclient_code_22_def httpclient_code_23_def

end
