(* ===== verification/HttpClientParser.thy ===== *)
theory HttpClientParser
  imports HttpClientTables
begin

text \<open>
  The response parser around the generated automaton (\<open>src/megalo/http/httpclient_parser.h\<close> and the
  hand written parts of \<open>httpclient_parser.rl.cc\<close>), which also recognises the size lines of a
  chunked body.  Conversions follow the 64 bit platform: \<open>strtol\<close> gives a \<open>long\<close>, which is cut down
  to an \<open>int\<close> when it is stored in one.
\<close>

record 'd httpclient_parser =
  cp_cs :: nat
  cp_body_start :: nat
  cp_content_len :: int
  cp_status :: int
  cp_chunked :: bool
  cp_chunks_done :: bool
  cp_close :: bool
  cp_nread :: nat
  cp_mark :: nat
  cp_field_start :: nat
  cp_field_len :: nat
  cp_data :: 'd
  cp_http_field :: "'d field_cb"
  cp_reason_phrase :: "'d element_cb"
  cp_status_code :: "'d element_cb"
  cp_chunk_size :: "'d element_cb"
  cp_http_version :: "'d element_cb"
  cp_header_done :: "'d element_cb"
  cp_last_chunk :: "'d element_cb"

definition httpclient_parser_start :: nat where "httpclient_parser_start = 1"
definition httpclient_parser_first_final :: nat where "httpclient_parser_first_final = 120"
definition httpclient_parser_error :: nat where "httpclient_parser_error = 0"

definition httpclient_parser_init :: "'d httpclient_parser \<Rightarrow> 'd httpclient_parser" where
  "httpclient_parser_init s =
     s\<lparr>cp_cs := httpclient_parser_start, cp_body_start := 0, cp_content_len := -1, cp_chunked := False,
       cp_chunks_done := False, cp_mark := 0, cp_nread := 0, cp_field_len := 0, cp_field_start := 0,
       cp_close := False\<rparr>"

section \<open>Numbers in the C library\<close>

definition c_isspace :: "char \<Rightarrow> bool" where
  "c_isspace c = (let n = of_char c :: nat in n = 32 \<or> 9 \<le> n \<and> n \<le> 13)"

definition digit_value :: "char \<Rightarrow> int option" where
  "digit_value c =
     (let n = of_char c :: int in
      if 48 \<le> n \<and> n \<le> 57 then Some (n - 48)
      else if 65 \<le> n \<and> n \<le> 90 then Some (n - 55)
      else if 97 \<le> n \<and> n \<le> 122 then Some (n - 87) else None)"

fun read_digits :: "int \<Rightarrow> int \<Rightarrow> string \<Rightarrow> int" where
  "read_digits base acc [] = acc"
| "read_digits base acc (c # cs) =
     (case digit_value c of
        Some d \<Rightarrow> if d < base then read_digits base (acc * base + d) cs else acc
      | None \<Rightarrow> acc)"

text \<open>The prefix \<open>0x\<close> counts only in front of a hexadecimal digit.\<close>

fun skip_0x :: "int \<Rightarrow> string \<Rightarrow> string" where
  "skip_0x base (z # x # d # cs) =
     (if base = 16 \<and> z = CHR ''0'' \<and> (x = CHR ''x'' \<or> x = CHR ''X'')
         \<and> (case digit_value d of Some v \<Rightarrow> v < 16 | None \<Rightarrow> False)
      then d # cs else z # x # d # cs)"
| "skip_0x base cs = cs"

definition strtol :: "string \<Rightarrow> int \<Rightarrow> int" where
  "strtol s base =
     (let t = dropWhile c_isspace s;
          neg = (t \<noteq> [] \<and> hd t = CHR ''-'');
          u = (if t \<noteq> [] \<and> (hd t = CHR ''-'' \<or> hd t = CHR ''+'') then tl t else t);
          v = read_digits base 0 (skip_0x base u);
          w = (if neg then - v else v)
      in max (- (2 ^ 63)) (min (2 ^ 63 - 1) w))"

definition to_int32 :: "int \<Rightarrow> int" where
  "to_int32 i = sint (word_of_int i :: i32)"

section \<open>Actions and calls\<close>

definition cp_call_element ::
  "string \<Rightarrow> nat \<Rightarrow> nat \<Rightarrow> 'd element_cb \<Rightarrow> 'd httpclient_parser \<Rightarrow> parse_error + 'd httpclient_parser" where
  "cp_call_element mem at n cb s =
     result_bind (apply_element mem at n cb (cp_data s)) (\<lambda>d. Inr (s\<lparr>cp_data := d\<rparr>))"

text \<open>A number read from \<open>mark\<close> on; the memory has to go that far.\<close>

definition number_at :: "string \<Rightarrow> nat \<Rightarrow> int \<Rightarrow> parse_error + int" where
  "number_at mem at base = (if at < length mem then Inr (to_int32 (strtol (drop at mem) base)) else Inl OutOfBounds)"

fun response_act :: "string \<Rightarrow> nat \<Rightarrow> nat \<Rightarrow> response_action \<Rightarrow> 'd httpclient_parser \<Rightarrow> parse_error + 'd httpclient_parser" where
  "response_act mem pe p CMark s = Inr (s\<lparr>cp_mark := p\<rparr>)"
| "response_act mem pe p CStartField s = Inr (s\<lparr>cp_field_start := p\<rparr>)"
| "response_act mem pe p CWriteField s = Inr (s\<lparr>cp_field_len := size_sub p (cp_field_start s)\<rparr>)"
| "response_act mem pe p CStartValue s = Inr (s\<lparr>cp_mark := p\<rparr>)"
| "response_act mem pe p CWriteContentLen s =
     result_bind (number_at mem (cp_mark s) 10) (\<lambda>n. Inr (s\<lparr>cp_content_len := n\<rparr>))"
| "response_act mem pe p CWriteConnectionClose s = Inr (s\<lparr>cp_close := True\<rparr>)"
| "response_act mem pe p CWriteValue s =
     result_bind (apply_field mem (cp_field_start s) (cp_field_len s) (cp_mark s) (size_sub p (cp_mark s))
         (cp_http_field s) (cp_data s))
       (\<lambda>d. Inr (s\<lparr>cp_data := d\<rparr>))"
| "response_act mem pe p CReasonPhrase s =
     cp_call_element mem (cp_mark s) (size_sub p (cp_mark s)) (cp_reason_phrase s) s"
| "response_act mem pe p CStatusCode s =
     result_bind (number_at mem (cp_mark s) 10) (\<lambda>n.
       cp_call_element mem (cp_mark s) (size_sub p (cp_mark s)) (cp_status_code s) (s\<lparr>cp_status := n\<rparr>))"
| "response_act mem pe p CHttpVersion s =
     cp_call_element mem (cp_mark s) (size_sub p (cp_mark s)) (cp_http_version s) s"
| "response_act mem pe p CChunkSize s =
     result_bind (number_at mem (cp_mark s) 16) (\<lambda>n.
       let s1 = s\<lparr>cp_chunked := True, cp_content_len := n, cp_chunks_done := n \<le> 0\<rparr> in
       if cp_chunks_done s1 \<and> cp_last_chunk s1 \<noteq> None
       then cp_call_element mem (cp_mark s) (size_sub p (cp_mark s)) (cp_last_chunk s1) s1
       else cp_call_element mem (cp_mark s) (size_sub p (cp_mark s)) (cp_chunk_size s1) s1)"
| "response_act mem pe p CTransChunked s = Inr (s\<lparr>cp_chunked := True\<rparr>)"
| "response_act mem pe p CDone s =
     cp_call_element mem (p + 1) (pe - p - 1) (cp_header_done s) (s\<lparr>cp_body_start := p + 1\<rparr>)"

definition httpclient_parser_has_error :: "'d httpclient_parser \<Rightarrow> bool" where
  "httpclient_parser_has_error s \<longleftrightarrow> cp_cs s = httpclient_parser_error"

definition httpclient_parser_is_finished :: "'d httpclient_parser \<Rightarrow> bool" where
  "httpclient_parser_is_finished s \<longleftrightarrow> cp_cs s = httpclient_parser_first_final"

definition httpclient_parser_finish :: "'d httpclient_parser \<Rightarrow> int" where
  "httpclient_parser_finish s =
     (if httpclient_parser_has_error s then -1 else if httpclient_parser_is_finished s then 1 else 0)"

definition response_loop ::
  "string \<Rightarrow> nat \<Rightarrow> nat \<Rightarrow> nat \<Rightarrow> 'd httpclient_parser \<Rightarrow> parse_error + ('d httpclient_parser \<times> nat \<times> nat)" where
  "response_loop mem pe cs p s =
     ragel_loop httpclient_code (\<lambda>s c. c) (response_act mem pe) (\<lambda>a. a = CDone) mem pe cs p s"

text \<open>The byte behind the data is read, and has to be NUL.\<close>

definition httpclient_parser_execute ::
  "'d httpclient_parser \<Rightarrow> string \<Rightarrow> nat \<Rightarrow> nat \<Rightarrow> parse_error + ('d httpclient_parser \<times> int)" where
  "httpclient_parser_execute s buffer len off =
     (if \<not> off \<le> len then Inl AssertFailed
      else if len \<ge> length buffer then Inl OutOfBounds
      else if buffer ! len \<noteq> CHR 0x00 then Inl AssertFailed
      else result_bind (response_loop buffer len (cp_cs s) off s) (\<lambda>(s1, cs, p).
        let s2 = s1\<lparr>cp_cs := cs, cp_nread := cp_nread s1 + (p - off)\<rparr>
        in (if p \<le> len \<and> cp_nread s2 \<le> len \<and> cp_body_start s2 \<le> len
            then Inr (s2, to_int32 (int (cp_nread s2))) else Inl AssertFailed)))"

end
