(* ===== verification/HttpParser.thy ===== *)
theory HttpParser
  imports Http Http11Parser HttpClientParser
begin

text \<open>
  The parsers of requests and responses (\<open>src/megalo/http/http_parser.h\<close>, \<open>http_parser.cc\<close>): the
  callbacks that fill a message, and the methods over the generated parsers.

  The user data of the generated parser is the object itself, of which the callbacks use the
  message and the error code; the data is this pair.  Log lines are left out, and the callbacks
  that do nothing are the identity.  The configured sizes are an argument of the session.
\<close>

section \<open>Callbacks\<close>

type_synonym request_data = "HttpRequest \<times> int"
type_synonym response_data = "HttpResponse \<times> int"

text \<open>\<open>strncmp(a, b, n) == 0\<close>.\<close>

definition strncmp_eq :: "string \<Rightarrow> string \<Rightarrow> nat \<Rightarrow> bool" where
  "strncmp_eq a b n \<longleftrightarrow> take n (c_str a) = take n (c_str b)"

fun on_request_method :: "request_data \<Rightarrow> string \<Rightarrow> nat \<Rightarrow> request_data" where
  "on_request_method (r, e) at n =
     (let m = CharsToHttpMethod at in
      if m = INVALID_METHOD then (r, 1000) else (r\<lparr>rq_method := m\<rparr>, e))"

definition on_request_uri :: "request_data \<Rightarrow> string \<Rightarrow> nat \<Rightarrow> request_data" where
  "on_request_uri d at n = d"

fun on_fragment :: "request_data \<Rightarrow> string \<Rightarrow> nat \<Rightarrow> request_data" where
  "on_fragment (r, e) at n = (r\<lparr>rq_fragment := take n at\<rparr>, e)"

fun on_request_path :: "request_data \<Rightarrow> string \<Rightarrow> nat \<Rightarrow> request_data" where
  "on_request_path (r, e) at n = (r\<lparr>rq_path := take n at\<rparr>, e)"

fun on_query_string :: "request_data \<Rightarrow> string \<Rightarrow> nat \<Rightarrow> request_data" where
  "on_query_string (r, e) at n = (r\<lparr>rq_query := take n at\<rparr>, e)"

text \<open>The version as both parsers read it.\<close>

definition read_version :: "string \<Rightarrow> nat \<Rightarrow> u8 option" where
  "read_version at n =
     (if strncmp_eq at ''HTTP/1.1'' n then Some 0x11
      else if strncmp_eq at ''HTTP/1.0'' n then Some 0x10 else None)"

fun on_http_version :: "request_data \<Rightarrow> string \<Rightarrow> nat \<Rightarrow> request_data" where
  "on_http_version (r, e) at n =
     (case read_version at n of None \<Rightarrow> (r, 1001) | Some v \<Rightarrow> (r\<lparr>rq_version := v\<rparr>, e))"

fun on_http_field :: "request_data \<Rightarrow> string \<Rightarrow> nat \<Rightarrow> string \<Rightarrow> nat \<Rightarrow> request_data" where
  "on_http_field (r, e) field flen val vlen =
     (if flen = 0 then (r, 1002) else (setHeader r (take flen field) (take vlen val), e))"

section \<open>Requests\<close>

record HttpRequestParser =
  rp_parser :: "request_data http_parser"

definition rp_data :: "HttpRequestParser \<Rightarrow> HttpRequest" where
  "rp_data P = fst (hp_data (rp_parser P))"

text \<open>
  The constructor, on memory that held \<open>m\<close>: it sets every callback but \<open>header_done\<close>, and leaves
  \<open>query_start\<close> and \<open>uri_relaxed\<close> alone.
\<close>

definition new_HttpRequestParser :: "request_data http_parser \<Rightarrow> HttpRequestParser" where
  "new_HttpRequestParser m =
     \<lparr> rp_parser = (http_parser_init m)
         \<lparr>hp_request_method := Some on_request_method, hp_request_uri := Some on_request_uri,
          hp_fragment := Some on_fragment, hp_request_path := Some on_request_path,
          hp_query_string := Some on_query_string, hp_http_version := Some on_http_version,
          hp_http_field := Some on_http_field, hp_data := (new_HttpRequest 0x11 True, 0)\<rparr> \<rparr>"

text \<open>\<open>memmove(data, data + offset, len - offset)\<close>.\<close>

definition move_down :: "string \<Rightarrow> nat \<Rightarrow> nat \<Rightarrow> parse_error + string" where
  "move_down data offset len =
     (let n = size_sub len offset in
      if offset + n \<le> length data then Inr (take n (drop offset data) @ drop n data) else Inl OutOfBounds)"

definition HttpRequestParser_execute ::
  "HttpRequestParser \<Rightarrow> string \<Rightarrow> nat \<Rightarrow> parse_error + (HttpRequestParser \<times> string \<times> nat)" where
  "HttpRequestParser_execute P data len =
     result_bind (http_parser_execute (rp_parser P) data len 0) (\<lambda>(s, offset).
       result_bind (move_down data offset len) (\<lambda>data'. Inr (P\<lparr>rp_parser := s\<rparr>, data', offset)))"

definition HttpRequestParser_isFinished :: "HttpRequestParser \<Rightarrow> int" where
  "HttpRequestParser_isFinished P = http_parser_finish (rp_parser P)"

definition HttpRequestParser_hasError :: "HttpRequestParser \<Rightarrow> bool" where
  "HttpRequestParser_hasError P \<longleftrightarrow> snd (hp_data (rp_parser P)) \<noteq> 0 \<or> http_parser_has_error (rp_parser P)"

text \<open>\<open>lexical_cast\<close> reads an unsigned 64 bit number.\<close>

definition HttpRequestParser_getContentLength :: "(string \<Rightarrow> u64 option) \<Rightarrow> HttpRequestParser \<Rightarrow> u64" where
  "HttpRequestParser_getContentLength lexical_cast P = getHeaderAs lexical_cast (rp_data P) ''content-length'' 0"

section \<open>Responses\<close>

fun on_response_http_field :: "response_data \<Rightarrow> string \<Rightarrow> nat \<Rightarrow> string \<Rightarrow> nat \<Rightarrow> response_data" where
  "on_response_http_field (r, e) field flen val vlen =
     (if flen = 0 then (r, 1002) else (rs_setHeader r (take flen field) (take vlen val), e))"

fun on_response_reason :: "response_data \<Rightarrow> string \<Rightarrow> nat \<Rightarrow> response_data" where
  "on_response_reason (r, e) at n = (r\<lparr>rs_reason := take n at\<rparr>, e)"

text \<open>\<open>atoi\<close> is \<open>strtol\<close> cut down to an \<open>int\<close>; the scanned number is not negative.\<close>

fun on_response_status :: "response_data \<Rightarrow> string \<Rightarrow> nat \<Rightarrow> response_data" where
  "on_response_status (r, e) at n = (r\<lparr>rs_status := unat (word_of_int (strtol at 10) :: u32)\<rparr>, e)"

definition on_response_chunk :: "response_data \<Rightarrow> string \<Rightarrow> nat \<Rightarrow> response_data" where
  "on_response_chunk d at n = d"

fun on_response_version :: "response_data \<Rightarrow> string \<Rightarrow> nat \<Rightarrow> response_data" where
  "on_response_version (r, e) at n =
     (case read_version at n of None \<Rightarrow> (r, 1001) | Some v \<Rightarrow> (r\<lparr>rs_version := v\<rparr>, e))"

definition on_response_header_done :: "response_data \<Rightarrow> string \<Rightarrow> nat \<Rightarrow> response_data" where
  "on_response_header_done d at n = d"

definition on_response_last_chunk :: "response_data \<Rightarrow> string \<Rightarrow> nat \<Rightarrow> response_data" where
  "on_response_last_chunk d at n = d"

record HttpResponseParser =
  sp_parser :: "response_data httpclient_parser"

definition sp_data :: "HttpResponseParser \<Rightarrow> HttpResponse" where
  "sp_data P = fst (cp_data (sp_parser P))"

definition new_HttpResponseParser :: "response_data httpclient_parser \<Rightarrow> HttpResponseParser" where
  "new_HttpResponseParser m =
     \<lparr> sp_parser = (httpclient_parser_init m)
         \<lparr>cp_reason_phrase := Some on_response_reason, cp_status_code := Some on_response_status,
          cp_chunk_size := Some on_response_chunk, cp_http_version := Some on_response_version,
          cp_header_done := Some on_response_header_done, cp_last_chunk := Some on_response_last_chunk,
          cp_http_field := Some on_response_http_field, cp_data := (new_HttpResponse 0x11 True, 0)\<rparr> \<rparr>"

text \<open>The \<open>int\<close> the generated parser returns becomes a \<open>size_t\<close> again.\<close>

definition HttpResponseParser_execute ::
  "HttpResponseParser \<Rightarrow> string \<Rightarrow> nat \<Rightarrow> bool \<Rightarrow> parse_error + (HttpResponseParser \<times> string \<times> nat)" where
  "HttpResponseParser_execute P data len chunck =
     result_bind (httpclient_parser_execute
         (if chunck then httpclient_parser_init (sp_parser P) else sp_parser P) data len 0) (\<lambda>(s, n).
       let offset = nat (n mod 2 ^ 64) in
       result_bind (move_down data offset len) (\<lambda>data'. Inr (P\<lparr>sp_parser := s\<rparr>, data', offset)))"

definition HttpResponseParser_isFinished :: "HttpResponseParser \<Rightarrow> int" where
  "HttpResponseParser_isFinished P = httpclient_parser_finish (sp_parser P)"

definition HttpResponseParser_hasError :: "HttpResponseParser \<Rightarrow> bool" where
  "HttpResponseParser_hasError P \<longleftrightarrow> snd (cp_data (sp_parser P)) \<noteq> 0 \<or> httpclient_parser_has_error (sp_parser P)"

definition HttpResponseParser_getContentLength :: "(string \<Rightarrow> u64 option) \<Rightarrow> HttpResponseParser \<Rightarrow> u64" where
  "HttpResponseParser_getContentLength lexical_cast P = rs_getHeaderAs lexical_cast (sp_data P) ''content-length'' 0"

end
