(* ===== verification/RequestRun.thy ===== *)
theory RequestRun
  imports Http11Props HttpParser
begin

text \<open>
  Running the request automaton on text that is known only by its shape: the rows of the tables
  that a request passes through, as rewrite rules, and the lemmas that move the loop over a
  character with actions or over a stretch of text without any.
\<close>

section \<open>Looking up rows\<close>

fun tr_numbers :: "'a block list \<Rightarrow> nat list" where
  "tr_numbers [] = []"
| "tr_numbers (Tr k acts t # bs) = k # tr_numbers bs"
| "tr_numbers (St n wide tests other # bs) = tr_numbers bs"

lemma st_of_append: "st_of (a @ b) n = (case st_of a n of None \<Rightarrow> st_of b n | Some x \<Rightarrow> Some x)"
  by (induction a n rule: st_of.induct) auto

lemma tr_of_append: "tr_of (a @ b) k = (if k \<in> set (tr_numbers a) then tr_of a k else tr_of b k)"
  by (induction a k rule: tr_of.induct) auto

lemma numbers_append:
  "st_numbers (a @ b) = st_numbers a @ st_numbers b" "tr_numbers (a @ b) = tr_numbers a @ tr_numbers b"
  by (induction a rule: st_numbers.induct) auto

lemma st_of_part:
  assumes "distinct (st_numbers (a @ c @ b))" and "n \<in> set (st_numbers c)"
  shows "st_of (a @ c @ b) n = st_of c n"
proof -
  have "n \<notin> set (st_numbers a)" using assms by (auto simp: numbers_append)
  then have "st_of a n = None" using st_of_numbers by blast
  moreover obtain x where "st_of c n = Some x" using assms(2) st_of_numbers by (metis not_None_eq)
  ultimately show ?thesis by (simp add: st_of_append)
qed

lemma tr_of_part:
  assumes "distinct (tr_numbers (a @ c @ b))" and "k \<in> set (tr_numbers c)"
  shows "tr_of (a @ c @ b) k = tr_of c k"
  using assms by (auto simp: numbers_append tr_of_append)

lemma http11_numbers: "distinct (st_numbers http11_code)" "distinct (tr_numbers http11_code)"
proof -
  have "st_numbers http11_code = 1 # [2..<18] @ [348..<349] @ [18..<198] @ [349..<350] @ [198..<348]"
    by (simp add: http11_code_defs)
  then show "distinct (st_numbers http11_code)" by simp
  show "distinct (tr_numbers http11_code)" by (simp add: http11_code_defs)
qed

definition part_of :: "'a block list \<Rightarrow> 'a block list \<Rightarrow> bool" where
  "part_of c code \<longleftrightarrow> (\<exists>a b. code = a @ c @ b)"

lemma part_of_code:
  "part_of http11_code_1 http11_code" "part_of http11_code_2 http11_code" "part_of http11_code_3 http11_code"
  "part_of http11_code_4 http11_code" "part_of http11_code_7 http11_code" "part_of http11_code_8 http11_code"
  "part_of http11_code_9 http11_code" "part_of http11_code_26 http11_code" "part_of http11_code_27 http11_code"
  unfolding part_of_def http11_code_def by (metis append.assoc append_Nil)+

lemma st_of_http11: "part_of c http11_code \<Longrightarrow> n \<in> set (st_numbers c) \<Longrightarrow> st_of http11_code n = st_of c n"
  using st_of_part http11_numbers(1) unfolding part_of_def by metis

lemma tr_of_http11: "part_of c http11_code \<Longrightarrow> k \<in> set (tr_numbers c) \<Longrightarrow> tr_of http11_code k = tr_of c k"
  using tr_of_part http11_numbers(2) unfolding part_of_def by metis

lemmas http11_rows = part_of_code [THEN st_of_http11] part_of_code [THEN tr_of_http11]
  http11_code_1_def http11_code_2_def http11_code_3_def http11_code_4_def http11_code_7_def
  http11_code_8_def http11_code_9_def http11_code_26_def http11_code_27_def

text \<open>
  One step of the automaton on the character value \<open>w\<close>.  The three characters that states may
  widen are left out there, so that the step does not depend on \<open>uri_relaxed\<close>.
\<close>

definition hop :: "nat \<Rightarrow> int \<Rightarrow> request_action list \<times> nat" where
  "hop cs w =
     (case st_of http11_code cs of
        None \<Rightarrow> ([], 0)
      | Some (wide, tests, other) \<Rightarrow>
          if wide \<and> (w = 94 \<or> w = 123 \<or> w = 125) then ([], 0)
          else edge_of http11_code (goto_of tests other w))"

text \<open>Character classes, on the values of the characters.\<close>

definition upper_class :: "int \<Rightarrow> bool" where
  "upper_class w \<longleftrightarrow> 65 \<le> w \<and> w \<le> 90"

definition hex_class :: "int \<Rightarrow> bool" where
  "hex_class w \<longleftrightarrow> 48 \<le> w \<and> w \<le> 57 \<or> 65 \<le> w \<and> w \<le> 70 \<or> 97 \<le> w \<and> w \<le> 102"

definition path_class :: "int \<Rightarrow> bool" where
  "path_class w \<longleftrightarrow> w = 33 \<or> w = 36 \<or> 38 \<le> w \<and> w \<le> 59 \<or> w = 61 \<or> 64 \<le> w \<and> w \<le> 90 \<or> w = 95
     \<or> 97 \<le> w \<and> w \<le> 122 \<or> w = 126"

definition query_class :: "int \<Rightarrow> bool" where
  "query_class w \<longleftrightarrow> path_class w \<or> w = 63"

definition token_class :: "int \<Rightarrow> bool" where
  "token_class w \<longleftrightarrow> w = 33 \<or> 35 \<le> w \<and> w \<le> 39 \<or> w = 42 \<or> w = 43 \<or> w = 45 \<or> w = 46 \<or> 48 \<le> w \<and> w \<le> 57
     \<or> 65 \<le> w \<and> w \<le> 90 \<or> 94 \<le> w \<and> w \<le> 122 \<or> w = 124 \<or> w = 126"

definition value_class :: "int \<Rightarrow> bool" where
  "value_class w \<longleftrightarrow> w \<noteq> 0 \<and> w \<noteq> 10 \<and> w \<noteq> 13 \<and> w \<noteq> 127"

lemmas class_defs = upper_class_def hex_class_def path_class_def query_class_def token_class_def value_class_def

text \<open>The states a method runs through: 2, then 175, 176, \<dots>\<close>

definition method_state :: "nat \<Rightarrow> nat" where
  "method_state i = (if i = 0 then 2 else 174 + i)"

named_theorems hops \<open>steps of the request automaton\<close>

lemma hop_method [hops]:
  "upper_class w \<Longrightarrow> hop 1 w = ([Mark], method_state 0)"
  "i < 11 \<Longrightarrow> upper_class w \<Longrightarrow> hop (method_state i) w = ([], method_state (Suc i))"
  "i < 11 \<Longrightarrow> hop (method_state i) 32 = ([RequestMethod], 3)"
proof -
  show "upper_class w \<Longrightarrow> hop 1 w = ([Mark], method_state 0)"
    by (simp add: class_defs hop_def http11_rows method_state_def)
  have i: "i < 11 \<Longrightarrow> i = 0 \<or> i = 1 \<or> i = 2 \<or> i = 3 \<or> i = 4 \<or> i = 5 \<or> i = 6 \<or> i = 7 \<or> i = 8 \<or> i = 9 \<or> i = 10" for i :: nat
    by presburger
  show "i < 11 \<Longrightarrow> upper_class w \<Longrightarrow> hop (method_state i) w = ([], method_state (Suc i))"
    by (drule i) (elim disjE; simp add: class_defs hop_def http11_rows method_state_def)
  show "i < 11 \<Longrightarrow> hop (method_state i) 32 = ([RequestMethod], 3)"
    by (drule i) (elim disjE; simp add: hop_def http11_rows method_state_def)
qed

lemma hop_uri [hops]:
  "hop 3 47 = ([Mark], 33)"
  "hop 33 32 = ([RequestPath, RequestUri], 4)" "hop 26 32 = ([RequestPath, RequestUri], 4)"
  "hop 33 63 = ([RequestPath], 29)" "hop 26 63 = ([RequestPath], 29)"
  "hop 33 37 = ([], 27)" "hop 26 37 = ([], 27)"
  "hop 29 37 = ([StartQuery], 31)" "hop 30 37 = ([], 31)" "hop 30 32 = ([QueryString, RequestUri], 4)"
  by (simp_all add: hop_def http11_rows)

lemma hop_uri_class [hops]:
  "path_class w \<Longrightarrow> w \<noteq> 47 \<Longrightarrow> hop 33 w = ([], 26)"
  "path_class w \<Longrightarrow> hop 26 w = ([], 26)"
  "query_class w \<Longrightarrow> hop 29 w = ([StartQuery], 30)"
  "query_class w \<Longrightarrow> hop 30 w = ([], 30)"
  "hex_class w \<Longrightarrow> hop 27 w = ([], 28)" "hex_class w \<Longrightarrow> hop 28 w = ([], 26)"
  "hex_class w \<Longrightarrow> hop 31 w = ([], 32)" "hex_class w \<Longrightarrow> hop 32 w = ([], 30)"
  unfolding class_defs by (elim disjE conjE; simp add: hop_def http11_rows)+

lemma hop_version [hops]:
  "hop 4 72 = ([Mark], 5)" "hop 5 84 = ([], 6)" "hop 6 84 = ([], 7)" "hop 7 80 = ([], 8)" "hop 8 47 = ([], 9)"
  "hop 9 49 = ([], 10)" "hop 10 46 = ([], 11)" "hop 11 48 = ([], 12)" "hop 11 49 = ([], 12)"
  "hop 12 13 = ([HttpVersion], 17)" "hop 17 10 = ([], 13)"
  by (simp_all add: hop_def http11_rows)

lemma hop_field [hops]:
  "hop 14 58 = ([WriteField], 15)" "hop 15 32 = ([StartValue], 15)" "hop 15 13 = ([StartValue, WriteValue], 17)"
  "hop 16 13 = ([WriteValue], 17)" "hop 13 13 = ([StartField], 18)" "hop 18 10 = ([Done], 348)"
  by (simp_all add: hop_def http11_rows)

lemma hop_field_class [hops]:
  "token_class w \<Longrightarrow> hop 13 w = ([StartField], 14)" "token_class w \<Longrightarrow> hop 14 w = ([], 14)"
  unfolding class_defs by (elim disjE conjE; simp add: hop_def http11_rows)+

lemma hop_value_class [hops]:
  "value_class w \<Longrightarrow> w \<noteq> 9 \<Longrightarrow> w \<noteq> 32 \<Longrightarrow> hop 15 w = ([StartValue], 16)"
  "value_class w \<Longrightarrow> hop 16 w = ([], 16)"
  unfolding class_defs by (simp_all add: hop_def http11_rows)

section \<open>Moving the loop\<close>

text \<open>The text \<open>w\<close> stands in the memory at \<open>p\<close>.\<close>

definition text_at :: "string \<Rightarrow> nat \<Rightarrow> string \<Rightarrow> bool" where
  "text_at mem p w \<longleftrightarrow> take (length w) (drop p mem) = w"

lemma text_at_Nil [simp]: "text_at mem p []"
  by (simp add: text_at_def)

lemma text_at_Cons [simp]: "text_at mem p (c # w) \<longleftrightarrow> p < length mem \<and> mem ! p = c \<and> text_at mem (Suc p) w"
proof (cases "p < length mem")
  case True
  then show ?thesis by (simp add: text_at_def Cons_nth_drop_Suc [symmetric])
qed (simp add: text_at_def)

lemma text_at_append [simp]: "text_at mem p (v @ w) \<longleftrightarrow> text_at mem p v \<and> text_at mem (p + length v) w"
  by (induction v arbitrary: p) auto

lemma text_at_bound: "text_at mem p w \<Longrightarrow> w \<noteq> [] \<Longrightarrow> p + length w \<le> length mem"
proof -
  assume "text_at mem p w" and "w \<noteq> []"
  then have "min (length mem - p) (length w) = length w"
    unfolding text_at_def by (metis length_take length_drop min.commute)
  moreover have "0 < length w" using \<open>w \<noteq> []\<close> by simp
  ultimately show ?thesis by linarith
qed

lemma text_at_drop: "text_at mem p w \<Longrightarrow> drop p mem = w @ drop (p + length w) mem"
  unfolding text_at_def by (metis append_take_drop_id drop_drop add.commute)

lemma loop_row:
  assumes "p < pe" and "pe \<le> length mem" and "hop cs (char_value (mem ! p)) = (acts, t)" and "(acts, t) \<noteq> ([], 0)"
  shows "request_loop mem pe cs p s = result_bind (run_actions (request_act mem pe) p acts s)
    (\<lambda>s'. if Done \<in> set acts then Inr (s', t, p + 1) else request_loop mem pe t (p + 1) s')"
proof -
  let ?c = "char_value (mem ! p)"
  obtain wide tests other where st: "st_of http11_code cs = Some (wide, tests, other)"
    using assms(3,4) by (auto simp: hop_def split: option.splits)
  have "\<not> (wide \<and> (?c = 94 \<or> ?c = 123 \<or> ?c = 125))" and e: "edge_of http11_code (goto_of tests other ?c) = (acts, t)"
    using assms(3,4) st by (auto simp: hop_def split: if_splits)
  then have w: "(if wide then http_widec s ?c else ?c) = ?c" by (auto simp: http_widec_def)
  have np: "\<not> pe \<le> p" "\<not> length mem \<le> p" using assms(1,2) by simp_all
  show ?thesis unfolding request_loop_def
    by (subst ragel_loop.simps)
      (simp only: np st w e Let_def assms(4) if_False option.case prod.case fst_conv snd_conv list_ex_iff bex_simps; simp)
qed

fun silent :: "nat \<Rightarrow> string \<Rightarrow> nat option" where
  "silent cs [] = Some cs"
| "silent cs (c # w) = (let e = hop cs (char_value c) in if fst e = [] \<and> snd e \<noteq> 0 then silent (snd e) w else None)"

lemma silent_append: "silent cs (v @ w) = (case silent cs v of None \<Rightarrow> None | Some t \<Rightarrow> silent t w)"
  by (induction cs v rule: silent.induct) (auto simp: Let_def)

lemma loop_silent:
  "text_at mem p w \<Longrightarrow> p + length w \<le> pe \<Longrightarrow> pe \<le> length mem \<Longrightarrow> silent cs w = Some t \<Longrightarrow>
   request_loop mem pe cs p s = request_loop mem pe t (p + length w) s"
proof (induction cs w arbitrary: p rule: silent.induct)
  case (2 cs c w)
  let ?e = "hop cs (char_value c)"
  have e: "hop cs (char_value (mem ! p)) = ([], snd ?e)" "snd ?e \<noteq> 0" "silent (snd ?e) w = Some t"
    using 2 by (auto simp: Let_def prod_eq_iff split: if_splits)
  have "request_loop mem pe cs p s = request_loop mem pe (snd ?e) (p + 1) s"
    using loop_row [OF _ 2(4) e(1)] 2(3) e(2) by simp
  then show ?case using 2 e by (auto simp: Let_def split: if_splits)
qed simp

lemma silent_class:
  "list_all (\<lambda>c. C (char_value c)) w \<Longrightarrow> (\<And>x. C x \<Longrightarrow> hop cs x = ([], cs)) \<Longrightarrow> cs \<noteq> 0 \<Longrightarrow> silent cs w = Some cs"
  by (induction w) (auto simp: Let_def)

end
