(* ===== verification/RequestPhases.thy ===== *)
theory RequestPhases
  imports RequestRun HttpProps
begin

text \<open>
  The phases of a request text: method, path, query, version, header line and the empty line, each
  with the effect it has on the request that the parser fills.
\<close>

text \<open>A parser as the constructor of \<open>HttpRequestParser\<close> leaves it, with no callback for the end,
  whose mark is not beyond \<open>p\<close>.\<close>

definition wired :: "nat \<Rightarrow> request_data http_parser \<Rightarrow> bool" where
  "wired p s \<longleftrightarrow> hp_mark s \<le> p \<and> hp_request_method s = Some on_request_method \<and> hp_request_uri s = Some on_request_uri
     \<and> hp_fragment s = Some on_fragment \<and> hp_request_path s = Some on_request_path
     \<and> hp_query_string s = Some on_query_string \<and> hp_http_version s = Some on_http_version
     \<and> hp_http_field s = Some on_http_field \<and> hp_header_done s = None
     \<and> \<not> hp_xml_sent s \<and> \<not> hp_json_sent s"

text \<open>Reading \<open>w\<close> takes the automaton from \<open>cs\<close> to \<open>cs'\<close> and the data from \<open>d\<close> to \<open>d'\<close>.\<close>

definition phase :: "nat \<Rightarrow> string \<Rightarrow> request_data \<Rightarrow> nat \<Rightarrow> request_data \<Rightarrow> bool" where
  "phase cs w d cs' d' \<longleftrightarrow>
     (\<forall>mem pe p s. text_at mem p w \<and> p + length w \<le> pe \<and> pe \<le> length mem \<and> length mem < 2 ^ 64
        \<and> wired p s \<and> hp_data s = d \<longrightarrow>
        (\<exists>s'. request_loop mem pe cs p s = request_loop mem pe cs' (p + length w) s' \<and> wired (p + length w) s' \<and> hp_data s' = d'))"

lemma phase_trans: "phase cs v d cs1 d1 \<Longrightarrow> phase cs1 w d1 cs2 d2 \<Longrightarrow> phase cs (v @ w) d cs2 d2"
  unfolding phase_def
proof (intro allI impI)
  fix mem pe p s
  assume v: "\<forall>mem pe p s. text_at mem p v \<and> p + length v \<le> pe \<and> pe \<le> length mem \<and> length mem < 2 ^ 64
        \<and> wired p s \<and> hp_data s = d \<longrightarrow>
        (\<exists>s'. request_loop mem pe cs p s = request_loop mem pe cs1 (p + length v) s' \<and> wired (p + length v) s' \<and> hp_data s' = d1)"
    and w: "\<forall>mem pe p s. text_at mem p w \<and> p + length w \<le> pe \<and> pe \<le> length mem \<and> length mem < 2 ^ 64
        \<and> wired p s \<and> hp_data s = d1 \<longrightarrow>
        (\<exists>s'. request_loop mem pe cs1 p s = request_loop mem pe cs2 (p + length w) s' \<and> wired (p + length w) s' \<and> hp_data s' = d2)"
    and a: "text_at mem p (v @ w) \<and> p + length (v @ w) \<le> pe \<and> pe \<le> length mem \<and> length mem < 2 ^ 64
        \<and> wired p s \<and> hp_data s = d"
  obtain s1 where s1: "request_loop mem pe cs p s = request_loop mem pe cs1 (p + length v) s1" "wired (p + length v) s1" "hp_data s1 = d1"
    using v [rule_format, of mem p pe s] a by auto
  then obtain s2 where "request_loop mem pe cs1 (p + length v) s1 = request_loop mem pe cs2 (p + length v + length w) s2"
    "wired (p + length v + length w) s2" "hp_data s2 = d2"
    using w [rule_format, of mem "p + length v" pe s1] a by auto
  then show "\<exists>s'. request_loop mem pe cs p s = request_loop mem pe cs2 (p + length (v @ w)) s' \<and> wired (p + length (v @ w)) s' \<and> hp_data s' = d2"
    using s1(1) by (auto simp: add.assoc)
qed

lemma phaseI:
  assumes "\<And>mem pe p s. text_at mem p w \<Longrightarrow> p + length w \<le> pe \<Longrightarrow> pe \<le> length mem \<Longrightarrow> length mem < 2 ^ 64
    \<Longrightarrow> wired p s \<Longrightarrow> hp_data s = d \<Longrightarrow>
    \<exists>s'. request_loop mem pe cs p s = request_loop mem pe cs' (p + length w) s' \<and> wired (p + length w) s' \<and> hp_data s' = d'"
  shows "phase cs w d cs' d'"
  unfolding phase_def using assms by blast

text \<open>
  A token: its first character marks the start, the rest is silent, and the actions on the
  character behind it take the data to \<open>d'\<close>.
\<close>

lemma loop_token:
  assumes w: "text_at mem p (c # w @ [e])" and bound: "p + length w + 2 \<le> pe" "pe \<le> length mem"
    and first: "hop cs (char_value c) = (fa, ca)" "(fa, ca) \<noteq> ([], 0)" "Done \<notin> set fa"
      "run_actions (request_act mem pe) p fa s = Inr sa"
    and middle: "silent ca w = Some cb"
    and last: "hop cb (char_value e) = (la, cs')" "(la, cs') \<noteq> ([], 0)" "Done \<notin> set la"
      "run_actions (request_act mem pe) (p + 1 + length w) la sa = Inr sb"
  shows "request_loop mem pe cs p s = request_loop mem pe cs' (p + length w + 2) sb"
proof -
  have "request_loop mem pe cs p s = request_loop mem pe ca (p + 1) sa"
    using loop_row [of p pe mem cs fa ca s] w bound first by simp
  also have "\<dots> = request_loop mem pe cb (p + 1 + length w) sa"
    using loop_silent [OF _ _ bound(2) middle, of "p + 1"] w bound(1) by simp
  also have "\<dots> = request_loop mem pe cs' (p + length w + 2) sb"
    using loop_row [of "p + 1 + length w" pe mem cb la cs' sa] w bound last by simp
  finally show ?thesis .
qed

lemma mark_size: "p \<le> q \<Longrightarrow> q < 2 ^ 64 \<Longrightarrow> size_sub q p = q - p"
  by simp

section \<open>The request line\<close>

lemma hop_first [hops]: "upper_class w \<Longrightarrow> hop (Suc 0) w = ([Mark], method_state 0)"
  using hop_method(1) by simp

lemma char_values [simp]:
  "char_value (CHR '' '') = 32" "char_value (CHR ''/'') = 47" "char_value (CHR ''?'') = 63" "char_value (CHR ''%'') = 37"
  "char_value (CHR '':'') = 58" "char_value (CHR 0x0D) = 13" "char_value (CHR 0x0A) = 10" "char_value (CHR ''H'') = 72"
  "char_value (CHR ''T'') = 84" "char_value (CHR ''P'') = 80" "char_value (CHR ''1'') = 49" "char_value (CHR ''0'') = 48"
  "char_value (CHR ''.'') = 46"
  by (simp_all add: char_value_def)

lemma method_state_pos: "0 < method_state i"
  by (simp add: method_state_def)

lemma silent_method: "list_all (\<lambda>c. upper_class (char_value c)) w \<Longrightarrow> i + length w < 11 \<Longrightarrow>
  silent (method_state i) w = Some (method_state (i + length w))"
  by (induction w arbitrary: i) (auto simp: hops Let_def method_state_pos)

lemma phase_method:
  assumes "m \<noteq> INVALID_METHOD" and M: "HttpMethodToString m = c # w"
    and cls: "list_all (\<lambda>c. upper_class (char_value c)) (c # w)" and "length w < 11"
  shows "phase 1 (HttpMethodToString m @ '' '') (r, e) 3 (r\<lparr>rq_method := m\<rparr>, e)"
proof (rule phaseI)
  fix mem pe p s
  assume t: "text_at mem p (HttpMethodToString m @ '' '')" and b: "p + length (HttpMethodToString m @ '' '') \<le> pe"
    "pe \<le> length mem" "length mem < 2 ^ 64" and s: "wired p s" "hp_data s = (r, e)"
  let ?s1 = "s\<lparr>hp_mark := p\<rparr>"
  have "c_str ((c # w) @ x) = (c # w) @ c_str x" for x
    using cls by (intro c_str_append) (auto simp: list_all_iff upper_class_def char_value_def)
  then have "CharsToHttpMethod (drop p mem) = m"
    using CharsToHttpMethod_iff [OF assms(1)] text_at_drop [OF t] M by (simp add: prefix_def)
  then have a: "run_actions (request_act mem pe) (p + 1 + length w) [RequestMethod] ?s1 = Inr (?s1\<lparr>hp_data := (r\<lparr>rq_method := m\<rparr>, e)\<rparr>)"
    using s b M assms(1) mark_size [of p "p + 1 + length w"]
    by (simp add: call_element_def apply_element_def wired_def Let_def)
  have "request_loop mem pe 1 p s = request_loop mem pe 3 (p + length w + 2) (?s1\<lparr>hp_data := (r\<lparr>rq_method := m\<rparr>, e)\<rparr>)"
    by (rule loop_token [where ca = "method_state 0" and fa = "[Mark]" and c = c and e = "CHR '' ''" and sa = ?s1
      and cb = "method_state (length w)" and la = "[RequestMethod]"])
      (use t b M cls a silent_method [of w 0] assms(4) in \<open>auto simp: hops method_state_pos\<close>)
  then show "\<exists>s'. request_loop mem pe 1 p s = request_loop mem pe 3 (p + length (HttpMethodToString m @ '' '')) s'
      \<and> wired (p + length (HttpMethodToString m @ '' '')) s' \<and> hp_data s' = (r\<lparr>rq_method := m\<rparr>, e)"
    using s M by (intro exI [of _ "?s1\<lparr>hp_data := (r\<lparr>rq_method := m\<rparr>, e)\<rparr>"]) (simp add: wired_def add.commute)
qed

text \<open>Paths and queries: characters of a class, and percent signs with two hexadecimal digits.\<close>

fun uri_text :: "(int \<Rightarrow> bool) \<Rightarrow> string \<Rightarrow> bool" where
  "uri_text C [] = True"
| "uri_text C (c # cs) =
     (if c = CHR ''%'' then (case cs of a # b # cs' \<Rightarrow> c_isxdigit a \<and> c_isxdigit b \<and> uri_text C cs' | _ \<Rightarrow> False)
      else C (char_value c) \<and> uri_text C cs)"

lemma hex_class_char: "c_isxdigit c \<Longrightarrow> hex_class (char_value c)"
  by (auto simp: c_isxdigit_def hex_class_def char_value_def Let_def)

lemma silent_uri:
  assumes C: "\<And>x. C x \<Longrightarrow> hop n x = ([], n)" and h: "hop n 37 = ([], na)"
    and h1: "\<And>x. hex_class x \<Longrightarrow> hop na x = ([], nb)" and h2: "\<And>x. hex_class x \<Longrightarrow> hop nb x = ([], n)"
    and pos: "0 < n" "0 < na" "0 < nb"
  shows "uri_text C w \<Longrightarrow> silent n w = Some n"
proof (induction "length w" arbitrary: w rule: less_induct)
  case less
  show ?case
  proof (cases w)
    case (Cons c cs)
    show ?thesis
    proof (cases "c = CHR ''%''")
      case True
      then obtain a b cs' where cs: "cs = a # b # cs'" "c_isxdigit a" "c_isxdigit b" "uri_text C cs'"
        using less.prems Cons by (auto split: list.splits)
      then show ?thesis using less.hyps [of cs'] Cons True pos
        by (simp add: Let_def h h1 [OF hex_class_char] h2 [OF hex_class_char])
    next
      case False
      then show ?thesis using less.prems less.hyps [of cs] Cons pos by (simp add: Let_def C)
    qed
  qed simp
qed

lemma silent_path_tail: "uri_text path_class w \<Longrightarrow> silent 26 w = Some 26"
  by (rule silent_uri [where C = path_class and na = 27 and nb = 28]) (simp_all add: hops)

lemma silent_query_tail: "uri_text query_class w \<Longrightarrow> silent 30 w = Some 30"
  by (rule silent_uri [where C = query_class and na = 31 and nb = 32]) (simp_all add: hops)

definition path_text :: "string \<Rightarrow> bool" where
  "path_text s \<longleftrightarrow> (\<exists>w. s = CHR ''/'' # w \<and> uri_text path_class w \<and> (w = [] \<or> hd w \<noteq> CHR ''/''))"

lemma char_value_inject: "char_value c = char_value d \<longleftrightarrow> c = d"
proof
  assume cd: "char_value c = char_value d"
  define n m :: nat where "n = of_char c" and "m = of_char d"
  have "n < 256" "m < 256" unfolding n_def m_def by (rule nat_of_char_less_256)+
  then have "n = m" using cd unfolding char_value_def Let_def n_def [symmetric] m_def [symmetric]
    by (simp split: if_splits)
  then have "(of_char c :: nat) = of_char d" by (simp only: n_def m_def)
  then show "c = d" by simp
qed simp

lemma silent_path:
  assumes "uri_text path_class w" and "w = [] \<or> hd w \<noteq> CHR ''/''"
  shows "silent 33 w = Some (if w = [] then 33 else 26)"
proof (cases w)
  case (Cons c cs)
  show ?thesis
  proof (cases "c = CHR ''%''")
    case True
    then obtain a b cs' where cs: "cs = a # b # cs'" "c_isxdigit a" "c_isxdigit b" "uri_text path_class cs'"
      using assms(1) Cons by (auto split: list.splits)
    then show ?thesis using Cons True silent_path_tail
      by (simp add: Let_def hops hop_uri_class(5) [OF hex_class_char] hop_uri_class(6) [OF hex_class_char])
  next
    case False
    have "char_value c \<noteq> 47" using assms(2) Cons char_value_inject [of c "CHR ''/''"] by simp
    then show ?thesis using False assms(1) Cons silent_path_tail by (simp add: Let_def hops)
  qed
qed simp

lemma phase_path:
  assumes "path_text path" and "(e, la, t) = (CHR '' '', [RequestPath, RequestUri], 4) \<or> (e, la, t) = (CHR ''?'', [RequestPath], 29)"
  shows "phase 3 (path @ [e]) (r, err) t (r\<lparr>rq_path := path\<rparr>, err)"
proof (rule phaseI)
  fix mem pe p s
  assume a: "text_at mem p (path @ [e])" and b: "p + length (path @ [e]) \<le> pe" "pe \<le> length mem" "length mem < 2 ^ 64"
    and s: "wired p s" "hp_data s = (r, err)"
  obtain w where w: "path = CHR ''/'' # w" "uri_text path_class w" "w = [] \<or> hd w \<noteq> CHR ''/''"
    using assms(1) unfolding path_text_def by blast
  let ?s1 = "s\<lparr>hp_mark := p\<rparr>" and ?s2 = "s\<lparr>hp_mark := p, hp_data := (r\<lparr>rq_path := path\<rparr>, err)\<rparr>"
  have "take (length path) (drop p mem) = path" using text_at_drop [OF a] by simp
  then have run: "run_actions (request_act mem pe) (p + 1 + length w) la ?s1 = Inr ?s2"
    using assms(2) s b w(1) mark_size [of p "p + 1 + length w"]
    by (auto simp: call_element_def apply_element_def wired_def on_request_uri_def)
  have "request_loop mem pe 3 p s = request_loop mem pe t (p + length w + 2) ?s2"
    by (rule loop_token [where ca = 33 and fa = "[Mark]" and c = "CHR ''/''" and e = e and sa = ?s1
        and cb = "if w = [] then 33 else 26" and la = la])
      (use a b w assms(2) run silent_path [OF w(2,3)] in \<open>auto simp: hops\<close>)
  then show "\<exists>s'. request_loop mem pe 3 p s = request_loop mem pe t (p + length (path @ [e])) s'
      \<and> wired (p + length (path @ [e])) s' \<and> hp_data s' = (r\<lparr>rq_path := path\<rparr>, err)"
    using s w(1) by (intro exI [of _ ?s2]) (simp add: wired_def add.commute)
qed

lemma phase_query:
  assumes "uri_text query_class query" and "query \<noteq> []"
  shows "phase 29 (query @ '' '') (r, err) 4 (r\<lparr>rq_query := query\<rparr>, err)"
proof (rule phaseI)
  fix mem pe p s
  assume a: "text_at mem p (query @ '' '')" and b: "p + length (query @ '' '') \<le> pe" "pe \<le> length mem" "length mem < 2 ^ 64"
    and s: "wired p s" "hp_data s = (r, err)"
  obtain c w where w: "query = c # w" using assms(2) by (cases query) auto
  let ?s1 = "s\<lparr>hp_query_start := p\<rparr>"
    and ?s2 = "s\<lparr>hp_query_start := p, hp_data := (r\<lparr>rq_query := query\<rparr>, err)\<rparr>"
  have "take (length query) (drop p mem) = query" using text_at_drop [OF a] by simp
  then have run: "run_actions (request_act mem pe) (p + 1 + length w) [QueryString, RequestUri] ?s1 = Inr ?s2"
    using s b w mark_size [of p "p + 1 + length w"] mark_size [of "hp_mark s" "p + 1 + length w"]
    by (auto simp: call_element_def apply_element_def wired_def on_request_uri_def)
  have "silent (if c = CHR ''%'' then 31 else 30) w = Some 30"
    using silent_query_tail [OF assms(1)] silent_query_tail [of w] assms(1) w by (auto simp: hops Let_def)
  then have "request_loop mem pe 29 p s = request_loop mem pe 4 (p + length w + 2) ?s2"
    by (intro loop_token [where ca = "if c = CHR ''%'' then 31 else 30" and fa = "[StartQuery]" and c = c
        and e = "CHR '' ''" and sa = ?s1 and cb = 30 and la = "[QueryString, RequestUri]"])
      (use a b w assms(1) run in \<open>auto simp: hops\<close>)
  then show "\<exists>s'. request_loop mem pe 29 p s = request_loop mem pe 4 (p + length (query @ '' '')) s'
      \<and> wired (p + length (query @ '' '')) s' \<and> hp_data s' = (r\<lparr>rq_query := query\<rparr>, err)"
    using s w by (intro exI [of _ ?s2]) (simp add: wired_def add.commute)
qed

lemma phase_version:
  assumes "(d, v) = (CHR ''1'', 0x11) \<or> (d, v) = (CHR ''0'', 0x10)"
  shows "phase 4 (''HTTP/1.'' @ [d] @ crlf) (r, err) 13 (r\<lparr>rq_version := v\<rparr>, err)"
proof (rule phaseI)
  fix mem pe p s
  let ?t = "''HTTP/1.'' @ [d] @ crlf"
  assume a: "text_at mem p ?t" and b: "p + length ?t \<le> pe" "pe \<le> length mem" "length mem < 2 ^ 64"
    and s: "wired p s" "hp_data s = (r, err)"
  let ?s1 = "s\<lparr>hp_mark := p\<rparr>" and ?s2 = "s\<lparr>hp_mark := p, hp_data := (r\<lparr>rq_version := v\<rparr>, err)\<rparr>"
  have c: "drop p mem = (''HTTP/1.'' @ [d]) @ crlf @ drop (p + length ?t) mem"
    using text_at_drop [OF a] by simp
  have "read_version (drop p mem) 8 = Some v"
    unfolding c using assms by (subst read_version_def) (auto simp: strncmp_eq_def c_str_append c_str_def)
  moreover have "p + 1 + length (''TTP/1.'' @ [d]) = p + 8" by simp
  ultimately have run: "run_actions (request_act mem pe) (p + 1 + length (''TTP/1.'' @ [d])) [HttpVersion] ?s1 = Inr ?s2"
    using s b mark_size [of p "p + 8"]
    by (simp del: length_append add: call_element_def apply_element_def wired_def crlf_def)
  have "request_loop mem pe 4 p s = request_loop mem pe 17 (p + length (''TTP/1.'' @ [d]) + 2) ?s2"
    by (rule loop_token [where ca = 5 and fa = "[Mark]" and c = "CHR ''H''" and sa = ?s1
        and e = "CHR 0x0D" and cb = 12 and la = "[HttpVersion]"])
      (use a b run assms in \<open>auto simp: hops crlf_def Let_def\<close>)
  also have "\<dots> = request_loop mem pe 13 (p + length (''TTP/1.'' @ [d]) + 2 + length [CHR 0x0A]) ?s2"
    by (rule loop_silent) (use a b in \<open>auto simp: hops crlf_def Let_def\<close>)
  finally show "\<exists>s'. request_loop mem pe 4 p s = request_loop mem pe 13 (p + length ?t) s'
      \<and> wired (p + length ?t) s' \<and> hp_data s' = (r\<lparr>rq_version := v\<rparr>, err)"
    using s by (intro exI [of _ ?s2]) (simp add: wired_def crlf_def)
qed

section \<open>Header lines\<close>

definition field_text :: "string \<Rightarrow> bool" where
  "field_text k \<longleftrightarrow> k \<noteq> [] \<and> list_all (\<lambda>c. token_class (char_value c)) k"

definition value_text :: "string \<Rightarrow> bool" where
  "value_text v \<longleftrightarrow> list_all (\<lambda>c. value_class (char_value c)) v
     \<and> (v \<noteq> [] \<longrightarrow> char_value (hd v) \<noteq> 9 \<and> char_value (hd v) \<noteq> 32)"

text \<open>From the colon on: \<open>s\<close> holds the field's name at \<open>field_start\<close>.\<close>

lemma loop_value:
  assumes v: "value_text v" and a: "text_at mem p ('' '' @ v @ crlf)"
    and b: "p + length ('' '' @ v @ crlf) \<le> pe" "pe \<le> length mem" "length mem < 2 ^ 64"
    and s: "wired p s" "hp_data s = (r, err)" "hp_field_start s + hp_field_len s \<le> p" "0 < hp_field_len s"
  shows "\<exists>s'. request_loop mem pe 15 p s = request_loop mem pe 13 (p + length ('' '' @ v @ crlf)) s'
    \<and> wired (p + length ('' '' @ v @ crlf)) s'
    \<and> hp_data s' = (setHeader r (take (hp_field_len s) (drop (hp_field_start s) mem)) v, err)"
proof -
  let ?q = "p + 1" and ?k = "take (hp_field_len s) (drop (hp_field_start s) mem)"
  let ?s1 = "s\<lparr>hp_mark := p\<rparr>" and ?s2 = "s\<lparr>hp_mark := ?q\<rparr>"
    and ?s3 = "s\<lparr>hp_mark := ?q, hp_data := (setHeader r ?k v, err)\<rparr>"
  have "request_loop mem pe 15 p s = request_loop mem pe 15 ?q ?s1"
    using loop_row [of p pe mem 15 "[StartValue]" 15 s] a b by (simp add: hops)
  also have "\<dots> = request_loop mem pe 17 (?q + length v + 1) ?s3"
  proof (cases v)
    case Nil
    have "run_actions (request_act mem pe) ?q [StartValue, WriteValue] ?s1 = Inr ?s3"
      using s b Nil mark_size [of ?q ?q] by (simp add: call_field_def apply_field_def wired_def crlf_def)
    then show ?thesis
      using loop_row [of ?q pe mem 15 "[StartValue, WriteValue]" 17 ?s1] a b Nil by (simp add: hops crlf_def)
  next
    case (Cons c w)
    have d: "drop ?q mem = v @ crlf @ drop (?q + length (v @ crlf)) mem"
      using text_at_drop [of mem ?q "v @ crlf"] a by simp
    have run: "run_actions (request_act mem pe) (?q + 1 + length w) [WriteValue] ?s2 = Inr ?s3"
      using s b Cons mark_size [of ?q "?q + 1 + length w"]
      by (simp add: call_field_def apply_field_def wired_def crlf_def d [simplified])
    have "silent 16 w = Some 16"
      using v Cons by (intro silent_class [where C = value_class]) (auto simp: value_text_def hops)
    then have "request_loop mem pe 15 ?q ?s1 = request_loop mem pe 17 (?q + length w + 2) ?s3"
      by (intro loop_token [where ca = 16 and fa = "[StartValue]" and c = c and e = "CHR 0x0D" and sa = ?s2
          and cb = 16 and la = "[WriteValue]"])
        (use a b v Cons run in \<open>auto simp: hops crlf_def value_text_def\<close>)
    then show ?thesis using Cons by simp
  qed
  also have "\<dots> = request_loop mem pe 13 (?q + length v + 1 + length [CHR 0x0A]) ?s3"
    by (rule loop_silent) (use a b in \<open>auto simp: hops crlf_def Let_def\<close>)
  finally show ?thesis using s by (intro exI [of _ ?s3]) (simp add: wired_def crlf_def)
qed

lemma phase_field:
  assumes "field_text k" and v: "value_text v"
  shows "phase 13 (k @ '': '' @ v @ crlf) (r, err) 13 (setHeader r k v, err)"
proof (rule phaseI)
  fix mem pe p s
  let ?t = "k @ '': '' @ v @ crlf"
  assume a: "text_at mem p ?t" and b: "p + length ?t \<le> pe" "pe \<le> length mem" "length mem < 2 ^ 64"
    and s: "wired p s" "hp_data s = (r, err)"
  obtain c w where w: "k = c # w" using assms(1) by (cases k) (auto simp: field_text_def)
  let ?s1 = "s\<lparr>hp_field_start := p\<rparr>" and ?s2 = "s\<lparr>hp_field_start := p, hp_field_len := length k\<rparr>"
  have "run_actions (request_act mem pe) (p + 1 + length w) [WriteField] ?s1 = Inr ?s2"
    using b w mark_size [of p "p + 1 + length w"] by simp
  moreover have "silent 14 w = Some 14"
    using assms(1) w by (intro silent_class [where C = token_class]) (auto simp: field_text_def hops)
  ultimately have "request_loop mem pe 13 p s = request_loop mem pe 15 (p + length w + 2) ?s2"
    by (intro loop_token [where ca = 14 and fa = "[StartField]" and c = c and e = "CHR '':''" and sa = ?s1
        and cb = 14 and la = "[WriteField]"])
      (use a b w assms(1) in \<open>auto simp: hops field_text_def\<close>)
  moreover have "take (length k) (drop p mem) = k" using text_at_drop [OF a] by simp
  moreover have "\<exists>s'. request_loop mem pe 15 (p + length w + 2) ?s2
      = request_loop mem pe 13 (p + length w + 2 + length ('' '' @ v @ crlf)) s'
    \<and> wired (p + length w + 2 + length ('' '' @ v @ crlf)) s'
    \<and> hp_data s' = (setHeader r (take (hp_field_len ?s2) (drop (hp_field_start ?s2) mem)) v, err)"
    by (rule loop_value [OF v]) (use a b s w in \<open>auto simp: wired_def\<close>)
  ultimately show "\<exists>s'. request_loop mem pe 13 p s = request_loop mem pe 13 (p + length ?t) s'
      \<and> wired (p + length ?t) s' \<and> hp_data s' = (setHeader r k v, err)"
    using w by (simp add: add.assoc)
qed

lemma phase_fields:
  "list_all (\<lambda>(k, v). field_text k \<and> value_text v) hs \<Longrightarrow>
   phase 13 (concat (map (\<lambda>(k, v). k @ '': '' @ v @ crlf) hs)) (r, err)
     13 (fold (\<lambda>(k, v) r. setHeader r k v) hs r, err)"
proof (induction hs arbitrary: r)
  case Nil
  then show ?case by (auto intro!: phaseI)
next
  case (Cons h hs)
  obtain k v where h: "h = (k, v)" by (cases h)
  then show ?case
    using phase_trans [OF phase_field [of k v r err] Cons.IH [of "setHeader r k v"]] Cons.prems by simp
qed

text \<open>The empty line ends the loop.\<close>

lemma loop_end:
  assumes a: "text_at mem p crlf" and b: "p + length crlf \<le> pe" "pe \<le> length mem" and s: "wired p s"
  shows "\<exists>s'. request_loop mem pe 13 p s = Inr (s', 348, p + length crlf) \<and> hp_data s' = hp_data s"
proof -
  let ?s1 = "s\<lparr>hp_field_start := p\<rparr>"
  have "request_loop mem pe 13 p s = request_loop mem pe 18 (p + 1) ?s1"
    using loop_row [of p pe mem 13 "[StartField]" 18 s] a b by (simp add: hops crlf_def)
  also have "\<dots> = Inr (?s1\<lparr>hp_body_start := p + 2, hp_data := hp_data s\<rparr>, 348, p + 2)"
    using loop_row [of "p + 1" pe mem 18 "[Done]" 348 ?s1] a b s
    by (simp add: hops crlf_def wired_def call_element_def apply_element_def)
  finally show ?thesis by (auto simp: crlf_def)
qed

end
