(* ===== verification/HttpParserProps.thy ===== *)
theory HttpParserProps
  imports RequestPhases
begin

text \<open>
  The request parser reads what the request printer writes.
\<close>

section \<open>The text of a request\<close>

lemma method_texts:
  "list_all (\<lambda>(num, name, str). name = MSEARCH \<or> str \<noteq> [] \<and> length str \<le> 11
     \<and> list_all (\<lambda>c. upper_class (char_value c)) str) HTTP_METHOD_MAP"
  by code_simp

lemma method_text:
  assumes "m \<noteq> INVALID_METHOD" and "m \<noteq> MSEARCH"
  obtains c w where "HttpMethodToString m = c # w" and "length w < 11"
    and "list_all (\<lambda>c. upper_class (char_value c)) (c # w)"
proof -
  obtain num where "(num, m, HttpMethodToString m) \<in> set HTTP_METHOD_MAP"
    using methods_complete [of m] method_entry assms(1) by blast
  then have "HttpMethodToString m \<noteq> []" "length (HttpMethodToString m) \<le> 11"
    "list_all (\<lambda>c. upper_class (char_value c)) (HttpMethodToString m)"
    using method_texts assms(2) unfolding list_all_iff by fastforce+
  then show thesis using that by (cases "HttpMethodToString m") auto
qed

text \<open>Requests whose text is well formed: what the printer is given has to fit the grammar.\<close>

definition sendable :: "HttpRequest \<Rightarrow> bool" where
  "sendable r \<longleftrightarrow> rq_method r \<noteq> INVALID_METHOD \<and> rq_method r \<noteq> MSEARCH \<and> path_text (rq_path r)
     \<and> uri_text query_class (rq_query r) \<and> rq_fragment r = [] \<and> (rq_version r = 0x11 \<or> rq_version r = 0x10)
     \<and> \<not> rq_websocket r \<and> rq_body r = [] \<and> HttpRequest_ok r
     \<and> list_all (\<lambda>(k, v). field_text k \<and> value_text v) (rq_headers r)"

text \<open>The header lines that are printed.\<close>

definition sent_fields :: "HttpRequest \<Rightarrow> (string \<times> string) list" where
  "sent_fields r = (''connection'', if rq_close r then ''close'' else ''keep-alive'')
     # filter (\<lambda>(k, v). strcasecmp (c_str k) ''connection'' \<noteq> 0) (rq_headers r)"

lemma dump_sent:
  assumes "sendable r"
  obtains d where "(d, rq_version r) = (CHR ''1'', 0x11) \<or> (d, rq_version r) = (CHR ''0'', 0x10)"
    and "HttpRequest_dump r = (HttpMethodToString (rq_method r) @ '' '')
      @ (if rq_query r = [] then rq_path r @ [CHR '' ''] else (rq_path r @ [CHR ''?'']) @ (rq_query r @ '' ''))
      @ (''HTTP/1.'' @ [d] @ crlf) @ concat (map (\<lambda>(k, v). k @ '': '' @ v @ crlf) (sent_fields r)) @ crlf"
proof -
  have v: "version_text 0x11 = ''1.1''" "version_text 0x10 = ''1.0''"
    by (simp_all add: version_text_def nat_text.simps)
  have h: "dump_headers False hs = concat (map (\<lambda>(k, v). k @ '': '' @ v @ crlf)
      (filter (\<lambda>(k, v). strcasecmp (c_str k) ''connection'' \<noteq> 0) hs))" for hs
    by (induction hs) (auto simp: dump_headers_def)
  show thesis
    using assms that [of "CHR ''1''"] that [of "CHR ''0''"]
    by (auto simp: sendable_def HttpRequest_dump_def h dump_connection_def dump_body_def sent_fields_def v)
qed

lemma phase_request_line:
  assumes "sendable r"
  shows "phase 1 ((HttpMethodToString (rq_method r) @ '' '')
      @ (if rq_query r = [] then rq_path r @ [CHR '' ''] else (rq_path r @ [CHR ''?'']) @ (rq_query r @ '' '')))
    (q\<lparr>rq_query := []\<rparr>, e) 4 (q\<lparr>rq_method := rq_method r, rq_path := rq_path r, rq_query := rq_query r\<rparr>, e)"
proof -
  let ?q = "q\<lparr>rq_query := [], rq_method := rq_method r\<rparr>"
  have m: "phase 1 (HttpMethodToString (rq_method r) @ '' '') (q\<lparr>rq_query := []\<rparr>, e) 3 (?q, e)"
  proof -
    have nm: "rq_method r \<noteq> INVALID_METHOD" "rq_method r \<noteq> MSEARCH" using assms by (simp_all add: sendable_def)
    obtain c w where "HttpMethodToString (rq_method r) = c # w" "length w < 11"
      "list_all (\<lambda>c. upper_class (char_value c)) (c # w)" by (rule method_text [OF nm])
    then show ?thesis by (intro phase_method [OF nm(1)])
  qed
  have p: "path_text (rq_path r)" and u: "uri_text query_class (rq_query r)" using assms by (simp_all add: sendable_def)
  have "phase 3 (if rq_query r = [] then rq_path r @ [CHR '' ''] else (rq_path r @ [CHR ''?'']) @ (rq_query r @ '' ''))
    (?q, e) 4 (?q\<lparr>rq_path := rq_path r, rq_query := rq_query r\<rparr>, e)"
  proof (cases "rq_query r = []")
    case True
    have eq: "?q\<lparr>rq_path := rq_path r\<rparr> = ?q\<lparr>rq_path := rq_path r, rq_query := []\<rparr>" by (cases q) simp
    have "phase 3 (rq_path r @ [CHR '' '']) (?q, e) 4 (?q\<lparr>rq_path := rq_path r, rq_query := []\<rparr>, e)"
      by (subst eq [symmetric]) (rule phase_path [OF p], simp)
    then show ?thesis using True by simp
  next
    case False
    have "phase 3 ((rq_path r @ [CHR ''?'']) @ (rq_query r @ '' '')) (?q, e) 4 (?q\<lparr>rq_path := rq_path r, rq_query := rq_query r\<rparr>, e)"
      by (rule phase_trans [OF phase_path [OF p] phase_query [OF u False]]) simp
    then show ?thesis using False by simp
  qed
  moreover have "?q\<lparr>rq_path := rq_path r, rq_query := rq_query r\<rparr>
      = q\<lparr>rq_method := rq_method r, rq_path := rq_path r, rq_query := rq_query r\<rparr>" by (cases q) simp
  ultimately show ?thesis using phase_trans [OF m] by metis
qed

section \<open>The headers that arrive\<close>

definition set_fields :: "(string \<times> string) list \<Rightarrow> HttpRequest \<Rightarrow> HttpRequest" where
  "set_fields hs r = fold (\<lambda>(k, v) r. setHeader r k v) hs r"

lemma set_fields_keep:
  "rq_method (set_fields hs r) = rq_method r" "rq_path (set_fields hs r) = rq_path r"
  "rq_query (set_fields hs r) = rq_query r" "rq_version (set_fields hs r) = rq_version r"
  by (induction hs arbitrary: r) (auto simp: set_fields_def setHeader_def)

text \<open>The same on the map of the headers.\<close>

definition put_fields :: "(string \<times> string) list \<Rightarrow> MapType \<Rightarrow> MapType" where
  "put_fields hs m = fold (\<lambda>(k, v) m. omap_put CaseInsensitiveLess m k v) hs m"

lemma set_fields_headers: "rq_headers (set_fields hs r) = put_fields hs (rq_headers r)"
  by (induction hs arbitrary: r) (auto simp: set_fields_def put_fields_def setHeader_def)

lemma find_empty: "map_find_or [] k d = d"
  by (simp add: map_find_or_def omap_get_def omap_lower_bound_def)

lemma same_key_commute: "same_key j k = same_key k j"
  unfolding same_key_def by (rule eq_commute)

lemma put_ok: "ci.omap_ok m \<Longrightarrow> ci.omap_ok (omap_put CaseInsensitiveLess m j v)"
  by (rule ci.omap_put_set [THEN conjunct1])

lemma put_fields_ok: "ci.omap_ok m \<Longrightarrow> ci.omap_ok (put_fields hs m)"
  by (induction hs arbitrary: m) (auto simp: put_fields_def put_ok)

lemma find_put:
  "ci.omap_ok m \<Longrightarrow> map_find_or (omap_put CaseInsensitiveLess m j v) k d = (if same_key j k then v else map_find_or m k d)"
  using ci.omap_get_put [of m j v k] by (auto simp: map_find_or_def same_key_eqv)

lemma put_fields_get:
  "ci.omap_ok m \<Longrightarrow> ci.omap_ok hs \<Longrightarrow>
   map_find_or (put_fields hs m) k d = (case omap_get CaseInsensitiveLess hs k of Some v \<Rightarrow> v | None \<Rightarrow> map_find_or m k d)"
proof (induction hs arbitrary: m)
  case Nil
  then show ?case by (simp add: put_fields_def omap_get_def omap_lower_bound_def)
next
  case (Cons h hs)
  obtain j v where h: "h = (j, v)" by (cases h)
  have ok: "ci.omap_ok hs" and lt: "\<And>e. e \<in> set hs \<Longrightarrow> CaseInsensitiveLess j (fst e)"
    using Cons.prems(2) by (auto simp: ci.omap_ok_def h)
  have get: "omap_get CaseInsensitiveLess (h # hs) k = (if same_key j k then Some v else omap_get CaseInsensitiveLess hs k)"
  proof (cases "same_key j k")
    case True
    then have "omap_get CaseInsensitiveLess (h # hs) k = Some v"
      using ci.omap_get_iff [OF Cons.prems(2), of k v] by (auto simp: h same_key_eqv)
    then show ?thesis using True by simp
  next
    case False
    then have "omap_get CaseInsensitiveLess (h # hs) k = Some x \<longleftrightarrow> omap_get CaseInsensitiveLess hs k = Some x" for x
      using ci.omap_get_iff [OF Cons.prems(2), of k x] ci.omap_get_iff [OF ok, of k x] by (auto simp: h same_key_eqv)
    then show ?thesis using False by (metis not_None_eq)
  qed
  have none: "same_key j k \<Longrightarrow> omap_get CaseInsensitiveLess hs k = None"
  proof (rule ccontr)
    assume jk: "same_key j k" and "omap_get CaseInsensitiveLess hs k \<noteq> None"
    then obtain x i where "(i, x) \<in> set hs" "\<not> CaseInsensitiveLess i k \<and> \<not> CaseInsensitiveLess k i"
      using ci.omap_get_iff [OF ok, of k] by blast
    then show False using lt jk ci.eqv_trans [of i k j] by (force simp: same_key_eqv)
  qed
  have "put_fields (h # hs) m = put_fields hs (omap_put CaseInsensitiveLess m j v)" by (simp add: put_fields_def h)
  then show ?case
    using Cons.IH [OF put_ok [OF Cons.prems(1)] ok, of j v] get none find_put [OF Cons.prems(1), of j v k d]
    by (cases "same_key j k"; cases "omap_get CaseInsensitiveLess hs k") auto
qed

text \<open>The map without the entry for \<open>connection\<close>, as it is printed.\<close>

definition kept_fields :: "MapType \<Rightarrow> (string \<times> string) list" where
  "kept_fields m = filter (\<lambda>(k, v). strcasecmp (c_str k) ''connection'' \<noteq> 0) m"

lemma kept_fields_ok: "ci.omap_ok m \<Longrightarrow> ci.omap_ok (kept_fields m)"
  by (simp add: ci.omap_ok_def kept_fields_def sorted_wrt_map sorted_wrt_filter)

lemma kept_fields_get:
  assumes m: "ci.omap_ok m"
  shows "omap_get CaseInsensitiveLess (kept_fields m) k
    = (if same_key k ''connection'' then None else omap_get CaseInsensitiveLess m k)"
proof -
  let ?c = "''connection''"
  have P: "strcasecmp (c_str j) ?c \<noteq> 0 \<longleftrightarrow> \<not> same_key j ?c" for j
    using strcasecmp_same [of ?c j] by simp
  have "omap_get CaseInsensitiveLess (kept_fields m) k = Some x \<longleftrightarrow>
      \<not> same_key k ?c \<and> omap_get CaseInsensitiveLess m k = Some x" for x
  proof -
    have "same_key j k \<Longrightarrow> same_key j ?c = same_key k ?c" for j by (simp add: same_key_def)
    then have "(\<exists>j. (j, x) \<in> set (kept_fields m) \<and> same_key j k) \<longleftrightarrow>
        \<not> same_key k ?c \<and> (\<exists>j. (j, x) \<in> set m \<and> same_key j k)"
      by (auto simp: kept_fields_def P)
    then show ?thesis
      unfolding ci.omap_get_iff [OF kept_fields_ok [OF m], folded same_key_eqv] ci.omap_get_iff [OF m, folded same_key_eqv] .
  qed
  then show ?thesis by (metis not_None_eq)
qed

lemma sent_fields_get:
  assumes ok: "HttpRequest_ok r" and q: "rq_headers q = []"
  shows "getHeader (set_fields (sent_fields r) q) k d =
    (if same_key k ''connection'' then if rq_close r then ''close'' else ''keep-alive'' else getHeader r k d)"
proof -
  let ?c = "''connection''"
  define v where "v = (if rq_close r then ''close'' else ''keep-alive'')"
  have m: "ci.omap_ok (rq_headers r)" using ok by (simp add: HttpRequest_ok_def)
  define one where "one = omap_put CaseInsensitiveLess [] ?c v"
  have one: "ci.omap_ok one" unfolding one_def by (rule put_ok [OF empty_map_ok])
  have "rq_headers (set_fields (sent_fields r) q) = put_fields (kept_fields (rq_headers r)) one"
    by (simp add: set_fields_headers sent_fields_def kept_fields_def put_fields_def q one_def v_def)
  then have "getHeader (set_fields (sent_fields r) q) k d
      = (case omap_get CaseInsensitiveLess (kept_fields (rq_headers r)) k of Some v \<Rightarrow> v | None \<Rightarrow> map_find_or one k d)"
    by (simp add: getHeader_def put_fields_get [OF one kept_fields_ok [OF m]])
  moreover have "map_find_or one k d = (if same_key k ?c then v else d)"
    using find_put [OF empty_map_ok, of ?c v k d]
    by (simp add: one_def find_empty same_key_commute [of ?c k])
  ultimately show ?thesis
    by (simp add: kept_fields_get [OF m] getHeader_def [of r] map_find_or_def [of "rq_headers r"] v_def split: option.split)
qed

section \<open>The whole call\<close>

lemma new_parser_init:
  "\<exists>m'. rp_parser (new_HttpRequestParser m) = http_parser_init m'
     \<and> (hp_header_done m = None \<longrightarrow> wired 0 (http_parser_init m'))
     \<and> hp_data (http_parser_init m') = (new_HttpRequest 0x11 True, 0)"
proof (intro exI conjI)
  let ?m = "m\<lparr>hp_request_method := Some on_request_method, hp_request_uri := Some on_request_uri,
          hp_fragment := Some on_fragment, hp_request_path := Some on_request_path,
          hp_query_string := Some on_query_string, hp_http_version := Some on_http_version,
          hp_http_field := Some on_http_field, hp_data := (new_HttpRequest 0x11 True, 0)\<rparr>"
  show "rp_parser (new_HttpRequestParser m) = http_parser_init ?m"
    by (cases m) (simp add: new_HttpRequestParser_def http_parser_init_def)
  show "hp_header_done m = None \<longrightarrow> wired 0 (http_parser_init ?m)"
    by (simp add: wired_def http_parser_init_def)
  show "hp_data (http_parser_init ?m) = (new_HttpRequest 0x11 True, 0)" by (simp add: http_parser_init_def)
qed

lemma sent_fields_text: "sendable r \<Longrightarrow> list_all (\<lambda>(k, v). field_text k \<and> value_text v) (sent_fields r)"
proof -
  assume r: "sendable r"
  have "field_text ''connection''" "value_text ''close''" "value_text ''keep-alive''"
    by (simp_all add: field_text_def value_text_def class_defs char_value_def)
  then show ?thesis using r by (auto simp: sendable_def sent_fields_def list_all_iff)
qed

lemma run_dump:
  assumes r: "sendable r" and s: "wired 0 s" "hp_data s = (q\<lparr>rq_query := []\<rparr>, e)"
    and len: "text_at mem 0 (HttpRequest_dump r)" "length mem < 2 ^ 64"
  shows "\<exists>s'. request_loop mem (length (HttpRequest_dump r)) 1 0 s = Inr (s', 348, length (HttpRequest_dump r))
    \<and> hp_data s' = (set_fields (sent_fields r) (q\<lparr>rq_method := rq_method r, rq_path := rq_path r,
        rq_query := rq_query r, rq_version := rq_version r\<rparr>), e)"
proof -
  let ?q = "q\<lparr>rq_method := rq_method r, rq_path := rq_path r, rq_query := rq_query r\<rparr>"
  let ?fields = "concat (map (\<lambda>(k, v). k @ '': '' @ v @ crlf) (sent_fields r))"
  obtain d where d: "(d, rq_version r) = (CHR ''1'', 0x11) \<or> (d, rq_version r) = (CHR ''0'', 0x10)"
    and t: "HttpRequest_dump r = (HttpMethodToString (rq_method r) @ '' '')
      @ (if rq_query r = [] then rq_path r @ [CHR '' ''] else (rq_path r @ [CHR ''?'']) @ (rq_query r @ '' ''))
      @ (''HTTP/1.'' @ [d] @ crlf) @ ?fields @ crlf"
    by (rule dump_sent [OF r])
  define w where "w = ((HttpMethodToString (rq_method r) @ '' '')
      @ (if rq_query r = [] then rq_path r @ [CHR '' ''] else (rq_path r @ [CHR ''?'']) @ (rq_query r @ '' '')))
      @ (''HTTP/1.'' @ [d] @ crlf) @ ?fields"
  have tw: "HttpRequest_dump r = w @ crlf" unfolding t w_def by (simp only: append_assoc)
  have "phase 4 (''HTTP/1.'' @ [d] @ crlf) (?q, e) 13 (?q\<lparr>rq_version := rq_version r\<rparr>, e)"
    by (rule phase_version [OF d])
  from phase_trans [OF phase_request_line [OF r] phase_trans [OF this phase_fields [OF sent_fields_text [OF r]]]]
  have "phase 1 w (q\<lparr>rq_query := []\<rparr>, e) 13 (set_fields (sent_fields r) (?q\<lparr>rq_version := rq_version r\<rparr>), e)"
    unfolding w_def set_fields_def .
  moreover have b: "length w + 2 \<le> length mem" "text_at mem 0 w" "text_at mem (length w) crlf"
    using text_at_bound [OF len(1)] len(1) by (auto simp: tw crlf_def)
  ultimately obtain s1 where s1: "request_loop mem (length w + 2) 1 0 s = request_loop mem (length w + 2) 13 (length w) s1"
    "wired (length w) s1" "hp_data s1 = (set_fields (sent_fields r) (?q\<lparr>rq_version := rq_version r\<rparr>), e)"
    using s len(2) unfolding phase_def by (metis add_0 le_add1)
  show ?thesis
    using loop_end [of mem "length w" "length w + 2" s1] s1 b by (auto simp: tw crlf_def)
qed

lemma parse_dump:
  assumes r: "sendable r" and m: "hp_header_done m = None"
    and b: "buffer = HttpRequest_dump r @ rest" "length buffer < 2 ^ 64"
  shows "\<exists>P. HttpRequestParser_execute (new_HttpRequestParser m) buffer (length (HttpRequest_dump r))
        = Inr (P, buffer, length (HttpRequest_dump r))
    \<and> HttpRequestParser_isFinished P = 1 \<and> \<not> HttpRequestParser_hasError P
    \<and> rp_data P = set_fields (sent_fields r) ((new_HttpRequest 0x11 True)\<lparr>rq_method := rq_method r, rq_path := rq_path r,
        rq_query := rq_query r, rq_version := rq_version r\<rparr>)"
proof -
  let ?n = "length (HttpRequest_dump r)" and ?r0 = "new_HttpRequest 0x11 True"
  obtain m' where m': "rp_parser (new_HttpRequestParser m) = http_parser_init m'" "wired 0 (http_parser_init m')"
    "hp_data (http_parser_init m') = (?r0, 0)"
    using new_parser_init [of m] m by blast
  have "0 < ?n" by (simp add: HttpRequest_dump_def)
  moreover have "?n \<le> length buffer" "text_at buffer 0 (HttpRequest_dump r)" using b(1) by (simp_all add: text_at_def)
  ultimately have n: "0 < ?n" "?n \<le> length buffer" "text_at buffer 0 (HttpRequest_dump r)" by blast+
  have "?r0 = ?r0\<lparr>rq_query := []\<rparr>" by (simp add: new_HttpRequest_def)
  then obtain s' where s': "request_loop buffer ?n 1 0 (http_parser_init m') = Inr (s', 348, ?n)"
    "hp_data s' = (set_fields (sent_fields r) (?r0\<lparr>rq_method := rq_method r, rq_path := rq_path r,
        rq_query := rq_query r, rq_version := rq_version r\<rparr>), 0)"
    using run_dump [OF r m'(2) _ n(3) b(2), of ?r0 0] m'(3) by auto
  have "http_parser_execute (http_parser_init m') buffer ?n 0 = Inr (s'\<lparr>hp_cs := 348, hp_nread := ?n\<rparr>, ?n)"
    using first_call [OF n(1,2) b(2), of m'] s'(1) by (metis Inr_inject Pair_inject)
  then have "HttpRequestParser_execute (new_HttpRequestParser m) buffer ?n
      = Inr (\<lparr>rp_parser = s'\<lparr>hp_cs := 348, hp_nread := ?n\<rparr>\<rparr>, buffer, ?n)"
    using n(2) b(2) by (simp add: HttpRequestParser_execute_def m'(1) move_down_def)
  then show ?thesis
    using s'(2) by (intro exI [of _ "\<lparr>rp_parser = s'\<lparr>hp_cs := 348, hp_nread := ?n\<rparr>\<rparr>"])
      (simp add: rp_data_def HttpRequestParser_isFinished_def HttpRequestParser_hasError_def
        http_parser_finish_def http_parser_has_error_def http_parser_is_finished_def http_parser_error_def
        http_parser_first_final_def)
qed

lemma parsed_header:
  assumes "sendable r"
  shows "getHeader (set_fields (sent_fields r) ((new_HttpRequest 0x11 True)\<lparr>rq_method := rq_method r,
     rq_path := rq_path r, rq_query := rq_query r, rq_version := rq_version r\<rparr>)) k d
    = (if same_key k ''connection'' then if rq_close r then ''close'' else ''keep-alive'' else getHeader r k d)"
  by (rule sent_fields_get) (use assms in \<open>simp_all add: sendable_def new_HttpRequest_def\<close>)

section \<open>Properties\<close>



end
