(* ===== verification/HttpClientRun.thy ===== *)
theory HttpClientRun
  imports RequestRun
begin

text \<open>
  Running the response automaton on text that is known only by its shape.  The automaton gives the
  names \<open>connection\<close>, \<open>transfer-encoding\<close> and \<open>content-length\<close> states of their own, so a header line
  runs through sets of states: those inside a name, behind the colon, inside a value, and at the
  start of a line.  That the rows of the tables stay inside these sets is checked on the ranges of
  their tests, block by block.
\<close>

section \<open>Rows on ranges of characters\<close>

definition chop :: "nat \<Rightarrow> int \<Rightarrow> response_action list \<times> nat" where
  "chop cs w =
     (case st_of httpclient_code cs of
        None \<Rightarrow> ([], 0)
      | Some (wide, tests, other) \<Rightarrow> edge_of httpclient_code (goto_of tests other w))"

text \<open>Where the values from \<open>lo\<close> to \<open>hi\<close> may lead.\<close>

fun hits :: "(int \<times> int \<times> goto) list \<Rightarrow> goto \<Rightarrow> int \<Rightarrow> int \<Rightarrow> goto list" where
  "hits [] other lo hi = (if lo \<le> hi then [other] else [])"
| "hits ((a, b, g) # tests) other lo hi =
     (if hi < lo then []
      else if hi < a \<or> b < lo then hits tests other lo hi
      else if a \<le> lo \<and> hi \<le> b then [g]
      else g # hits tests other lo (min hi (a - 1)) @ hits tests other (max lo (b + 1)) hi)"

lemma hits_goto: "lo \<le> w \<Longrightarrow> w \<le> hi \<Longrightarrow> goto_of tests other w \<in> set (hits tests other lo hi)"
proof (induction tests other lo hi rule: hits.induct)
  case (2 a b g tests other lo hi)
  consider "w < a" | "b < w" | "a \<le> w" "w \<le> b" by linarith
  then show ?case using 2 by cases auto
qed auto

definition in_ranges :: "(int \<times> int) list \<Rightarrow> int \<Rightarrow> bool" where
  "in_ranges rs w \<longleftrightarrow> list_ex (\<lambda>(lo, hi). lo \<le> w \<and> w \<le> hi) rs"

text \<open>
  From the states of \<open>N\<close> the values of \<open>rs\<close> lead either straight to a state or over the edges of
  \<open>K\<close>, and the actions and the state satisfy \<open>P\<close>.
\<close>

fun row_ok :: "(int \<times> int) list \<Rightarrow> (nat \<Rightarrow> bool) \<Rightarrow> nat list \<Rightarrow> (response_action list \<Rightarrow> nat \<Rightarrow> bool) \<Rightarrow>
    response_action block \<Rightarrow> bool" where
  "row_ok rs N K P (Tr k acts t) = (if k \<in> set K then P acts t else True)"
| "row_ok rs N K P (St n wide tests other) =
     (if N n then list_all (\<lambda>(lo, hi). list_all (\<lambda>g. case g of ST t \<Rightarrow> P [] t | TR k \<Rightarrow> k \<in> set K)
        (hits tests other lo hi)) rs else True)"

lemma client_states: "0 < n \<Longrightarrow> n < 124 \<Longrightarrow> st_of httpclient_code n \<noteq> None"
proof -
  have "st_numbers httpclient_code = 1 # 2 # [120..<121] @ [3..<72] @ [121..<122] @ [72..<89] @ [122..<123]
      @ [89..<116] @ [123..<124] @ [116..<120]"
    by (simp add: httpclient_code_defs)
  then have "set (st_numbers httpclient_code) = {1..<124}" by (simp only: set_append set_upt list.set) auto
  then show "0 < n \<Longrightarrow> n < 124 \<Longrightarrow> st_of httpclient_code n \<noteq> None"
    unfolding st_of_numbers by simp
qed

lemma client_trs:
  "tr_numbers httpclient_code =
     [0, 3, 7, 9, 15, 74, 4, 10, 16, 75, 6, 12, 18, 8, 13, 14, 2, 26, 27, 28, 30, 45, 32, 42, 111, 113, 158,
      35, 76, 41, 39, 40, 46, 33, 43, 159, 36, 77, 59, 58, 60, 136, 37, 78, 96, 95, 97, 104, 112, 101, 103,
      98, 99, 137, 64, 66, 61, 62, 149, 148, 150, 157, 154, 156, 151, 152]"
  by (simp add: httpclient_code_defs)

lemma tr_of_set: "k \<in> set (tr_numbers code) \<Longrightarrow> Tr k (fst (tr_of code k)) (snd (tr_of code k)) \<in> set code"
  by (induction code k rule: tr_of.induct) auto

lemma row_okD:
  assumes ok: "list_all (row_ok rs N K P) httpclient_code" and K: "list_all (\<lambda>k. k \<in> set (tr_numbers httpclient_code)) K"
    and cs: "N cs" "0 < cs" "cs < 124" and w: "in_ranges rs w"
  shows "P (fst (chop cs w)) (snd (chop cs w))"
proof -
  obtain wide tests other where st: "st_of httpclient_code cs = Some (wide, tests, other)"
    using client_states [OF cs(2,3)] by auto
  obtain lo hi where r: "(lo, hi) \<in> set rs" "lo \<le> w" "w \<le> hi"
    using w by (auto simp: in_ranges_def list_ex_iff)
  define g where "g = goto_of tests other w"
  have "row_ok rs N K P (St cs wide tests other)" using ok st_of_block [OF st] by (simp only: list_all_iff)
  then have "list_all (\<lambda>g. case g of ST t \<Rightarrow> P [] t | TR k \<Rightarrow> k \<in> set K) (hits tests other lo hi)"
    using cs(1) r(1) by (auto simp: list_all_iff)
  then have g: "case g of ST t \<Rightarrow> P [] t | TR k \<Rightarrow> k \<in> set K"
    using hits_goto [OF r(2,3), of tests other] by (simp only: list_all_iff g_def)
  have e: "chop cs w = edge_of httpclient_code g" by (simp add: chop_def st g_def)
  show ?thesis
  proof (cases g)
    case (ST t)
    then show ?thesis using g e by simp
  next
    case (TR k)
    then have k: "k \<in> set K" using g by simp
    then have "Tr k (fst (tr_of httpclient_code k)) (snd (tr_of httpclient_code k)) \<in> set httpclient_code"
      using K by (intro tr_of_set) (simp only: list_all_iff)
    then have "row_ok rs N K P (Tr k (fst (tr_of httpclient_code k)) (snd (tr_of httpclient_code k)))"
      using ok by (simp only: list_all_iff)
    then show ?thesis using k e TR by simp
  qed
qed

section \<open>Header lines\<close>

definition name_state :: "nat \<Rightarrow> bool" where
  "name_state t \<longleftrightarrow> t = 21 \<or> 25 \<le> t \<and> t < 35 \<or> 44 \<le> t \<and> t < 61 \<or> 101 \<le> t \<and> t < 112"

definition colon_state :: "nat \<Rightarrow> bool" where
  "colon_state t \<longleftrightarrow> t = 22 \<or> t = 35 \<or> t = 61 \<or> t = 112"

definition value_state :: "nat \<Rightarrow> bool" where
  "value_state t \<longleftrightarrow> t = 23 \<or> 81 \<le> t \<and> t < 88 \<or> 96 \<le> t \<and> t < 101 \<or> t = 119"

definition cr_state :: "nat \<Rightarrow> bool" where
  "cr_state t \<longleftrightarrow> t = 24 \<or> t = 71 \<or> t = 88"

definition line_state :: "nat \<Rightarrow> bool" where
  "line_state t \<longleftrightarrow> t = 20 \<or> t = 43"

lemmas state_defs = name_state_def colon_state_def value_state_def cr_state_def line_state_def

definition token_ranges :: "(int \<times> int) list" where
  "token_ranges = [(33, 33), (35, 39), (42, 43), (45, 46), (48, 57), (65, 90), (94, 122), (124, 124), (126, 126)]"

definition text_ranges :: "(int \<times> int) list" where
  "text_ranges = [(-128, 9), (11, 12), (14, 127)]"

definition ink_ranges :: "(int \<times> int) list" where
  "ink_ranges = [(-128, 8), (14, 31), (33, 127)]"

lemmas range_defs = token_ranges_def text_ranges_def ink_ranges_def

text \<open>Actions that only note what a special header said.\<close>

definition asides :: "response_action list \<Rightarrow> bool" where
  "asides acts \<longleftrightarrow> list_all (\<lambda>a. a = CWriteContentLen \<or> a = CWriteConnectionClose \<or> a = CTransChunked) acts"

lemma name_rows:
  "list_all (row_ok token_ranges name_state [] (\<lambda>acts t. acts = [] \<and> name_state t)) httpclient_code"
  by (simp add: httpclient_code_defs range_defs state_defs)

lemma line_rows:
  "list_all (row_ok token_ranges line_state [35, 36, 37, 76, 77, 78]
     (\<lambda>acts t. acts \<noteq> [] \<and> asides (butlast acts) \<and> last acts = CStartField \<and> name_state t)) httpclient_code"
  by (simp add: httpclient_code_defs range_defs state_defs asides_def)

lemma colon_rows:
  "list_all (row_ok [(58, 58)] name_state [39, 58, 95, 148] (\<lambda>acts t. acts = [CWriteField] \<and> colon_state t))
     httpclient_code"
  by (simp add: httpclient_code_defs state_defs)

lemma space_rows:
  "list_all (row_ok [(32, 32)] colon_state [41, 59, 96, 149] (\<lambda>acts t. acts = [CStartValue] \<and> colon_state t))
     httpclient_code"
  by (simp add: httpclient_code_defs state_defs)

lemma ink_rows:
  "list_all (row_ok ink_ranges colon_state [40, 62, 99, 152] (\<lambda>acts t. acts = [CStartValue] \<and> value_state t))
     httpclient_code"
  by (simp add: httpclient_code_defs range_defs state_defs)

lemma value_rows:
  "list_all (row_ok text_ranges value_state [] (\<lambda>acts t. acts = [] \<and> value_state t)) httpclient_code"
  by (simp add: httpclient_code_defs range_defs state_defs)

lemma cr_rows:
  "list_all (row_ok [(13, 13)] value_state [46, 112, 137, 159]
     (\<lambda>acts t. acts \<noteq> [] \<and> asides (butlast acts) \<and> last acts = CWriteValue \<and> cr_state t)) httpclient_code"
  by (simp add: httpclient_code_defs state_defs asides_def)

lemma lf_rows:
  "list_all (row_ok [(10, 10)] cr_state [113] (\<lambda>acts t. asides acts \<and> line_state t)) httpclient_code"
  by (simp add: httpclient_code_defs state_defs asides_def)

lemma empty_rows:
  "list_all (row_ok [(13, 13)] line_state [75] (\<lambda>acts t. asides acts \<and> t = 3)) httpclient_code"
  by (simp add: httpclient_code_defs state_defs asides_def)

section \<open>The status line\<close>

lemma client_distinct: "distinct (st_numbers httpclient_code)" "distinct (tr_numbers httpclient_code)"
  by (simp_all add: httpclient_code_defs)

lemma client_parts:
  "part_of httpclient_code_1 httpclient_code" "part_of httpclient_code_2 httpclient_code"
  "part_of httpclient_code_3 httpclient_code" "part_of httpclient_code_4 httpclient_code"
  "part_of httpclient_code_5 httpclient_code"
  unfolding part_of_def httpclient_code_def by (metis append.assoc append_Nil)+

lemma st_of_client: "part_of c httpclient_code \<Longrightarrow> n \<in> set (st_numbers c) \<Longrightarrow> st_of httpclient_code n = st_of c n"
  using st_of_part client_distinct(1) unfolding part_of_def by metis

lemma tr_of_client: "part_of c httpclient_code \<Longrightarrow> k \<in> set (tr_numbers c) \<Longrightarrow> tr_of httpclient_code k = tr_of c k"
  using tr_of_part client_distinct(2) unfolding part_of_def by metis

lemmas client_rows = client_parts [THEN st_of_client] client_parts [THEN tr_of_client]
  httpclient_code_1_def httpclient_code_2_def httpclient_code_3_def httpclient_code_4_def httpclient_code_5_def

definition digit_class :: "int \<Rightarrow> bool" where
  "digit_class w \<longleftrightarrow> 48 \<le> w \<and> w \<le> 57"

definition line_class :: "int \<Rightarrow> bool" where
  "line_class w \<longleftrightarrow> w \<noteq> 10 \<and> w \<noteq> 13"

named_theorems chops \<open>steps of the response automaton\<close>

lemma chop_status [chops]:
  "chop (Suc 0) 72 = ([CMark], 8)" "chop 8 84 = ([], 9)" "chop 9 84 = ([], 10)" "chop 10 80 = ([], 11)" "chop 11 47 = ([], 12)"
  "chop 12 49 = ([], 13)" "chop 13 46 = ([], 14)" "chop 14 48 = ([], 15)" "chop 14 49 = ([], 15)"
  "chop 15 32 = ([CHttpVersion], 16)" "chop 17 32 = ([CStatusCode], 18)" "chop 19 13 = ([CReasonPhrase], 24)"
  "chop 24 10 = ([], 20)" "chop 3 10 = ([CDone], 120)"
  by (simp_all add: chop_def client_rows)

lemma chop_status_class [chops]:
  "digit_class w \<Longrightarrow> chop 16 w = ([CMark], 17)" "digit_class w \<Longrightarrow> chop 17 w = ([], 17)"
  "line_class w \<Longrightarrow> chop 18 w = ([CMark], 19)" "line_class w \<Longrightarrow> chop 19 w = ([], 19)"
  unfolding digit_class_def line_class_def by (simp_all add: chop_def client_rows)

section \<open>Moving the loop\<close>

lemma response_row:
  assumes "p < pe" and "pe \<le> length mem" and "chop cs (char_value (mem ! p)) = (acts, t)" and "(acts, t) \<noteq> ([], 0)"
  shows "response_loop mem pe cs p s = result_bind (run_actions (response_act mem pe) p acts s)
    (\<lambda>s'. if CDone \<in> set acts then Inr (s', t, p + 1) else response_loop mem pe t (p + 1) s')"
proof -
  obtain wide tests other where st: "st_of httpclient_code cs = Some (wide, tests, other)"
    using assms(3,4) by (auto simp: chop_def split: option.splits)
  have e: "edge_of httpclient_code (goto_of tests other (char_value (mem ! p))) = (acts, t)"
    using assms(3) st by (simp add: chop_def)
  have np: "\<not> pe \<le> p" "\<not> length mem \<le> p" using assms(1,2) by simp_all
  have "list_ex (\<lambda>a. a = CDone) acts \<longleftrightarrow> CDone \<in> set acts" by (auto simp: list_ex_iff)
  then show ?thesis unfolding response_loop_def
    by (subst ragel_loop.simps)
      (simp only: np st e Let_def assms(4) if_False if_cancel option.case prod.case fst_conv snd_conv)
qed

text \<open>A stretch of text without actions stays inside a set of states.\<close>

lemma response_within:
  assumes step: "\<And>cs c. N cs \<Longrightarrow> C c \<Longrightarrow> fst (chop cs (char_value c)) = [] \<and> N (snd (chop cs (char_value c)))" and "\<not> N 0"
  shows "text_at mem p w \<Longrightarrow> p + length w \<le> pe \<Longrightarrow> pe \<le> length mem \<Longrightarrow> list_all C w \<Longrightarrow> N cs \<Longrightarrow>
    \<exists>t. N t \<and> response_loop mem pe cs p s = response_loop mem pe t (p + length w) s"
proof (induction w arbitrary: p cs)
  case (Cons c w)
  define t where "t = snd (chop cs (char_value c))"
  have t: "chop cs (char_value c) = ([], t)" "N t" using step [of cs c] Cons.prems by (simp_all add: t_def prod_eq_iff)
  then have "t \<noteq> 0" using assms(2) by metis
  then have "response_loop mem pe cs p s = response_loop mem pe t (p + 1) s"
    using response_row [of p pe mem cs "[]" t s] Cons.prems t(1) by simp
  then show ?case using Cons.IH [of "p + 1" t] Cons.prems t(2) by simp
qed auto

end
