(* ===== verification/HttpClientPhases.thy ===== *)
theory HttpClientPhases
  imports HttpClientRun RequestPhases
begin

text \<open>
  The phases of a response text: status line, header line and the empty line, each with the effect
  it has on the response that the parser fills.
\<close>

section \<open>Numbers\<close>

lemma digit_char: "d < 10 \<Longrightarrow> digit_value (''0123456789abcdef'' ! d) = Some (int d)
    \<and> digit_class (char_value (''0123456789abcdef'' ! d))"
proof -
  assume "d < 10"
  then have "d = 0 \<or> d = 1 \<or> d = 2 \<or> d = 3 \<or> d = 4 \<or> d = 5 \<or> d = 6 \<or> d = 7 \<or> d = 8 \<or> d = 9" by presburger
  then show ?thesis by (elim disjE) (simp_all add: digit_value_def digit_class_def char_value_def)
qed

lemma nat_text_digits: "nat_text 10 n \<noteq> [] \<and> list_all (\<lambda>c. digit_class (char_value c)) (nat_text 10 n)"
proof (induction n rule: less_induct)
  case (less n)
  show ?case
  proof (cases "n < 10")
    case True
    then show ?thesis by (simp add: nat_text.simps [of 10 n] digit_char)
  next
    case False
    then show ?thesis using less.IH [of "n div 10"] by (simp add: nat_text.simps [of 10 n] digit_char)
  qed
qed

lemma read_nat_text: "read_digits 10 0 (nat_text 10 n @ x) = read_digits 10 (int n) x"
proof (induction n arbitrary: x rule: less_induct)
  case (less n)
  show ?case
  proof (cases "n < 10")
    case True
    then show ?thesis by (simp add: nat_text.simps [of 10 n] digit_char)
  next
    case False
    have "int (n div 10) * 10 + int (n mod 10) = int n" by presburger
    then show ?thesis using less.IH [of "n div 10"] False by (simp add: nat_text.simps [of 10 n] digit_char)
  qed
qed

lemma strtol_nat_text:
  assumes "n < 2 ^ 32" and "digit_value c = None"
  shows "strtol (nat_text 10 n @ c # x) 10 = int n"
proof -
  obtain d w where w: "nat_text 10 n = d # w" using nat_text_digits [of n] by (cases "nat_text 10 n") auto
  have d: "digit_class (char_value d)" using nat_text_digits [of n] w by simp
  then have "\<not> c_isspace d" "d \<noteq> CHR ''-''" "d \<noteq> CHR ''+''"
    by (auto simp: digit_class_def c_isspace_def char_value_def Let_def split: if_splits)
  moreover have "skip_0x 10 u = u" for u by (cases "(10 :: int, u)" rule: skip_0x.cases) auto
  moreover have "read_digits 10 0 (d # w @ c # x) = int n"
    using read_nat_text [of n "c # x"] assms(2) by (simp del: read_digits.simps(2) add: w) simp
  ultimately show ?thesis using assms(1) by (simp add: strtol_def w Let_def)
qed

section \<open>Phases\<close>

text \<open>A parser as the constructor of \<open>HttpResponseParser\<close> leaves it, whose mark is not beyond \<open>p\<close>.\<close>

definition cwired :: "nat \<Rightarrow> response_data httpclient_parser \<Rightarrow> bool" where
  "cwired p s \<longleftrightarrow> cp_mark s \<le> p \<and> cp_nread s = 0 \<and> cp_body_start s = 0 \<and> cp_reason_phrase s = Some on_response_reason
     \<and> cp_status_code s = Some on_response_status \<and> cp_http_version s = Some on_response_version
     \<and> cp_header_done s = Some on_response_header_done \<and> cp_http_field s = Some on_response_http_field"

text \<open>
  Reading \<open>w\<close> takes the automaton from the states of \<open>M\<close> to those of \<open>N\<close>, and the data from \<open>d\<close> to
  \<open>d'\<close>.  The memory goes on behind the data.
\<close>

definition cphase :: "(nat \<Rightarrow> bool) \<Rightarrow> string \<Rightarrow> response_data \<Rightarrow> (nat \<Rightarrow> bool) \<Rightarrow> response_data \<Rightarrow> bool" where
  "cphase M w d N d' \<longleftrightarrow>
     (\<forall>mem pe p cs s. text_at mem p w \<and> p + length w \<le> pe \<and> pe \<le> length mem \<and> length mem < 2 ^ 64
        \<and> M cs \<and> cwired p s \<and> cp_data s = d \<longrightarrow>
        (\<exists>t s'. response_loop mem pe cs p s = response_loop mem pe t (p + length w) s' \<and> N t
           \<and> cwired (p + length w) s' \<and> cp_data s' = d'))"

lemma cphaseI:
  assumes "\<And>mem pe p cs s. text_at mem p w \<Longrightarrow> p + length w \<le> pe \<Longrightarrow> pe \<le> length mem \<Longrightarrow> length mem < 2 ^ 64
    \<Longrightarrow> M cs \<Longrightarrow> cwired p s \<Longrightarrow> cp_data s = d \<Longrightarrow>
    \<exists>t s'. response_loop mem pe cs p s = response_loop mem pe t (p + length w) s' \<and> N t
      \<and> cwired (p + length w) s' \<and> cp_data s' = d'"
  shows "cphase M w d N d'"
  unfolding cphase_def using assms by blast

lemma cphaseE:
  assumes "cphase M w d N d'" and "text_at mem p w" and "p + length w \<le> pe" and "pe \<le> length mem"
    and "length mem < 2 ^ 64" and "M cs" and "cwired p s" and "cp_data s = d"
  obtains t s' where "response_loop mem pe cs p s = response_loop mem pe t (p + length w) s'" and "N t"
    and "cwired (p + length w) s'" and "cp_data s' = d'"
  using assms unfolding cphase_def by blast

lemma cphase_trans:
  assumes v: "cphase M v d N d1" and w: "cphase N w d1 K d2"
  shows "cphase M (v @ w) d K d2"
proof (rule cphaseI)
  fix mem pe p cs s
  assume a: "text_at mem p (v @ w)" "p + length (v @ w) \<le> pe" "pe \<le> length mem" "length mem < 2 ^ 64"
    "M cs" "cwired p s" "cp_data s = d"
  have tv: "text_at mem p v" and tw: "text_at mem (p + length v) w" using a(1) by simp_all
  have bv: "p + length v \<le> pe" and bw: "p + length v + length w \<le> pe" using a(2) by simp_all
  obtain t1 s1 where s1: "response_loop mem pe cs p s = response_loop mem pe t1 (p + length v) s1" "N t1"
    "cwired (p + length v) s1" "cp_data s1 = d1"
    using cphaseE [OF v tv bv a(3-7)] by blast
  obtain t2 s2 where "response_loop mem pe t1 (p + length v) s1 = response_loop mem pe t2 (p + length v + length w) s2" "K t2"
    "cwired (p + length v + length w) s2" "cp_data s2 = d2"
    using cphaseE [OF w tw bw a(3,4) s1(2-4)] by blast
  then show "\<exists>t s'. response_loop mem pe cs p s = response_loop mem pe t (p + length (v @ w)) s' \<and> K t
      \<and> cwired (p + length (v @ w)) s' \<and> cp_data s' = d2"
    using s1(1) by (auto simp: add.assoc)
qed

text \<open>One character with actions.\<close>

lemma response_go:
  assumes "p < pe" and "pe \<le> length mem" and "chop cs (char_value (mem ! p)) = (acts, t)" and "t \<noteq> 0" and "CDone \<notin> set acts"
    and "run_actions (response_act mem pe) p acts s = Inr s'"
  shows "response_loop mem pe cs p s = response_loop mem pe t (p + 1) s'"
  using response_row [OF assms(1-3), of s] assms(4-6) by simp

lemma run_append: "run_actions act p (as @ bs) s = result_bind (run_actions act p as s) (run_actions act p bs)"
proof (induction as arbitrary: s)
  case (Cons a as)
  then show ?case by (cases "act p a s") simp_all
qed simp

lemma run_asides:
  assumes "p < length mem"
  shows "asides acts \<Longrightarrow> cwired p s \<Longrightarrow> \<exists>s'. run_actions (response_act mem pe) p acts s = Inr s' \<and> cwired p s'
    \<and> cp_data s' = cp_data s \<and> cp_mark s' = cp_mark s \<and> cp_field_start s' = cp_field_start s \<and> cp_field_len s' = cp_field_len s"
proof (induction acts arbitrary: s)
  case (Cons a acts)
  obtain s1 where s1: "response_act mem pe p a s = Inr s1" "cwired p s1" "cp_data s1 = cp_data s" "cp_mark s1 = cp_mark s"
    "cp_field_start s1 = cp_field_start s" "cp_field_len s1 = cp_field_len s"
    using Cons.prems assms by (cases a) (auto simp: asides_def cwired_def number_at_def)
  then show ?case using Cons.IH [of s1] Cons.prems by (auto simp: asides_def)
qed simp

text \<open>A character whose actions are asides and one more.\<close>

lemma response_aside:
  assumes b: "p < pe" "pe \<le> length mem" and e: "chop cs (char_value (mem ! p)) = (acts, t)" "t \<noteq> 0"
    and acts: "acts \<noteq> []" "asides (butlast acts)" "last acts = a" "a \<noteq> CDone" and s: "cwired p s"
    and act: "\<And>s1. cwired p s1 \<Longrightarrow> cp_data s1 = cp_data s \<Longrightarrow> cp_mark s1 = cp_mark s \<Longrightarrow> cp_field_start s1 = cp_field_start s
      \<Longrightarrow> cp_field_len s1 = cp_field_len s \<Longrightarrow> \<exists>s2. response_act mem pe p a s1 = Inr s2 \<and> Q s2"
  shows "\<exists>s2. response_loop mem pe cs p s = response_loop mem pe t (p + 1) s2 \<and> Q s2"
proof -
  obtain s1 where s1: "run_actions (response_act mem pe) p (butlast acts) s = Inr s1" "cwired p s1" "cp_data s1 = cp_data s"
    "cp_mark s1 = cp_mark s" "cp_field_start s1 = cp_field_start s" "cp_field_len s1 = cp_field_len s"
    using run_asides [OF _ acts(2) s, of mem pe] b by auto
  obtain s2 where s2: "response_act mem pe p a s1 = Inr s2" "Q s2" using act s1(2-6) by blast
  have snoc: "acts = butlast acts @ [a]" using acts(1,3) by (metis append_butlast_last_id)
  have "run_actions (response_act mem pe) p acts s = Inr s2" by (subst snoc) (simp add: run_append s1(1) s2(1))
  moreover have "CDone \<notin> set acts"
    using acts(2,4) by (subst snoc) (auto simp: asides_def list_all_iff)
  ultimately show ?thesis using response_go [OF b e] s2(2) by blast
qed

section \<open>Header lines\<close>

text \<open>The value of a header: not empty, in one line, and not started by white space.\<close>

definition answer_text :: "string \<Rightarrow> bool" where
  "answer_text v \<longleftrightarrow> v \<noteq> [] \<and> in_ranges ink_ranges (char_value (hd v)) \<and> list_all (\<lambda>c. in_ranges text_ranges (char_value c)) v"

lemma token_range: "token_class w \<Longrightarrow> in_ranges token_ranges w"
  unfolding token_class_def by (elim disjE conjE) (simp_all add: in_ranges_def token_ranges_def)

lemma chop_name:
  assumes "name_state cs"
  shows "token_class w \<Longrightarrow> fst (chop cs w) = [] \<and> name_state (snd (chop cs w))"
    and "fst (chop cs 58) = [CWriteField] \<and> colon_state (snd (chop cs 58))"
proof -
  have n: "0 < cs" "cs < 124" using assms by (auto simp: name_state_def)
  show "token_class w \<Longrightarrow> fst (chop cs w) = [] \<and> name_state (snd (chop cs w))"
    using row_okD [OF name_rows _ assms n token_range] by simp
  show "fst (chop cs 58) = [CWriteField] \<and> colon_state (snd (chop cs 58))"
    by (rule row_okD [OF colon_rows _ assms n]) (simp_all add: client_trs in_ranges_def)
qed

lemma chop_line:
  assumes "line_state cs"
  shows "token_class w \<Longrightarrow> fst (chop cs w) \<noteq> [] \<and> asides (butlast (fst (chop cs w)))
      \<and> last (fst (chop cs w)) = CStartField \<and> name_state (snd (chop cs w))"
    and "asides (fst (chop cs 13)) \<and> snd (chop cs 13) = 3"
proof -
  have n: "0 < cs" "cs < 124" using assms by (auto simp: line_state_def)
  show "token_class w \<Longrightarrow> fst (chop cs w) \<noteq> [] \<and> asides (butlast (fst (chop cs w)))
      \<and> last (fst (chop cs w)) = CStartField \<and> name_state (snd (chop cs w))"
    by (rule row_okD [OF line_rows _ assms n]) (simp_all add: client_trs token_range)
  show "asides (fst (chop cs 13)) \<and> snd (chop cs 13) = 3"
    by (rule row_okD [OF empty_rows _ assms n]) (simp_all add: client_trs in_ranges_def)
qed

lemma chop_colon:
  assumes "colon_state cs"
  shows "fst (chop cs 32) = [CStartValue] \<and> colon_state (snd (chop cs 32))"
    and "in_ranges ink_ranges w \<Longrightarrow> fst (chop cs w) = [CStartValue] \<and> value_state (snd (chop cs w))"
proof -
  have n: "0 < cs" "cs < 124" using assms by (auto simp: colon_state_def)
  show "fst (chop cs 32) = [CStartValue] \<and> colon_state (snd (chop cs 32))"
    by (rule row_okD [OF space_rows _ assms n]) (simp_all add: client_trs in_ranges_def)
  show "in_ranges ink_ranges w \<Longrightarrow> fst (chop cs w) = [CStartValue] \<and> value_state (snd (chop cs w))"
    by (rule row_okD [OF ink_rows _ assms n]) (simp_all add: client_trs)
qed

lemma chop_value:
  assumes "value_state cs"
  shows "in_ranges text_ranges w \<Longrightarrow> fst (chop cs w) = [] \<and> value_state (snd (chop cs w))"
    and "fst (chop cs 13) \<noteq> [] \<and> asides (butlast (fst (chop cs 13))) \<and> last (fst (chop cs 13)) = CWriteValue
      \<and> cr_state (snd (chop cs 13))"
proof -
  have n: "0 < cs" "cs < 124" using assms by (auto simp: value_state_def)
  show "in_ranges text_ranges w \<Longrightarrow> fst (chop cs w) = [] \<and> value_state (snd (chop cs w))"
    by (rule row_okD [OF value_rows _ assms n]) simp_all
  show "fst (chop cs 13) \<noteq> [] \<and> asides (butlast (fst (chop cs 13))) \<and> last (fst (chop cs 13)) = CWriteValue
      \<and> cr_state (snd (chop cs 13))"
    by (rule row_okD [OF cr_rows _ assms n]) (simp_all add: client_trs in_ranges_def)
qed

lemma chop_cr:
  assumes "cr_state cs"
  shows "asides (fst (chop cs 10)) \<and> line_state (snd (chop cs 10))"
proof -
  have n: "0 < cs" "cs < 124" using assms by (auto simp: cr_state_def)
  show ?thesis by (rule row_okD [OF lf_rows _ assms n]) (simp_all add: client_trs in_ranges_def)
qed

lemma state_pos: "name_state t \<or> colon_state t \<or> value_state t \<or> cr_state t \<or> line_state t \<Longrightarrow> t \<noteq> 0"
  by (auto simp: state_defs)

text \<open>The end of a line whose value \<open>v\<close> started at the mark: the field is handed over.\<close>

lemma loop_line_end:
  assumes a: "text_at mem p crlf" and b: "p + length crlf \<le> pe" "pe \<le> length mem" "length mem < 2 ^ 64"
    and s: "cwired p s" "cp_data s = (r, err)" "cp_field_start s + cp_field_len s \<le> p" "0 < cp_field_len s"
    and v: "take (p - cp_mark s) (drop (cp_mark s) mem) = v" and cs: "value_state cs"
  shows "\<exists>t s'. response_loop mem pe cs p s = response_loop mem pe t (p + length crlf) s' \<and> line_state t
    \<and> cwired (p + length crlf) s' \<and> cp_data s' = (rs_setHeader r (take (cp_field_len s) (drop (cp_field_start s) mem)) v, err)"
proof -
  let ?d = "(rs_setHeader r (take (cp_field_len s) (drop (cp_field_start s) mem)) v, err)"
  have t: "p < pe" "p + 1 < pe" "mem ! p = CHR 0x0D" "mem ! (p + 1) = CHR 0x0A" using a b by (auto simp: crlf_def)
  obtain acts t1 where t1: "chop cs 13 = (acts, t1)" "acts \<noteq> []" "asides (butlast acts)" "last acts = CWriteValue" "cr_state t1"
    using chop_value(2) [OF cs] by (metis prod.collapse)
  have "\<exists>s1. response_loop mem pe cs p s = response_loop mem pe t1 (p + 1) s1 \<and> cwired p s1 \<and> cp_data s1 = ?d"
  proof (rule response_aside [OF t(1) b(2) _ _ t1(2-4) _ s(1)])
    show "\<exists>s1. response_act mem pe p CWriteValue s' = Inr s1 \<and> cwired p s1 \<and> cp_data s1 = ?d"
      if "cwired p s'" "cp_data s' = cp_data s" "cp_mark s' = cp_mark s"
        "cp_field_start s' = cp_field_start s" "cp_field_len s' = cp_field_len s" for s'
      using that s b t(1) v mark_size [of "cp_mark s" p] by (auto simp: cwired_def apply_field_def)
  qed (use t t1 state_pos in auto)
  then obtain s1 where s1: "response_loop mem pe cs p s = response_loop mem pe t1 (p + 1) s1" "cwired p s1" "cp_data s1 = ?d"
    by blast
  obtain acts2 t2 where t2: "chop t1 10 = (acts2, t2)" "asides acts2" "line_state t2"
    using chop_cr [OF t1(5)] by (metis prod.collapse)
  have "cwired (p + 1) s1" using s1(2) by (simp add: cwired_def)
  then obtain s2 where s2: "run_actions (response_act mem pe) (p + 1) acts2 s1 = Inr s2" "cwired (p + 1) s2" "cp_data s2 = cp_data s1"
    using run_asides [OF _ t2(2), of "p + 1" mem s1 pe] t(2) b by auto
  have "response_loop mem pe t1 (p + 1) s1 = response_loop mem pe t2 (p + 1 + 1) s2"
    by (rule response_go [OF t(2) b(2) _ _ _ s2(1)]) (use t t2 state_pos in \<open>auto simp: asides_def list_all_iff\<close>)
  moreover have "cwired (p + 2) s2" using s2(2) by (simp add: cwired_def)
  ultimately show ?thesis using s1(1,3) s2(3) t2(3) by (auto simp: crlf_def)
qed

text \<open>From the colon on: \<open>s\<close> holds the field's name at \<open>field_start\<close>.\<close>

lemma loop_answer:
  assumes v: "answer_text v" and a: "text_at mem p ('' '' @ v @ crlf)"
    and b: "p + length ('' '' @ v @ crlf) \<le> pe" "pe \<le> length mem" "length mem < 2 ^ 64"
    and s: "cwired p s" "cp_data s = (r, err)" "cp_field_start s + cp_field_len s \<le> p" "0 < cp_field_len s"
    and cs: "colon_state cs"
  shows "\<exists>t s'. response_loop mem pe cs p s = response_loop mem pe t (p + length ('' '' @ v @ crlf)) s' \<and> line_state t
    \<and> cwired (p + length ('' '' @ v @ crlf)) s'
    \<and> cp_data s' = (rs_setHeader r (take (cp_field_len s) (drop (cp_field_start s) mem)) v, err)"
proof -
  obtain c w where w: "v = c # w" using v by (cases v) (auto simp: answer_text_def)
  define q where "q = p + 1"
  define s1 s2 where marks: "s1 = s\<lparr>cp_mark := p\<rparr>" "s2 = s\<lparr>cp_mark := q\<rparr>"
  have t: "p < pe" "q < pe" "mem ! p = CHR '' ''" "mem ! q = c" "text_at mem (q + 1) w" "q + 1 + length w \<le> pe"
    using a b by (auto simp: q_def w)
  obtain t1 where t1: "chop cs 32 = ([CStartValue], t1)" "colon_state t1"
    using chop_colon(1) [OF cs] by (metis prod.collapse)
  have e1: "response_loop mem pe cs p s = response_loop mem pe t1 q s1" unfolding q_def
    by (rule response_go [where acts = "[CStartValue]"]) (use t t1 b state_pos in \<open>auto simp: marks\<close>)
  obtain t2 where t2: "chop t1 (char_value c) = ([CStartValue], t2)" "value_state t2"
    using chop_colon(2) [OF t1(2), of "char_value c"] v w by (metis answer_text_def list.sel(1) prod.collapse)
  have e2: "response_loop mem pe t1 q s1 = response_loop mem pe t2 (q + 1) s2"
    by (rule response_go [where acts = "[CStartValue]"]) (use t t2 b state_pos in \<open>auto simp: marks\<close>)
  have "\<exists>t. value_state t \<and> response_loop mem pe t2 (q + 1) s2 = response_loop mem pe t (q + 1 + length w) s2"
    by (rule response_within [where C = "\<lambda>c. in_ranges text_ranges (char_value c)"])
      (use t t2(2) b v chop_value(1) state_pos in \<open>auto simp: w answer_text_def\<close>)
  then obtain t3 where e3: "value_state t3" "response_loop mem pe t2 (q + 1) s2 = response_loop mem pe t3 (q + length v) s2"
    by (auto simp: w)
  have "\<exists>t s'. response_loop mem pe t3 (q + length v) s2 = response_loop mem pe t (q + length v + length crlf) s' \<and> line_state t
      \<and> cwired (q + length v + length crlf) s'
      \<and> cp_data s' = (rs_setHeader r (take (cp_field_len s2) (drop (cp_field_start s2) mem)) v, err)"
  proof (rule loop_line_end [OF _ _ b(2,3) _ _ _ _ _ e3(1)])
    show "take (q + length v - cp_mark s2) (drop (cp_mark s2) mem) = v"
      using text_at_drop [of mem q "v @ crlf"] a by (simp add: q_def marks)
  qed (use a b s in \<open>auto simp: q_def marks cwired_def\<close>)
  then show ?thesis unfolding e1 e2 e3(2) by (simp add: q_def marks add.assoc)
qed

text \<open>The name of a field at the start of a line.\<close>

lemma loop_name:
  assumes k: "field_text k" and a: "text_at mem p k" and b: "p + length k \<le> pe" "pe \<le> length mem"
    and s: "cwired p s" "cp_data s = d" and cs: "line_state cs"
  obtains t s' where "response_loop mem pe cs p s = response_loop mem pe t (p + length k) s'" and "name_state t"
    and "cwired p s'" and "cp_data s' = d" and "cp_field_start s' = p"
proof -
  obtain c w where w: "k = c # w" using k by (cases k) (auto simp: field_text_def)
  have t: "p < pe" "mem ! p = c" "text_at mem (p + 1) w" "p + 1 + length w \<le> pe" using a b by (auto simp: w)
  have tc: "token_class (char_value c)" using k by (simp add: field_text_def w)
  obtain acts t1 where t1: "chop cs (char_value c) = (acts, t1)" "acts \<noteq> []" "asides (butlast acts)" "last acts = CStartField" "name_state t1"
    using chop_line(1) [OF cs tc] by (metis prod.collapse)
  have "\<exists>s1. response_loop mem pe cs p s = response_loop mem pe t1 (p + 1) s1 \<and> cwired p s1 \<and> cp_data s1 = d \<and> cp_field_start s1 = p"
    by (rule response_aside [OF t(1) b(2) _ _ t1(2-4) _ s(1)])
      (use t t1 s(2) state_pos in \<open>auto simp: cwired_def\<close>)
  then obtain s1 where s1: "response_loop mem pe cs p s = response_loop mem pe t1 (p + 1) s1" "cwired p s1" "cp_data s1 = d" "cp_field_start s1 = p"
    by blast
  have "\<exists>t. name_state t \<and> response_loop mem pe t1 (p + 1) s1 = response_loop mem pe t (p + 1 + length w) s1"
    by (rule response_within [where C = "\<lambda>c. token_class (char_value c)"])
      (use t t1(5) b k chop_name(1) state_pos in \<open>auto simp: w field_text_def\<close>)
  then obtain t2 where "name_state t2" "response_loop mem pe t1 (p + 1) s1 = response_loop mem pe t2 (p + length k) s1"
    by (auto simp: w)
  then show thesis using that s1 by metis
qed

lemma cphase_field:
  assumes k: "field_text k" and v: "answer_text v"
  shows "cphase line_state (k @ '': '' @ v @ crlf) (r, err) line_state (rs_setHeader r k v, err)"
proof (rule cphaseI)
  fix mem pe p cs s
  let ?t = "k @ '': '' @ v @ crlf"
  assume a: "text_at mem p ?t" and b: "p + length ?t \<le> pe" "pe \<le> length mem" "length mem < 2 ^ 64"
    and cs: "line_state cs" and s: "cwired p s" "cp_data s = (r, err)"
  have t: "text_at mem p k" "p + length k \<le> pe" "p + length k < pe" "mem ! (p + length k) = CHR '':''"
    using a b by auto
  obtain t2 s1 where s1: "response_loop mem pe cs p s = response_loop mem pe t2 (p + length k) s1" "name_state t2"
    "cwired p s1" "cp_data s1 = (r, err)" "cp_field_start s1 = p"
    by (rule loop_name [OF k t(1,2) b(2) s cs])
  obtain t3 where t3: "chop t2 58 = ([CWriteField], t3)" "colon_state t3"
    using chop_name(2) [OF s1(2)] by (metis prod.collapse)
  define s2 where "s2 = s1\<lparr>cp_field_len := length k\<rparr>"
  have e2: "response_loop mem pe t2 (p + length k) s1 = response_loop mem pe t3 (p + length k + 1) s2"
    by (rule response_go [where acts = "[CWriteField]"])
      (use t t3 b s1(5) state_pos mark_size [of p "p + length k"] in \<open>auto simp: s2_def\<close>)
  have "take (length k) (drop p mem) = k" using text_at_drop [OF a] by simp
  moreover have "0 < length k" using k by (simp add: field_text_def)
  then have "\<exists>t s'. response_loop mem pe t3 (p + length k + 1) s2 = response_loop mem pe t (p + length k + 1 + length ('' '' @ v @ crlf)) s' \<and> line_state t
      \<and> cwired (p + length k + 1 + length ('' '' @ v @ crlf)) s'
      \<and> cp_data s' = (rs_setHeader r (take (cp_field_len s2) (drop (cp_field_start s2) mem)) v, err)"
    by (intro loop_answer [OF v _ _ b(2,3) _ _ _ _ t3(2)])
      (use a b s1 in \<open>auto simp: s2_def cwired_def\<close>)
  ultimately show "\<exists>t s'. response_loop mem pe cs p s = response_loop mem pe t (p + length ?t) s' \<and> line_state t
      \<and> cwired (p + length ?t) s' \<and> cp_data s' = (rs_setHeader r k v, err)"
    unfolding s1(1) e2 by (simp add: s2_def s1(5) add.assoc)
qed

lemma cphase_fields:
  "list_all (\<lambda>(k, v). field_text k \<and> answer_text v) hs \<Longrightarrow>
   cphase line_state (concat (map (\<lambda>(k, v). k @ '': '' @ v @ crlf) hs)) (r, err)
     line_state (fold (\<lambda>(k, v) r. rs_setHeader r k v) hs r, err)"
proof (induction hs arbitrary: r)
  case Nil
  have "cphase line_state [] (r, err) line_state (r, err)" by (rule cphaseI) auto
  then show ?case by simp
next
  case (Cons h hs)
  obtain k v where h: "h = (k, v)" by (cases h)
  then show ?case
    using cphase_trans [OF cphase_field [of k v r err] Cons.IH [of "rs_setHeader r k v"]] Cons.prems by simp
qed

section \<open>The status line\<close>

fun quiet :: "nat \<Rightarrow> string \<Rightarrow> nat option" where
  "quiet cs [] = Some cs"
| "quiet cs (c # w) = (let e = chop cs (char_value c) in if fst e = [] \<and> snd e \<noteq> 0 then quiet (snd e) w else None)"

lemma response_quiet:
  "text_at mem p w \<Longrightarrow> p + length w \<le> pe \<Longrightarrow> pe \<le> length mem \<Longrightarrow> quiet cs w = Some t \<Longrightarrow>
   response_loop mem pe cs p s = response_loop mem pe t (p + length w) s"
proof (induction cs w arbitrary: p rule: quiet.induct)
  case (2 cs c w)
  let ?e = "chop cs (char_value c)"
  have e: "chop cs (char_value (mem ! p)) = ([], snd ?e)" "snd ?e \<noteq> 0" "quiet (snd ?e) w = Some t"
    using 2 by (auto simp: Let_def prod_eq_iff split: if_splits)
  have "response_loop mem pe cs p s = response_loop mem pe (snd ?e) (p + 1) s"
    using response_row [OF _ 2(4) e(1)] 2(3) e(2) by simp
  then show ?case using 2 e by (auto simp: Let_def split: if_splits)
qed simp

lemma quiet_class:
  "list_all (\<lambda>c. C (char_value c)) w \<Longrightarrow> (\<And>x. C x \<Longrightarrow> chop cs x = ([], cs)) \<Longrightarrow> cs \<noteq> 0 \<Longrightarrow> quiet cs w = Some cs"
  by (induction w) (auto simp: Let_def)

text \<open>
  A part of the line: its first character is marked, the rest is silent, and the action on the
  character behind it takes the data to \<open>d'\<close>.
\<close>

lemma cphase_part:
  assumes first: "chop cs (char_value c) = ([CMark], ca)" "ca \<noteq> 0" and middle: "quiet ca w = Some cb"
    and last: "chop cb (char_value e) = ([a], cs')" "cs' \<noteq> 0" "a \<noteq> CDone"
    and act: "\<And>mem pe p s. text_at mem p (c # w @ [e]) \<Longrightarrow> p + length w + 2 \<le> length mem \<Longrightarrow> length mem < 2 ^ 64 \<Longrightarrow>
      cwired p s \<Longrightarrow> cp_data s = d \<Longrightarrow> cp_mark s = p \<Longrightarrow>
      \<exists>s'. response_act mem pe (p + 1 + length w) a s = Inr s' \<and> cwired p s' \<and> cp_data s' = d'"
  shows "cphase (\<lambda>t. t = cs) (c # w @ [e]) d (\<lambda>t. t = cs') d'"
proof (rule cphaseI)
  fix mem pe p n s
  assume a: "text_at mem p (c # w @ [e])" and b: "p + length (c # w @ [e]) \<le> pe" "pe \<le> length mem" "length mem < 2 ^ 64"
    and n: "n = cs" and s: "cwired p s" "cp_data s = d"
  have t: "p < pe" "mem ! p = c" "text_at mem (p + 1) w" "p + 1 + length w < pe" "mem ! (p + 1 + length w) = e"
    using a b by auto
  define s1 where "s1 = s\<lparr>cp_mark := p\<rparr>"
  have e1: "response_loop mem pe cs p s = response_loop mem pe ca (p + 1) s1"
    by (rule response_go [where acts = "[CMark]"]) (use t b first in \<open>auto simp: s1_def\<close>)
  have e2: "response_loop mem pe ca (p + 1) s1 = response_loop mem pe cb (p + 1 + length w) s1"
    by (rule response_quiet) (use t b middle in auto)
  obtain s2 where s2: "response_act mem pe (p + 1 + length w) a s1 = Inr s2" "cwired p s2" "cp_data s2 = d'"
    using act [of mem p s1 pe] a b s by (auto simp: s1_def cwired_def)
  have e3: "response_loop mem pe cb (p + 1 + length w) s1 = response_loop mem pe cs' (p + 1 + length w + 1) s2"
    by (rule response_go [where acts = "[a]"]) (use t b last s2(1) in auto)
  have "cwired (p + length (c # w @ [e])) s2" using s2(2) by (simp add: cwired_def)
  then show "\<exists>t s'. response_loop mem pe n p s = response_loop mem pe t (p + length (c # w @ [e])) s' \<and> t = cs'
      \<and> cwired (p + length (c # w @ [e])) s' \<and> cp_data s' = d'"
    using s2(3) unfolding n e1 e2 e3 by auto
qed

lemma cphase_version:
  assumes "(d, v) = (CHR ''1'', 0x11) \<or> (d, v) = (CHR ''0'', 0x10)"
  shows "cphase (\<lambda>t. t = 1) (CHR ''H'' # (''TTP/1.'' @ [d]) @ [CHR '' '']) (r, err) (\<lambda>t. t = 16) (r\<lparr>rs_version := v\<rparr>, err)"
proof (rule cphase_part [where ca = 8 and cb = 15 and a = CHttpVersion])
  fix mem pe p and s :: "response_data httpclient_parser"
  let ?w = "''TTP/1.'' @ [d]"
  assume a: "text_at mem p (CHR ''H'' # ?w @ [CHR '' ''])" and b: "p + length ?w + 2 \<le> length mem" "length mem < 2 ^ 64"
    and s: "cwired p s" "cp_data s = (r, err)" "cp_mark s = p"
  obtain x where c: "drop p mem = ''HTTP/1.'' @ [d] @ '' '' @ x"
    using text_at_drop [OF a] by simp
  have "read_version (drop p mem) 8 = Some v"
    unfolding c using assms by (subst read_version_def) (auto simp: strncmp_eq_def c_str_append c_str_def)
  then show "\<exists>s'. response_act mem pe (p + 1 + length ?w) CHttpVersion s = Inr s' \<and> cwired p s'
      \<and> cp_data s' = (r\<lparr>rs_version := v\<rparr>, err)"
    using s b mark_size [of p "p + 8"]
    by (simp add: cp_call_element_def apply_element_def cwired_def)
qed (use assms in \<open>auto simp: chops Let_def\<close>)

lemma cphase_status:
  assumes "n < 2 ^ 32"
  shows "cphase (\<lambda>t. t = 16) (nat_text 10 n @ [CHR '' '']) (r, err) (\<lambda>t. t = 18) (r\<lparr>rs_status := n\<rparr>, err)"
proof -
  obtain c w where w: "nat_text 10 n = c # w" using nat_text_digits [of n] by (cases "nat_text 10 n") auto
  have d: "digit_class (char_value c)" "list_all (\<lambda>c. digit_class (char_value c)) w" using nat_text_digits [of n] w by simp_all
  have "cphase (\<lambda>t. t = 16) (c # w @ [CHR '' '']) (r, err) (\<lambda>t. t = 18) (r\<lparr>rs_status := n\<rparr>, err)"
  proof (rule cphase_part [where ca = 17 and cb = 17 and a = CStatusCode])
    fix mem pe p and s :: "response_data httpclient_parser"
    assume a: "text_at mem p (c # w @ [CHR '' ''])" and b: "p + length w + 2 \<le> length mem" "length mem < 2 ^ 64"
      and s: "cwired p s" "cp_data s = (r, err)" "cp_mark s = p"
    have "drop p mem = nat_text 10 n @ CHR '' '' # drop (p + length w + 2) mem"
      using text_at_drop [OF a] by (simp add: w)
    moreover have "digit_value (CHR '' '') = None" by (simp add: digit_value_def)
    ultimately have "strtol (drop p mem) 10 = int n" using strtol_nat_text [OF assms] by simp
    moreover have "unat (word_of_nat n :: u32) = n" using assms by (simp add: unat_of_nat)
    ultimately show "\<exists>s'. response_act mem pe (p + 1 + length w) CStatusCode s = Inr s' \<and> cwired p s'
        \<and> cp_data s' = (r\<lparr>rs_status := n\<rparr>, err)"
      using s b mark_size [of p "p + 1 + length w"]
      by (simp add: cp_call_element_def apply_element_def number_at_def cwired_def)
  qed (use d in \<open>auto simp: chops quiet_class [where C = digit_class]\<close>)
  then show ?thesis by (simp add: w)
qed

lemma cphase_reason:
  assumes "v \<noteq> []" and "list_all (\<lambda>c. line_class (char_value c)) v"
  shows "cphase (\<lambda>t. t = 18) (v @ crlf) (r, err) line_state (r\<lparr>rs_reason := v\<rparr>, err)"
proof -
  obtain c w where w: "v = c # w" using assms(1) by (cases v) auto
  have "cphase (\<lambda>t. t = 18) (c # w @ [CHR 0x0D]) (r, err) (\<lambda>t. t = 24) (r\<lparr>rs_reason := v\<rparr>, err)"
  proof (rule cphase_part [where ca = 19 and cb = 19 and a = CReasonPhrase])
    fix mem pe p and s :: "response_data httpclient_parser"
    assume a: "text_at mem p (c # w @ [CHR 0x0D])" and b: "p + length w + 2 \<le> length mem" "length mem < 2 ^ 64"
      and s: "cwired p s" "cp_data s = (r, err)" "cp_mark s = p"
    have "take (length v) (drop p mem) = v" using text_at_drop [OF a] by (simp add: w)
    then show "\<exists>s'. response_act mem pe (p + 1 + length w) CReasonPhrase s = Inr s' \<and> cwired p s'
        \<and> cp_data s' = (r\<lparr>rs_reason := v\<rparr>, err)"
      using s b mark_size [of p "p + 1 + length w"]
      by (simp add: cp_call_element_def apply_element_def cwired_def w)
  qed (use assms in \<open>auto simp: w chops quiet_class [where C = line_class]\<close>)
  moreover have "cphase (\<lambda>t. t = 24) [CHR 0x0A] (r\<lparr>rs_reason := v\<rparr>, err) line_state (r\<lparr>rs_reason := v\<rparr>, err)"
  proof (rule cphaseI)
    fix mem :: string and pe p cs :: nat and s
    assume a: "text_at mem p [CHR 0x0A]" "p + length [CHR 0x0A] \<le> pe" "pe \<le> length mem" "cs = 24"
      and s: "cwired p s" "cp_data s = (r\<lparr>rs_reason := v\<rparr>, err)"
    have "response_loop mem pe cs p s = response_loop mem pe 20 (p + length [CHR 0x0A]) s"
      by (rule response_quiet) (use a in \<open>auto simp: chops Let_def\<close>)
    moreover have "line_state 20" "cwired (p + length [CHR 0x0A]) s" using s(1) by (simp_all add: line_state_def cwired_def)
    ultimately show "\<exists>t s'. response_loop mem pe cs p s = response_loop mem pe t (p + length [CHR 0x0A]) s' \<and> line_state t
        \<and> cwired (p + length [CHR 0x0A]) s' \<and> cp_data s' = (r\<lparr>rs_reason := v\<rparr>, err)"
      using s(2) by blast
  qed
  ultimately show ?thesis using cphase_trans by (fastforce simp: w crlf_def)
qed

text \<open>The empty line ends the loop.\<close>

lemma response_end:
  assumes a: "text_at mem p crlf" and b: "p + length crlf \<le> pe" "pe \<le> length mem" and s: "cwired p s" and cs: "line_state cs"
  shows "\<exists>s'. response_loop mem pe cs p s = Inr (s', 120, p + length crlf) \<and> cp_data s' = cp_data s
    \<and> cp_nread s' = 0 \<and> cp_body_start s' = p + length crlf"
proof -
  have t: "p < pe" "p + 1 < pe" "mem ! p = CHR 0x0D" "mem ! (p + 1) = CHR 0x0A" using a b by (auto simp: crlf_def)
  obtain acts where acts: "chop cs 13 = (acts, 3)" "asides acts" using chop_line(2) [OF cs] by (metis prod.collapse)
  obtain s1 where s1: "run_actions (response_act mem pe) p acts s = Inr s1" "cwired p s1" "cp_data s1 = cp_data s"
    using run_asides [OF _ acts(2) s, of mem pe] t(1) b by auto
  have "response_loop mem pe cs p s = response_loop mem pe 3 (p + 1) s1"
    by (rule response_go [OF t(1) b(2) _ _ _ s1(1)]) (use t acts in \<open>auto simp: asides_def list_all_iff\<close>)
  also have "\<dots> = Inr (s1\<lparr>cp_body_start := p + 2, cp_data := cp_data s1\<rparr>, 120, p + 2)"
  proof -
    have "run_actions (response_act mem pe) (p + 1) [CDone] s1 = Inr (s1\<lparr>cp_body_start := p + 2, cp_data := cp_data s1\<rparr>)"
      using s1(2) t b by (simp add: cwired_def cp_call_element_def apply_element_def on_response_header_done_def)
    then show ?thesis
      using response_row [OF t(2) b(2), of 3 "[CDone]" 120 s1] t by (simp add: chops)
  qed
  finally show ?thesis using s1(2,3) by (auto simp: crlf_def cwired_def)
qed

end
