(* ===== verification/HttpClientProps.thy ===== *)
theory HttpClientProps
  imports HttpClientPhases HttpParserProps
begin

text \<open>
  The response parser reads what the response printer writes, as long as there is no body.
\<close>

section \<open>The text of a response\<close>

definition reason_text :: "HttpResponse \<Rightarrow> string" where
  "reason_text r = (if rs_reason r = [] then HttpStatusToString (rs_status r) else rs_reason r)"

lemma status_texts: "list_all (\<lambda>(n, msg). msg \<noteq> [] \<and> CHR 0x0D \<notin> set msg \<and> CHR 0x0A \<notin> set msg) HTTP_STATUS_MAP"
  by (simp add: HTTP_STATUS_MAP_def)

lemma line_chars: "CHR 0x0D \<notin> set s \<Longrightarrow> CHR 0x0A \<notin> set s \<Longrightarrow> list_all (\<lambda>c. line_class (char_value c)) s"
  using char_value_inject [of _ "CHR 0x0D"] char_value_inject [of _ "CHR 0x0A"]
  by (fastforce simp: line_class_def list_all_iff)

lemma status_text: "HttpStatusToString n \<noteq> [] \<and> list_all (\<lambda>c. line_class (char_value c)) (HttpStatusToString n)"
proof (cases "map_of HTTP_STATUS_MAP n")
  case None
  moreover have "list_all (\<lambda>c. line_class (char_value c)) ''<unknown''" by (rule line_chars) simp_all
  ultimately show ?thesis by (simp add: HttpStatusToString_def)
next
  case (Some msg)
  then have "(n, msg) \<in> set HTTP_STATUS_MAP" by (rule map_of_SomeD)
  then have "msg \<noteq> [] \<and> CHR 0x0D \<notin> set msg \<and> CHR 0x0A \<notin> set msg" using status_texts by (auto simp: list_all_iff)
  then show ?thesis using line_chars [of msg] Some by (simp add: HttpStatusToString_def)
qed

text \<open>Responses whose text is well formed; any reason without a line break will do.\<close>

definition answerable :: "HttpResponse \<Rightarrow> bool" where
  "answerable r \<longleftrightarrow> rs_status r < 2 ^ 32 \<and> (rs_version r = 0x11 \<or> rs_version r = 0x10) \<and> \<not> rs_websocket r
     \<and> list_all (\<lambda>c. line_class (char_value c)) (rs_reason r) \<and> ci.omap_ok (rs_headers r)
     \<and> list_all (\<lambda>(k, v). field_text k \<and> answer_text v) (rs_headers r) \<and> list_all answer_text (rs_cookies r)"

text \<open>The header lines that are printed in front of the body.\<close>

definition answered_fields :: "HttpResponse \<Rightarrow> (string \<times> string) list" where
  "answered_fields r = kept_fields (rs_headers r) @ map (\<lambda>i. (''Set-Cookie'', i)) (rs_cookies r)
     @ [(''connection'', if rs_close r then ''close'' else ''keep-alive'')]"

definition answer_head :: "HttpResponse \<Rightarrow> string" where
  "answer_head r = ''HTTP/'' @ version_text (rs_version r) @ '' '' @ nat_text 10 (rs_status r) @ '' '' @ reason_text r @ crlf
     @ concat (map (\<lambda>(k, v). k @ '': '' @ v @ crlf) (answered_fields r))"

lemma dump_answer: "\<not> rs_websocket r \<Longrightarrow> HttpResponse_dump r = answer_head r @ dump_body (rs_body r)"
proof -
  assume "\<not> rs_websocket r"
  moreover have "dump_headers False hs = concat (map (\<lambda>(k, v). k @ '': '' @ v @ crlf) (kept_fields hs))" for hs
    by (induction hs) (auto simp: dump_headers_def kept_fields_def)
  moreover have "concat (map (\<lambda>i. ''Set-Cookie: '' @ i @ crlf) cs)
      = concat (map (\<lambda>(k, v). k @ '': '' @ v @ crlf) (map (\<lambda>i. (''Set-Cookie'', i)) cs))" for cs
    by (induction cs) auto
  ultimately show ?thesis
    by (simp add: HttpResponse_dump_def answer_head_def answered_fields_def reason_text_def dump_connection_def)
qed

lemma answered_fields_text:
  assumes "answerable r"
  shows "list_all (\<lambda>(k, v). field_text k \<and> answer_text v) (answered_fields r)"
proof -
  have "field_text ''connection''" "field_text ''Set-Cookie''" "answer_text ''close''" "answer_text ''keep-alive''"
    by (simp_all add: field_text_def answer_text_def class_defs in_ranges_def range_defs char_value_def)
  then show ?thesis using assms by (auto simp: answerable_def answered_fields_def kept_fields_def list_all_iff)
qed

text \<open>The response as it is once the header lines have been read.\<close>

definition answered :: "HttpResponse \<Rightarrow> HttpResponse \<Rightarrow> HttpResponse" where
  "answered r q = fold (\<lambda>(k, v) r. rs_setHeader r k v) (answered_fields r)
     (q\<lparr>rs_version := rs_version r, rs_status := rs_status r, rs_reason := reason_text r\<rparr>)"

lemma cphase_head:
  assumes r: "answerable r"
  shows "cphase (\<lambda>t. t = 1) (answer_head r) (q, e) line_state (answered r q, e)"
proof -
  have v: "version_text 0x11 = ''1.1''" "version_text 0x10 = ''1.0''"
    by (simp_all add: version_text_def nat_text.simps)
  obtain d where d: "(d, rs_version r) = (CHR ''1'', 0x11) \<or> (d, rs_version r) = (CHR ''0'', 0x10)"
    and vt: "version_text (rs_version r) = ''1.'' @ [d]"
  proof (cases "rs_version r = 0x11")
    case True
    then show thesis using that [of "CHR ''1''"] v by simp
  next
    case False
    then have "rs_version r = 0x10" using r by (simp add: answerable_def)
    then show thesis using that [of "CHR ''0''"] v by simp
  qed
  have reason: "reason_text r \<noteq> []" "list_all (\<lambda>c. line_class (char_value c)) (reason_text r)"
    using r status_text [of "rs_status r"] by (auto simp: answerable_def reason_text_def)
  have status: "rs_status r < 2 ^ 32" using r by (simp add: answerable_def)
  have "answer_head r = (CHR ''H'' # (''TTP/1.'' @ [d]) @ [CHR '' '']) @ (nat_text 10 (rs_status r) @ [CHR '' ''])
      @ (reason_text r @ crlf) @ concat (map (\<lambda>(k, v). k @ '': '' @ v @ crlf) (answered_fields r))"
    by (simp add: answer_head_def vt)
  then show ?thesis unfolding answered_def
    using cphase_trans [OF cphase_version [OF d] cphase_trans [OF cphase_status [OF status]
      cphase_trans [OF cphase_reason [OF reason] cphase_fields [OF answered_fields_text [OF r]]]]]
    by simp
qed

section \<open>The headers that arrive\<close>

lemma answered_keep:
  "rs_status (answered r q) = rs_status r" "rs_version (answered r q) = rs_version r" "rs_reason (answered r q) = reason_text r"
  "rs_headers (answered r q) = put_fields (answered_fields r) (rs_headers q)"
proof -
  let ?set = "\<lambda>hs r. fold (\<lambda>(k, v) r. rs_setHeader r k v) hs r"
  have "rs_status (?set hs r) = rs_status r \<and> rs_version (?set hs r) = rs_version r \<and> rs_reason (?set hs r) = rs_reason r
      \<and> rs_headers (?set hs r) = put_fields hs (rs_headers r)" for hs r
    by (induction hs arbitrary: r) (auto simp: put_fields_def rs_setHeader_def)
  then show "rs_status (answered r q) = rs_status r" "rs_version (answered r q) = rs_version r" "rs_reason (answered r q) = reason_text r"
    "rs_headers (answered r q) = put_fields (answered_fields r) (rs_headers q)"
    by (simp_all add: answered_def)
qed

lemma put_fields_append: "put_fields (xs @ ys) m = put_fields ys (put_fields xs m)"
  by (simp add: put_fields_def)

lemma put_same_fields:
  "ci.omap_ok m \<Longrightarrow> map_find_or (put_fields (map (\<lambda>i. (j, i)) vs) m) k d
    = (if vs \<noteq> [] \<and> same_key j k then last vs else map_find_or m k d)"
proof (induction vs rule: rev_induct)
  case (snoc v vs)
  have "put_fields (map (\<lambda>i. (j, i)) (vs @ [v])) m = omap_put CaseInsensitiveLess (put_fields (map (\<lambda>i. (j, i)) vs) m) j v"
    by (simp add: put_fields_def)
  then show ?case using snoc find_put [OF put_fields_ok [OF snoc.prems]] by simp
qed (simp add: put_fields_def)

lemma answered_get:
  assumes "answerable r" and "rs_headers q = []"
  shows "rs_getHeader (answered r q) k d =
    (if same_key k ''connection'' then if rs_close r then ''close'' else ''keep-alive''
     else if rs_cookies r \<noteq> [] \<and> same_key k ''Set-Cookie'' then last (rs_cookies r) else rs_getHeader r k d)"
proof -
  define v where "v = (if rs_close r then ''close'' else ''keep-alive'')"
  define m where "m = put_fields (kept_fields (rs_headers r)) []"
  define n where "n = put_fields (map (\<lambda>i. (''Set-Cookie'', i)) (rs_cookies r)) m"
  have ok: "ci.omap_ok (rs_headers r)" using assms(1) by (simp add: answerable_def)
  have mok: "ci.omap_ok m" and nok: "ci.omap_ok n" unfolding m_def n_def by (intro put_fields_ok empty_map_ok)+
  have "rs_headers (answered r q) = omap_put CaseInsensitiveLess n ''connection'' v"
    by (simp add: answered_keep assms(2) answered_fields_def put_fields_append m_def n_def v_def)
      (simp add: put_fields_def)
  then have "rs_getHeader (answered r q) k d = (if same_key ''connection'' k then v else map_find_or n k d)"
    by (simp add: rs_getHeader_def find_put [OF nok])
  moreover have "map_find_or n k d
      = (if rs_cookies r \<noteq> [] \<and> same_key ''Set-Cookie'' k then last (rs_cookies r) else map_find_or m k d)"
    unfolding n_def by (rule put_same_fields [OF mok])
  moreover have "\<not> same_key k ''connection'' \<Longrightarrow> map_find_or m k d = rs_getHeader r k d"
    unfolding m_def put_fields_get [OF empty_map_ok kept_fields_ok [OF ok]] kept_fields_get [OF ok]
    by (simp add: find_empty rs_getHeader_def map_find_or_def [of "rs_headers r"] split: option.split)
  ultimately show ?thesis by (simp add: v_def same_key_commute [of _ k])
qed

section \<open>The whole call\<close>

lemma new_client:
  shows "cp_cs (sp_parser (new_HttpResponseParser m)) = 1" and "cwired 0 (sp_parser (new_HttpResponseParser m))"
    and "cp_data (sp_parser (new_HttpResponseParser m)) = (new_HttpResponse 0x11 True, 0)"
    and "cp_body_start (sp_parser (new_HttpResponseParser m)) = 0"
  by (simp_all add: new_HttpResponseParser_def httpclient_parser_init_def httpclient_parser_start_def cwired_def)

lemma to_int32_small: "n < 2 ^ 31 \<Longrightarrow> to_int32 (int n) = int n"
  by (simp only: to_int32_def sint_sbintrunc') (simp add: signed_take_bit_int_eq_self)

text \<open>A call in which the loop stops at \<open>n\<close> in the state \<open>t\<close>.\<close>

lemma client_call:
  assumes loop: "response_loop buffer len 1 0 (sp_parser (new_HttpResponseParser m)) = Inr (s, t, n)"
    and s: "cp_nread s = 0" "cp_body_start s \<le> len" and n: "n \<le> len" "n < 2 ^ 31"
    and b: "len < length buffer" "buffer ! len = CHR 0x00" "length buffer < 2 ^ 64"
  shows "HttpResponseParser_execute (new_HttpResponseParser m) buffer len False
    = Inr (\<lparr>sp_parser = s\<lparr>cp_cs := t, cp_nread := n\<rparr>\<rparr>, take (len - n) (drop n buffer) @ drop (len - n) buffer, n)"
proof -
  have "httpclient_parser_execute (sp_parser (new_HttpResponseParser m)) buffer len 0
      = Inr (s\<lparr>cp_cs := t, cp_nread := n\<rparr>, int n)"
    using b n s loop to_int32_small [OF n(2)] by (simp add: httpclient_parser_execute_def new_client(1))
  then show ?thesis using n b by (simp add: HttpResponseParser_execute_def move_down_def Let_def)
qed

definition answer_example :: HttpResponse where
  "answer_example = rs_setHeader ((new_HttpResponse 0x11 False)\<lparr>rs_cookies := [''a=b'', ''c=d'']\<rparr>) ''Host'' ''b''"

lemma answer_example_text: "HttpResponse_dump answer_example =
    ''HTTP/1.1 200 OK'' @ crlf @ ''Host: b'' @ crlf @ ''Set-Cookie: a=b'' @ crlf @ ''Set-Cookie: c=d'' @ crlf
    @ ''connection: keep-alive'' @ crlf @ crlf"
  by code_simp

lemma answer_example_ok: "answerable answer_example" "rs_body answer_example = []"
proof -
  have h: "rs_headers answer_example = [(''Host'', ''b'')]"
    by (simp add: answer_example_def rs_setHeader_def new_HttpResponse_def omap_put_def omap_lower_bound_def)
  have "ci.omap_ok (rs_headers answer_example)"
    by (simp add: answer_example_def rs_setHeader_def new_HttpResponse_def put_ok [OF empty_map_ok])
  moreover have "field_text ''Host''" "answer_text ''b''" "answer_text ''a=b''" "answer_text ''c=d''"
    by (simp_all add: field_text_def answer_text_def class_defs in_ranges_def range_defs char_value_def)
  ultimately show "answerable answer_example" unfolding answerable_def h
    by (simp add: answer_example_def rs_setHeader_def new_HttpResponse_def)
  show "rs_body answer_example = []" by (simp add: answer_example_def rs_setHeader_def new_HttpResponse_def)
qed

text \<open>
C15: What a server answers arrives.  For every response without a body whose reason is in one line
and whose header lines and cookies fit the grammar, the text that \<open>dump\<close> prints makes a fresh
parser finish without an error exactly at its end, in any buffer with a NUL behind the data.  What
follows it is moved to the front.  The response it yields has the same status, version and reason,
where an empty reason has become that of the status; it has every header in every spelling of its
name, the header \<open>connection\<close> of the sender's \<open>close\<close> flag, and of several cookies the last one.
\<close>

theorem response_text_roundtrip:
  assumes r: "answerable r" "rs_body r = []" and b: "buffer = HttpResponse_dump r @ tail" "length buffer < 2 ^ 64"
    and short: "length (HttpResponse_dump r) < 2 ^ 31"
    and len: "length (HttpResponse_dump r) \<le> len" "len < length buffer" "buffer ! len = CHR 0x00"
  shows "\<exists>P. HttpResponseParser_execute (new_HttpResponseParser m) buffer len False
        = Inr (P, take (len - length (HttpResponse_dump r)) tail @ drop (len - length (HttpResponse_dump r)) buffer,
            length (HttpResponse_dump r))
    \<and> HttpResponseParser_isFinished P = 1 \<and> \<not> HttpResponseParser_hasError P
    \<and> rs_status (sp_data P) = rs_status r \<and> rs_version (sp_data P) = rs_version r
    \<and> rs_reason (sp_data P) = (if rs_reason r = [] then HttpStatusToString (rs_status r) else rs_reason r)
    \<and> (\<forall>k d. rs_getHeader (sp_data P) k d =
        (if same_key k ''connection'' then if rs_close r then ''close'' else ''keep-alive''
         else if rs_cookies r \<noteq> [] \<and> same_key k ''Set-Cookie'' then last (rs_cookies r) else rs_getHeader r k d))"
proof -
  let ?q = "new_HttpResponse 0x11 True" and ?h = "answer_head r" and ?s = "sp_parser (new_HttpResponseParser m)"
  have d: "HttpResponse_dump r = ?h @ crlf" using dump_answer r by (simp add: answerable_def dump_body_def)
  have t: "text_at buffer 0 ?h" "text_at buffer (length ?h) crlf" by (simp_all add: text_at_def b(1) d)
  have n: "length ?h + length crlf \<le> len" "len \<le> length buffer" "0 + length ?h \<le> len" using len d by simp_all
  obtain t1 s1 where s1: "response_loop buffer len 1 0 ?s = response_loop buffer len t1 (0 + length ?h) s1" "line_state t1"
    "cwired (0 + length ?h) s1" "cp_data s1 = (answered r ?q, 0)"
    by (rule cphaseE [OF cphase_head [OF r(1)] t(1) n(3,2) b(2) refl new_client(2,3)])
  obtain s2 where s2: "response_loop buffer len 1 0 ?s = Inr (s2, 120, length (HttpResponse_dump r))" "cp_data s2 = (answered r ?q, 0)"
    "cp_nread s2 = 0" "cp_body_start s2 = length (HttpResponse_dump r)"
    using response_end [OF t(2) n(1,2) _ s1(2), of s1] s1 by (auto simp: d)
  define P where "P = \<lparr>sp_parser = s2\<lparr>cp_cs := 120, cp_nread := length (HttpResponse_dump r)\<rparr>\<rparr>"
  have "HttpResponseParser_execute (new_HttpResponseParser m) buffer len False
      = Inr (P, take (len - length (HttpResponse_dump r)) tail @ drop (len - length (HttpResponse_dump r)) buffer, length (HttpResponse_dump r))"
    using client_call [OF s2(1,3) _ len(1) short len(2,3) b(2)] s2(4) len(1) by (simp add: P_def b(1))
  moreover have "HttpResponseParser_isFinished P = 1" "\<not> HttpResponseParser_hasError P" "sp_data P = answered r ?q"
    using s2(2) by (simp_all add: P_def HttpResponseParser_isFinished_def HttpResponseParser_hasError_def sp_data_def
      httpclient_parser_finish_def httpclient_parser_has_error_def httpclient_parser_is_finished_def
      httpclient_parser_error_def httpclient_parser_first_final_def)
  moreover have "rs_headers ?q = []" by (simp add: new_HttpResponse_def)
  ultimately show ?thesis by (simp add: answered_keep answered_get [OF r(1)] reason_text_def)
qed


theorem response_text_roundtrip_witness:
  "\<forall>m. \<exists>P. HttpResponseParser_execute (new_HttpResponseParser m) (HttpResponse_dump answer_example @ ''hi'' @ [CHR 0x00])
        (length (HttpResponse_dump answer_example) + 2) False
      = Inr (P, ''hi'' @ drop 2 (HttpResponse_dump answer_example @ ''hi'' @ [CHR 0x00]), length (HttpResponse_dump answer_example))
    \<and> HttpResponseParser_isFinished P = 1 \<and> rs_status (sp_data P) = 200 \<and> rs_reason (sp_data P) = ''OK''
    \<and> rs_getHeader (sp_data P) ''set-cookie'' [] = ''c=d'' \<and> rs_getHeader (sp_data P) ''HOST'' [] = ''b''" (is "\<forall>m. ?P m")
proof
  fix m
  have n: "length (HttpResponse_dump answer_example) = 86" unfolding answer_example_text by (simp add: crlf_def)
  have e: "rs_status answer_example = 200" "rs_reason answer_example = []" "HttpStatusToString 200 = ''OK''"
    "rs_cookies answer_example = [''a=b'', ''c=d'']"
    by (simp_all add: answer_example_def rs_setHeader_def new_HttpResponse_def HttpStatusToString_def HTTP_STATUS_MAP_def)
  have k: "same_key ''set-cookie'' ''Set-Cookie''" "\<not> same_key ''set-cookie'' ''connection''"
    "\<not> same_key ''HOST'' ''connection''" "\<not> same_key ''HOST'' ''Set-Cookie''" "rs_getHeader answer_example ''HOST'' [] = ''b''"
    unfolding same_key_def by code_simp+
  show "?P m"
    using response_text_roundtrip [OF answer_example_ok, of "HttpResponse_dump answer_example @ ''hi'' @ [CHR 0x00]" "''hi'' @ [CHR 0x00]"
      "length (HttpResponse_dump answer_example) + 2" m] n
    by (auto simp: nth_append e k)
qed

lemma nat_text_answer: "answer_text (nat_text 10 n)"
proof -
  have "digit_class w \<Longrightarrow> in_ranges ink_ranges w \<and> in_ranges text_ranges w" for w
    by (auto simp: digit_class_def in_ranges_def range_defs)
  then show ?thesis using nat_text_digits [of n]
    unfolding answer_text_def list_all_iff by (metis hd_in_set)
qed

text \<open>
C18: An answer with a body does not arrive.  \<open>dump\<close> puts no empty line between the header
\<open>content-length\<close> and the body, so the parser takes a body of letters and digits for the name of the
next header: it consumes the whole text without an error and without finishing, and the peer
waits for more.
\<close>

theorem response_body_stalls:
  assumes r: "answerable r" "field_text (rs_body r)" and b: "buffer = HttpResponse_dump r @ CHR 0x00 # tail" "length buffer < 2 ^ 64"
    and short: "length (HttpResponse_dump r) < 2 ^ 31"
  shows "\<exists>P. HttpResponseParser_execute (new_HttpResponseParser m) buffer (length (HttpResponse_dump r)) False
        = Inr (P, buffer, length (HttpResponse_dump r))
    \<and> HttpResponseParser_isFinished P = 0 \<and> \<not> HttpResponseParser_hasError P"
proof -
  let ?q = "new_HttpResponse 0x11 True" and ?s = "sp_parser (new_HttpResponseParser m)" and ?n = "length (HttpResponse_dump r)"
  define h where "h = answer_head r @ ''content-length'' @ '': '' @ nat_text 10 (length (rs_body r)) @ crlf"
  have d: "HttpResponse_dump r = h @ rs_body r"
    unfolding h_def using dump_answer r by (simp add: answerable_def dump_body_def field_text_def)
  have ph: "cphase (\<lambda>t. t = 1) h (?q, 0) line_state
      (rs_setHeader (answered r ?q) ''content-length'' (nat_text 10 (length (rs_body r))), 0)"
    unfolding h_def by (rule cphase_trans [OF cphase_head [OF r(1)] cphase_field [OF _ nat_text_answer]])
      (simp add: field_text_def class_defs char_value_def)
  have t: "text_at buffer 0 h" "text_at buffer (length h) (rs_body r)" by (simp_all add: b(1) d text_at_def)
  have n: "length h + length (rs_body r) \<le> ?n" "?n \<le> length buffer" "0 + length h \<le> ?n" "?n < length buffer" "buffer ! ?n = CHR 0x00"
    using b(1) d by simp_all
  obtain t1 s1 where s1: "response_loop buffer ?n 1 0 ?s = response_loop buffer ?n t1 (0 + length h) s1" "line_state t1"
    "cwired (0 + length h) s1" "cp_data s1 = (rs_setHeader (answered r ?q) ''content-length'' (nat_text 10 (length (rs_body r))), 0)"
    by (rule cphaseE [OF ph t(1) n(3,2) b(2) refl new_client(2,3)])
  obtain t2 s2 where s2: "response_loop buffer ?n t1 (length h) s1 = response_loop buffer ?n t2 (length h + length (rs_body r)) s2"
    "name_state t2" "cwired (length h) s2" "cp_data s2 = cp_data s1"
    by (rule loop_name [OF r(2) t(2) n(1,2) _ refl s1(2), of s1]) (use s1(3) in auto)
  have "response_loop buffer ?n t2 ?n s2 = Inr (s2, t2, ?n)"
    unfolding response_loop_def by (subst ragel_loop.simps) simp
  then have e: "response_loop buffer ?n 1 0 ?s = Inr (s2, t2, ?n)" using s1(1) s2(1) d by simp
  define P where "P = \<lparr>sp_parser = s2\<lparr>cp_cs := t2, cp_nread := ?n\<rparr>\<rparr>"
  have "HttpResponseParser_execute (new_HttpResponseParser m) buffer ?n False = Inr (P, buffer, ?n)"
    using client_call [OF e _ _ order_refl short n(4,5) b(2)] s2(3) by (simp add: P_def cwired_def)
  moreover have "HttpResponseParser_isFinished P = 0" "\<not> HttpResponseParser_hasError P"
    using s2(2,4) s1(4) by (auto simp: P_def HttpResponseParser_isFinished_def HttpResponseParser_hasError_def name_state_def
      httpclient_parser_finish_def httpclient_parser_has_error_def httpclient_parser_is_finished_def
      httpclient_parser_error_def httpclient_parser_first_final_def)
  ultimately show ?thesis by blast
qed

theorem response_body_stalls_witness:
  "\<forall>m. \<exists>P. HttpResponseParser_execute (new_HttpResponseParser m) (HttpResponse_dump (answer_example\<lparr>rs_body := ''hi''\<rparr>) @ [CHR 0x00])
        (length (HttpResponse_dump (answer_example\<lparr>rs_body := ''hi''\<rparr>))) False
      = Inr (P, HttpResponse_dump (answer_example\<lparr>rs_body := ''hi''\<rparr>) @ [CHR 0x00], length (HttpResponse_dump (answer_example\<lparr>rs_body := ''hi''\<rparr>)))
    \<and> HttpResponseParser_isFinished P = 0" (is "\<forall>m. ?P m")
proof
  fix m
  let ?r = "answer_example\<lparr>rs_body := ''hi''\<rparr>"
  have ok: "answerable ?r" using answer_example_ok(1) by (simp add: answerable_def)
  have hi: "field_text (rs_body ?r)" by (simp add: field_text_def class_defs char_value_def)
  have "length (HttpResponse_dump ?r) = 105" by code_simp
  then show "?P m" using response_body_stalls [OF ok hi, of "HttpResponse_dump ?r @ [CHR 0x00]" "[]" m] by auto
qed

end
