(* ===== verification/HttpClientSafety.thy ===== *)
theory HttpClientSafety
  imports HttpClientProps
begin

text \<open>
  Memory safety of the response parser: what the first call may read, and a text that makes it
  read further.
\<close>

section \<open>Checks on the tables\<close>

definition client_edge_ok :: "response_action list \<Rightarrow> nat \<Rightarrow> bool" where
  "client_edge_ok acts t \<longleftrightarrow> 0 < t \<and> t < 124 \<and> (CDone \<in> set acts \<longrightarrow> 120 \<le> t)"

fun client_goto_ok :: "goto \<Rightarrow> bool" where
  "client_goto_ok (ST t) = (t < 124)"
| "client_goto_ok (TR k) = True"

fun client_block_ok :: "response_action block \<Rightarrow> bool" where
  "client_block_ok (Tr k acts t) = client_edge_ok acts t"
| "client_block_ok (St n wide tests other) = (list_all (\<lambda>(lo, hi, g). client_goto_ok g) tests \<and> client_goto_ok other)"

lemma client_blocks_ok: "list_all client_block_ok httpclient_code"
  by (simp add: httpclient_code_defs client_edge_ok_def)

lemma client_edge:
  assumes "st_of httpclient_code cs = Some (wide, tests, other)"
    and "edge_of httpclient_code (goto_of tests other w) = (acts, t)" and "(acts, t) \<noteq> ([], 0)"
  shows "client_edge_ok acts t"
proof -
  have ok: "client_block_ok (St cs wide tests other)"
    using client_blocks_ok st_of_block [OF assms(1)] by (simp only: list_all_iff)
  define g where "g = goto_of tests other w"
  have g: "client_goto_ok g" using goto_of_range [of tests other w] ok
    unfolding g_def [symmetric] by (fastforce simp: list_all_iff)
  show ?thesis
  proof (cases g)
    case (ST m)
    then show ?thesis using assms(2,3) g g_def by (auto simp: client_edge_ok_def)
  next
    case (TR k)
    then have "tr_of httpclient_code k = (acts, t)" using assms(2) g_def by simp
    then have "Tr k acts t \<in> set httpclient_code" using tr_of_block assms(3) by blast
    then have "client_block_ok (Tr k acts t)" using client_blocks_ok by (simp only: list_all_iff)
    then show ?thesis by simp
  qed
qed

section \<open>The invariant of the first call\<close>

text \<open>
  With the cursor at \<open>p\<close>.  The name of a field and its length may belong to different lines, so
  each is bounded alone.
\<close>

definition client_marks :: "nat \<Rightarrow> nat \<Rightarrow> 'd httpclient_parser \<Rightarrow> bool" where
  "client_marks pe p s \<longleftrightarrow> cp_mark s \<le> p \<and> cp_field_start s \<le> p \<and> cp_field_len s \<le> p \<and> cp_body_start s \<le> pe \<and> cp_nread s = 0"

definition client_inv :: "string \<Rightarrow> nat \<Rightarrow> nat \<Rightarrow> nat \<Rightarrow> 'd httpclient_parser \<Rightarrow> bool" where
  "client_inv mem pe cs p s \<longleftrightarrow> client_marks pe p s \<and> 0 < cs \<and> cs < 124 \<and> 2 * pe \<le> length mem \<and> length mem < 2 ^ 64"

lemma response_act_ok:
  assumes "client_marks pe p s" and "p < pe" and "2 * pe \<le> length mem" and "length mem < 2 ^ 64"
  shows "\<exists>s'. response_act mem pe p a s = Inr s' \<and> client_marks pe p s'"
proof -
  have "size_sub p n = p - n" if "n \<le> p" for n using that assms(2-4) by (intro size_sub_le) auto
  then show ?thesis using assms
    by (cases a) (auto simp: client_marks_def cp_call_element_def apply_element_def apply_field_def number_at_def Let_def
      split: option.split)
qed

lemma response_acts_ok:
  assumes "p < pe" and "2 * pe \<le> length mem" and "length mem < 2 ^ 64"
  shows "client_marks pe p s \<Longrightarrow> \<exists>s'. run_actions (response_act mem pe) p acts s = Inr s' \<and> client_marks pe p s'"
proof (induction acts arbitrary: s)
  case (Cons a acts)
  obtain s' where "response_act mem pe p a s = Inr s'" "client_marks pe p s'"
    using response_act_ok [OF Cons.prems assms] by blast
  then show ?case using Cons.IH by simp
qed simp

lemma client_edge_inv:
  assumes "st_of httpclient_code cs = Some (wide, tests, other)" and p: "p < pe" and inv: "client_inv mem pe cs p s"
    and "edge_of httpclient_code (goto_of tests other w) = (acts, t)" and "(acts, t) \<noteq> ([], 0)"
  shows "\<exists>s'. run_actions (response_act mem pe) p acts s = Inr s' \<and> client_inv mem pe t (p + 1) s'
    \<and> (list_ex (\<lambda>a. a = CDone) acts \<longrightarrow> 120 \<le> t \<and> t < 124)"
proof -
  have e: "client_edge_ok acts t" by (rule client_edge [OF assms(1,4,5)])
  obtain s' where "run_actions (response_act mem pe) p acts s = Inr s'" "client_marks pe p s'"
    using response_acts_ok [OF p] inv unfolding client_inv_def by blast
  then show ?thesis using e inv by (auto simp: client_inv_def client_marks_def client_edge_ok_def list_ex_iff)
qed

interpretation response: ragel_invariant httpclient_code "\<lambda>s c. c" "response_act mem pe" "\<lambda>a. a = CDone" mem pe
  "client_inv mem pe" "\<lambda>n. 120 \<le> n \<and> n < 124" for mem pe
proof
  show "client_inv mem pe cs p s \<Longrightarrow> st_of httpclient_code cs \<noteq> None" for cs p and s :: "'d httpclient_parser"
    unfolding client_inv_def using client_states by blast
  show "client_inv mem pe cs p s \<Longrightarrow> pe \<le> length mem" for cs p and s :: "'d httpclient_parser"
    by (simp add: client_inv_def)
qed (rule client_edge_inv)



section \<open>A text that is read too far\<close>

lemma client_parts_length:
  "part_of httpclient_code_6 httpclient_code" "part_of httpclient_code_9 httpclient_code"
  "part_of httpclient_code_19 httpclient_code" "part_of httpclient_code_20 httpclient_code"
  "part_of httpclient_code_21 httpclient_code" "part_of httpclient_code_22 httpclient_code"
  "part_of httpclient_code_23 httpclient_code"
  unfolding part_of_def httpclient_code_def by (metis append.assoc append_Nil append_Nil2)+

lemmas length_rows = client_rows client_parts_length [THEN st_of_client] client_parts_length [THEN tr_of_client]
  httpclient_code_6_def httpclient_code_9_def httpclient_code_19_def httpclient_code_20_def httpclient_code_21_def
  httpclient_code_22_def httpclient_code_23_def

lemma chop_length [chops]:
  "chop 25 111 = ([], 26)" "chop 26 110 = ([], 27)" "chop 27 116 = ([], 101)" "chop 101 101 = ([], 102)" "chop 102 110 = ([], 103)"
  "chop 103 116 = ([], 104)" "chop 104 45 = ([], 105)" "chop 105 76 = ([], 106)" "chop 106 101 = ([], 107)"
  "chop 107 110 = ([], 108)" "chop 108 103 = ([], 109)" "chop 109 116 = ([], 110)" "chop 110 104 = ([], 111)"
  "chop 111 58 = ([CWriteField], 112)" "chop 112 13 = ([CStartValue, CWriteValue], 118)" "chop 118 10 = ([], 113)"
  "chop 113 53 = ([CStartValue, CStartField], 117)" "chop 117 13 = ([CWriteContentLen, CWriteValue], 24)"
  by (simp_all add: chop_def length_rows)

lemma chop_line_c: "line_state cs \<Longrightarrow> \<exists>acts. chop cs 67 = (acts, 25) \<and> acts \<noteq> [] \<and> asides (butlast acts) \<and> last acts = CStartField"
  by (auto simp: line_state_def chop_def length_rows asides_def)

text \<open>The line break right behind \<open>Content-Length:\<close>, and a digit at the start of the next line.\<close>

definition broken_line :: string where
  "broken_line = ''Content-Length:'' @ crlf @ ''5'' @ crlf"

lemma text_at_part: "text_at mem p (u @ v @ w) \<Longrightarrow> text_at mem (p + length u) v"
  by simp

lemma text_at_nth: "text_at mem p w \<Longrightarrow> i < length w \<Longrightarrow> mem ! (p + i) = w ! i"
proof -
  assume a: "text_at mem p w" "i < length w"
  then have "w \<noteq> []" by auto
  then have "p + length w \<le> length mem" by (rule text_at_bound [OF a(1)])
  then have "mem ! (p + i) = drop p mem ! i" by simp
  then show ?thesis using a(2) by (simp add: text_at_drop [OF a(1)] nth_append)
qed

lemma response_go_to:
  assumes "q = p + 1" and "p < pe" and "pe \<le> length mem" and "mem ! p = c" and "chop cs (char_value c) = (acts, t)"
    and "t \<noteq> 0" and "CDone \<notin> set acts" and "run_actions (response_act mem pe) p acts s = Inr s'"
  shows "response_loop mem pe cs p s = response_loop mem pe t q s'"
  using response_go [OF assms(2,3) _ assms(6-8)] assms(1,4,5) by simp

lemma broken_line_at:
  assumes a: "text_at mem p broken_line"
  shows "mem ! p = CHR ''C''" and "mem ! (p + 14) = CHR '':''" and "mem ! (p + 15) = CHR 0x0D" and "mem ! (p + 16) = CHR 0x0A"
    and "mem ! (p + 17) = CHR ''5''" and "text_at mem (p + 1) ''ontent-Length''" and "take 14 (drop p mem) = ''Content-Length''"
proof -
  show "mem ! p = CHR ''C''" "mem ! (p + 14) = CHR '':''" "mem ! (p + 15) = CHR 0x0D" "mem ! (p + 16) = CHR 0x0A"
    "mem ! (p + 17) = CHR ''5''"
    using text_at_nth [OF a, of 0] text_at_nth [OF a, of 14] text_at_nth [OF a, of 15] text_at_nth [OF a, of 16]
      text_at_nth [OF a, of 17] by (simp_all add: broken_line_def crlf_def)
  have "text_at mem (p + length ''C'') ''ontent-Length''"
    by (rule text_at_part [where w = "'':'' @ crlf @ ''5'' @ crlf"]) (use a in \<open>simp add: broken_line_def\<close>)
  then show "text_at mem (p + 1) ''ontent-Length''" by simp
  show "take 14 (drop p mem) = ''Content-Length''" using text_at_drop [OF a] by (simp add: broken_line_def)
qed

text \<open>At the second line's end the parser still has the length of the name above.\<close>

lemma loop_broken_line:
  assumes a: "text_at mem p broken_line" and b: "p + length broken_line \<le> pe" "pe \<le> length mem" "length mem < 2 ^ 64"
    and s: "cwired p s" "cp_data s = (r, err)" and cs: "line_state cs"
  obtains s' where "response_loop mem pe cs p s = response_loop mem pe 117 (p + 18) s'" and "cwired (p + 17) s'"
    and "cp_data s' = (rs_setHeader r ''Content-Length'' [], err)" and "cp_field_start s' = p + 17" and "cp_field_len s' = 14" 
proof -
  have t: "p < pe" "p + 14 < pe" "p + 15 < pe" "p + 16 < pe" "p + 17 < pe"
    using b(1) by (simp_all add: broken_line_def crlf_def)
  note at = broken_line_at [OF a]
  obtain acts where acts: "chop cs 67 = (acts, 25)" "acts \<noteq> []" "asides (butlast acts)" "last acts = CStartField"
    using chop_line_c [OF cs] by blast
  have "\<exists>s1. response_loop mem pe cs p s = response_loop mem pe 25 (p + 1) s1 \<and> cwired p s1 \<and> cp_data s1 = (r, err) \<and> cp_field_start s1 = p"
    by (rule response_aside [OF t(1) b(2) _ _ acts(2-4) _ s(1)])
      (use at(1) acts s(2) in \<open>auto simp: cwired_def char_value_def\<close>)
  then obtain s1 where s1: "response_loop mem pe cs p s = response_loop mem pe 25 (p + 1) s1" "cwired p s1" "cp_data s1 = (r, err)" "cp_field_start s1 = p"
    by blast
  have e1: "response_loop mem pe 25 (p + 1) s1 = response_loop mem pe 111 (p + 14) s1"
  proof -
    have "response_loop mem pe 25 (p + 1) s1 = response_loop mem pe 111 (p + 1 + length ''ontent-Length'') s1"
      by (rule response_quiet [OF at(6) _ b(2)]) (use t(2) in \<open>simp_all add: chops Let_def char_value_def\<close>)
    moreover have "p + 1 + length ''ontent-Length'' = p + 14" by simp
    ultimately show ?thesis by (simp only:)
  qed
  define s2 where "s2 = s1\<lparr>cp_field_len := 14\<rparr>"
  have e2: "response_loop mem pe 111 (p + 14) s1 = response_loop mem pe 112 (p + 15) s2"
    by (rule response_go_to [OF _ t(2) b(2) at(2), where acts = "[CWriteField]"])
      (use t(2) b s1(4) mark_size [of p "p + 14"] in \<open>simp_all add: chops s2_def\<close>)
  define s3 where "s3 = s2\<lparr>cp_mark := p + 15, cp_data := (rs_setHeader r ''Content-Length'' [], err)\<rparr>"
  have run: "run_actions (response_act mem pe) (p + 15) [CStartValue, CWriteValue] s2 = Inr s3"
    using s1 at(7) t(3) b mark_size [of "p + 15" "p + 15"] by (simp add: s3_def s2_def apply_field_def cwired_def)
  have e3: "response_loop mem pe 112 (p + 15) s2 = response_loop mem pe 118 (p + 16) s3"
    by (rule response_go_to [OF _ t(3) b(2) at(3) _ _ _ run]) (simp_all add: chops)
  have e4: "response_loop mem pe 118 (p + 16) s3 = response_loop mem pe 113 (p + 17) s3"
    by (rule response_go_to [OF _ t(4) b(2) at(4), where acts = "[]"]) (simp_all add: chops)
  define s4 where "s4 = s3\<lparr>cp_mark := p + 17, cp_field_start := p + 17\<rparr>"
  have e5: "response_loop mem pe 113 (p + 17) s3 = response_loop mem pe 117 (p + 18) s4"
    by (rule response_go_to [OF _ t(5) b(2) at(5), where acts = "[CStartValue, CStartField]"]) (simp_all add: chops s4_def char_value_def)
  have "cwired (p + 17) s4" "cp_data s4 = (rs_setHeader r ''Content-Length'' [], err)" "cp_field_start s4 = p + 17" "cp_field_len s4 = 14"
    using s1(2) by (simp_all add: s4_def s3_def s2_def cwired_def)
  then show thesis using that s1(1) e1 e2 e3 e4 e5 by simp
qed

text \<open>
C17: The response parser can be made to read behind the data.  Take any well formed response head,
then a line \<open>Content-Length:\<close> that ends there, then a line with a digit.  The digit is both the value
of the folded header and the start of a new name, so the new name gets the length of the old one:
at the end of the line the parser hands \<open>on_response_http_field\<close> 14 characters from the digit on,
whatever is there.  When the buffer ends within these characters the call leaves it.
\<close>

theorem content_length_overread:
  assumes r: "answerable r" and b: "buffer = answer_head r @ broken_line @ tail" "tail \<noteq> []" "length tail < 11" "length buffer < 2 ^ 64"
    and len: "length (answer_head r @ broken_line) \<le> len" "len < length buffer" "buffer ! len = CHR 0x00"
  shows "HttpResponseParser_execute (new_HttpResponseParser m) buffer len False = Inl OutOfBounds"
proof -
  let ?h = "answer_head r" and ?s = "sp_parser (new_HttpResponseParser m)"
  have t: "text_at buffer 0 ?h" "text_at buffer (length ?h) broken_line" by (simp_all add: text_at_def b(1))
  have n: "length ?h + length broken_line \<le> len" "len \<le> length buffer" "0 + length ?h \<le> len" using len by simp_all
  obtain t1 s1 where s1: "response_loop buffer len 1 0 ?s = response_loop buffer len t1 (0 + length ?h) s1" "line_state t1"
    "cwired (0 + length ?h) s1" "cp_data s1 = (answered r (new_HttpResponse 0x11 True), 0)"
    by (rule cphaseE [OF cphase_head [OF r] t(1) n(3,2) b(4) refl new_client(2,3)])
  obtain s2 where s2: "response_loop buffer len t1 (length ?h) s1 = response_loop buffer len 117 (length ?h + 18) s2" "cwired (length ?h + 17) s2"
    "cp_field_start s2 = length ?h + 17" "cp_field_len s2 = 14"
    using loop_broken_line [OF t(2) n(1,2) b(4) _ _ s1(2)] s1(3,4) by (metis add_0)
  have c: "length broken_line = 20" "buffer ! (length ?h + 18) = CHR 0x0D" "length ?h + 18 < len" "length ?h + 18 < length buffer"
    "length buffer < length ?h + 31"
    using b n by (simp_all add: broken_line_def crlf_def nth_append)
  have "run_actions (response_act buffer len) (length ?h + 18) [CWriteContentLen, CWriteValue] s2 = Inl OutOfBounds"
    using s2(2-4) c(4,5) by (simp add: number_at_def apply_field_def cwired_def)
  then have "response_loop buffer len 117 (length ?h + 18) s2 = Inl OutOfBounds"
    using response_row [OF c(3) n(2), of 117 "[CWriteContentLen, CWriteValue]" 24 s2] c(2) by (simp add: chops)
  then have "response_loop buffer len 1 0 ?s = Inl OutOfBounds" using s1(1) s2(1) by simp
  then show ?thesis
    using len by (simp add: HttpResponseParser_execute_def httpclient_parser_execute_def new_client(1))
qed

theorem content_length_overread_witness:
  "\<forall>m. HttpResponseParser_execute (new_HttpResponseParser m) (answer_head answer_example @ broken_line @ [CHR 0x00])
      (length (answer_head answer_example @ broken_line)) False = Inl OutOfBounds"
proof
  fix m
  have nul: "(answer_head answer_example @ broken_line @ [CHR 0x00]) ! length (answer_head answer_example @ broken_line) = CHR 0x00"
    by (metis append.assoc nth_append_length)
  have "length (answer_head answer_example @ broken_line) = 104" by code_simp
  then show "HttpResponseParser_execute (new_HttpResponseParser m) (answer_head answer_example @ broken_line @ [CHR 0x00])
      (length (answer_head answer_example @ broken_line)) False = Inl OutOfBounds"
    by (intro content_length_overread [OF answer_example_ok(1), where tail = "[CHR 0x00]"] nul) simp_all
qed

end
