(* ===== verification/Config.thy ===== *)
theory Config
  imports Util StdSet "HOL-Library.List_Lexorder" "HOL-Library.Char_ord"
begin

text \<open>
  Configuration variables and their registry (\<open>src/megalo/config.h\<close>, \<open>config.cc\<close>): the
  conversions between strings and containers, variables with change listeners, the lookup by name
  and type, and the loading of a YAML document.

  yaml-cpp is not part of the sources.  Its documented node kinds are a datatype; loading, printing
  and indexing are the parameters \<open>yaml_lib\<close>.  Values of all configuration types live in one type
  \<open>'v\<close>, and a variable carries the name of its own (\<open>typeid\<close>), which \<open>dynamic_pointer_cast\<close>
  compares.  Shared pointers are addresses in a store.  A listener transforms the rest of the
  program's state \<open>'w\<close>.  Log lines are left out.
\<close>

section \<open>YAML\<close>

datatype yaml = YNull | YScalar string | YSequence "yaml list" | YMap "(yaml \<times> yaml) list"

record yaml_lib =
  yl_load :: "string \<Rightarrow> yaml option"
  yl_emit :: "yaml \<Rightarrow> string"
  yl_index :: "yaml \<Rightarrow> nat \<Rightarrow> yaml"
  yl_key :: "yaml \<Rightarrow> string \<Rightarrow> yaml option option"
  yl_as_string :: "yaml \<Rightarrow> string option"

text \<open>\<open>Scalar()\<close> of a node that is not a scalar is empty.\<close>

fun yaml_Scalar :: "yaml \<Rightarrow> string" where
  "yaml_Scalar (YScalar s) = s"
| "yaml_Scalar _ = []"

fun yaml_size :: "yaml \<Rightarrow> nat" where
  "yaml_size (YSequence xs) = length xs"
| "yaml_size (YMap es) = length es"
| "yaml_size _ = 0"

text \<open>\<open>node[i]\<close>: the elements of a sequence; what it means elsewhere is the library's.\<close>

definition yaml_at :: "yaml_lib \<Rightarrow> yaml \<Rightarrow> nat \<Rightarrow> yaml" where
  "yaml_at lib node i =
     (case node of YSequence xs \<Rightarrow> if i < length xs then xs ! i else yl_index lib node i | _ \<Rightarrow> yl_index lib node i)"

fun yaml_entries :: "yaml \<Rightarrow> (yaml \<times> yaml) list" where
  "yaml_entries (YMap es) = es"
| "yaml_entries _ = []"

section \<open>Conversions\<close>

text \<open>
  A conversion throws \<open>bad_lexical_cast\<close>, which the variables catch, or something else (an error
  of the YAML parser, \<open>std::logic_error\<close>), which they do not.
\<close>

datatype cast_error = BadLexicalCast | OtherException

type_synonym 'a from_string = "string \<Rightarrow> cast_error + 'a"
type_synonym 'a to_string = "'a \<Rightarrow> cast_error + string"

definition YAML_Load :: "yaml_lib \<Rightarrow> string \<Rightarrow> cast_error + yaml" where
  "YAML_Load lib s = (case yl_load lib s of None \<Rightarrow> Inl OtherException | Some n \<Rightarrow> Inr n)"

fun cast_all :: "('a \<Rightarrow> cast_error + 'b) \<Rightarrow> 'a list \<Rightarrow> cast_error + 'b list" where
  "cast_all f [] = Inr []"
| "cast_all f (x # xs) = result_bind (f x) (\<lambda>y. result_bind (cast_all f xs) (\<lambda>ys. Inr (y # ys)))"

definition vector_from_string :: "yaml_lib \<Rightarrow> 'a from_string \<Rightarrow> 'a list from_string" where
  "vector_from_string lib cast v =
     result_bind (YAML_Load lib v) (\<lambda>node.
       cast_all (\<lambda>i. cast (yl_emit lib (yaml_at lib node i))) [0..<yaml_size node])"

definition vector_to_string :: "yaml_lib \<Rightarrow> 'a to_string \<Rightarrow> 'a list to_string" where
  "vector_to_string lib cast v =
     result_bind (cast_all (\<lambda>i. result_bind (cast i) (YAML_Load lib)) v) (\<lambda>ns. Inr (yl_emit lib (YSequence ns)))"

definition list_from_string :: "yaml_lib \<Rightarrow> 'a from_string \<Rightarrow> 'a list from_string" where
  "list_from_string lib cast v =
     result_bind (YAML_Load lib v) (\<lambda>node.
       cast_all (\<lambda>i. cast (yl_emit lib (yaml_at lib node i))) [0..<yaml_size node])"

definition list_to_string :: "yaml_lib \<Rightarrow> 'a to_string \<Rightarrow> 'a list to_string" where
  "list_to_string lib cast v =
     result_bind (cast_all (\<lambda>i. result_bind (cast i) (YAML_Load lib)) v) (\<lambda>ns. Inr (yl_emit lib (YSequence ns)))"

text \<open>
  A \<open>std::set\<close> is ordered by \<open>lt\<close>; an \<open>unordered_set\<close> is the list of its elements in the order
  its iteration gives them, of which the conversion from a string fixes only the members.
\<close>

definition set_from_string :: "yaml_lib \<Rightarrow> ('a \<Rightarrow> 'a \<Rightarrow> bool) \<Rightarrow> 'a from_string \<Rightarrow> 'a list from_string" where
  "set_from_string lib lt cast v =
     result_bind (YAML_Load lib v) (\<lambda>node.
       result_bind (cast_all (\<lambda>i. cast (yl_emit lib (yaml_at lib node i))) [0..<yaml_size node]) (\<lambda>xs.
         Inr (fold (\<lambda>x s. fst (oset_insert lt s x)) xs [])))"

definition set_to_string :: "yaml_lib \<Rightarrow> 'a to_string \<Rightarrow> 'a list to_string" where
  "set_to_string lib cast v =
     result_bind (cast_all (\<lambda>i. result_bind (cast i) (YAML_Load lib)) v) (\<lambda>ns. Inr (yl_emit lib (YSequence ns)))"

definition unordered_set_from_string :: "yaml_lib \<Rightarrow> 'a from_string \<Rightarrow> 'a set from_string" where
  "unordered_set_from_string lib cast v =
     result_bind (YAML_Load lib v) (\<lambda>node.
       result_bind (cast_all (\<lambda>i. cast (yl_emit lib (yaml_at lib node i))) [0..<yaml_size node]) (\<lambda>xs.
         Inr (set xs)))"

definition unordered_set_to_string :: "yaml_lib \<Rightarrow> 'a to_string \<Rightarrow> 'a list to_string" where
  "unordered_set_to_string lib cast v =
     result_bind (cast_all (\<lambda>i. result_bind (cast i) (YAML_Load lib)) v) (\<lambda>ns. Inr (yl_emit lib (YSequence ns)))"

text \<open>Maps from strings: \<open>insert\<close> keeps the first entry of a key.\<close>

definition entries_from_string :: "yaml_lib \<Rightarrow> 'a from_string \<Rightarrow> (string \<times> 'a) list from_string" where
  "entries_from_string lib cast v =
     result_bind (YAML_Load lib v) (\<lambda>node.
       cast_all (\<lambda>(k, n). result_bind (cast (yl_emit lib n)) (\<lambda>x. Inr (yaml_Scalar k, x))) (yaml_entries node))"

definition map_from_string :: "yaml_lib \<Rightarrow> 'a from_string \<Rightarrow> (string \<times> 'a) list from_string" where
  "map_from_string lib cast v =
     result_bind (entries_from_string lib cast v) (\<lambda>es.
       Inr (fold (\<lambda>(k, x) m. omap_insert (<) m k x) es []))"

definition unordered_map_from_string :: "yaml_lib \<Rightarrow> 'a from_string \<Rightarrow> (string \<rightharpoonup> 'a) from_string" where
  "unordered_map_from_string lib cast v =
     result_bind (entries_from_string lib cast v) (\<lambda>es. Inr (map_of es))"

definition map_to_string :: "yaml_lib \<Rightarrow> 'a to_string \<Rightarrow> (string \<times> 'a) list to_string" where
  "map_to_string lib cast v =
     result_bind (cast_all (\<lambda>(k, x). result_bind (cast x) (\<lambda>s.
         result_bind (YAML_Load lib s) (\<lambda>n. Inr (YScalar k, n)))) v)
       (\<lambda>es. Inr (yl_emit lib (YMap es)))"

definition unordered_map_to_string :: "yaml_lib \<Rightarrow> 'a to_string \<Rightarrow> (string \<times> 'a) list to_string" where
  "unordered_map_to_string lib cast v =
     result_bind (cast_all (\<lambda>(k, x). result_bind (cast x) (\<lambda>s.
         result_bind (YAML_Load lib s) (\<lambda>n. Inr (YScalar k, n)))) v)
       (\<lambda>es. Inr (yl_emit lib (YMap es)))"

section \<open>Variables\<close>

type_synonym ('v, 'w) on_change_cb = "'v \<Rightarrow> 'v \<Rightarrow> 'w \<Rightarrow> 'w"

record ('v, 'w) ConfigVar =
  cv_name :: string
  cv_description :: string
  cv_typeName :: string
  cv_from :: "'v from_string"
  cv_to :: "'v to_string"
  cv_val :: 'v
  cv_cbs :: "(u64 \<times> ('v, 'w) on_change_cb) list"

definition new_ConfigVar ::
  "string \<Rightarrow> 'v from_string \<Rightarrow> 'v to_string \<Rightarrow> string \<Rightarrow> 'v \<Rightarrow> string \<Rightarrow> ('v, 'w) ConfigVar" where
  "new_ConfigVar typeName from to name default_val description =
     \<lparr> cv_name = ToLower name, cv_description = description, cv_typeName = typeName, cv_from = from, cv_to = to,
       cv_val = default_val, cv_cbs = [] \<rparr>"

definition ConfigVar_toString :: "('v, 'w) ConfigVar \<Rightarrow> cast_error + string" where
  "ConfigVar_toString v =
     (case cv_to v (cv_val v) of
        Inl BadLexicalCast \<Rightarrow> Inr []
      | Inl OtherException \<Rightarrow> Inl OtherException
      | Inr s \<Rightarrow> Inr s)"

definition ConfigVar_getValue :: "('v, 'w) ConfigVar \<Rightarrow> 'v" where
  "ConfigVar_getValue v = cv_val v"

text \<open>The listeners run in the order of their keys, before the value changes.\<close>

definition ConfigVar_setValue :: "('v, 'w) ConfigVar \<Rightarrow> 'v \<Rightarrow> 'w \<Rightarrow> ('v, 'w) ConfigVar \<times> 'w" where
  "ConfigVar_setValue v x w =
     (if cv_val v = x then (v, w)
      else (v\<lparr>cv_val := x\<rparr>, fold (\<lambda>(key, cb) w. cb (cv_val v) x w) (cv_cbs v) w))"

definition ConfigVar_fromString ::
  "('v, 'w) ConfigVar \<Rightarrow> string \<Rightarrow> 'w \<Rightarrow> cast_error + (bool \<times> ('v, 'w) ConfigVar \<times> 'w)" where
  "ConfigVar_fromString v s w =
     (case cv_from v s of
        Inl BadLexicalCast \<Rightarrow> Inr (False, v, w)
      | Inl OtherException \<Rightarrow> Inl OtherException
      | Inr x \<Rightarrow> Inr (True, ConfigVar_setValue v x w))"

text \<open>The counter \<open>s_fun_id\<close> is shared by the variables of one type.\<close>

definition ConfigVar_addListener ::
  "u64 \<Rightarrow> ('v, 'w) ConfigVar \<Rightarrow> ('v, 'w) on_change_cb \<Rightarrow> u64 \<times> ('v, 'w) ConfigVar \<times> u64" where
  "ConfigVar_addListener s_fun_id v cb =
     (let id = s_fun_id + 1 in (id, v\<lparr>cv_cbs := omap_put (<) (cv_cbs v) id cb\<rparr>, id))"

definition ConfigVar_delListener :: "('v, 'w) ConfigVar \<Rightarrow> u64 \<Rightarrow> ('v, 'w) ConfigVar" where
  "ConfigVar_delListener v key = v\<lparr>cv_cbs := omap_del (<) (cv_cbs v) key\<rparr>"

definition ConfigVar_getListener :: "('v, 'w) ConfigVar \<Rightarrow> u64 \<Rightarrow> ('v, 'w) on_change_cb option" where
  "ConfigVar_getListener v key = omap_get (<) (cv_cbs v) key"

definition ConfigVar_clearListener :: "('v, 'w) ConfigVar \<Rightarrow> ('v, 'w) ConfigVar" where
  "ConfigVar_clearListener v = v\<lparr>cv_cbs := []\<rparr>"

section \<open>The registry\<close>

text \<open>\<open>cf_vars\<close> is the store of variables, \<open>cf_datas\<close> the map behind \<open>GetDatas()\<close>.\<close>

record ('v, 'w) Config =
  cf_vars :: "nat \<rightharpoonup> ('v, 'w) ConfigVar"
  cf_next :: nat
  cf_datas :: "string \<rightharpoonup> nat"

definition name_chars :: string where
  "name_chars = ''abcdefghijklmnopqrstuvwxyz_.0123456789''"

text \<open>
  \<open>Lookup\<close> with a default value: \<open>None\<close> is the exception \<open>invalid_argument\<close>.  A variable of
  another type under the name is reported and then replaced.
\<close>

definition Config_Lookup ::
  "('v, 'w) Config \<Rightarrow> string \<Rightarrow> 'v from_string \<Rightarrow> 'v to_string \<Rightarrow> string \<Rightarrow> 'v \<Rightarrow> string
   \<Rightarrow> (nat \<times> ('v, 'w) Config) option" where
  "Config_Lookup c typeName from to name default_val description =
     (let create =
        (if find_first_not_of name name_chars \<noteq> None then None
         else
           let p = cf_next c in
           Some (p, c\<lparr>cf_vars := (cf_vars c)(p \<mapsto> new_ConfigVar typeName from to name default_val description),
                       cf_next := p + 1, cf_datas := (cf_datas c)(name \<mapsto> p)\<rparr>))
      in case cf_datas c name of
           None \<Rightarrow> create
         | Some p \<Rightarrow> (case cf_vars c p of
             Some v \<Rightarrow> if cv_typeName v = typeName then Some (p, c) else create
           | None \<Rightarrow> create))"

definition Config_Lookup_typed :: "('v, 'w) Config \<Rightarrow> string \<Rightarrow> string \<Rightarrow> nat option" where
  "Config_Lookup_typed c typeName name =
     (case cf_datas c name of
        None \<Rightarrow> None
      | Some p \<Rightarrow> (case cf_vars c p of
          Some v \<Rightarrow> if cv_typeName v = typeName then Some p else None
        | None \<Rightarrow> None))"

definition Config_LookupBase :: "('v, 'w) Config \<Rightarrow> string \<Rightarrow> nat option" where
  "Config_LookupBase c name = cf_datas c name"

section \<open>Loading\<close>

lemma size_yaml_entry: "(k, n) \<in> set es \<Longrightarrow> size n < size (YMap es)"
proof -
  assume "(k, n) \<in> set es"
  then have "size_prod size size (k, n) \<le> size_list (size_prod size size) es"
    by (rule size_list_estimation') simp
  then show ?thesis by simp
qed

text \<open>A name with a character outside the alphabet drops the node and all below it.\<close>

function ListAllMember :: "string \<Rightarrow> yaml \<Rightarrow> (string \<times> yaml) list" where
  "ListAllMember prefix node =
     (if find_first_not_of prefix name_chars \<noteq> None then []
      else (prefix, node) #
        (case node of
           YMap es \<Rightarrow> concat (map (\<lambda>(k, n). ListAllMember
               (if prefix = [] then yaml_Scalar k else prefix @ ''.'' @ yaml_Scalar k) n) es)
         | _ \<Rightarrow> []))"
  by pat_completeness auto
termination
proof (relation "measure (size \<circ> snd)")
  fix prefix :: string and node :: yaml and es and e :: "yaml \<times> yaml" and k n :: yaml
  assume "node = YMap es" "e \<in> set es" "(k, n) = e"
  then show "((if prefix = [] then yaml_Scalar k else prefix @ ''.'' @ yaml_Scalar k, n), prefix, node)
      \<in> measure (size \<circ> snd)"
    using size_yaml_entry [of k n es] by simp
qed simp

declare ListAllMember.simps [simp del]

definition node_text :: "yaml_lib \<Rightarrow> yaml \<Rightarrow> string" where
  "node_text lib node = (case node of YScalar s \<Rightarrow> s | _ \<Rightarrow> yl_emit lib node)"

text \<open>An exception ends the loading; what was loaded before stays.\<close>

fun load_nodes ::
  "yaml_lib \<Rightarrow> (string \<times> yaml) list \<Rightarrow> ('v, 'w) Config \<Rightarrow> 'w \<Rightarrow> cast_error option \<times> ('v, 'w) Config \<times> 'w" where
  "load_nodes lib [] c w = (None, c, w)"
| "load_nodes lib ((key, node) # rest) c w =
     (if key = [] then load_nodes lib rest c w
      else (case Config_LookupBase c (ToLower key) of
        None \<Rightarrow> load_nodes lib rest c w
      | Some p \<Rightarrow> (case cf_vars c p of
          None \<Rightarrow> load_nodes lib rest c w
        | Some v \<Rightarrow> (case ConfigVar_fromString v (node_text lib node) w of
            Inl e \<Rightarrow> (Some e, c, w)
          | Inr (ok, v', w') \<Rightarrow> load_nodes lib rest (c\<lparr>cf_vars := (cf_vars c)(p \<mapsto> v')\<rparr>) w'))))"

definition Config_LoadFromYaml ::
  "yaml_lib \<Rightarrow> yaml \<Rightarrow> ('v, 'w) Config \<Rightarrow> 'w \<Rightarrow> cast_error option \<times> ('v, 'w) Config \<times> 'w" where
  "Config_LoadFromYaml lib root c w = load_nodes lib (ListAllMember [] root) c w"

text \<open>\<open>Visit\<close> calls \<open>cb\<close> on every registered variable, in the order \<open>names\<close> the container yields.\<close>

definition Config_Visit :: "string list \<Rightarrow> (('v, 'w) ConfigVar \<Rightarrow> 'w \<Rightarrow> 'w) \<Rightarrow> ('v, 'w) Config \<Rightarrow> 'w \<Rightarrow> 'w" where
  "Config_Visit names cb c w =
     fold (\<lambda>n w. case cf_datas c n of None \<Rightarrow> w
        | Some p \<Rightarrow> (case cf_vars c p of None \<Rightarrow> w | Some v \<Rightarrow> cb v w)) names w"

end
