(* ===== verification/ConfigProps.thy ===== *)
theory ConfigProps
  imports Config
begin

text \<open>
  What the registry promises: every name has a variable of its own, and loading a document gives
  every registered variable the last value the document has for its dotted name.
\<close>

section \<open>The registry\<close>

text \<open>Registered names point to variables of the store, different names to different ones.\<close>

definition registry_ok :: "('v, 'w) Config \<Rightarrow> bool" where
  "registry_ok c \<longleftrightarrow> inj_on (cf_datas c) (dom (cf_datas c))
     \<and> (\<forall>n p. cf_datas c n = Some p \<longrightarrow> p < cf_next c \<and> cf_vars c p \<noteq> None \<and> set n \<subseteq> set name_chars)"

definition empty_config :: "('v, 'w) Config" where
  "empty_config = \<lparr>cf_vars = Map.empty, cf_next = 0, cf_datas = Map.empty\<rparr>"

lemma registry_ok_empty: "registry_ok empty_config"
  by (simp add: registry_ok_def empty_config_def)

lemma registry_ok_update:
  "registry_ok c \<Longrightarrow> registry_ok (c\<lparr>cf_vars := (cf_vars c)(p \<mapsto> v)\<rparr>)"
  by (auto simp: registry_ok_def)

lemma Config_Lookup_cases:
  assumes "Config_Lookup c T from to name d desc = Some (p, c')"
  obtains (found) v where "cf_datas c name = Some p" "cf_vars c p = Some v" "cv_typeName v = T" "c' = c"
  | (created) "p = cf_next c" "find_first_not_of name name_chars = None"
      "c' = c\<lparr>cf_vars := (cf_vars c)(p \<mapsto> new_ConfigVar T from to name d desc),
             cf_next := p + 1, cf_datas := (cf_datas c)(name \<mapsto> p)\<rparr>"
proof (cases "\<exists>q v. cf_datas c name = Some q \<and> cf_vars c q = Some v \<and> cv_typeName v = T")
  case True
  then obtain q v where "cf_datas c name = Some q" "cf_vars c q = Some v" "cv_typeName v = T" by blast
  moreover from this assms have "p = q" "c' = c" by (simp_all add: Config_Lookup_def)
  ultimately show ?thesis using found [of v] by simp
next
  case False
  then have new: "(if find_first_not_of name name_chars \<noteq> None then None
       else Some (cf_next c, c\<lparr>cf_vars := (cf_vars c)(cf_next c \<mapsto> new_ConfigVar T from to name d desc),
              cf_next := cf_next c + 1, cf_datas := (cf_datas c)(name \<mapsto> cf_next c)\<rparr>)) = Some (p, c')"
    using assms unfolding Config_Lookup_def Let_def
    by (cases "cf_datas c name"; cases "cf_vars c (the (cf_datas c name))") auto
  show ?thesis
  proof (cases "find_first_not_of name name_chars")
    case None
    then show ?thesis using new by (intro created) auto
  qed (use new in simp)
qed

lemma find_first_not_of_None: "find_first_not_of s d = None \<longleftrightarrow> set s \<subseteq> set d"
proof -
  have "length (takeWhile P s) < length s \<longleftrightarrow> (\<exists>x \<in> set s. \<not> P x)" for P
    by (induction s) auto
  then show ?thesis by (auto simp: find_first_not_of_def Let_def)
qed

lemma registry_ok_Lookup:
  assumes "registry_ok c" and "Config_Lookup c T from to name d desc = Some (p, c')"
  shows "registry_ok c'"
  using assms(2)
proof (cases rule: Config_Lookup_cases)
  case created
  have fresh: "cf_datas c n \<noteq> Some p" for n
    using assms(1) created(1) unfolding registry_ok_def by blast
  then show ?thesis using assms(1) created
    by (auto simp: registry_ok_def inj_on_def dom_def less_Suc_eq find_first_not_of_None
          split: if_splits)
qed (use assms(1) in simp)

section \<open>Names\<close>

lemma ToLower_name: "set s \<subseteq> set name_chars \<Longrightarrow> ToLower s = s"
proof -
  assume s: "set s \<subseteq> set name_chars"
  have "list_all (\<lambda>c. c_tolower c = c) name_chars" by code_simp
  then show ?thesis using s by (auto simp: ToLower_def list_all_iff intro: map_idI)
qed

text \<open>
  What a document says: every node with the keys that lead to it, outer maps first.  A name is the
  keys joined with dots.
\<close>

function members :: "yaml \<Rightarrow> (string list \<times> yaml) list" where
  "members node = ([], node) #
     (case node of
        YMap es \<Rightarrow> concat (map (\<lambda>(k, n). map (\<lambda>(ks, m). (yaml_Scalar k # ks, m)) (members n)) es)
      | _ \<Rightarrow> [])"
  by pat_completeness auto
termination
proof (relation "measure size")
  fix node :: yaml and es and e :: "yaml \<times> yaml" and k n :: yaml
  assume "node = YMap es" "e \<in> set es" "(k, n) = e"
  then show "(n, node) \<in> measure size" using size_yaml_entry [of k n es] by simp
qed simp

declare members.simps [simp del]

definition name_join :: "string \<Rightarrow> string \<Rightarrow> string" where
  "name_join prefix k = (if prefix = [] then k else prefix @ ''.'' @ k)"

definition dotted :: "string list \<Rightarrow> string" where
  "dotted ks = foldl name_join [] ks"

lemma name_join_bad: "\<not> set prefix \<subseteq> A \<Longrightarrow> \<not> set (foldl name_join prefix ks) \<subseteq> A"
  by (induction ks arbitrary: prefix) (auto simp: name_join_def)

lemma ListAllMember_prefix:
  "ListAllMember prefix node =
     filter (\<lambda>(k, n). set k \<subseteq> set name_chars)
       (map (\<lambda>(ks, n). (foldl name_join prefix ks, n)) (members node))"
proof (induction prefix node rule: ListAllMember.induct)
  case (1 prefix node)
  show ?case
  proof (cases "set prefix \<subseteq> set name_chars")
    case False
    then have "filter (\<lambda>(k, n). set k \<subseteq> set name_chars)
        (map (\<lambda>(ks, n). (foldl name_join prefix ks, n)) ms) = []" for ms :: "(string list \<times> yaml) list"
      using name_join_bad by (auto simp: filter_empty_conv)
    then show ?thesis using False by (subst ListAllMember.simps) (simp add: find_first_not_of_None)
  next
    case True
    show ?thesis
    proof (cases node)
      case (YMap es)
      have "ListAllMember (name_join prefix (yaml_Scalar k)) n =
          filter (\<lambda>(k, n). set k \<subseteq> set name_chars)
            (map (\<lambda>(ks, m). (foldl name_join prefix ks, m)) (map (\<lambda>(ks, m). (yaml_Scalar k # ks, m)) (members n)))"
        if "(k, n) \<in> set es" for k n
        using 1 [OF _ YMap that refl] True
        by (simp add: find_first_not_of_None name_join_def [symmetric] comp_def case_prod_unfold)
      then have "concat (map (\<lambda>(k, n). ListAllMember (name_join prefix (yaml_Scalar k)) n) es) =
          filter (\<lambda>(k, n). set k \<subseteq> set name_chars) (map (\<lambda>(ks, m). (foldl name_join prefix ks, m))
            (concat (map (\<lambda>(k, n). map (\<lambda>(ks, m). (yaml_Scalar k # ks, m)) (members n)) es)))"
        by (induction es) auto
      then show ?thesis using True YMap
        by (subst ListAllMember.simps, subst members.simps)
          (simp add: find_first_not_of_None name_join_def)
    qed (use True in \<open>(subst ListAllMember.simps, subst members.simps, simp add: find_first_not_of_None)+\<close>)
  qed
qed

lemma ListAllMember_members:
  "ListAllMember [] node =
     filter (\<lambda>(k, n). set k \<subseteq> set name_chars) (map (\<lambda>(ks, n). (dotted ks, n)) (members node))"
  unfolding dotted_def by (rule ListAllMember_prefix)

section \<open>Loading\<close>

text \<open>The value a variable ends with, given the texts the document has for it, in order.\<close>

definition loaded :: "'v from_string \<Rightarrow> string list \<Rightarrow> 'v \<Rightarrow> 'v" where
  "loaded from texts x = fold (\<lambda>t x. case from t of Inr y \<Rightarrow> y | Inl e \<Rightarrow> x) texts x"

lemma fromString_val:
  "ConfigVar_fromString v s w = Inr (ok, v', w') \<Longrightarrow>
   cv_val v' = loaded (cv_from v) [s] (cv_val v) \<and> cv_from v' = cv_from v"
  by (auto simp: ConfigVar_fromString_def ConfigVar_setValue_def loaded_def split: sum.splits cast_error.splits if_splits)

lemma load_nodes_value:
  "registry_ok c \<Longrightarrow> load_nodes lib ns c w = (None, c', w') \<Longrightarrow>
   (\<And>k n. (k, n) \<in> set ns \<Longrightarrow> set k \<subseteq> set name_chars) \<Longrightarrow>
   cf_datas c name = Some p \<Longrightarrow> name \<noteq> [] \<Longrightarrow> cf_vars c p = Some v \<Longrightarrow>
   cf_datas c' = cf_datas c \<and> (\<exists>v'. cf_vars c' p = Some v' \<and> cv_from v' = cv_from v
     \<and> cv_val v' = loaded (cv_from v) (map (\<lambda>(k, n). node_text lib n) (filter (\<lambda>(k, n). k = name) ns)) (cv_val v))"
proof (induction ns arbitrary: c w v)
  case Nil
  then show ?case by (auto simp: loaded_def)
next
  case (Cons e rest)
  obtain key node where e: "e = (key, node)" by (cases e)
  have key: "ToLower key = key"
    using Cons.prems(3) [of key node] e by (intro ToLower_name) auto
  have names: "\<And>k n. (k, n) \<in> set rest \<Longrightarrow> set k \<subseteq> set name_chars"
    using Cons.prems(3) by (meson list.set_intros(2))
  show ?case
  proof (cases "key = [] \<or> cf_datas c key = None")
    case True
    then have "load_nodes lib rest c w = (None, c', w')"
      using Cons.prems(2) key e by (cases "key = []") (simp_all add: Config_LookupBase_def)
    moreover have "key \<noteq> name" using True Cons.prems(4,5) by auto
    ultimately show ?thesis using Cons.IH [OF Cons.prems(1) _ names Cons.prems(4-6)] e by simp
  next
    case False
    then obtain q u where q: "cf_datas c key = Some q" "cf_vars c q = Some u" "key \<noteq> []"
      using Cons.prems(1) unfolding registry_ok_def by blast
    then obtain ok u' w1 where f: "ConfigVar_fromString u (node_text lib node) w = Inr (ok, u', w1)"
      and r: "load_nodes lib rest (c\<lparr>cf_vars := (cf_vars c)(q \<mapsto> u')\<rparr>) w1 = (None, c', w')"
      using Cons.prems(2) key e by (auto simp: Config_LookupBase_def split: sum.splits)
    let ?c1 = "c\<lparr>cf_vars := (cf_vars c)(q \<mapsto> u')\<rparr>"
    have p: "cf_datas ?c1 name = Some p" using Cons.prems(4) by simp
    note IH = Cons.IH [OF registry_ok_update [OF Cons.prems(1)] r names p Cons.prems(5)]
    show ?thesis
    proof (cases "key = name")
      case True
      then have "q = p" "u = v" using q Cons.prems(4,6) by auto
      then show ?thesis using IH [where v = u'] fromString_val [OF f] True e
        by (auto simp: loaded_def)
    next
      case False
      then have "q \<noteq> p" using q(1) Cons.prems(1,4) unfolding registry_ok_def inj_on_def dom_def by force
      then show ?thesis using IH [where v = v] Cons.prems(6) False e by simp
    qed
  qed
qed

text \<open>Variables that no name leads to are never loaded.\<close>

lemma load_nodes_unregistered:
  "p \<notin> ran (cf_datas c) \<Longrightarrow> cf_vars (fst (snd (load_nodes lib ns c w))) p = cf_vars c p"
  by (induction lib ns c w rule: load_nodes.induct)
    (auto simp: Config_LookupBase_def ran_def split: option.splits sum.splits)

section \<open>Properties\<close>

text \<open>A program with one variable, and a document that names it several times.\<close>

definition demo_from :: "string from_string" where
  "demo_from s = (if s = ''bad'' then Inl BadLexicalCast else Inr s)"

definition demo_config :: "(string, unit) Config" where
  "demo_config =
     snd (the (Config_Lookup empty_config ''string'' demo_from Inr ''a.b'' ''none'' []))"

definition demo_yaml_lib :: yaml_lib where
  "demo_yaml_lib = \<lparr>yl_load = (\<lambda>s. Some (YScalar s)), yl_emit = yaml_Scalar, yl_index = (\<lambda>n i. YNull),
     yl_key = (\<lambda>n k. None), yl_as_string = (\<lambda>n. None)\<rparr>"

definition demo_document :: yaml where
  "demo_document = YMap [(YScalar ''a'', YMap [(YScalar ''b'', YScalar ''one'')]),
     (YScalar ''a.b'', YScalar ''two''), (YScalar ''a.b'', YScalar ''bad''), (YScalar ''c'', YNull)]"

lemma demo_config_var: "cf_datas demo_config ''a.b'' = Some 0"
  "cf_vars demo_config 0 = Some (new_ConfigVar ''string'' demo_from Inr ''a.b'' ''none'' [])"
  "registry_ok demo_config"
proof -
  have "find_first_not_of ''a.b'' name_chars = None" by code_simp
  then have d: "Config_Lookup empty_config ''string'' demo_from Inr ''a.b'' ''none'' [] = Some (0, demo_config)"
    by (simp add: demo_config_def Config_Lookup_def empty_config_def)
  then show "registry_ok demo_config" using registry_ok_Lookup [OF registry_ok_empty d] by simp
  show "cf_datas demo_config ''a.b'' = Some 0"
    "cf_vars demo_config 0 = Some (new_ConfigVar ''string'' demo_from Inr ''a.b'' ''none'' [])"
    using \<open>find_first_not_of ''a.b'' name_chars = None\<close>
    by (simp_all add: demo_config_def Config_Lookup_def empty_config_def)
qed

lemma demo_load:
  "fst (Config_LoadFromYaml demo_yaml_lib demo_document demo_config ()) = None"
  by code_simp

text \<open>
C12: loading a document that raises no exception gives every registered variable the last
parseable text that the document has for its name, where a name is the keys on the way to a node
joined with dots; the registrations stay.
\<close>
theorem config_load_exact:
  assumes "registry_ok c" and "Config_LoadFromYaml lib root c w = (None, c', w')"
    and "cf_datas c name = Some p" and "name \<noteq> []" and "cf_vars c p = Some v"
  shows "map_option cv_val (cf_vars c' p) =
       Some (loaded (cv_from v) (map (\<lambda>(ks, n). node_text lib n) (filter (\<lambda>(ks, n). dotted ks = name) (members root)))
         (cv_val v))
     \<and> cf_datas c' = cf_datas c"
proof -
  let ?ns = "ListAllMember [] root"
  have l: "load_nodes lib ?ns c w = (None, c', w')" using assms(2) by (simp add: Config_LoadFromYaml_def)
  have n: "set name \<subseteq> set name_chars" using assms(1,3) unfolding registry_ok_def by blast
  have k: "\<And>k m. (k, m) \<in> set ?ns \<Longrightarrow> set k \<subseteq> set name_chars" by (auto simp: ListAllMember_members)
  have "map (\<lambda>(k, m). node_text lib m) (filter (\<lambda>(k, m). k = name) ?ns) =
      map (\<lambda>(ks, m). node_text lib m) (filter (\<lambda>(ks, m). dotted ks = name) (members root))"
    unfolding ListAllMember_members using n by (simp add: filter_filter filter_map comp_def case_prod_unfold)
      (rule arg_cong [where f = "map _"], rule filter_cong, auto)
  then show ?thesis using load_nodes_value [OF assms(1) l _ assms(3,4,5)] k by auto
qed

theorem config_load_exact_witness:
  "map_option cv_val (cf_vars (fst (snd (Config_LoadFromYaml demo_yaml_lib demo_document demo_config ()))) 0) = Some ''two''"
proof -
  let ?r = "Config_LoadFromYaml demo_yaml_lib demo_document demo_config ()"
  have r: "?r = (None, fst (snd ?r), snd (snd ?r))" using demo_load by (cases ?r) simp
  have t: "map (\<lambda>(ks, n). node_text demo_yaml_lib n) (filter (\<lambda>(ks, n). dotted ks = ''a.b'') (members demo_document))
      = [''one'', ''two'', ''bad'']" by code_simp
  show ?thesis using config_load_exact [OF demo_config_var(3) r demo_config_var(1) _ demo_config_var(2)] t
    by (simp add: loaded_def demo_from_def new_ConfigVar_def)
qed

text \<open>
\<open>Lookup\<close> of a registered name at another type does not return null as documented but replaces
the registration; the variable that earlier callers hold is then out of reach of every later load.
\<close>
theorem config_type_clash:
  assumes "registry_ok c" and "cf_datas c name = Some p" and "cf_vars c p = Some v" and "cv_typeName v \<noteq> T"
  shows "\<exists>q c'. Config_Lookup c T from to name d desc = Some (q, c') \<and> q \<noteq> p
     \<and> registry_ok c' \<and> Config_LookupBase c' name = Some q
     \<and> cf_vars (fst (snd (Config_LoadFromYaml lib root c' w))) p = Some v"
proof -
  let ?q = "cf_next c"
  let ?c = "c\<lparr>cf_vars := (cf_vars c)(?q \<mapsto> new_ConfigVar T from to name d desc), cf_next := ?q + 1,
              cf_datas := (cf_datas c)(name \<mapsto> ?q)\<rparr>"
  have "p < ?q" "find_first_not_of name name_chars = None"
    using assms(1,2) by (auto simp: registry_ok_def find_first_not_of_None)
  then have l: "Config_Lookup c T from to name d desc = Some (?q, ?c)" and "?q \<noteq> p"
    using assms(2-4) by (simp_all add: Config_Lookup_def Let_def)
  have "m = name" if "cf_datas c m = Some p" for m
    using assms(1,2) that unfolding registry_ok_def inj_on_def dom_def by fastforce
  then have "p \<notin> ran (cf_datas ?c)" using \<open>?q \<noteq> p\<close> by (auto simp: ran_def)
  then have "cf_vars (fst (snd (Config_LoadFromYaml lib root ?c w))) p = Some v"
    using assms(3) \<open>?q \<noteq> p\<close> by (simp add: Config_LoadFromYaml_def load_nodes_unregistered)
  then show ?thesis
    using l \<open>?q \<noteq> p\<close> registry_ok_Lookup [OF assms(1) l] by (auto simp: Config_LookupBase_def)
qed

theorem config_type_clash_witness:
  "\<exists>q c'. Config_Lookup demo_config ''int'' Inr Inr ''a.b'' ''0'' [] = Some (q, c') \<and> q \<noteq> 0
     \<and> registry_ok c' \<and> Config_LookupBase c' ''a.b'' = Some q
     \<and> cf_vars (fst (snd (Config_LoadFromYaml demo_yaml_lib demo_document c' ()))) 0
       = Some (new_ConfigVar ''string'' demo_from Inr ''a.b'' ''none'' [])"
  by (rule config_type_clash [OF demo_config_var(3,1,2)]) (simp add: new_ConfigVar_def)

end
