(* ===== verification/LogFormat.thy ===== *)
theory LogFormat
  imports Util
begin

text \<open>
  Log levels, events and formatters (\<open>src/megalo/log.h\<close>, \<open>log.cc\<close>): the names of the levels, the
  items of a pattern and the parser \<open>LogFormatter::init\<close> that turns a pattern into items.

  An enumeration value is an integer, because uninitialised levels occur in the sources.
  \<open>strftime\<close> after \<open>localtime_r\<close> is a parameter.  Diagnostics on \<open>std::cout\<close> are left out.
\<close>

section \<open>Levels\<close>

type_synonym LogLevel = int

definition UNKNOWM :: LogLevel where "UNKNOWM = 0"
definition DEBUG :: LogLevel where "DEBUG = 1"
definition INFO :: LogLevel where "INFO = 2"
definition WARN :: LogLevel where "WARN = 3"
definition ERROR :: LogLevel where "ERROR = 4"
definition FATAL :: LogLevel where "FATAL = 5"

lemmas level_defs = UNKNOWM_def DEBUG_def INFO_def WARN_def ERROR_def FATAL_def

definition LogLevel_ToString :: "LogLevel \<Rightarrow> string" where
  "LogLevel_ToString level =
     (if level = DEBUG then ''DEBUG'' else if level = INFO then ''INFO'' else if level = WARN then ''WARN''
      else if level = ERROR then ''ERROR'' else if level = FATAL then ''FATAL'' else ''UNKNOWM'')"

definition LogLevel_FromString :: "string \<Rightarrow> LogLevel" where
  "LogLevel_FromString str =
     (if str = ''debug'' then DEBUG else if str = ''info'' then INFO else if str = ''warn'' then WARN
      else if str = ''error'' then ERROR else if str = ''fatal'' then FATAL
      else if str = ''DEBUG'' then DEBUG else if str = ''INFO'' then INFO else if str = ''WARN'' then WARN
      else if str = ''ERROR'' then ERROR else if str = ''FATAL'' then FATAL else UNKNOWM)"

section \<open>Events\<close>

text \<open>The logger of an event is its address.\<close>

record LogEvent =
  ev_file :: string
  ev_line :: i32
  ev_elapse :: u32
  ev_threadId :: u32
  ev_fiberId :: u32
  ev_time :: u64
  ev_threadName :: string
  ev_content :: string
  ev_logger :: nat
  ev_level :: LogLevel

definition new_LogEvent ::
  "nat \<Rightarrow> LogLevel \<Rightarrow> string \<Rightarrow> i32 \<Rightarrow> u32 \<Rightarrow> u32 \<Rightarrow> u32 \<Rightarrow> u64 \<Rightarrow> string \<Rightarrow> LogEvent" where
  "new_LogEvent logger level file line elapse thread_id fiber_id time thread_name =
     \<lparr> ev_file = file, ev_line = line, ev_elapse = elapse, ev_threadId = thread_id, ev_fiberId = fiber_id,
       ev_time = time, ev_threadName = thread_name, ev_content = [], ev_logger = logger, ev_level = level \<rparr>"

text \<open>\<open>printed\<close> is what \<open>vasprintf\<close> produced, \<open>None\<close> for its failure.\<close>

definition LogEvent_format :: "LogEvent \<Rightarrow> string option \<Rightarrow> LogEvent" where
  "LogEvent_format e printed =
     (case printed of None \<Rightarrow> e | Some s \<Rightarrow> e\<lparr>ev_content := ev_content e @ s\<rparr>)"

section \<open>Format items\<close>

datatype FormatItem =
    MessageFormatItem | LevelFormatItem | ElapseFormatItem | NameFormatItem | ThreadIdFormatItem
  | FiberIdFormatItem | ThreadNameFormatItem | DateTimeFormatItem string | FileNameFormatItem
  | LineFormatItem | NewLineFormatItem | StringFormatItem string | TabFormatItem

definition new_DateTimeFormatItem :: "string \<Rightarrow> FormatItem" where
  "new_DateTimeFormatItem format = DateTimeFormatItem (if format = [] then ''%Y-%m-%d %H:%M:%S'' else format)"

definition u32_text :: "u32 \<Rightarrow> string" where
  "u32_text w = nat_text 10 (unat w)"

definition i32_text :: "i32 \<Rightarrow> string" where
  "i32_text w = (if sint w < 0 then CHR ''-'' # nat_text 10 (nat (- sint w)) else nat_text 10 (nat (sint w)))"

text \<open>What an item prints; \<open>name\<close> gives the name of a logger.\<close>

fun format_item :: "(string \<Rightarrow> u64 \<Rightarrow> string) \<Rightarrow> (nat \<Rightarrow> string) \<Rightarrow> LogLevel \<Rightarrow> LogEvent \<Rightarrow> FormatItem \<Rightarrow> string" where
  "format_item strftime name level event MessageFormatItem = ev_content event"
| "format_item strftime name level event LevelFormatItem = LogLevel_ToString level"
| "format_item strftime name level event ElapseFormatItem = u32_text (ev_elapse event)"
| "format_item strftime name level event NameFormatItem = name (ev_logger event)"
| "format_item strftime name level event ThreadIdFormatItem = u32_text (ev_threadId event)"
| "format_item strftime name level event FiberIdFormatItem = u32_text (ev_fiberId event)"
| "format_item strftime name level event ThreadNameFormatItem = ev_threadName event"
| "format_item strftime name level event (DateTimeFormatItem fmt) = strftime fmt (ev_time event)"
| "format_item strftime name level event FileNameFormatItem = ev_file event"
| "format_item strftime name level event LineFormatItem = i32_text (ev_line event)"
| "format_item strftime name level event NewLineFormatItem = [CHR 0x0A]"
| "format_item strftime name level event (StringFormatItem s) = s"
| "format_item strftime name level event TabFormatItem = [CHR 0x09]"

section \<open>Patterns\<close>

definition c_isalpha :: "char \<Rightarrow> bool" where
  "c_isalpha c = (let n = of_char c :: nat in 65 \<le> n \<and> n \<le> 90 \<or> 97 \<le> n \<and> n \<le> 122)"

text \<open>
  The inner loop of \<open>init\<close>, from position \<open>n\<close> of a specification that begins at \<open>i\<close>.  The result
  is where it stops, the status, and the texts \<open>str\<close> and \<open>fmt\<close>.
\<close>

function pattern_scan ::
  "string \<Rightarrow> nat \<Rightarrow> nat \<Rightarrow> bool \<Rightarrow> nat \<Rightarrow> string \<Rightarrow> string \<Rightarrow> nat \<times> bool \<times> string \<times> string" where
  "pattern_scan pat i n fmt_status fmt_begin str fmt =
     (if n < length pat then
        (if \<not> fmt_status \<and> \<not> c_isalpha (pat ! n) \<and> pat ! n \<noteq> CHR ''{'' \<and> pat ! n \<noteq> CHR ''}''
         then (n, fmt_status, str_substr pat (i + 1) (n - i - 1), fmt)
         else if \<not> fmt_status \<and> pat ! n = CHR ''{''
         then pattern_scan pat i (n + 1) True n (str_substr pat (i + 1) (n - i - 1)) fmt
         else if fmt_status \<and> pat ! n = CHR ''}''
         then (n + 1, False, str, str_substr pat (fmt_begin + 1) (n - fmt_begin - 1))
         else pattern_scan pat i (n + 1) fmt_status fmt_begin
                (if n + 1 = length pat \<and> str = [] then drop (i + 1) pat else str) fmt)
      else (n, fmt_status, str, fmt))"
  by pat_completeness auto
termination
  by (relation "measure (\<lambda>(pat, i, n, _). length pat - n)") auto

declare pattern_scan.simps [simp del]

lemma pattern_scan_progress: "n \<le> fst (pattern_scan pat i n st fb str fmt)"
  by (induction pat i n st fb str fmt rule: pattern_scan.induct) (subst pattern_scan.simps, force)

text \<open>The outer loop; an entry of \<open>vec\<close> is a literal text or a specification with its format.\<close>

datatype pattern_entry = Literal string | Spec string string

definition flush_text :: "string \<Rightarrow> pattern_entry list \<Rightarrow> pattern_entry list" where
  "flush_text nstr vec = (if nstr = [] then vec else vec @ [Literal nstr])"

function pattern_loop ::
  "string \<Rightarrow> nat \<Rightarrow> string \<Rightarrow> pattern_entry list \<Rightarrow> bool \<Rightarrow> pattern_entry list \<times> bool" where
  "pattern_loop pat i nstr vec err =
     (if i < length pat then
        (if pat ! i \<noteq> CHR ''%'' then pattern_loop pat (i + 1) (nstr @ [pat ! i]) vec err
         else if i + 1 < length pat \<and> pat ! (i + 1) = CHR ''%''
         then pattern_loop pat (i + 1) (nstr @ ''%'') vec err
         else (case pattern_scan pat i (i + 1) False 0 [] [] of (n, fmt_status, str, fmt) \<Rightarrow>
           if \<not> fmt_status then pattern_loop pat n [] (flush_text nstr vec @ [Spec str fmt]) err
           else pattern_loop pat (i + 1) nstr (vec @ [Literal ''<<pattern_error>>'']) True))
      else (flush_text nstr vec, err))"
  by pat_completeness auto
termination
proof (relation "measure (\<lambda>(pat, i, _). length pat - i)", goal_cases)
  case (4 pat i)
  then show ?case using pattern_scan_progress [of "i + 1" pat i False 0 "[]" "[]"] by simp (metis fst_conv less_eq_Suc_le diff_less_mono2)
qed auto

declare pattern_loop.simps [simp del]

definition s_format_items :: "(string \<times> (string \<Rightarrow> FormatItem)) list" where
  "s_format_items =
     [(''m'', \<lambda>fmt. MessageFormatItem), (''p'', \<lambda>fmt. LevelFormatItem), (''r'', \<lambda>fmt. ElapseFormatItem),
      (''c'', \<lambda>fmt. NameFormatItem), (''t'', \<lambda>fmt. ThreadIdFormatItem), (''n'', \<lambda>fmt. NewLineFormatItem),
      (''d'', new_DateTimeFormatItem), (''f'', \<lambda>fmt. FileNameFormatItem), (''l'', \<lambda>fmt. LineFormatItem),
      (''T'', \<lambda>fmt. TabFormatItem), (''F'', \<lambda>fmt. FiberIdFormatItem), (''N'', \<lambda>fmt. ThreadNameFormatItem)]"

text \<open>The item of an entry, and whether the entry is in error.\<close>

fun entry_item :: "pattern_entry \<Rightarrow> FormatItem \<times> bool" where
  "entry_item (Literal s) = (StringFormatItem s, False)"
| "entry_item (Spec str fmt) =
     (case map_of s_format_items str of
        None \<Rightarrow> (StringFormatItem (''<<error_format %'' @ str @ ''>>''), True)
      | Some f \<Rightarrow> (f fmt, False))"

record LogFormatter =
  lf_pattern :: string
  lf_items :: "FormatItem list"
  lf_error :: bool

definition LogFormatter_init :: "string \<Rightarrow> FormatItem list \<times> bool" where
  "LogFormatter_init pat =
     (case pattern_loop pat 0 [] [] False of (vec, err) \<Rightarrow>
        (map (fst \<circ> entry_item) vec, err \<or> list_ex (snd \<circ> entry_item) vec))"

definition new_LogFormatter :: "string \<Rightarrow> LogFormatter" where
  "new_LogFormatter pat =
     \<lparr> lf_pattern = pat, lf_items = fst (LogFormatter_init pat), lf_error = snd (LogFormatter_init pat) \<rparr>"

definition LogFormatter_format ::
  "(string \<Rightarrow> u64 \<Rightarrow> string) \<Rightarrow> (nat \<Rightarrow> string) \<Rightarrow> LogFormatter \<Rightarrow> LogLevel \<Rightarrow> LogEvent \<Rightarrow> string" where
  "LogFormatter_format strftime name f level event =
     concat (map (format_item strftime name level event) (lf_items f))"

end
