(* ===== verification/Log.thy ===== *)
theory Log
  imports LogFormat Config
begin

text \<open>
  Loggers, appenders and the manager of loggers (\<open>src/megalo/log.h\<close>, \<open>log.cc\<close>).

  Loggers and appenders are shared and changed in place: they live in stores and are referred to by
  address.  Formatters never change after their construction and are values, a null pointer is
  \<open>None\<close>.  What is printed is a list of texts with their destination.  Whether a file can be opened
  and written is part of the state.  The spin locks and the diagnostics on \<open>std::cout\<close> are left
  out.
\<close>

section \<open>State\<close>

datatype appender_class = StdoutLogAppender | FileLogAppender

text \<open>\<open>ap_is_open\<close> and \<open>ap_good\<close> are the open flag of the file buffer and the state of the stream.\<close>

record LogAppender =
  ap_class :: appender_class
  ap_level :: LogLevel
  ap_formatter :: "LogFormatter option"
  ap_hasFormatter :: bool
  ap_filename :: string
  ap_is_open :: bool
  ap_good :: bool
  ap_lastTime :: u64

record Logger =
  lg_name :: string
  lg_level :: LogLevel
  lg_appenders :: "nat list"
  lg_formatter :: "LogFormatter option"
  lg_root :: "nat option"

datatype sink = Console | File string

record log_state =
  ls_appenders :: "nat \<rightharpoonup> LogAppender"
  ls_loggers :: "nat \<rightharpoonup> Logger"
  ls_next :: nat
  ls_map :: "(string \<times> nat) list"
  ls_root :: nat
  ls_out :: "(sink \<times> string) list"
  ls_can_open :: "string \<Rightarrow> bool"
  ls_can_write :: "string \<Rightarrow> bool"

datatype log_fault = NullFormatter | NullAppender | BadPointer

definition set_appender :: "log_state \<Rightarrow> nat \<Rightarrow> LogAppender \<Rightarrow> log_state" where
  "set_appender st a ap = st\<lparr>ls_appenders := (ls_appenders st)(a \<mapsto> ap)\<rparr>"

definition set_logger :: "log_state \<Rightarrow> nat \<Rightarrow> Logger \<Rightarrow> log_state" where
  "set_logger st l lg = st\<lparr>ls_loggers := (ls_loggers st)(l \<mapsto> lg)\<rparr>"

definition logger_name :: "log_state \<Rightarrow> nat \<Rightarrow> string" where
  "logger_name st l = (case ls_loggers st l of Some lg \<Rightarrow> lg_name lg | None \<Rightarrow> [])"

section \<open>Appenders\<close>

definition new_LogAppender :: "appender_class \<Rightarrow> string \<Rightarrow> LogAppender" where
  "new_LogAppender c filename =
     \<lparr> ap_class = c, ap_level = DEBUG, ap_formatter = None, ap_hasFormatter = False, ap_filename = filename,
       ap_is_open = False, ap_good = True, ap_lastTime = 0 \<rparr>"

text \<open>
  \<open>close\<close> is called only on a stream in good state; \<open>open\<close> fails on a buffer that is open, and its
  success clears the state.
\<close>

definition FileLogAppender_reopen :: "(string \<Rightarrow> bool) \<Rightarrow> LogAppender \<Rightarrow> bool \<times> LogAppender" where
  "FileLogAppender_reopen can_open ap =
     (let ap1 = (if ap_good ap then ap\<lparr>ap_is_open := False, ap_good := ap_is_open ap\<rparr> else ap);
          ap2 = (if \<not> ap_is_open ap1 \<and> can_open (ap_filename ap1)
                 then ap1\<lparr>ap_is_open := True, ap_good := True\<rparr> else ap1\<lparr>ap_good := False\<rparr>)
      in (ap_good ap2, ap2))"

definition new_FileLogAppender :: "(string \<Rightarrow> bool) \<Rightarrow> string \<Rightarrow> LogAppender" where
  "new_FileLogAppender can_open filename =
     snd (FileLogAppender_reopen can_open (new_LogAppender FileLogAppender filename))"

definition LogAppender_setFormatter :: "LogAppender \<Rightarrow> LogFormatter option \<Rightarrow> LogAppender" where
  "LogAppender_setFormatter ap val = ap\<lparr>ap_formatter := val\<rparr>"

definition LogAppender_setLevel :: "LogAppender \<Rightarrow> LogLevel \<Rightarrow> LogAppender" where
  "LogAppender_setLevel ap level = ap\<lparr>ap_level := level\<rparr>"

definition StdoutLogAppender_log ::
  "(string \<Rightarrow> u64 \<Rightarrow> string) \<Rightarrow> log_state \<Rightarrow> LogAppender \<Rightarrow> LogLevel \<Rightarrow> LogEvent \<Rightarrow> log_fault + log_state" where
  "StdoutLogAppender_log strftime st ap level event =
     (if ap_level ap \<le> level then
        (case ap_formatter ap of
           None \<Rightarrow> Inl NullFormatter
         | Some f \<Rightarrow> Inr (st\<lparr>ls_out := ls_out st @
             [(Console, LogFormatter_format strftime (logger_name st) f level event)]\<rparr>))
      else Inr st)"

text \<open>A write to a file that cannot be written, or that is not open, leaves the stream in bad state.\<close>

definition FileLogAppender_log ::
  "(string \<Rightarrow> u64 \<Rightarrow> string) \<Rightarrow> log_state \<Rightarrow> nat \<Rightarrow> LogAppender \<Rightarrow> LogLevel \<Rightarrow> LogEvent \<Rightarrow> log_fault + log_state" where
  "FileLogAppender_log strftime st a ap level event =
     (if ap_level ap \<le> level then
        (let now = ev_time event;
             ap1 = (if ap_lastTime ap + 3 \<le> now
                    then (snd (FileLogAppender_reopen (ls_can_open st) ap))\<lparr>ap_lastTime := now\<rparr> else ap)
         in case ap_formatter ap1 of
              None \<Rightarrow> Inl NullFormatter
            | Some f \<Rightarrow>
                if ap_good ap1 \<and> ap_is_open ap1 \<and> ls_can_write st (ap_filename ap1) then
                  Inr ((set_appender st a ap1)\<lparr>ls_out := ls_out st @
                    [(File (ap_filename ap1), LogFormatter_format strftime (logger_name st) f level event)]\<rparr>)
                else Inr (set_appender st a (ap1\<lparr>ap_good := False\<rparr>)))
      else Inr st)"

definition LogAppender_log ::
  "(string \<Rightarrow> u64 \<Rightarrow> string) \<Rightarrow> LogLevel \<Rightarrow> LogEvent \<Rightarrow> nat \<Rightarrow> log_state \<Rightarrow> log_fault + log_state" where
  "LogAppender_log strftime level event a st =
     (case ls_appenders st a of
        None \<Rightarrow> Inl BadPointer
      | Some ap \<Rightarrow> (case ap_class ap of
          StdoutLogAppender \<Rightarrow> StdoutLogAppender_log strftime st ap level event
        | FileLogAppender \<Rightarrow> FileLogAppender_log strftime st a ap level event))"

section \<open>Loggers\<close>

definition default_pattern :: string where
  "default_pattern = ''%d{%Y-%m-%d %H:%M:%S}%T%t%T%N%T%F%T[%p]%T[%c]%T%f:%l%T%m%n''"

definition new_Logger :: "string \<Rightarrow> Logger" where
  "new_Logger name =
     \<lparr> lg_name = name, lg_level = DEBUG, lg_appenders = [],
       lg_formatter = Some (new_LogFormatter default_pattern), lg_root = None \<rparr>"

fun log_all ::
  "(string \<Rightarrow> u64 \<Rightarrow> string) \<Rightarrow> LogLevel \<Rightarrow> LogEvent \<Rightarrow> nat list \<Rightarrow> log_state \<Rightarrow> log_fault + log_state" where
  "log_all strftime level event [] st = Inr st"
| "log_all strftime level event (a # as) st =
     result_bind (LogAppender_log strftime level event a st) (log_all strftime level event as)"

text \<open>\<open>None\<close> is a chain of root loggers that does not end.\<close>

partial_function (option) Logger_log ::
  "(string \<Rightarrow> u64 \<Rightarrow> string) \<Rightarrow> log_state \<Rightarrow> nat \<Rightarrow> LogLevel \<Rightarrow> LogEvent \<Rightarrow> (log_fault + log_state) option" where
  "Logger_log strftime st l level event =
     (case ls_loggers st l of
        None \<Rightarrow> Some (Inl BadPointer)
      | Some lg \<Rightarrow>
          if lg_level lg \<le> level then
            (if lg_appenders lg \<noteq> [] then Some (log_all strftime level event (lg_appenders lg) st)
             else (case lg_root lg of
                None \<Rightarrow> Some (Inr st)
              | Some r \<Rightarrow> Logger_log strftime st r level event))
          else Some (Inr st))"

definition Logger_debug ::
  "(string \<Rightarrow> u64 \<Rightarrow> string) \<Rightarrow> log_state \<Rightarrow> nat \<Rightarrow> LogEvent \<Rightarrow> (log_fault + log_state) option" where
  "Logger_debug strftime st l event = Logger_log strftime st l DEBUG event"

definition Logger_info ::
  "(string \<Rightarrow> u64 \<Rightarrow> string) \<Rightarrow> log_state \<Rightarrow> nat \<Rightarrow> LogEvent \<Rightarrow> (log_fault + log_state) option" where
  "Logger_info strftime st l event = Logger_log strftime st l INFO event"

definition Logger_warn ::
  "(string \<Rightarrow> u64 \<Rightarrow> string) \<Rightarrow> log_state \<Rightarrow> nat \<Rightarrow> LogEvent \<Rightarrow> (log_fault + log_state) option" where
  "Logger_warn strftime st l event = Logger_log strftime st l WARN event"

definition Logger_error ::
  "(string \<Rightarrow> u64 \<Rightarrow> string) \<Rightarrow> log_state \<Rightarrow> nat \<Rightarrow> LogEvent \<Rightarrow> (log_fault + log_state) option" where
  "Logger_error strftime st l event = Logger_log strftime st l ERROR event"

definition Logger_fatal ::
  "(string \<Rightarrow> u64 \<Rightarrow> string) \<Rightarrow> log_state \<Rightarrow> nat \<Rightarrow> LogEvent \<Rightarrow> (log_fault + log_state) option" where
  "Logger_fatal strftime st l event = Logger_log strftime st l FATAL event"

definition LogEventWrap_destruct ::
  "(string \<Rightarrow> u64 \<Rightarrow> string) \<Rightarrow> log_state \<Rightarrow> LogEvent \<Rightarrow> (log_fault + log_state) option" where
  "LogEventWrap_destruct strftime st event = Logger_log strftime st (ev_logger event) (ev_level event) event"

text \<open>The macros: \<open>event\<close> has the content that the statement streams into it.\<close>

definition MEGALO_LOG_LEVEL ::
  "(string \<Rightarrow> u64 \<Rightarrow> string) \<Rightarrow> log_state \<Rightarrow> nat \<Rightarrow> LogLevel \<Rightarrow> LogEvent \<Rightarrow> (log_fault + log_state) option" where
  "MEGALO_LOG_LEVEL strftime st l level event =
     (case ls_loggers st l of
        None \<Rightarrow> Some (Inl BadPointer)
      | Some lg \<Rightarrow>
          if lg_level lg \<le> level then LogEventWrap_destruct strftime st (event\<lparr>ev_logger := l, ev_level := level\<rparr>)
          else Some (Inr st))"

definition addLogAppender :: "log_state \<Rightarrow> nat \<Rightarrow> nat \<Rightarrow> log_fault + log_state" where
  "addLogAppender st l a =
     (case (ls_loggers st l, ls_appenders st a) of
        (Some lg, Some ap) \<Rightarrow>
          (let st1 = (if ap_formatter ap = None
                      then set_appender st a (LogAppender_setFormatter ap (lg_formatter lg)) else st)
           in Inr (set_logger st1 l (lg\<lparr>lg_appenders := lg_appenders lg @ [a]\<rparr>)))
      | _ \<Rightarrow> Inl BadPointer)"

definition delLogAppender :: "Logger \<Rightarrow> nat \<Rightarrow> Logger" where
  "delLogAppender lg a = lg\<lparr>lg_appenders := remove1 a (lg_appenders lg)\<rparr>"

definition clearAppenders :: "Logger \<Rightarrow> Logger" where
  "clearAppenders lg = lg\<lparr>lg_appenders := []\<rparr>"

definition Logger_setLevel :: "Logger \<Rightarrow> LogLevel \<Rightarrow> Logger" where
  "Logger_setLevel lg val = lg\<lparr>lg_level := val\<rparr>"

definition set_default_formatter :: "LogFormatter option \<Rightarrow> nat \<Rightarrow> log_state \<Rightarrow> log_state" where
  "set_default_formatter val a st =
     (case ls_appenders st a of
        None \<Rightarrow> st
      | Some ap \<Rightarrow> if \<not> ap_hasFormatter ap then set_appender st a (ap\<lparr>ap_formatter := val\<rparr>) else st)"

definition Logger_setFormatter :: "log_state \<Rightarrow> nat \<Rightarrow> LogFormatter option \<Rightarrow> log_fault + log_state" where
  "Logger_setFormatter st l val =
     (case ls_loggers st l of
        None \<Rightarrow> Inl BadPointer
      | Some lg \<Rightarrow> Inr (fold (set_default_formatter val) (lg_appenders lg)
                        (set_logger st l (lg\<lparr>lg_formatter := val\<rparr>))))"

definition Logger_setFormatter_pattern :: "log_state \<Rightarrow> nat \<Rightarrow> string \<Rightarrow> log_fault + log_state" where
  "Logger_setFormatter_pattern st l val =
     (let new_val = new_LogFormatter val in
      if lf_error new_val then Inr st else Logger_setFormatter st l (Some new_val))"

section \<open>The manager\<close>

definition new_LoggerManager :: "(string \<Rightarrow> bool) \<Rightarrow> (string \<Rightarrow> bool) \<Rightarrow> log_state" where
  "new_LoggerManager can_open can_write =
     (let root = (new_Logger ''root'')\<lparr>lg_appenders := [1]\<rparr>;
          ap = LogAppender_setFormatter (new_LogAppender StdoutLogAppender []) (lg_formatter root)
      in \<lparr> ls_appenders = [1 \<mapsto> ap], ls_loggers = [0 \<mapsto> root], ls_next = 2,
           ls_map = omap_put (<) [] (lg_name root) 0, ls_root = 0, ls_out = [],
           ls_can_open = can_open, ls_can_write = can_write \<rparr>)"

definition getLogger :: "log_state \<Rightarrow> string \<Rightarrow> nat \<times> log_state" where
  "getLogger st name =
     (case omap_get (<) (ls_map st) name of
        Some l \<Rightarrow> (l, st)
      | None \<Rightarrow>
          let l = ls_next st in
          (l, (set_logger st l ((new_Logger name)\<lparr>lg_root := Some (ls_root st)\<rparr>))
                \<lparr>ls_next := l + 1, ls_map := omap_put (<) (ls_map st) name l\<rparr>))"

definition getRoot :: "log_state \<Rightarrow> nat" where
  "getRoot st = ls_root st"

section \<open>Printing the configuration\<close>

definition level_entry :: "LogLevel \<Rightarrow> (yaml \<times> yaml) list" where
  "level_entry level =
     (if level \<noteq> UNKNOWM then [(YScalar ''level'', YScalar (LogLevel_ToString level))] else [])"

definition StdoutLogAppender_toYaml :: "LogAppender \<Rightarrow> yaml" where
  "StdoutLogAppender_toYaml ap =
     YMap ([(YScalar ''type'', YScalar ''StdoutLogAppender'')] @ level_entry (ap_level ap)
       @ (case ap_formatter ap of
            Some f \<Rightarrow> if ap_hasFormatter ap then [(YScalar ''formatter'', YScalar (lf_pattern f))] else []
          | None \<Rightarrow> []))"

definition FileLogAppender_toYaml :: "LogAppender \<Rightarrow> yaml" where
  "FileLogAppender_toYaml ap =
     YMap ([(YScalar ''type'', YScalar ''FileLogAppender''), (YScalar ''file'', YScalar (ap_filename ap))]
       @ level_entry (ap_level ap)
       @ (case ap_formatter ap of
            Some f \<Rightarrow> if ap_hasFormatter ap then [(YScalar ''formatter'', YScalar (lf_pattern f))] else []
          | None \<Rightarrow> []))"

definition LogAppender_toYamlString :: "yaml_lib \<Rightarrow> LogAppender \<Rightarrow> string" where
  "LogAppender_toYamlString lib ap =
     yl_emit lib (case ap_class ap of
       StdoutLogAppender \<Rightarrow> StdoutLogAppender_toYaml ap | FileLogAppender \<Rightarrow> FileLogAppender_toYaml ap)"

text \<open>\<open>push_back\<close> on an absent entry makes a sequence.\<close>

definition Logger_toYamlString :: "yaml_lib \<Rightarrow> log_state \<Rightarrow> Logger \<Rightarrow> cast_error + string" where
  "Logger_toYamlString lib st lg =
     result_bind (cast_all (\<lambda>a. case ls_appenders st a of
         None \<Rightarrow> Inl OtherException
       | Some ap \<Rightarrow> YAML_Load lib (LogAppender_toYamlString lib ap)) (lg_appenders lg)) (\<lambda>aps.
       Inr (yl_emit lib (YMap ([(YScalar ''name'', YScalar (lg_name lg))] @ level_entry (lg_level lg)
         @ (case lg_formatter lg of Some f \<Rightarrow> [(YScalar ''formatter'', YScalar (lf_pattern f))] | None \<Rightarrow> [])
         @ (if aps = [] then [] else [(YScalar ''appenders'', YSequence aps)])))))"

definition LoggerManager_toYamlString :: "yaml_lib \<Rightarrow> log_state \<Rightarrow> cast_error + string" where
  "LoggerManager_toYamlString lib st =
     result_bind (cast_all (\<lambda>(n, l). case ls_loggers st l of
         None \<Rightarrow> Inl OtherException
       | Some lg \<Rightarrow> result_bind (Logger_toYamlString lib st lg) (YAML_Load lib)) (ls_map st)) (\<lambda>ns.
       Inr (yl_emit lib (if ns = [] then YNull else YSequence ns)))"

end
