(* ===== verification/LogConf.thy ===== *)
theory LogConf
  imports Log
begin

text \<open>
  The configuration of the loggers (\<open>src/megalo/log.cc\<close>): the definitions that the variable
  \<open>logs\<close> holds, their conversions from and to YAML, and the listener that applies a new set of
  definitions to the manager.

  A set of definitions is ordered by name: it is the list of its elements.
\<close>

section \<open>Definitions of loggers\<close>

record LogAppenderDefine =
  lad_type :: nat
  lad_level :: LogLevel
  lad_formatter :: string
  lad_file :: string

record LogDefine =
  ld_name :: string
  ld_level :: LogLevel
  ld_formatter :: string
  ld_appenders :: "LogAppenderDefine list"

definition LogAppenderDefine_eq :: "LogAppenderDefine \<Rightarrow> LogAppenderDefine \<Rightarrow> bool" where
  "LogAppenderDefine_eq a b \<longleftrightarrow> lad_type a = lad_type b \<and> lad_level a = lad_level b
     \<and> lad_formatter a = lad_formatter b \<and> lad_file a = lad_file b"

definition LogDefine_eq :: "LogDefine \<Rightarrow> LogDefine \<Rightarrow> bool" where
  "LogDefine_eq a b \<longleftrightarrow> ld_name a = ld_name b \<and> ld_level a = ld_level b \<and> ld_formatter a = ld_formatter b
     \<and> list_all2 LogAppenderDefine_eq (ld_appenders a) (ld_appenders b)"

definition LogDefine_less :: "LogDefine \<Rightarrow> LogDefine \<Rightarrow> bool" where
  "LogDefine_less a b \<longleftrightarrow> ld_name a < ld_name b"

section \<open>Conversion from YAML\<close>

text \<open>
  \<open>node[key]\<close>: the entry of a map; on other nodes the library answers, \<open>None\<close> for an exception.
  \<open>as<std::string>()\<close> of a scalar is its text.
\<close>

definition yaml_key :: "yaml_lib \<Rightarrow> yaml \<Rightarrow> string \<Rightarrow> cast_error + yaml option" where
  "yaml_key lib node k =
     (case node of
        YMap es \<Rightarrow> Inr (map_option snd (find (\<lambda>e. fst e = YScalar k) es))
      | _ \<Rightarrow> (case yl_key lib node k of None \<Rightarrow> Inl OtherException | Some r \<Rightarrow> Inr r))"

definition yaml_as_string :: "yaml_lib \<Rightarrow> yaml \<Rightarrow> cast_error + string" where
  "yaml_as_string lib node =
     (case node of
        YScalar s \<Rightarrow> Inr s
      | _ \<Rightarrow> (case yl_as_string lib node of None \<Rightarrow> Inl OtherException | Some s \<Rightarrow> Inr s))"

text \<open>The text of an optional entry, empty when it is not there.\<close>

definition yaml_text_or_empty :: "yaml_lib \<Rightarrow> yaml \<Rightarrow> string \<Rightarrow> cast_error + string" where
  "yaml_text_or_empty lib node k =
     result_bind (yaml_key lib node k) (\<lambda>r. case r of None \<Rightarrow> Inr [] | Some n \<Rightarrow> yaml_as_string lib n)"

text \<open>
  One appender; \<open>None\<close> skips it.  The level is not initialised: \<open>level\<close> is what the memory holds.
\<close>

definition appender_from_yaml ::
  "yaml_lib \<Rightarrow> LogLevel \<Rightarrow> yaml \<Rightarrow> cast_error + LogAppenderDefine option" where
  "appender_from_yaml lib level a =
     result_bind (yaml_key lib a ''type'') (\<lambda>t. case t of
       None \<Rightarrow> Inr None
     | Some tn \<Rightarrow> result_bind (yaml_as_string lib tn) (\<lambda>type.
         if type = ''FileLogAppender'' then
           result_bind (yaml_key lib a ''file'') (\<lambda>f. case f of
             None \<Rightarrow> Inr None
           | Some fn \<Rightarrow> result_bind (yaml_as_string lib fn) (\<lambda>file.
               result_bind (yaml_text_or_empty lib a ''formatter'') (\<lambda>formatter.
                 Inr (Some \<lparr>lad_type = 1, lad_level = level, lad_formatter = formatter, lad_file = file\<rparr>))))
         else if type = ''StdoutLogAppender'' then
           result_bind (yaml_text_or_empty lib a ''formatter'') (\<lambda>formatter.
             Inr (Some \<lparr>lad_type = 2, lad_level = level, lad_formatter = formatter, lad_file = []\<rparr>))
         else Inr None))"

definition LogDefine_from_string ::
  "yaml_lib \<Rightarrow> (nat \<Rightarrow> LogLevel) \<Rightarrow> string \<Rightarrow> cast_error + LogDefine" where
  "LogDefine_from_string lib levels v =
     result_bind (YAML_Load lib v) (\<lambda>n.
     result_bind (yaml_key lib n ''name'') (\<lambda>nm. case nm of
       None \<Rightarrow> Inl OtherException
     | Some nn \<Rightarrow>
         result_bind (yaml_as_string lib nn) (\<lambda>name.
         result_bind (yaml_text_or_empty lib n ''level'') (\<lambda>level.
         result_bind (yaml_text_or_empty lib n ''formatter'') (\<lambda>formatter.
         result_bind (yaml_key lib n ''appenders'') (\<lambda>aps.
         result_bind (case aps of
             None \<Rightarrow> Inr []
           | Some an \<Rightarrow> cast_all (\<lambda>i. appender_from_yaml lib (levels i) (yaml_at lib an i)) [0..<yaml_size an]) (\<lambda>lads.
           Inr \<lparr>ld_name = name, ld_level = LogLevel_FromString level, ld_formatter = formatter,
             ld_appenders = List.map_filter (\<lambda>x. x) lads\<rparr>)))))))"

section \<open>Conversion to YAML\<close>

definition appender_to_yaml :: "LogAppenderDefine \<Rightarrow> yaml" where
  "appender_to_yaml a =
     (let es =
        (if lad_type a = 1 then [(YScalar ''type'', YScalar ''FileLogAppender''), (YScalar ''file'', YScalar (lad_file a))]
         else if lad_type a = 2 then [(YScalar ''type'', YScalar ''StdoutLogAppender'')] else [])
        @ level_entry (lad_level a)
        @ (if lad_formatter a \<noteq> [] then [(YScalar ''formatter'', YScalar (lad_formatter a))] else [])
      in if es = [] then YNull else YMap es)"

definition LogDefine_to_yaml :: "LogDefine \<Rightarrow> yaml" where
  "LogDefine_to_yaml v =
     YMap ([(YScalar ''name'', YScalar (ld_name v))] @ level_entry (ld_level v)
       @ (if ld_formatter v \<noteq> [] then [(YScalar ''formatter'', YScalar (ld_formatter v))] else [])
       @ (if ld_appenders v = [] then []
          else [(YScalar ''appenders'', YSequence (map appender_to_yaml (ld_appenders v)))]))"

definition LogDefine_to_string :: "yaml_lib \<Rightarrow> LogDefine \<Rightarrow> string" where
  "LogDefine_to_string lib v = yl_emit lib (LogDefine_to_yaml v)"

section \<open>Applying a configuration\<close>

text \<open>\<open>find\<close> in a set of definitions.\<close>

definition find_define :: "LogDefine list \<Rightarrow> LogDefine \<Rightarrow> LogDefine option" where
  "find_define ds d =
     (let i = oset_find LogDefine_less ds d in if i < length ds then Some (ds ! i) else None)"

definition update_logger :: "(Logger \<Rightarrow> Logger) \<Rightarrow> nat \<Rightarrow> log_state \<Rightarrow> log_fault + log_state" where
  "update_logger f l st =
     (case ls_loggers st l of None \<Rightarrow> Inl BadPointer | Some lg \<Rightarrow> Inr (set_logger st l (f lg)))"

definition define_formatter :: "LogAppenderDefine \<Rightarrow> LogAppender \<Rightarrow> LogAppender" where
  "define_formatter a ap =
     (if lad_formatter a = [] then ap
      else let fmt = new_LogFormatter (lad_formatter a) in
        if lf_error fmt then ap else LogAppender_setFormatter ap (Some fmt))"

definition add_appender :: "nat \<Rightarrow> LogAppenderDefine \<Rightarrow> log_state \<Rightarrow> log_fault + log_state" where
  "add_appender l a st =
     (let made = (if lad_type a = 1 then Some (new_FileLogAppender (ls_can_open st) (lad_file a))
                  else if lad_type a = 2 then Some (new_LogAppender StdoutLogAppender []) else None)
      in case made of
           None \<Rightarrow> Inl NullAppender
         | Some ap \<Rightarrow>
             let p = ls_next st;
                 ap1 = define_formatter a (LogAppender_setLevel ap (lad_level a))
             in addLogAppender ((set_appender st p ap1)\<lparr>ls_next := p + 1\<rparr>) l p)"

fun add_appenders :: "nat \<Rightarrow> LogAppenderDefine list \<Rightarrow> log_state \<Rightarrow> log_fault + log_state" where
  "add_appenders l [] st = Inr st"
| "add_appenders l (a # as) st = result_bind (add_appender l a st) (add_appenders l as)"

definition apply_define :: "LogDefine list \<Rightarrow> LogDefine \<Rightarrow> log_state \<Rightarrow> log_fault + log_state" where
  "apply_define old_value i st =
     (let same = (case find_define old_value i of None \<Rightarrow> False | Some d \<Rightarrow> LogDefine_eq i d) in
      if same then Inr st
      else (case getLogger st (ld_name i) of (l, st1) \<Rightarrow>
        result_bind (update_logger (\<lambda>lg. Logger_setLevel lg (ld_level i)) l st1) (\<lambda>st2.
        result_bind (if ld_formatter i = [] then Inr st2 else Logger_setFormatter_pattern st2 l (ld_formatter i)) (\<lambda>st3.
        result_bind (update_logger clearAppenders l st3) (add_appenders l (ld_appenders i))))))"

definition drop_define :: "LogDefine list \<Rightarrow> LogDefine \<Rightarrow> log_state \<Rightarrow> log_fault + log_state" where
  "drop_define new_value i st =
     (if find_define new_value i = None then
        (case getLogger st (ld_name i) of (l, st1) \<Rightarrow>
          update_logger (\<lambda>lg. clearAppenders (Logger_setLevel lg UNKNOWM)) l st1)
      else Inr st)"

fun each_define ::
  "(LogDefine \<Rightarrow> log_state \<Rightarrow> log_fault + log_state) \<Rightarrow> LogDefine list \<Rightarrow> log_state \<Rightarrow> log_fault + log_state" where
  "each_define f [] st = Inr st"
| "each_define f (d # ds) st = result_bind (f d st) (each_define f ds)"

definition on_logger_conf_changed :: "LogDefine list \<Rightarrow> LogDefine list \<Rightarrow> log_state \<Rightarrow> log_fault + log_state" where
  "on_logger_conf_changed old_value new_value st =
     result_bind (each_define (apply_define old_value) new_value st)
       (each_define (drop_define new_value) old_value)"

text \<open>
  The variable: registered at static initialisation, with the listener on it.  The conversions are
  those of \<open>std::set\<close> over those above.
\<close>

definition LogDefine_set_from_string ::
  "yaml_lib \<Rightarrow> (nat \<Rightarrow> LogLevel) \<Rightarrow> LogDefine list from_string" where
  "LogDefine_set_from_string lib levels = set_from_string lib LogDefine_less (LogDefine_from_string lib levels)"

definition LogDefine_set_to_string :: "yaml_lib \<Rightarrow> LogDefine list to_string" where
  "LogDefine_set_to_string lib = set_to_string lib (\<lambda>d. Inr (LogDefine_to_string lib d))"

definition log_listener :: "(LogDefine list, log_fault + log_state) on_change_cb" where
  "log_listener old_value new_value w = result_bind w (on_logger_conf_changed old_value new_value)"

definition g_log_defines ::
  "yaml_lib \<Rightarrow> (nat \<Rightarrow> LogLevel) \<Rightarrow> (LogDefine list, log_fault + log_state) Config
   \<Rightarrow> (nat \<times> (LogDefine list, log_fault + log_state) Config) option" where
  "g_log_defines lib levels c =
     Config_Lookup c ''std::set<LogDefine>'' (LogDefine_set_from_string lib levels) (LogDefine_set_to_string lib)
       ''logs'' [] ''log configs''"

definition LogIniter ::
  "nat \<Rightarrow> (LogDefine list, log_fault + log_state) Config \<Rightarrow> u64
   \<Rightarrow> ((LogDefine list, log_fault + log_state) Config \<times> u64) option" where
  "LogIniter p c s_fun_id =
     (case cf_vars c p of
        None \<Rightarrow> None
      | Some v \<Rightarrow> (case ConfigVar_addListener s_fun_id v log_listener of
          (key, v', s) \<Rightarrow> Some (c\<lparr>cf_vars := (cf_vars c)(p \<mapsto> v')\<rparr>, s)))"

end
