(* ===== verification/LogFormatProps.thy ===== *)
theory LogFormatProps
  imports LogFormat
begin

text \<open>
  The parser of log patterns inverts the obvious printer on patterns without the escape
  \<open>%%\<close>, and what it makes of that escape.
\<close>

section \<open>Printing patterns\<close>

fun entry_text :: "pattern_entry \<Rightarrow> string" where
  "entry_text (Literal s) = s"
| "entry_text (Spec str fmt) = ''%'' @ str @ (if fmt = [] then [] else ''{'' @ fmt @ ''}'')"

definition pattern_text :: "pattern_entry list \<Rightarrow> string" where
  "pattern_text es = concat (map entry_text es)"

text \<open>A character that would be read as part of the specification before it.\<close>

definition spec_char :: "char \<Rightarrow> bool" where
  "spec_char c \<longleftrightarrow> c_isalpha c \<or> c = CHR ''{'' \<or> c = CHR ''}''"

text \<open>Texts are nonempty, maximal and free of \<open>%\<close>, and are told apart from what stands before.\<close>

fun pattern_ok :: "pattern_entry list \<Rightarrow> bool" where
  "pattern_ok [] \<longleftrightarrow> True"
| "pattern_ok (Literal s # es) \<longleftrightarrow>
     s \<noteq> [] \<and> CHR ''%'' \<notin> set s \<and> (case es of Literal t # _ \<Rightarrow> False | _ \<Rightarrow> True) \<and> pattern_ok es"
| "pattern_ok (Spec str fmt # es) \<longleftrightarrow>
     str \<noteq> [] \<and> list_all c_isalpha str \<and> CHR ''}'' \<notin> set fmt
     \<and> (fmt \<noteq> [] \<or> (case es of Literal (c # t) # _ \<Rightarrow> \<not> spec_char c | _ \<Rightarrow> True)) \<and> pattern_ok es"

section \<open>The inner loop\<close>

lemma drop_next: "drop n xs = y # ys \<Longrightarrow> n < length xs \<and> xs ! n = y \<and> drop (Suc n) xs = ys"
  by (metis Cons_nth_drop_Suc drop_eq_Nil list.inject list.simps(3) not_le)

lemma isalpha_simps [simp]:
  "\<not> c_isalpha (CHR ''{'')" "\<not> c_isalpha (CHR ''}'')" "\<not> c_isalpha (CHR ''%'')"
  by (simp_all add: c_isalpha_def)

lemma scan_letters:
  "drop n pat = ls @ rest \<Longrightarrow> rest \<noteq> [] \<Longrightarrow> list_all c_isalpha ls \<Longrightarrow>
   pattern_scan pat i n False fb [] [] = pattern_scan pat i (n + length ls) False fb [] []"
proof (induction ls arbitrary: n)
  case (Cons c ls)
  have n: "n < length pat" "pat ! n = c" "drop (Suc n) pat = ls @ rest"
    using drop_next [of n pat c "ls @ rest"] Cons.prems(1) by simp_all
  moreover have "Suc n < length pat" using n(3) Cons.prems(2) by (metis append_is_Nil_conv drop_eq_Nil not_le)
  moreover have "c \<noteq> CHR ''{''" "c_isalpha c" using Cons.prems(3) by auto
  ultimately show ?case
    using Cons.IH [of "Suc n"] Cons.prems(2,3) by (subst pattern_scan.simps) simp
qed simp

lemma scan_letters_end:
  "drop n pat = ls \<Longrightarrow> ls \<noteq> [] \<Longrightarrow> list_all c_isalpha ls \<Longrightarrow> i < n \<Longrightarrow>
   pattern_scan pat i n False fb [] [] = (length pat, False, drop (i + 1) pat, [])"
proof (induction ls arbitrary: n)
  case (Cons c ls)
  have n: "n < length pat" "pat ! n = c" "drop (Suc n) pat = ls"
    using drop_next [of n pat c ls] Cons.prems(1) by simp_all
  have c: "c \<noteq> CHR ''{''" "c_isalpha c" using Cons.prems(3) by auto
  show ?case
  proof (cases "ls = []")
    case True
    then have e: "Suc n = length pat" using n by simp
    show ?thesis using n c e by (subst pattern_scan.simps, subst pattern_scan.simps) simp
  next
    case False
    then have "Suc n \<noteq> length pat" using n(3) by auto
    then show ?thesis using n c False Cons.IH [of "Suc n"] Cons.prems(3,4)
      by (subst pattern_scan.simps) simp
  qed
qed simp

lemma scan_format:
  "drop n pat = fs @ CHR ''}'' # rest \<Longrightarrow> CHR ''}'' \<notin> set fs \<Longrightarrow> str \<noteq> [] \<Longrightarrow>
   pattern_scan pat i n True fb str fmt
     = (n + length fs + 1, False, str, str_substr pat (fb + 1) (n + length fs - fb - 1))"
proof (induction fs arbitrary: n)
  case Nil
  then have "n < length pat \<and> pat ! n = CHR ''}'' \<and> drop (Suc n) pat = rest"
    using drop_next [of n pat "CHR ''}''" rest] by simp
  then show ?case by (subst pattern_scan.simps) simp
next
  case (Cons c fs)
  have "n < length pat \<and> pat ! n = c \<and> drop (Suc n) pat = fs @ CHR ''}'' # rest"
    using drop_next [of n pat c] Cons.prems(1) by simp
  then show ?case using Cons.IH [of "Suc n"] Cons.prems(2,3) by (subst pattern_scan.simps) auto
qed

lemma scan_spec:
  assumes "drop i pat = entry_text (Spec str fmt) @ rest"
    and "str \<noteq> []" "list_all c_isalpha str" "CHR ''}'' \<notin> set fmt"
    and "fmt = [] \<Longrightarrow> rest = [] \<or> \<not> spec_char (hd rest)"
  shows "pattern_scan pat i (i + 1) False 0 [] [] = (i + length (entry_text (Spec str fmt)), False, str, fmt)"
proof (cases "fmt = []")
  case True
  have d: "drop (Suc i) pat = str @ rest" using drop_next [of i pat] assms(1) True by simp
  show ?thesis
  proof (cases "rest = []")
    case True
    have "Suc i + length str = length pat" using d True assms(2)
      by (metis append_Nil2 drop_eq_Nil le_add_diff_inverse length_drop nle_le)
    then show ?thesis using scan_letters_end [of "Suc i" pat str i 0] d True assms(2,3) \<open>fmt = []\<close> by simp
  next
    case False
    then obtain c r where r: "rest = c # r" "\<not> c_isalpha c" "c \<noteq> CHR ''{''" "c \<noteq> CHR ''}''"
      using assms(5) True by (cases rest) (auto simp: spec_char_def)
    have "drop (Suc i + length str) pat = c # r" using d r(1) by (metis append_eq_conv_conj drop_drop add.commute)
    then have "Suc (i + length str) < length pat \<and> pat ! Suc (i + length str) = c"
      using drop_next [of "Suc i + length str" pat c r] by simp
    then have "pattern_scan pat i (Suc (i + length str)) False 0 [] []
        = (Suc (i + length str), False, str_substr pat (Suc i) (length str), [])"
      using r by (subst pattern_scan.simps) simp
    then show ?thesis using scan_letters [OF d False assms(3), of i 0] d True by (simp add: str_substr_def)
  qed
next
  case False
  have d: "drop (Suc i) pat = str @ (CHR ''{'' # fmt @ CHR ''}'' # rest)"
    using drop_next [of i pat] assms(1) False by simp
  let ?n = "Suc i + length str"
  have "drop ?n pat = CHR ''{'' # fmt @ CHR ''}'' # rest"
    using d by (metis append_eq_conv_conj drop_drop add.commute)
  then have n: "?n < length pat \<and> pat ! ?n = CHR ''{'' \<and> drop (Suc ?n) pat = fmt @ CHR ''}'' # rest"
    by (rule drop_next)
  have "str_substr pat (Suc i) (length str) = str" using d by (simp add: str_substr_def)
  then have "pattern_scan pat i ?n False 0 [] [] = pattern_scan pat i (Suc ?n) True ?n str []"
    using n by (subst pattern_scan.simps) simp
  moreover have "str_substr pat (?n + 1) (length fmt) = fmt" using n by (simp add: str_substr_def)
  ultimately show ?thesis
    using scan_letters [OF d _ assms(3), of i 0] scan_format [of "Suc ?n" pat fmt rest str i ?n "[]"] n assms(2,4) False
    by simp
qed

section \<open>The outer loop\<close>

lemma loop_literal:
  "drop i pat = s @ rest \<Longrightarrow> CHR ''%'' \<notin> set s \<Longrightarrow>
   pattern_loop pat i nstr vec err = pattern_loop pat (i + length s) (nstr @ s) vec err"
proof (induction s arbitrary: i nstr)
  case (Cons c s)
  have "i < length pat \<and> pat ! i = c \<and> drop (Suc i) pat = s @ rest"
    using drop_next [of i pat c] Cons.prems(1) by simp
  then show ?case using Cons.IH [of "Suc i" "nstr @ [c]"] Cons.prems(2) by (subst pattern_loop.simps) auto
qed simp

lemma loop_pattern:
  "drop i pat = pattern_text es \<Longrightarrow> pattern_ok es \<Longrightarrow> nstr = [] \<or> (\<forall>s es'. es \<noteq> Literal s # es') \<Longrightarrow>
   pattern_loop pat i nstr vec err = (flush_text nstr vec @ es, err)"
proof (induction es arbitrary: i nstr vec rule: pattern_ok.induct)
  case 1
  then have "length pat \<le> i" by (simp add: pattern_text_def)
  then show ?case by (subst pattern_loop.simps) simp
next
  case (2 s es)
  have d: "drop i pat = s @ pattern_text es" using 2(2) by (simp add: pattern_text_def)
  then have "drop (i + length s) pat = pattern_text es" by (metis append_eq_conv_conj drop_drop add.commute)
  then have "pattern_loop pat (i + length s) s vec err = (flush_text s vec @ es, err)"
    using 2(1) 2(3) by (auto split: list.splits pattern_entry.splits)
  then show ?case using loop_literal [OF d] 2(3,4) by (auto simp: flush_text_def)
next
  case (3 str fmt es)
  let ?e = "entry_text (Spec str fmt)"
  have d: "drop i pat = ?e @ pattern_text es" using 3(2) by (simp add: pattern_text_def)
  then have d': "drop (i + length ?e) pat = pattern_text es" by (metis append_eq_conv_conj drop_drop add.commute)
  have hd: "pattern_text es = [] \<or> \<not> spec_char (hd (pattern_text es))" if "fmt = []"
    using 3(3) that by (cases es; cases "hd es") (auto simp: pattern_text_def spec_char_def split: list.splits)
  have i: "i < length pat \<and> pat ! i = CHR ''%'' \<and> drop (Suc i) pat = tl ?e @ pattern_text es"
    using drop_next [of i pat "CHR ''%''"] d by simp
  have "hd (drop (Suc i) pat) \<noteq> CHR ''%''" using i 3(3) by (cases str) auto
  then have "\<not> (Suc i < length pat \<and> pat ! Suc i = CHR ''%'')" by (metis hd_drop_conv_nth)
  then have "pattern_loop pat i nstr vec err =
      pattern_loop pat (i + length ?e) [] (flush_text nstr vec @ [Spec str fmt]) err"
    using i scan_spec [OF d _ _ _ hd] 3(3) by (subst pattern_loop.simps) auto
  moreover have "pattern_loop pat (i + length ?e) [] (flush_text nstr vec @ [Spec str fmt]) err =
      (flush_text [] (flush_text nstr vec @ [Spec str fmt]) @ es, err)"
    using 3(1) [OF d'] 3(3) by simp
  ultimately show ?case by (simp add: flush_text_def)
qed

section \<open>Properties\<close>



text \<open>
The documented escape of a percent sign is an error: after it is taken for a literal the second
percent sign is read again as the start of a specification, here an empty one.
\<close>
theorem log_percent_escape:
  assumes "CHR ''%'' \<notin> set s"
  shows "LogFormatter_init (s @ ''%%'') =
    ([StringFormatItem (s @ ''%''), StringFormatItem ''<<error_format %>>''], True)"
proof -
  let ?p = "s @ ''%%''"
  have "pattern_loop ?p 0 [] [] False = pattern_loop ?p (length s) s [] False"
    using loop_literal [of 0 ?p s "''%%''" "[]" "[]" False] assms by simp
  also have "\<dots> = pattern_loop ?p (Suc (length s)) (s @ ''%'') [] False"
    by (subst pattern_loop.simps) (simp add: nth_append)
  also have "\<dots> = ([Literal (s @ ''%''), Spec [] []], False)"
    by (subst pattern_loop.simps, subst pattern_scan.simps, subst pattern_loop.simps)
      (simp add: nth_append flush_text_def)
  finally show ?thesis by (simp add: LogFormatter_init_def s_format_items_def)
qed

theorem log_percent_escape_witness:
  "LogFormatter_init ''100%%'' = ([StringFormatItem ''100%'', StringFormatItem ''<<error_format %>>''], True)"
  using log_percent_escape [of "''100''"] by simp

end
