(* ===== verification/LogProps.thy ===== *)
theory LogProps
  imports LogConf LogFormatProps
begin

text \<open>
  What the logging promises: in every state its operations can reach, logging never goes through a
  null pointer, always returns, and reaches exactly the appenders it should.
\<close>

section \<open>Ordered names\<close>

interpretation str_ord: weak_order "(<) :: string \<Rightarrow> string \<Rightarrow> bool"
  by unfold_locales auto

interpretation define_ord: weak_order LogDefine_less
  by unfold_locales (auto simp: LogDefine_less_def)

lemma str_eqv [simp]: "str_ord.eqv x y \<longleftrightarrow> x = y"
  by auto

section \<open>Invariant\<close>

text \<open>
  Every registered name leads to the logger of that name; loggers and their appenders have
  formatters; only the root logger stands behind another logger.  No code sets \<open>m_hasFormatter\<close>.
\<close>

definition appender_ok :: "LogAppender option \<Rightarrow> bool" where
  "appender_ok r = (case r of None \<Rightarrow> False | Some ap \<Rightarrow> ap_formatter ap \<noteq> None)"

definition logger_ok :: "log_state \<Rightarrow> Logger \<Rightarrow> bool" where
  "logger_ok st lg \<longleftrightarrow> lg_formatter lg \<noteq> None \<and> (\<forall>a \<in> set (lg_appenders lg). appender_ok (ls_appenders st a))
     \<and> (lg_root lg = None \<or> lg_root lg = Some (ls_root st))"

definition log_ok :: "log_state \<Rightarrow> bool" where
  "log_ok st \<longleftrightarrow> str_ord.omap_ok (ls_map st)
     \<and> (\<forall>n l. omap_get (<) (ls_map st) n = Some l \<longrightarrow> (\<exists>lg. ls_loggers st l = Some lg \<and> lg_name lg = n))
     \<and> (\<forall>l lg. ls_loggers st l = Some lg \<longrightarrow> l < ls_next st \<and> logger_ok st lg)
     \<and> (\<exists>r. ls_loggers st (ls_root st) = Some r \<and> lg_root r = None)
     \<and> (\<forall>a ap. ls_appenders st a = Some ap \<longrightarrow> a < ls_next st \<and> \<not> ap_hasFormatter ap)"

text \<open>No appender belongs to two loggers.\<close>

definition appenders_private :: "log_state \<Rightarrow> bool" where
  "appenders_private st \<longleftrightarrow> (\<forall>l l' lg lg'. ls_loggers st l = Some lg \<longrightarrow> ls_loggers st l' = Some lg' \<longrightarrow> l \<noteq> l' \<longrightarrow>
     set (lg_appenders lg) \<inter> set (lg_appenders lg') = {})"

lemma log_okD:
  assumes "log_ok st"
  shows "str_ord.omap_ok (ls_map st)"
    and "omap_get (<) (ls_map st) n = Some l \<Longrightarrow> \<exists>lg. ls_loggers st l = Some lg \<and> lg_name lg = n"
    and "ls_loggers st l = Some lg \<Longrightarrow> l < ls_next st \<and> logger_ok st lg"
    and "\<exists>r. ls_loggers st (ls_root st) = Some r \<and> lg_root r = None"
    and "ls_appenders st a = Some ap \<Longrightarrow> a < ls_next st \<and> \<not> ap_hasFormatter ap"
  using assms unfolding log_ok_def by blast+

lemma log_ok_new_LoggerManager: "log_ok (new_LoggerManager can_open can_write)"
proof -
  have [simp]: "omap_get (<) (omap_put (<) [] ''root'' (0::nat)) n = (if n = ''root'' then Some 0 else None)" for n
    using str_ord.omap_get_put [of "[]" "''root''" "0::nat" n] by (auto simp: str_ord.omap_ok_def omap_get_def Let_def)
  have "str_ord.omap_ok (omap_put (<) [] ''root'' (0::nat))"
    using str_ord.omap_put_set [of "[]" "''root''" "0::nat"] by (simp add: str_ord.omap_ok_def)
  then show ?thesis
    by (auto simp: log_ok_def new_LoggerManager_def Let_def new_Logger_def logger_ok_def appender_ok_def
        LogAppender_setFormatter_def new_LogAppender_def split: if_splits)
qed

lemma appenders_private_new_LoggerManager: "appenders_private (new_LoggerManager can_open can_write)"
  by (simp add: appenders_private_def new_LoggerManager_def Let_def)

text \<open>Printing and the file system are no part of the invariant.\<close>

lemma log_ok_out [simp]: "log_ok (st\<lparr>ls_out := x\<rparr>) = log_ok st"
  by (simp add: log_ok_def logger_ok_def)

lemma log_ok_set_appender:
  assumes "log_ok st" and "a < ls_next st" and "ap_formatter ap \<noteq> None" and "\<not> ap_hasFormatter ap"
  shows "log_ok (set_appender st a ap)"
  using assms unfolding log_ok_def set_appender_def logger_ok_def appender_ok_def
  by (simp split: option.splits)

lemma log_ok_set_logger:
  assumes "log_ok st" and "ls_loggers st l = Some lg" and "lg_name lg' = lg_name lg" and "lg_root lg' = lg_root lg"
    and "logger_ok st lg'"
  shows "log_ok (set_logger st l lg')"
proof -
  have "lg_name lg' = n" if "omap_get (<) (ls_map st) n = Some l" for n
    using log_okD(2) [OF assms(1) that] assms(2,3) by auto
  then show ?thesis
    using assms unfolding log_ok_def set_logger_def logger_ok_def by (auto split: if_splits)
qed

section \<open>Logging\<close>

lemma reopen_fields [simp]:
  "ap_formatter (snd (FileLogAppender_reopen f ap)) = ap_formatter ap"
  "ap_hasFormatter (snd (FileLogAppender_reopen f ap)) = ap_hasFormatter ap"
  "ap_class (snd (FileLogAppender_reopen f ap)) = ap_class ap"
  "ap_level (snd (FileLogAppender_reopen f ap)) = ap_level ap"
  "ap_filename (snd (FileLogAppender_reopen f ap)) = ap_filename ap"
  by (simp_all add: FileLogAppender_reopen_def Let_def)

lemma LogAppender_log_ok:
  assumes "log_ok st" and "appender_ok (ls_appenders st a)"
  shows "\<exists>st'. LogAppender_log strftime level event a st = Inr st' \<and> log_ok st'
     \<and> ls_loggers st' = ls_loggers st \<and> (\<forall>b. appender_ok (ls_appenders st b) \<longrightarrow> appender_ok (ls_appenders st' b))"
proof -
  obtain ap f where ap: "ls_appenders st a = Some ap" "ap_formatter ap = Some f"
    using assms(2) by (auto simp: appender_ok_def split: option.splits)
  note a = log_okD(5) [OF assms(1) ap(1)]
  have set: "log_ok (set_appender st a x)" "\<forall>b. appender_ok (ls_appenders st b) \<longrightarrow> appender_ok (ls_appenders (set_appender st a x) b)"
    if "ap_formatter x \<noteq> None" "ap_hasFormatter x = ap_hasFormatter ap" for x
    using log_ok_set_appender [OF assms(1)] that a by (auto simp: set_appender_def appender_ok_def)
  show ?thesis
    using ap set assms(1)
    by (auto simp: LogAppender_log_def StdoutLogAppender_log_def FileLogAppender_log_def Let_def
        set_appender_def [symmetric] split: appender_class.splits)
      (auto simp: set_appender_def)
qed

lemma log_all_ok:
  "log_ok st \<Longrightarrow> \<forall>a \<in> set as. appender_ok (ls_appenders st a) \<Longrightarrow>
   \<exists>st'. log_all strftime level event as st = Inr st' \<and> log_ok st' \<and> ls_loggers st' = ls_loggers st"
proof (induction as arbitrary: st)
  case (Cons a as)
  obtain st1 where "LogAppender_log strftime level event a st = Inr st1" "log_ok st1"
    "ls_loggers st1 = ls_loggers st" "\<forall>b. appender_ok (ls_appenders st b) \<longrightarrow> appender_ok (ls_appenders st1 b)"
    using LogAppender_log_ok [OF Cons.prems(1), of a strftime level event] Cons.prems(2) by auto
  then show ?case using Cons.IH [of st1] Cons.prems(2) by simp
qed simp

text \<open>The appenders that an event of a level reaches from a logger.\<close>

definition reached :: "log_state \<Rightarrow> Logger \<Rightarrow> LogLevel \<Rightarrow> nat list" where
  "reached st lg level =
     (if level < lg_level lg then []
      else if lg_appenders lg \<noteq> [] then lg_appenders lg
      else case lg_root lg of
        None \<Rightarrow> []
      | Some r \<Rightarrow> (case ls_loggers st r of
          None \<Rightarrow> []
        | Some rt \<Rightarrow> if level < lg_level rt then [] else lg_appenders rt))"

lemma Logger_log_reached:
  assumes ok: "log_ok st" and lg: "ls_loggers st l = Some lg"
  shows "Logger_log strftime st l level event = Some (log_all strftime level event (reached st lg level) st)"
proof -
  obtain rt where rt: "ls_loggers st (ls_root st) = Some rt" "lg_root rt = None" using log_okD(4) [OF ok] by blast
  have r: "lg_root lg = None \<or> lg_root lg = Some (ls_root st)" using log_okD(3) [OF ok lg] by (simp add: logger_ok_def)
  have "Logger_log strftime st (ls_root st) level event
      = Some (log_all strftime level event (if level < lg_level rt then [] else lg_appenders rt) st)"
    using rt by (subst Logger_log.simps) auto
  then show ?thesis using lg r rt by (subst Logger_log.simps) (auto simp: reached_def)
qed

section \<open>The manager\<close>

lemma getLogger_new:
  assumes ok: "log_ok st" and p: "appenders_private st" and g: "getLogger st name = (l, st1)"
  shows "log_ok st1 \<and> appenders_private st1 \<and> ls_next st \<le> ls_next st1 \<and> ls_appenders st1 = ls_appenders st
    \<and> omap_get (<) (ls_map st1) = (omap_get (<) (ls_map st))(name \<mapsto> l) \<and> ls_can_open st1 = ls_can_open st
    \<and> ls_loggers st1 = (case omap_get (<) (ls_map st) name of Some _ \<Rightarrow> ls_loggers st
        | None \<Rightarrow> (ls_loggers st)(l \<mapsto> (new_Logger name)\<lparr>lg_root := Some (ls_root st)\<rparr>))
    \<and> (omap_get (<) (ls_map st) name = None \<longrightarrow> ls_loggers st l = None)"
proof (cases "omap_get (<) (ls_map st) name")
  case (Some l')
  then show ?thesis using g ok p by (auto simp: getLogger_def)
next
  case None
  let ?lg = "(new_Logger name)\<lparr>lg_root := Some (ls_root st)\<rparr>"
  let ?m = "omap_put (<) (ls_map st) name (ls_next st)"
  have l: "l = ls_next st" and st1: "st1 = (set_logger st l ?lg)\<lparr>ls_next := l + 1, ls_map := ?m\<rparr>"
    using g None by (auto simp: getLogger_def Let_def)
  have fresh: "ls_loggers st l = None" using log_okD(3) [OF ok, of l] l by (cases "ls_loggers st l") auto
  have get: "omap_get (<) ?m n = (if n = name then Some l else omap_get (<) (ls_map st) n)" for n
    using str_ord.omap_get_put [OF log_okD(1) [OF ok], of name "ls_next st" n] l by simp
  have "str_ord.omap_ok ?m" using str_ord.omap_put_set [OF log_okD(1) [OF ok]] by blast
  moreover have "omap_get (<) (ls_map st) n \<noteq> Some l" for n
    using log_okD(2) [OF ok, of n l] fresh by auto
  ultimately have "log_ok st1"
    using ok get fresh unfolding log_ok_def st1 l
    by (auto simp: set_logger_def logger_ok_def new_Logger_def less_Suc_eq)
  moreover have "appenders_private st1" using p fresh
    by (auto simp: appenders_private_def st1 set_logger_def new_Logger_def)
  ultimately show ?thesis using None fresh get l by (auto simp: st1 set_logger_def)
qed

section \<open>Properties of logging\<close>

definition demo_strftime :: "string \<Rightarrow> u64 \<Rightarrow> string" where
  "demo_strftime fmt t = ''now''"

definition demo_event :: LogEvent where
  "demo_event = (new_LogEvent 0 INFO ''main.cc'' 7 0 1 2 9 ''t0'')\<lparr>ev_content := ''hello''\<rparr>"

text \<open>
C35: in a state that the logging code can reach, an event logged to any logger reaches exactly the
appenders of that logger, or those of the root logger when it has none, if the level passes the
levels of the loggers on the way; no null formatter and no endless chain of loggers is met.
\<close>
theorem log_dispatch_total:
  assumes "log_ok st" and "ls_loggers st l = Some lg"
  shows "Logger_log strftime st l level event = Some (log_all strftime level event (reached st lg level) st)
    \<and> (\<exists>st'. log_all strftime level event (reached st lg level) st = Inr st' \<and> log_ok st'
         \<and> ls_loggers st' = ls_loggers st)"
proof -
  have "\<forall>a \<in> set (lg_appenders x). appender_ok (ls_appenders st a)" if "ls_loggers st k = Some x" for k x
    using log_okD(3) [OF assms(1) that] by (simp add: logger_ok_def)
  then have "\<forall>a \<in> set (reached st lg level). appender_ok (ls_appenders st a)"
    using assms(2) by (cases "lg_root lg"; cases "ls_loggers st (the (lg_root lg))") (auto simp: reached_def)
  then show ?thesis using Logger_log_reached [OF assms] log_all_ok [OF assms(1)] by blast
qed

theorem log_dispatch_total_witness:
  "\<exists>st'. Logger_log demo_strftime (new_LoggerManager (\<lambda>f. True) (\<lambda>f. True)) 0 INFO demo_event = Some (Inr st')"
proof -
  let ?st = "new_LoggerManager (\<lambda>f. True) (\<lambda>f. True)"
  have l: "ls_loggers ?st 0 = Some ((new_Logger ''root'')\<lparr>lg_appenders := [1]\<rparr>)"
    by (simp add: new_LoggerManager_def Let_def)
  show ?thesis using log_dispatch_total [OF log_ok_new_LoggerManager l] by metis
qed

end
