(* ===== verification/LogConfProps.thy ===== *)
theory LogConfProps
  imports LogProps
begin

text \<open>
  Applying a configuration: the abstract view of the loggers, the frame of each step of the
  listener, and the theorem that the listener gives every logger what the new definitions say.
\<close>

section \<open>The abstract view\<close>

text \<open>Of an appender: class, file, level and formatter; of a logger: level, formatter and appenders.\<close>

type_synonym appender_view = "appender_class \<times> string \<times> LogLevel \<times> LogFormatter option"
type_synonym logger_view = "LogLevel \<times> LogFormatter option \<times> appender_view option list"

definition appender_view :: "LogAppender option \<Rightarrow> appender_view option" where
  "appender_view r = map_option (\<lambda>ap. (ap_class ap, ap_filename ap, ap_level ap, ap_formatter ap)) r"

definition view_of :: "log_state \<Rightarrow> nat \<Rightarrow> logger_view option" where
  "view_of st l = map_option (\<lambda>lg. (lg_level lg, lg_formatter lg,
     map (\<lambda>a. appender_view (ls_appenders st a)) (lg_appenders lg))) (ls_loggers st l)"

definition logger_view :: "log_state \<Rightarrow> string \<Rightarrow> logger_view option" where
  "logger_view st n = Option.bind (omap_get (<) (ls_map st) n) (view_of st)"

section \<open>Frames\<close>

text \<open>A step on one logger leaves the view of all others.\<close>

definition only :: "nat \<Rightarrow> log_state \<Rightarrow> log_state \<Rightarrow> bool" where
  "only l st st' \<longleftrightarrow> log_ok st' \<and> appenders_private st' \<and> ls_map st' = ls_map st
     \<and> (\<forall>k. k \<noteq> l \<longrightarrow> view_of st' k = view_of st k)"

lemma only_trans: "only l st st' \<Longrightarrow> only l st' st'' \<Longrightarrow> only l st st''"
  by (simp add: only_def)

lemma onlyD: "only l st st' \<Longrightarrow> log_ok st'" "only l st st' \<Longrightarrow> appenders_private st'"
  by (simp_all add: only_def)

lemma appender_bound:
  assumes "log_ok st" and "ls_loggers st l = Some lg" and "a \<in> set (lg_appenders lg)"
  shows "a < ls_next st"
  using log_okD(3) [OF assms(1,2)] log_okD(5) [OF assms(1)] assms(3)
  by (fastforce simp: logger_ok_def appender_ok_def split: option.splits)

lemma update_logger_only:
  assumes ok: "log_ok st" "appenders_private st" and lg: "ls_loggers st l = Some lg"
    and f: "lg_name (f lg) = lg_name lg" "lg_root (f lg) = lg_root lg" "lg_formatter (f lg) = lg_formatter lg"
      "set (lg_appenders (f lg)) \<subseteq> set (lg_appenders lg)"
  shows "\<exists>st'. update_logger f l st = Inr st' \<and> only l st st' \<and> ls_loggers st' l = Some (f lg)
     \<and> ls_appenders st' = ls_appenders st \<and> ls_can_open st' = ls_can_open st"
proof -
  let ?st = "set_logger st l (f lg)"
  have "logger_ok st (f lg)" using log_okD(3) [OF ok(1) lg] f by (auto simp: logger_ok_def)
  then have "log_ok ?st" using log_ok_set_logger [OF ok(1) lg f(1,2)] by simp
  moreover have "appenders_private ?st"
    using ok(2) lg f(4) unfolding appenders_private_def set_logger_def by (auto split: if_splits) blast+
  ultimately show ?thesis using lg by (auto simp: update_logger_def only_def view_of_def set_logger_def)
qed

lemma fold_set_default_formatter:
  assumes "log_ok st" and "f \<noteq> None"
  shows "log_ok (fold (set_default_formatter f) as st)
     \<and> ls_loggers (fold (set_default_formatter f) as st) = ls_loggers st
     \<and> ls_map (fold (set_default_formatter f) as st) = ls_map st
     \<and> ls_can_open (fold (set_default_formatter f) as st) = ls_can_open st
     \<and> (\<forall>a. ls_appenders (fold (set_default_formatter f) as st) a =
          (if a \<in> set as then map_option (\<lambda>ap. ap\<lparr>ap_formatter := f\<rparr>) (ls_appenders st a) else ls_appenders st a))"
  using assms(1)
proof (induction as arbitrary: st)
  case (Cons a as)
  let ?st = "set_default_formatter f a st"
  have "log_ok ?st \<and> ls_loggers ?st = ls_loggers st \<and> ls_map ?st = ls_map st \<and> ls_can_open ?st = ls_can_open st
     \<and> (\<forall>b. ls_appenders ?st b = (if b = a then map_option (\<lambda>ap. ap\<lparr>ap_formatter := f\<rparr>) (ls_appenders st b) else ls_appenders st b))"
  proof (cases "ls_appenders st a")
    case (Some ap)
    then show ?thesis
      using log_okD(5) [OF Cons.prems Some] assms(2) log_ok_set_appender [OF Cons.prems, of a "ap\<lparr>ap_formatter := f\<rparr>"]
      by (auto simp: set_default_formatter_def set_appender_def)
  qed (use Cons.prems in \<open>auto simp: set_default_formatter_def\<close>)
  then show ?case using Cons.IH [of ?st] by (auto simp: option.map_comp comp_def)
qed simp

text \<open>The formatter a logger has after a definition with the given pattern.\<close>

definition chosen :: "string \<Rightarrow> LogFormatter option \<Rightarrow> LogFormatter option" where
  "chosen pattern f =
     (if pattern = [] \<or> lf_error (new_LogFormatter pattern) then f else Some (new_LogFormatter pattern))"

lemma setFormatter_only:
  assumes ok: "log_ok st" "appenders_private st" and lg: "ls_loggers st l = Some lg"
  shows "\<exists>st'. (if pattern = [] then Inr st else Logger_setFormatter_pattern st l pattern) = Inr st'
     \<and> only l st st' \<and> ls_loggers st' l = Some (lg\<lparr>lg_formatter := chosen pattern (lg_formatter lg)\<rparr>)
     \<and> ls_can_open st' = ls_can_open st"
proof (cases "pattern = [] \<or> lf_error (new_LogFormatter pattern)")
  case True
  then show ?thesis using ok lg by (auto simp: Logger_setFormatter_pattern_def only_def chosen_def)
next
  case False
  let ?f = "Some (new_LogFormatter pattern)"
  let ?lg = "lg\<lparr>lg_formatter := ?f\<rparr>"
  let ?st1 = "set_logger st l ?lg"
  let ?st2 = "fold (set_default_formatter ?f) (lg_appenders lg) ?st1"
  have "logger_ok st ?lg" using log_okD(3) [OF ok(1) lg] by (simp add: logger_ok_def)
  then have "log_ok ?st1" using log_ok_set_logger [OF ok(1) lg, of ?lg] by simp
  then have st2: "log_ok ?st2" "ls_loggers ?st2 = ls_loggers ?st1" "ls_map ?st2 = ls_map ?st1" "ls_can_open ?st2 = ls_can_open ?st1"
    "\<And>a. a \<notin> set (lg_appenders lg) \<Longrightarrow> ls_appenders ?st2 a = ls_appenders st a"
    using fold_set_default_formatter [of ?st1 ?f "lg_appenders lg"] by (auto simp: set_logger_def)
  have "view_of ?st2 k = view_of st k" if k: "k \<noteq> l" for k
  proof (cases "ls_loggers st k")
    case (Some g)
    then have "set (lg_appenders g) \<inter> set (lg_appenders lg) = {}"
      using ok(2) lg k unfolding appenders_private_def by blast
    then have "map (\<lambda>a. appender_view (ls_appenders ?st2 a)) (lg_appenders g)
        = map (\<lambda>a. appender_view (ls_appenders st a)) (lg_appenders g)"
      by (intro map_cong refl arg_cong [where f = appender_view] st2(5)) auto
    then show ?thesis using Some k st2(2) by (simp add: view_of_def set_logger_def)
  qed (use k st2(2) in \<open>simp add: view_of_def set_logger_def\<close>)
  moreover have L: "ls_loggers ?st2 = (ls_loggers st)(l \<mapsto> ?lg)" using st2(2) by (simp add: set_logger_def)
  have "appenders_private ?st2"
    using ok(2) lg unfolding appenders_private_def L by (auto split: if_splits)
  ultimately have "only l st ?st2" using st2(1,3) by (simp add: only_def set_logger_def)
  then show ?thesis using False lg st2(2,4)
    by (auto simp: Logger_setFormatter_pattern_def Let_def Logger_setFormatter_def chosen_def set_logger_def)
qed

section \<open>Adding appenders\<close>

definition defined_appender :: "LogFormatter option \<Rightarrow> LogAppenderDefine \<Rightarrow> appender_view option" where
  "defined_appender f a =
     Some (if lad_type a = 1 then FileLogAppender else StdoutLogAppender,
       if lad_type a = 1 then lad_file a else [], lad_level a, chosen (lad_formatter a) f)"

definition appender_type_ok :: "LogAppenderDefine \<Rightarrow> bool" where
  "appender_type_ok a \<longleftrightarrow> lad_type a = 1 \<or> lad_type a = 2"

lemma add_appender_only:
  assumes ok: "log_ok st" "appenders_private st" and lg: "ls_loggers st l = Some lg" and t: "appender_type_ok a"
  shows "\<exists>st'. add_appender l a st = Inr st' \<and> only l st st'
     \<and> ls_loggers st' l = Some (lg\<lparr>lg_appenders := lg_appenders lg @ [ls_next st]\<rparr>)
     \<and> (\<forall>b. ls_appenders st' b = (if b = ls_next st then ls_appenders st' b else ls_appenders st b))
     \<and> appender_view (ls_appenders st' (ls_next st)) = defined_appender (lg_formatter lg) a"
proof -
  let ?p = "ls_next st"
  let ?ap0 = "if lad_type a = 1 then new_FileLogAppender (ls_can_open st) (lad_file a) else new_LogAppender StdoutLogAppender []"
  let ?ap = "define_formatter a (LogAppender_setLevel ?ap0 (lad_level a))"
  let ?fm = "if ap_formatter ?ap = None then LogAppender_setFormatter ?ap (lg_formatter lg) else ?ap"
  let ?st1 = "(set_appender st ?p ?ap)\<lparr>ls_next := ?p + 1\<rparr>"
  let ?lg = "lg\<lparr>lg_appenders := lg_appenders lg @ [?p]\<rparr>"
  let ?st' = "set_logger (if ap_formatter ?ap = None then set_appender ?st1 ?p (LogAppender_setFormatter ?ap (lg_formatter lg)) else ?st1) l ?lg"
  define fm where "fm = ?fm"
  define s where "s = st\<lparr>ls_appenders := (ls_appenders st)(?p \<mapsto> fm), ls_next := ?p + 1,
      ls_loggers := (ls_loggers st)(l \<mapsto> ?lg)\<rparr>"
  have "?st' = s" by (simp add: s_def fm_def set_logger_def set_appender_def)
  then have r: "add_appender l a st = Inr s"
    using t lg by (auto simp: add_appender_def addLogAppender_def Let_def set_appender_def appender_type_ok_def)
  have f: "lg_formatter lg \<noteq> None" using log_okD(3) [OF ok(1) lg] by (simp add: logger_ok_def)
  have fm: "ap_formatter fm \<noteq> None" "\<not> ap_hasFormatter fm"
    using f by (auto simp: fm_def define_formatter_def LogAppender_setFormatter_def LogAppender_setLevel_def Let_def
        new_FileLogAppender_def new_LogAppender_def)
  have view: "appender_view (Some fm) = defined_appender (lg_formatter lg) a"
    using f t unfolding fm_def
    by (auto simp: appender_view_def defined_appender_def define_formatter_def chosen_def Let_def
        LogAppender_setFormatter_def LogAppender_setLevel_def new_FileLogAppender_def new_LogAppender_def appender_type_ok_def)
  have fresh: "?p \<notin> set (lg_appenders g)" if "ls_loggers st k = Some g" for k g
    using appender_bound [OF ok(1) that] by blast
  have "\<exists>r. ls_loggers s (ls_root st) = Some r \<and> lg_root r = None"
    using log_okD(4) [OF ok(1)] lg unfolding s_def by auto
  moreover have "\<exists>g. ls_loggers s k = Some g \<and> lg_name g = n" if "omap_get (<) (ls_map st) n = Some k" for k n
    using log_okD(2) [OF ok(1) that] lg unfolding s_def by auto
  moreover have "k < ?p + 1 \<and> logger_ok s g" if g: "ls_loggers s k = Some g" for k g
  proof -
    have "appender_ok (ls_appenders s b)" if "appender_ok (ls_appenders st b) \<or> b = ?p" for b
      using that fm unfolding s_def by (auto simp: appender_ok_def)
    moreover obtain g0 where "ls_loggers st k = Some g0" "lg_formatter g = lg_formatter g0" "lg_root g = lg_root g0"
      "set (lg_appenders g) \<subseteq> insert ?p (set (lg_appenders g0))"
      using g lg unfolding s_def by (auto split: if_splits)
    moreover have "ls_root s = ls_root st" by (simp add: s_def)
    ultimately show ?thesis using log_okD(3) [OF ok(1), of k g0] unfolding logger_ok_def by auto
  qed
  moreover have "b < ?p + 1 \<and> \<not> ap_hasFormatter x" if "ls_appenders s b = Some x" for b x
    using that log_okD(5) [OF ok(1), of b x] fm(2) unfolding s_def by (auto split: if_splits)
  ultimately have ok': "log_ok s"
    using log_okD(1) [OF ok(1)] unfolding log_ok_def by (simp add: s_def)
  moreover have "appenders_private s"
    using ok(2) lg fresh unfolding appenders_private_def s_def by (auto split: if_splits)
  moreover have "view_of s k = view_of st k" if "k \<noteq> l" for k
    using that fresh [of k] unfolding view_of_def s_def by (cases "ls_loggers st k") auto
  ultimately have "only l st s" by (simp add: only_def s_def)
  then show ?thesis using r view by (intro exI [of _ s]) (simp add: s_def)
qed

lemma add_appenders_only:
  assumes "log_ok st" and "appenders_private st" and "ls_loggers st l = Some lg"
    and "view_of st l = Some (lev, f, vs)" and "list_all appender_type_ok as"
  shows "\<exists>st'. add_appenders l as st = Inr st' \<and> only l st st'
     \<and> view_of st' l = Some (lev, f, vs @ map (defined_appender f) as)"
  using assms
proof (induction as arbitrary: st lg vs)
  case Nil
  then show ?case by (auto simp: only_def)
next
  case (Cons a as)
  obtain st1 where st1: "add_appender l a st = Inr st1" "only l st st1"
    "ls_loggers st1 l = Some (lg\<lparr>lg_appenders := lg_appenders lg @ [ls_next st]\<rparr>)"
    "\<And>b. b \<noteq> ls_next st \<Longrightarrow> ls_appenders st1 b = ls_appenders st b"
    "appender_view (ls_appenders st1 (ls_next st)) = defined_appender (lg_formatter lg) a"
    using add_appender_only [OF Cons.prems(1-3), of a] Cons.prems(5) by (auto split: if_splits)
  have "map (\<lambda>b. appender_view (ls_appenders st1 b)) (lg_appenders lg)
      = map (\<lambda>b. appender_view (ls_appenders st b)) (lg_appenders lg)"
    using appender_bound [OF Cons.prems(1,3)]
    by (intro map_cong refl arg_cong [where f = appender_view] st1(4)) blast
  then have "view_of st1 l = Some (lev, f, vs @ [defined_appender f a])"
    using Cons.prems(3,4) st1(3,5) by (auto simp: view_of_def)
  then show ?case
    using Cons.IH [OF onlyD(1) [OF st1(2)] onlyD(2) [OF st1(2)] st1(3)] Cons.prems(5) st1(1) only_trans [OF st1(2)]
    by fastforce
qed

section \<open>One definition\<close>

definition current_formatter :: "logger_view option \<Rightarrow> LogFormatter option" where
  "current_formatter cur =
     (case cur of None \<Rightarrow> Some (new_LogFormatter default_pattern) | Some (_, f, _) \<Rightarrow> f)"

definition applied :: "LogDefine \<Rightarrow> logger_view option \<Rightarrow> logger_view" where
  "applied d cur =
     (let f = chosen (ld_formatter d) (current_formatter cur) in
      (ld_level d, f, map (defined_appender f) (ld_appenders d)))"

definition dropped :: "logger_view option \<Rightarrow> logger_view" where
  "dropped cur = (UNKNOWM, current_formatter cur, [])"

lemma logger_view_only:
  assumes ok: "log_ok st" and o: "only l st st'" and l: "omap_get (<) (ls_map st) name = Some l"
  shows "logger_view st' n = (if n = name then view_of st' l else logger_view st n)"
proof -
  have "k \<noteq> l" if "omap_get (<) (ls_map st) n = Some k" "n \<noteq> name" for k
    using log_okD(2) [OF ok that(1)] log_okD(2) [OF ok l] that(2) by auto
  then show ?thesis
    using o l by (cases "omap_get (<) (ls_map st) n") (auto simp: logger_view_def only_def)
qed

lemma getLogger_view:
  assumes ok: "log_ok st" "appenders_private st" and g: "getLogger st name = (l, st1)"
  shows "\<exists>lg. ls_loggers st1 l = Some lg \<and> lg_formatter lg = current_formatter (logger_view st name)
     \<and> (\<forall>n. n \<noteq> name \<longrightarrow> logger_view st1 n = logger_view st n)"
proof -
  note G = getLogger_new [OF ok g]
  show ?thesis
  proof (cases "omap_get (<) (ls_map st) name")
    case (Some k)
    then have "k = l" "st1 = st" using g by (simp_all add: getLogger_def)
    then show ?thesis
      using log_okD(2) [OF ok(1) Some] Some by (auto simp: logger_view_def view_of_def current_formatter_def)
  next
    case None
    have "view_of st1 k = view_of st k" if "k \<noteq> l" for k
      using G None that by (simp add: view_of_def)
    moreover have "k \<noteq> l" if "omap_get (<) (ls_map st) n = Some k" for k n
      using log_okD(2) [OF ok(1) that] G None by auto
    ultimately have "logger_view st1 n = logger_view st n" if "n \<noteq> name" for n
      using G that by (cases "omap_get (<) (ls_map st) n") (auto simp: logger_view_def)
    then show ?thesis using G None by (auto simp: logger_view_def current_formatter_def new_Logger_def)
  qed
qed

text \<open>What a step of the listener does: \<open>g\<close> is the new view of the logger \<open>name\<close>.\<close>

definition view_step :: "log_state \<Rightarrow> string \<Rightarrow> (logger_view option \<Rightarrow> logger_view option) \<Rightarrow> log_fault + log_state \<Rightarrow> bool" where
  "view_step st name g r \<longleftrightarrow> (\<exists>st'. r = Inr st' \<and> log_ok st' \<and> appenders_private st'
     \<and> (\<forall>n. logger_view st' n = (if n = name then g (logger_view st n) else logger_view st n)))"

lemma apply_define_step:
  assumes ok: "log_ok st" "appenders_private st" and t: "list_all appender_type_ok (ld_appenders i)"
  shows "view_step st (ld_name i)
    (\<lambda>cur. if (\<exists>d. find_define old i = Some d \<and> LogDefine_eq i d) then cur else Some (applied i cur))
    (apply_define old i st)"
proof (cases "\<exists>d. find_define old i = Some d \<and> LogDefine_eq i d")
  case True
  then show ?thesis using ok by (auto simp: view_step_def apply_define_def)
next
  case False
  obtain l st1 where g: "getLogger st (ld_name i) = (l, st1)" by fastforce
  have run: "apply_define old i st =
      result_bind (update_logger (\<lambda>lg. Logger_setLevel lg (ld_level i)) l st1) (\<lambda>st2.
      result_bind (if ld_formatter i = [] then Inr st2 else Logger_setFormatter_pattern st2 l (ld_formatter i)) (\<lambda>st3.
      result_bind (update_logger clearAppenders l st3) (add_appenders l (ld_appenders i))))"
    using False g by (auto simp: apply_define_def split: option.splits)
  have ok1: "log_ok st1" "appenders_private st1" and reg: "omap_get (<) (ls_map st1) (ld_name i) = Some l"
    using getLogger_new [OF ok g] by auto
  obtain lg where lg: "ls_loggers st1 l = Some lg" "lg_formatter lg = current_formatter (logger_view st (ld_name i))"
    "\<And>n. n \<noteq> ld_name i \<Longrightarrow> logger_view st1 n = logger_view st n"
    using getLogger_view [OF ok g] by blast
  let ?lg2 = "Logger_setLevel lg (ld_level i)"
  obtain st2 where st2: "update_logger (\<lambda>lg. Logger_setLevel lg (ld_level i)) l st1 = Inr st2" "only l st1 st2"
    "ls_loggers st2 l = Some ?lg2"
    using update_logger_only [OF ok1 lg(1), of "\<lambda>lg. Logger_setLevel lg (ld_level i)"] by (auto simp: Logger_setLevel_def)
  let ?f = "chosen (ld_formatter i) (lg_formatter lg)"
  let ?lg3 = "?lg2\<lparr>lg_formatter := ?f\<rparr>"
  obtain st3 where st3: "(if ld_formatter i = [] then Inr st2 else Logger_setFormatter_pattern st2 l (ld_formatter i)) = Inr st3"
    "only l st2 st3" "ls_loggers st3 l = Some ?lg3"
    using setFormatter_only [OF onlyD [OF st2(2)] st2(3), of "ld_formatter i"] by (auto simp: Logger_setLevel_def)
  obtain st4 where st4: "update_logger clearAppenders l st3 = Inr st4" "only l st3 st4"
    "ls_loggers st4 l = Some (clearAppenders ?lg3)"
    using update_logger_only [OF onlyD [OF st3(2)] st3(3), of clearAppenders] by (auto simp: clearAppenders_def)
  have "view_of st4 l = Some (ld_level i, ?f, [])"
    using st4(3) by (simp add: view_of_def clearAppenders_def Logger_setLevel_def)
  then obtain st5 where st5: "add_appenders l (ld_appenders i) st4 = Inr st5" "only l st4 st5"
    "view_of st5 l = Some (ld_level i, ?f, map (defined_appender ?f) (ld_appenders i))"
    using add_appenders_only [OF onlyD [OF st4(2)] st4(3) _ t] by fastforce
  have "only l st1 st5" using st2(2) st3(2) st4(2) st5(2) only_trans by blast
  then have "logger_view st5 n = (if n = ld_name i then view_of st5 l else logger_view st1 n)" for n
    by (rule logger_view_only [OF ok1(1) _ reg])
  then show ?thesis
    using False run st2(1) st3(1) st4(1) st5 lg(2,3) onlyD [OF st5(2)]
    by (auto simp: view_step_def applied_def Let_def)
qed

lemma drop_define_step:
  assumes ok: "log_ok st" "appenders_private st"
  shows "view_step st (ld_name i) (\<lambda>cur. if find_define new i = None then Some (dropped cur) else cur) (drop_define new i st)"
proof (cases "find_define new i = None")
  case False
  then show ?thesis using ok by (auto simp: view_step_def drop_define_def)
next
  case True
  obtain l st1 where g: "getLogger st (ld_name i) = (l, st1)" by fastforce
  have ok1: "log_ok st1" "appenders_private st1" and reg: "omap_get (<) (ls_map st1) (ld_name i) = Some l"
    using getLogger_new [OF ok g] by auto
  obtain lg where lg: "ls_loggers st1 l = Some lg" "lg_formatter lg = current_formatter (logger_view st (ld_name i))"
    "\<And>n. n \<noteq> ld_name i \<Longrightarrow> logger_view st1 n = logger_view st n"
    using getLogger_view [OF ok g] by blast
  let ?u = "\<lambda>lg. clearAppenders (Logger_setLevel lg UNKNOWM)"
  obtain st2 where st2: "update_logger ?u l st1 = Inr st2" "only l st1 st2" "ls_loggers st2 l = Some (?u lg)"
    using update_logger_only [OF ok1 lg(1), of ?u] by (auto simp: clearAppenders_def Logger_setLevel_def)
  have "logger_view st2 n = (if n = ld_name i then view_of st2 l else logger_view st1 n)" for n
    by (rule logger_view_only [OF ok1(1) st2(2) reg])
  moreover have "view_of st2 l = Some (UNKNOWM, lg_formatter lg, [])"
    using st2(3) by (simp add: view_of_def clearAppenders_def Logger_setLevel_def)
  ultimately show ?thesis
    using True g st2(1) lg(2,3) onlyD [OF st2(2)] by (auto simp: view_step_def drop_define_def dropped_def)
qed

section \<open>All definitions\<close>

definition by_name :: "LogDefine list \<Rightarrow> string \<Rightarrow> LogDefine option" where
  "by_name ds n = find (\<lambda>d. ld_name d = n) ds"

lemma by_name_simps [simp]:
  "by_name [] n = None"
  "by_name (d # ds) n = (if ld_name d = n then Some d else by_name ds n)"
  by (simp_all add: by_name_def)

lemma by_name_name: "by_name ds n = Some d \<Longrightarrow> ld_name d = n"
  by (induction ds) (auto split: if_splits)

lemma by_name_member: "d \<in> set ds \<Longrightarrow> by_name ds (ld_name d) \<noteq> None"
  by (induction ds) auto

lemma sorted_defines: "sorted_wrt LogDefine_less ds \<Longrightarrow> distinct (map ld_name ds)"
  by (induction ds) (auto simp: LogDefine_less_def)

lemma distinct_by_name: "distinct (map ld_name ds) \<Longrightarrow> d \<in> set ds \<Longrightarrow> by_name ds (ld_name d) = Some d"
  by (induction ds) (auto intro: rev_image_eqI)

lemma find_define_by_name:
  assumes "sorted_wrt LogDefine_less ds"
  shows "find_define ds i = by_name ds (ld_name i)"
proof (cases "oset_find LogDefine_less ds i < length ds")
  case True
  then have "ld_name (ds ! oset_find LogDefine_less ds i) = ld_name i"
    using define_ord.find_Some [OF assms True] by (auto simp: LogDefine_less_def)
  then have "by_name ds (ld_name i) = Some (ds ! oset_find LogDefine_less ds i)"
    using distinct_by_name [OF sorted_defines [OF assms]] True by (metis nth_mem)
  then show ?thesis using True by (simp add: find_define_def)
next
  case False
  have "ld_name d \<noteq> ld_name i" if "d \<in> set ds" for d
    using define_ord.find_member [OF assms that, of i] False by (auto simp: LogDefine_less_def)
  then have "by_name ds (ld_name i) = None" by (simp add: by_name_def find_None_iff)
  then show ?thesis using False by (simp add: find_define_def)
qed

lemma each_define_view:
  assumes "\<And>i st. i \<in> set ds \<Longrightarrow> log_ok st \<Longrightarrow> appenders_private st \<Longrightarrow> view_step st (ld_name i) (g i) (f i st)"
    and "distinct (map ld_name ds)" and "log_ok st" and "appenders_private st"
  shows "\<exists>st'. each_define f ds st = Inr st' \<and> log_ok st' \<and> appenders_private st'
     \<and> (\<forall>n. logger_view st' n = (case by_name ds n of None \<Rightarrow> logger_view st n | Some i \<Rightarrow> g i (logger_view st n)))"
  using assms
proof (induction ds arbitrary: st)
  case (Cons d ds)
  obtain st1 where st1: "f d st = Inr st1" "log_ok st1" "appenders_private st1"
    "\<And>n. logger_view st1 n = (if n = ld_name d then g d (logger_view st n) else logger_view st n)"
    using Cons.prems(1) [of d st] Cons.prems(3,4) unfolding view_step_def by auto
  obtain st2 where st2: "each_define f ds st1 = Inr st2" "log_ok st2" "appenders_private st2"
    "\<And>n. logger_view st2 n = (case by_name ds n of None \<Rightarrow> logger_view st1 n | Some i \<Rightarrow> g i (logger_view st1 n))"
    using Cons.IH [OF _ _ st1(2,3)] Cons.prems(1,2) by auto
  have "by_name ds (ld_name d) = None"
    using Cons.prems(2) by (simp add: by_name_def find_None_iff) (metis image_eqI)
  then show ?case using st1 st2 by (auto split: option.splits)
qed simp

lemma LogDefine_eq_iff [simp]: "LogDefine_eq a b \<longleftrightarrow> a = b"
proof -
  have "LogAppenderDefine_eq = (=)" by (intro ext) (auto simp: LogAppenderDefine_eq_def)
  then show ?thesis by (auto simp: LogDefine_eq_def list.rel_eq)
qed

section \<open>Properties\<close>

text \<open>The view a logger must have after a change of the configuration.\<close>

definition reloaded :: "LogDefine list \<Rightarrow> LogDefine list \<Rightarrow> string \<Rightarrow> logger_view option \<Rightarrow> logger_view option" where
  "reloaded old new n cur =
     (case by_name new n of
        Some d \<Rightarrow> if by_name old n = Some d then cur else Some (applied d cur)
      | None \<Rightarrow> if by_name old n \<noteq> None then Some (dropped cur) else cur)"

text \<open>
C7: a change of the variable \<open>logs\<close> is applied exactly: every logger with a new or changed
definition gets its level, its formatter (the old one where the pattern is missing or wrong) and its
appenders in order; a logger whose definition is gone is left without appenders at the lowest level;
every other logger stays as it is.
\<close>
theorem log_reload_exact:
  assumes "log_ok st" and "appenders_private st"
    and "sorted_wrt LogDefine_less old" and "sorted_wrt LogDefine_less new"
    and "list_all (\<lambda>d. list_all appender_type_ok (ld_appenders d)) new"
  shows "\<exists>st'. on_logger_conf_changed old new st = Inr st' \<and> log_ok st' \<and> appenders_private st'
     \<and> (\<forall>n. logger_view st' n = reloaded old new n (logger_view st n))"
proof -
  let ?g = "\<lambda>i cur. if (\<exists>d. find_define old i = Some d \<and> LogDefine_eq i d) then cur else Some (applied i cur)"
  let ?h = "\<lambda>i cur. if find_define new i = None then Some (dropped cur) else cur"
  obtain st1 where st1: "each_define (apply_define old) new st = Inr st1" "log_ok st1" "appenders_private st1"
    "\<And>n. logger_view st1 n = (case by_name new n of None \<Rightarrow> logger_view st n | Some i \<Rightarrow> ?g i (logger_view st n))"
    using each_define_view [of new ?g "apply_define old" st] apply_define_step sorted_defines assms
    by (auto simp: list_all_iff)
  obtain st2 where st2: "each_define (drop_define new) old st1 = Inr st2" "log_ok st2" "appenders_private st2"
    "\<And>n. logger_view st2 n = (case by_name old n of None \<Rightarrow> logger_view st1 n | Some i \<Rightarrow> ?h i (logger_view st1 n))"
    using each_define_view [of old ?h "drop_define new" st1] drop_define_step sorted_defines assms(3) st1(2,3)
    by auto
  have "logger_view st2 n = reloaded old new n (logger_view st n)" for n
    using st1(4) [of n] st2(4) [of n] find_define_by_name [OF assms(3)] find_define_by_name [OF assms(4)]
    by (auto simp: reloaded_def dest: by_name_name split: option.splits)
  then show ?thesis using st1(1) st2 by (auto simp: on_logger_conf_changed_def)
qed

definition demo_defines :: "LogDefine list" where
  "demo_defines = [\<lparr>ld_name = ''system'', ld_level = WARN, ld_formatter = ''%m%n'',
     ld_appenders = [\<lparr>lad_type = 2, lad_level = DEBUG, lad_formatter = ''%d'', lad_file = []\<rparr>,
                     \<lparr>lad_type = 1, lad_level = INFO, lad_formatter = [], lad_file = ''log.txt''\<rparr>]\<rparr>]"

theorem log_reload_exact_witness:
  "\<exists>st'. on_logger_conf_changed [] demo_defines (new_LoggerManager (\<lambda>f. True) (\<lambda>f. True)) = Inr st'
     \<and> logger_view st' ''system'' = Some (WARN, Some (new_LogFormatter ''%m%n''),
         [Some (StdoutLogAppender, [], DEBUG, Some (new_LogFormatter ''%d'')),
          Some (FileLogAppender, ''log.txt'', INFO, Some (new_LogFormatter ''%m%n''))])"
proof -
  have e: "\<not> lf_error (new_LogFormatter ''%m%n'')" "\<not> lf_error (new_LogFormatter ''%d'')" by code_simp+
  have "\<exists>st'. on_logger_conf_changed [] demo_defines (new_LoggerManager (\<lambda>f. True) (\<lambda>f. True)) = Inr st'
     \<and> log_ok st' \<and> appenders_private st'
     \<and> (\<forall>n. logger_view st' n = reloaded [] demo_defines n (logger_view (new_LoggerManager (\<lambda>f. True) (\<lambda>f. True)) n))"
    by (rule log_reload_exact [OF log_ok_new_LoggerManager appenders_private_new_LoggerManager])
      (simp_all add: demo_defines_def appender_type_ok_def)
  then show ?thesis
    using e by (auto simp: reloaded_def demo_defines_def applied_def Let_def chosen_def defined_appender_def)
qed

text \<open>
A new formatter of a logger replaces the formatter of every appender it has, those that were
given one of their own included: nothing ever records that an appender has one.
\<close>
theorem appender_formatter_lost:
  assumes "log_ok st" and "ls_loggers st l = Some lg" and "a \<in> set (lg_appenders lg)"
    and "ls_appenders st a = Some ap" and "own \<noteq> None"
  shows "\<exists>st'. Logger_setFormatter (set_appender st a (LogAppender_setFormatter ap own)) l (Some f) = Inr st'
     \<and> map_option ap_formatter (ls_appenders st' a) = Some (Some f)"
proof -
  let ?st = "set_appender st a (LogAppender_setFormatter ap own)"
  have "log_ok ?st"
    using log_okD(5) [OF assms(1,4)] assms(5) log_ok_set_appender [OF assms(1)]
    by (simp add: LogAppender_setFormatter_def)
  moreover have l: "ls_loggers ?st l = Some lg" using assms(2) by (simp add: set_appender_def)
  ultimately have "log_ok (set_logger ?st l (lg\<lparr>lg_formatter := Some f\<rparr>))"
    using log_ok_set_logger [of ?st l lg "lg\<lparr>lg_formatter := Some f\<rparr>"] log_okD(3) [of ?st l lg]
    by (simp add: logger_ok_def)
  then show ?thesis
    using fold_set_default_formatter [of "set_logger ?st l (lg\<lparr>lg_formatter := Some f\<rparr>)" "Some f" "lg_appenders lg"] l assms(3)
    by (simp add: Logger_setFormatter_def set_logger_def set_appender_def LogAppender_setFormatter_def)
qed

theorem appender_formatter_lost_witness:
  "\<exists>st'. Logger_setFormatter (set_appender (new_LoggerManager (\<lambda>f. True) (\<lambda>f. True)) 1
        (LogAppender_setFormatter (LogAppender_setFormatter (new_LogAppender StdoutLogAppender [])
           (Some (new_LogFormatter default_pattern))) (Some (new_LogFormatter ''%p %m'')))) 0 (Some (new_LogFormatter ''%m'')) = Inr st'
     \<and> map_option ap_formatter (ls_appenders st' 1) = Some (Some (new_LogFormatter ''%m''))"
  by (rule appender_formatter_lost [OF log_ok_new_LoggerManager, where lg = "(new_Logger ''root'')\<lparr>lg_appenders := [1]\<rparr>"])
    (simp_all add: new_LoggerManager_def Let_def new_Logger_def)

text \<open>A sequence of events at one appender; each comes with what the file system allows at its time.\<close>

type_synonym file_event = "(string \<Rightarrow> bool) \<times> (string \<Rightarrow> bool) \<times> LogLevel \<times> LogEvent"

fun appender_logs ::
  "(string \<Rightarrow> u64 \<Rightarrow> string) \<Rightarrow> nat \<Rightarrow> file_event list \<Rightarrow> log_state \<Rightarrow> log_fault + log_state" where
  "appender_logs strftime a [] st = Inr st"
| "appender_logs strftime a ((can_open, can_write, level, event) # es) st =
     result_bind (LogAppender_log strftime level event a (st\<lparr>ls_can_open := can_open, ls_can_write := can_write\<rparr>))
       (appender_logs strftime a es)"

definition appender_stuck :: "log_state \<Rightarrow> nat \<Rightarrow> bool" where
  "appender_stuck st a \<longleftrightarrow> (\<exists>ap. ls_appenders st a = Some ap \<and> ap_class ap = FileLogAppender
     \<and> ap_formatter ap \<noteq> None \<and> ap_is_open ap \<and> \<not> ap_good ap)"

lemma stuck_log:
  assumes "appender_stuck st a"
  shows "\<exists>st'. LogAppender_log strftime level event a (st\<lparr>ls_can_open := c, ls_can_write := w\<rparr>) = Inr st'
     \<and> appender_stuck st' a \<and> ls_out st' = ls_out st"
  using assms
  by (auto simp: appender_stuck_def LogAppender_log_def FileLogAppender_log_def FileLogAppender_reopen_def Let_def set_appender_def)

lemma stuck_logs:
  "appender_stuck st a \<Longrightarrow> \<exists>st'. appender_logs strftime a es st = Inr st' \<and> ls_out st' = ls_out st"
proof (induction es arbitrary: st)
  case (Cons e es)
  obtain c w level event where e: "e = (c, w, level, event)" by (cases e)
  show ?case using stuck_log [OF Cons.prems, where strftime = strftime and level = level and event = event and c = c and w = w]
      Cons.IH e by fastforce
qed simp

text \<open>
One failed write silences a file appender for good: the stream is left in an error state, in
which \<open>reopen\<close> does not close the file, so that opening it again fails; nothing is printed however
many events follow and whatever the file system then allows.
\<close>
theorem file_appender_never_recovers:
  assumes "ls_appenders st a = Some ap" and "ap_class ap = FileLogAppender" and "ap_formatter ap \<noteq> None"
    and "ap_is_open ap" and "ap_good ap" and "ap_level ap \<le> level"
    and "can_open (ap_filename ap)" and "\<not> can_write (ap_filename ap)"
  shows "\<exists>st'. appender_logs strftime a ((can_open, can_write, level, event) # es) st = Inr st'
     \<and> ls_out st' = ls_out st"
proof -
  have "\<exists>st1. LogAppender_log strftime level event a (st\<lparr>ls_can_open := can_open, ls_can_write := can_write\<rparr>) = Inr st1
     \<and> appender_stuck st1 a \<and> ls_out st1 = ls_out st"
    using assms
    by (auto simp: appender_stuck_def LogAppender_log_def FileLogAppender_log_def FileLogAppender_reopen_def Let_def set_appender_def)
  then show ?thesis using stuck_logs by fastforce
qed

definition demo_file_state :: log_state where
  "demo_file_state = set_appender (new_LoggerManager (\<lambda>f. True) (\<lambda>f. True)) 1
     (LogAppender_setFormatter (new_FileLogAppender (\<lambda>f. True) ''log.txt'') (Some (new_LogFormatter ''%m%n'')))"

theorem file_appender_never_recovers_witness:
  "\<exists>st'. appender_logs demo_strftime 1 [(\<lambda>f. True, \<lambda>f. False, INFO, demo_event), (\<lambda>f. True, \<lambda>f. True, INFO, demo_event)]
     demo_file_state = Inr st' \<and> ls_out st' = ls_out demo_file_state"
  by (rule file_appender_never_recovers [where ap = "LogAppender_setFormatter (new_FileLogAppender (\<lambda>f. True) ''log.txt'')
       (Some (new_LogFormatter ''%m%n''))"])
    (simp_all add: demo_file_state_def set_appender_def new_FileLogAppender_def new_LogAppender_def
      LogAppender_setFormatter_def FileLogAppender_reopen_def Let_def level_defs)

end
