(* ===== verification/Socket.thy ===== *)
theory Socket
  imports Address Hook
begin

text \<open>
  Sockets (\<open>src/megalo/socket.h\<close>, \<open>socket.cc\<close>).

  The system calls behind the socket, hooked or not, the descriptor manager and the cancellation of
  events are the parameter \<open>sys\<close>, over a state \<open>'w\<close> that stands for the rest of the program and the
  kernel.  A call that fills memory returns the bytes.  \<open>getpeername\<close> and \<open>getsockname\<close> are given
  the fresh address object and return it filled, with its length.  Log lines are left out.
\<close>

section \<open>System calls\<close>

datatype sockopt = OptInt i32 | OptTimeval i64 i64

record 'w sys =
  sys_socket :: "int \<Rightarrow> int \<Rightarrow> int \<Rightarrow> 'w \<Rightarrow> int \<times> 'w"
  sys_close :: "int \<Rightarrow> 'w \<Rightarrow> 'w"
  sys_accept :: "int \<Rightarrow> 'w \<Rightarrow> int \<times> 'w"
  sys_bind :: "int \<Rightarrow> u8 list \<Rightarrow> nat \<Rightarrow> 'w \<Rightarrow> int \<times> 'w"
  sys_connect :: "int \<Rightarrow> u8 list \<Rightarrow> nat \<Rightarrow> 'w \<Rightarrow> int \<times> 'w"
  sys_connect_with_timeout :: "int \<Rightarrow> u8 list \<Rightarrow> nat \<Rightarrow> u64 \<Rightarrow> 'w \<Rightarrow> int \<times> 'w"
  sys_listen :: "int \<Rightarrow> int \<Rightarrow> 'w \<Rightarrow> int \<times> 'w"
  sys_send :: "int \<Rightarrow> u8 list \<Rightarrow> int \<Rightarrow> 'w \<Rightarrow> int \<times> 'w"
  sys_sendmsg :: "int \<Rightarrow> u8 list list \<Rightarrow> (u8 list \<times> nat) option \<Rightarrow> int \<Rightarrow> 'w \<Rightarrow> int \<times> 'w"
  sys_sendto :: "int \<Rightarrow> u8 list \<Rightarrow> int \<Rightarrow> u8 list \<Rightarrow> nat \<Rightarrow> 'w \<Rightarrow> int \<times> 'w"
  sys_recv :: "int \<Rightarrow> nat \<Rightarrow> int \<Rightarrow> 'w \<Rightarrow> (int \<times> u8 list) \<times> 'w"
  sys_recvmsg :: "int \<Rightarrow> nat list \<Rightarrow> int \<Rightarrow> 'w \<Rightarrow> (int \<times> u8 list) \<times> 'w"
  sys_recvfrom :: "int \<Rightarrow> nat \<Rightarrow> int \<Rightarrow> Address \<Rightarrow> 'w \<Rightarrow> (int \<times> u8 list \<times> Address) \<times> 'w"
  sys_recvmsg_from :: "int \<Rightarrow> nat list \<Rightarrow> int \<Rightarrow> Address \<Rightarrow> 'w \<Rightarrow> (int \<times> u8 list \<times> Address) \<times> 'w"
  sys_getpeername :: "int \<Rightarrow> Address \<Rightarrow> 'w \<Rightarrow> (Address \<times> u32) option \<times> 'w"
  sys_getsockname :: "int \<Rightarrow> Address \<Rightarrow> 'w \<Rightarrow> (Address \<times> u32) option \<times> 'w"
  sys_setsockopt :: "int \<Rightarrow> int \<Rightarrow> int \<Rightarrow> sockopt \<Rightarrow> 'w \<Rightarrow> int \<times> 'w"
  sys_getsockopt :: "int \<Rightarrow> int \<Rightarrow> int \<Rightarrow> sockopt \<Rightarrow> 'w \<Rightarrow> (int \<times> sockopt) \<times> 'w"
  sys_errno :: "'w \<Rightarrow> int"
  sys_fdctx :: "int \<Rightarrow> 'w \<Rightarrow> FdCtx option"
  sys_cancelEvent :: "int \<Rightarrow> u32 \<Rightarrow> 'w \<Rightarrow> bool \<times> 'w"
  sys_cancelAll :: "int \<Rightarrow> 'w \<Rightarrow> bool \<times> 'w"

definition SOCK_STREAM :: int where "SOCK_STREAM = 1"
definition SOCK_DGRAM :: int where "SOCK_DGRAM = 2"
definition SO_REUSEADDR :: int where "SO_REUSEADDR = 2"
definition SO_ERROR :: int where "SO_ERROR = 4"
definition SOMAXCONN :: int where "SOMAXCONN = 128"
definition IPPROTO_TCP :: int where "IPPROTO_TCP = 6"
definition TCP_NODELAY :: int where "TCP_NODELAY = 1"



section \<open>State\<close>

definition TCP :: int where "TCP = SOCK_STREAM"
definition UDP :: int where "UDP = SOCK_DGRAM"
definition IPv4 :: int where "IPv4 = uint AF_INET"
definition IPv6 :: int where "IPv6 = uint AF_INET6"
definition UNIX :: int where "UNIX = uint AF_UNIX"

record Socket =
  sk_sock :: int
  sk_family :: int
  sk_type :: int
  sk_protocol :: int
  sk_isConnected :: bool
  sk_localAddress :: "Address option"
  sk_remoteAddress :: "Address option"

definition new_Socket :: "int \<Rightarrow> int \<Rightarrow> int \<Rightarrow> Socket" where
  "new_Socket family type protocol =
     \<lparr> sk_sock = -1, sk_family = family, sk_type = type, sk_protocol = protocol, sk_isConnected = False,
       sk_localAddress = None, sk_remoteAddress = None \<rparr>"

definition isValid :: "Socket \<Rightarrow> bool" where
  "isValid s \<longleftrightarrow> sk_sock s \<noteq> -1"

section \<open>Options\<close>

definition Socket_setOption :: "'w sys \<Rightarrow> Socket \<Rightarrow> int \<Rightarrow> int \<Rightarrow> sockopt \<Rightarrow> 'w \<Rightarrow> bool \<times> 'w" where
  "Socket_setOption os s level option value w =
     (case sys_setsockopt os (sk_sock s) level option value w of (rt, w') \<Rightarrow> (rt = 0, w'))"

definition Socket_getOption :: "'w sys \<Rightarrow> Socket \<Rightarrow> int \<Rightarrow> int \<Rightarrow> sockopt \<Rightarrow> 'w \<Rightarrow> (bool \<times> sockopt) \<times> 'w" where
  "Socket_getOption os s level option value w =
     (case sys_getsockopt os (sk_sock s) level option value w of ((rt, v), w') \<Rightarrow> ((rt = 0, v), w'))"

text \<open>Division and remainder of C, and the conversion of a result to \<open>int\<close>.\<close>

definition timeout_value :: "i64 \<Rightarrow> sockopt" where
  "timeout_value v =
     (let n = sint v; q = sgn n * (\<bar>n\<bar> div 1000); r = sgn n * (\<bar>n\<bar> mod 1000) * 1000 in
      OptTimeval (scast (word_of_int q :: i32)) (scast (word_of_int r :: i32)))"

definition Socket_getSendTimeout :: "'w sys \<Rightarrow> Socket \<Rightarrow> 'w \<Rightarrow> u64" where
  "Socket_getSendTimeout os s w =
     (case sys_fdctx os (sk_sock s) w of Some ctx \<Rightarrow> FdCtx_getTimeout ctx SO_SNDTIMEO | None \<Rightarrow> - 1)"

definition Socket_setSendTimeout :: "'w sys \<Rightarrow> Socket \<Rightarrow> i64 \<Rightarrow> 'w \<Rightarrow> 'w" where
  "Socket_setSendTimeout os s v w = snd (Socket_setOption os s SOL_SOCKET SO_SNDTIMEO (timeout_value v) w)"

definition Socket_getRecvTimeout :: "'w sys \<Rightarrow> Socket \<Rightarrow> 'w \<Rightarrow> u64" where
  "Socket_getRecvTimeout os s w =
     (case sys_fdctx os (sk_sock s) w of Some ctx \<Rightarrow> FdCtx_getTimeout ctx SO_RCVTIMEO | None \<Rightarrow> - 1)"

definition Socket_setRecvTimeout :: "'w sys \<Rightarrow> Socket \<Rightarrow> i64 \<Rightarrow> 'w \<Rightarrow> 'w" where
  "Socket_setRecvTimeout os s v w = snd (Socket_setOption os s SOL_SOCKET SO_RCVTIMEO (timeout_value v) w)"

definition Socket_getError :: "'w sys \<Rightarrow> Socket \<Rightarrow> 'w \<Rightarrow> int \<times> 'w" where
  "Socket_getError os s w =
     (case Socket_getOption os s SOL_SOCKET SO_ERROR (OptInt 0) w of ((ok, v), w') \<Rightarrow>
        (if ok then (case v of OptInt e \<Rightarrow> sint e | OptTimeval _ _ \<Rightarrow> 0) else sys_errno os w', w'))"

definition initSock :: "'w sys \<Rightarrow> Socket \<Rightarrow> 'w \<Rightarrow> 'w" where
  "initSock os s w =
     (let w1 = snd (Socket_setOption os s SOL_SOCKET SO_REUSEADDR (OptInt 1) w) in
      if sk_type s = SOCK_STREAM then snd (Socket_setOption os s IPPROTO_TCP TCP_NODELAY (OptInt 1) w1) else w1)"

definition newSock :: "'w sys \<Rightarrow> Socket \<Rightarrow> 'w \<Rightarrow> Socket \<times> 'w" where
  "newSock os s w =
     (case sys_socket os (sk_family s) (sk_type s) (sk_protocol s) w of (fd, w1) \<Rightarrow>
        let s1 = s\<lparr>sk_sock := fd\<rparr> in (s1, if fd \<noteq> -1 then initSock os s1 w1 else w1))"

section \<open>Creation\<close>

definition CreateTCP :: "Address \<Rightarrow> Socket" where
  "CreateTCP address = new_Socket (uint (Address_getFamily address)) TCP 0"

definition CreateUDP :: "'w sys \<Rightarrow> Address \<Rightarrow> 'w \<Rightarrow> Socket \<times> 'w" where
  "CreateUDP os address w =
     (case newSock os (new_Socket (uint (Address_getFamily address)) UDP 0) w of
        (s, w1) \<Rightarrow> (s\<lparr>sk_isConnected := True\<rparr>, w1))"

definition CreateTCPSocket :: Socket where
  "CreateTCPSocket = new_Socket IPv4 TCP 0"

definition CreateUDPSocket :: "'w sys \<Rightarrow> 'w \<Rightarrow> Socket \<times> 'w" where
  "CreateUDPSocket os w =
     (case newSock os (new_Socket IPv4 UDP 0) w of (s, w1) \<Rightarrow> (s\<lparr>sk_isConnected := True\<rparr>, w1))"

definition CreateTCPSocket6 :: Socket where
  "CreateTCPSocket6 = new_Socket IPv6 TCP 0"

definition CreateUDPSocket6 :: "'w sys \<Rightarrow> 'w \<Rightarrow> Socket \<times> 'w" where
  "CreateUDPSocket6 os w =
     (case newSock os (new_Socket IPv6 UDP 0) w of (s, w1) \<Rightarrow> (s\<lparr>sk_isConnected := True\<rparr>, w1))"

definition CreateUnixTCPSocket :: Socket where
  "CreateUnixTCPSocket = new_Socket UNIX TCP 0"

definition CreateUnixUDPSocket :: Socket where
  "CreateUnixUDPSocket = new_Socket UNIX UDP 0"

section \<open>Addresses of the two ends\<close>

definition new_UnknownAddress :: "int \<Rightarrow> Address" where
  "new_UnknownAddress family = UnknownAddress (word_of_int family) (replicate 14 0)"

definition fresh_address :: "int \<Rightarrow> Address" where
  "fresh_address family =
     (if family = uint AF_INET then new_IPv4Address 0 0
      else if family = uint AF_INET6 then new_IPv6Address
      else if family = uint AF_UNIX then new_UnixAddress
      else new_UnknownAddress family)"

definition getRemoteAddress :: "'w sys \<Rightarrow> Socket \<Rightarrow> 'w \<Rightarrow> Address \<times> Socket \<times> 'w" where
  "getRemoteAddress os s w =
     (case sk_remoteAddress s of
        Some a \<Rightarrow> (a, s, w)
      | None \<Rightarrow> (case sys_getpeername os (sk_sock s) (fresh_address (sk_family s)) w of
          (None, w1) \<Rightarrow> (new_UnknownAddress (sk_family s), s, w1)
        | (Some (result, addrlen), w1) \<Rightarrow>
            let a = (if sk_family s = uint AF_UNIX then UnixAddress_setAddrLen result addrlen else result)
            in (a, s\<lparr>sk_remoteAddress := Some a\<rparr>, w1)))"

definition getLocalAddress :: "'w sys \<Rightarrow> Socket \<Rightarrow> 'w \<Rightarrow> Address \<times> Socket \<times> 'w" where
  "getLocalAddress os s w =
     (case sk_localAddress s of
        Some a \<Rightarrow> (a, s, w)
      | None \<Rightarrow> (case sys_getsockname os (sk_sock s) (fresh_address (sk_family s)) w of
          (None, w1) \<Rightarrow> (new_UnknownAddress (sk_family s), s, w1)
        | (Some (result, addrlen), w1) \<Rightarrow>
            let a = (if sk_family s = uint AF_UNIX then UnixAddress_setAddrLen result addrlen else result)
            in (a, s\<lparr>sk_localAddress := Some a\<rparr>, w1)))"

section \<open>Connections\<close>

definition Socket_close :: "'w sys \<Rightarrow> Socket \<Rightarrow> 'w \<Rightarrow> bool \<times> Socket \<times> 'w" where
  "Socket_close os s w =
     (if \<not> sk_isConnected s \<and> sk_sock s = -1 then (True, s, w)
      else if sk_sock s \<noteq> -1
      then (False, s\<lparr>sk_isConnected := False, sk_sock := -1\<rparr>, sys_close os (sk_sock s) w)
      else (False, s\<lparr>sk_isConnected := False\<rparr>, w))"

text \<open>The destructor.\<close>

definition Socket_destruct :: "'w sys \<Rightarrow> Socket \<Rightarrow> 'w \<Rightarrow> 'w" where
  "Socket_destruct os s w = snd (snd (Socket_close os s w))"

definition Socket_init :: "'w sys \<Rightarrow> Socket \<Rightarrow> int \<Rightarrow> 'w \<Rightarrow> bool \<times> Socket \<times> 'w" where
  "Socket_init os s sock w =
     (case sys_fdctx os sock w of
        None \<Rightarrow> (False, s, w)
      | Some ctx \<Rightarrow>
          if fd_isSocket ctx \<and> \<not> fd_isClosed ctx then
            (let s1 = s\<lparr>sk_sock := sock, sk_isConnected := True\<rparr>;
                 w1 = initSock os s1 w;
                 (_, s2, w2) = getLocalAddress os s1 w1;
                 (_, s3, w3) = getRemoteAddress os s2 w2
             in (True, s3, w3))
          else (False, s, w))"

text \<open>The new socket is destroyed when \<open>init\<close> rejects it; it does not hold the descriptor then.\<close>

definition Socket_accept :: "'w sys \<Rightarrow> Socket \<Rightarrow> 'w \<Rightarrow> Socket option \<times> 'w" where
  "Socket_accept os s w =
     (let sock = new_Socket (sk_family s) (sk_type s) (sk_protocol s) in
      case sys_accept os (sk_sock s) w of (newsock, w1) \<Rightarrow>
        if newsock = -1 then (None, Socket_destruct os sock w1)
        else (case Socket_init os sock newsock w1 of
          (ok, sock1, w2) \<Rightarrow> if ok then (Some sock1, w2) else (None, Socket_destruct os sock1 w2)))"

definition ensure_sock :: "'w sys \<Rightarrow> Socket \<Rightarrow> 'w \<Rightarrow> Socket \<times> 'w" where
  "ensure_sock os s w = (if isValid s then (s, w) else newSock os s w)"

definition Socket_bind :: "'w sys \<Rightarrow> Socket \<Rightarrow> Address \<Rightarrow> 'w \<Rightarrow> bool \<times> Socket \<times> 'w" where
  "Socket_bind os s addr w =
     (case ensure_sock os s w of (s1, w1) \<Rightarrow>
        if \<not> isValid s1 then (False, s1, w1)
        else if uint (Address_getFamily addr) \<noteq> sk_family s1 then (False, s1, w1)
        else (case sys_bind os (sk_sock s1) (Address_getAddr addr) (Address_getAddrLen addr) w1 of (rt, w2) \<Rightarrow>
          if rt \<noteq> 0 then (False, s1, w2)
          else (case getLocalAddress os s1 w2 of (_, s2, w3) \<Rightarrow> (True, s2, w3))))"

definition Socket_connect :: "'w sys \<Rightarrow> Socket \<Rightarrow> Address \<Rightarrow> u64 \<Rightarrow> 'w \<Rightarrow> bool \<times> Socket \<times> 'w" where
  "Socket_connect os s addr timeout_ms w =
     (case ensure_sock os (s\<lparr>sk_remoteAddress := Some addr\<rparr>) w of (s1, w1) \<Rightarrow>
        if \<not> isValid s1 then (False, s1, w1)
        else if uint (Address_getFamily addr) \<noteq> sk_family s1 then (False, s1, w1)
        else (case (if timeout_ms = -1
                    then sys_connect os (sk_sock s1) (Address_getAddr addr) (Address_getAddrLen addr) w1
                    else sys_connect_with_timeout os (sk_sock s1) (Address_getAddr addr) (Address_getAddrLen addr) timeout_ms w1)
              of (rt, w2) \<Rightarrow>
          if rt \<noteq> 0 then (case Socket_close os s1 w2 of (_, s2, w3) \<Rightarrow> (False, s2, w3))
          else
            (let (_, s2, w3) = getRemoteAddress os (s1\<lparr>sk_isConnected := True\<rparr>) w2;
                 (_, s3, w4) = getLocalAddress os s2 w3
             in (True, s3, w4))))"

definition Socket_reconnect :: "'w sys \<Rightarrow> Socket \<Rightarrow> u64 \<Rightarrow> 'w \<Rightarrow> bool \<times> Socket \<times> 'w" where
  "Socket_reconnect os s timeout_ms w =
     (case sk_remoteAddress s of
        None \<Rightarrow> (False, s, w)
      | Some a \<Rightarrow> Socket_connect os (s\<lparr>sk_localAddress := None\<rparr>) a timeout_ms w)"

definition Socket_listen :: "'w sys \<Rightarrow> Socket \<Rightarrow> int \<Rightarrow> 'w \<Rightarrow> bool \<times> 'w" where
  "Socket_listen os s backlog w =
     (if \<not> isValid s then (False, w)
      else (case sys_listen os (sk_sock s) backlog w of (rt, w1) \<Rightarrow> (rt = 0, w1)))"

section \<open>Data\<close>

definition Socket_send :: "'w sys \<Rightarrow> Socket \<Rightarrow> u8 list \<Rightarrow> int \<Rightarrow> 'w \<Rightarrow> int \<times> 'w" where
  "Socket_send os s buffer flags w =
     (if sk_isConnected s then sys_send os (sk_sock s) buffer flags w else (-1, w))"

definition Socket_send_iov :: "'w sys \<Rightarrow> Socket \<Rightarrow> u8 list list \<Rightarrow> int \<Rightarrow> 'w \<Rightarrow> int \<times> 'w" where
  "Socket_send_iov os s buffers flags w =
     (if sk_isConnected s then sys_sendmsg os (sk_sock s) buffers None flags w else (-1, w))"

definition Socket_sendTo :: "'w sys \<Rightarrow> Socket \<Rightarrow> u8 list \<Rightarrow> Address \<Rightarrow> int \<Rightarrow> 'w \<Rightarrow> int \<times> 'w" where
  "Socket_sendTo os s buffer to flags w =
     (if sk_isConnected s
      then sys_sendto os (sk_sock s) buffer flags (Address_getAddr to) (Address_getAddrLen to) w else (-1, w))"

definition Socket_sendTo_iov :: "'w sys \<Rightarrow> Socket \<Rightarrow> u8 list list \<Rightarrow> Address \<Rightarrow> int \<Rightarrow> 'w \<Rightarrow> int \<times> 'w" where
  "Socket_sendTo_iov os s buffers to flags w =
     (if sk_isConnected s
      then sys_sendmsg os (sk_sock s) buffers (Some (Address_getAddr to, Address_getAddrLen to)) flags w else (-1, w))"

definition Socket_recv :: "'w sys \<Rightarrow> Socket \<Rightarrow> nat \<Rightarrow> int \<Rightarrow> 'w \<Rightarrow> (int \<times> u8 list) \<times> 'w" where
  "Socket_recv os s len flags w =
     (if sk_isConnected s then sys_recv os (sk_sock s) len flags w else ((-1, []), w))"

text \<open>Scattered over buffers of the given lengths.\<close>

definition Socket_recv_iov :: "'w sys \<Rightarrow> Socket \<Rightarrow> nat list \<Rightarrow> int \<Rightarrow> 'w \<Rightarrow> (int \<times> u8 list) \<times> 'w" where
  "Socket_recv_iov os s lens flags w =
     (if sk_isConnected s then sys_recvmsg os (sk_sock s) lens flags w else ((-1, []), w))"

definition Socket_recvFrom ::
  "'w sys \<Rightarrow> Socket \<Rightarrow> nat \<Rightarrow> Address \<Rightarrow> int \<Rightarrow> 'w \<Rightarrow> (int \<times> u8 list \<times> Address) \<times> 'w" where
  "Socket_recvFrom os s len from flags w =
     (if sk_isConnected s then sys_recvfrom os (sk_sock s) len flags from w else ((-1, [], from), w))"

definition Socket_recvFrom_iov ::
  "'w sys \<Rightarrow> Socket \<Rightarrow> nat list \<Rightarrow> Address \<Rightarrow> int \<Rightarrow> 'w \<Rightarrow> (int \<times> u8 list \<times> Address) \<times> 'w" where
  "Socket_recvFrom_iov os s lens from flags w =
     (if sk_isConnected s then sys_recvmsg_from os (sk_sock s) lens flags from w else ((-1, [], from), w))"

section \<open>Cancelling, printing\<close>

definition cancelRead :: "'w sys \<Rightarrow> Socket \<Rightarrow> 'w \<Rightarrow> bool \<times> 'w" where
  "cancelRead os s w = sys_cancelEvent os (sk_sock s) READ_event w"

definition cancelWrite :: "'w sys \<Rightarrow> Socket \<Rightarrow> 'w \<Rightarrow> bool \<times> 'w" where
  "cancelWrite os s w = sys_cancelEvent os (sk_sock s) WRITE_event w"

definition cancelAccept :: "'w sys \<Rightarrow> Socket \<Rightarrow> 'w \<Rightarrow> bool \<times> 'w" where
  "cancelAccept os s w = sys_cancelEvent os (sk_sock s) READ_event w"

definition Socket_cancelAll :: "'w sys \<Rightarrow> Socket \<Rightarrow> 'w \<Rightarrow> bool \<times> 'w" where
  "Socket_cancelAll os s w = sys_cancelAll os (sk_sock s) w"

definition int_text :: "int \<Rightarrow> string" where
  "int_text n = (if n < 0 then CHR ''-'' # nat_text 10 (nat (- n)) else nat_text 10 (nat n))"

definition Socket_toString :: "Socket \<Rightarrow> string" where
  "Socket_toString s =
     ''[Socket sock='' @ int_text (sk_sock s)
     @ '' is_connected='' @ (if sk_isConnected s then ''1'' else ''0'')
     @ '' family='' @ int_text (sk_family s)
     @ '' type='' @ int_text (sk_type s)
     @ '' protocol='' @ int_text (sk_protocol s)
     @ (case sk_localAddress s of Some a \<Rightarrow> '' local_address='' @ Address_toString a | None \<Rightarrow> [])
     @ (case sk_remoteAddress s of Some a \<Rightarrow> '' remote_address='' @ Address_toString a | None \<Rightarrow> [])
     @ '']''"

end
