(* ===== verification/SocketProps.thy ===== *)
theory SocketProps
  imports Socket
begin

text \<open>
  Who owns a descriptor: a socket opens at most one at a time, closes every one it has opened
  exactly once and no other.  The system calls are arbitrary; a wrapper records which descriptors
  are made and which are closed.
\<close>

section \<open>Recording\<close>

datatype fd_event = Opened int | Closed int

definition lift :: "('w \<Rightarrow> 'r \<times> 'w) \<Rightarrow> 'w \<times> fd_event list \<Rightarrow> 'r \<times> 'w \<times> fd_event list" where
  "lift f x = (case f (fst x) of (r, w) \<Rightarrow> (r, w, snd x))"

definition lift_open :: "('w \<Rightarrow> int \<times> 'w) \<Rightarrow> 'w \<times> fd_event list \<Rightarrow> int \<times> 'w \<times> fd_event list" where
  "lift_open f x = (case f (fst x) of (r, w) \<Rightarrow> (r, w, if r \<noteq> -1 then snd x @ [Opened r] else snd x))"

definition traced :: "'w sys \<Rightarrow> ('w \<times> fd_event list) sys" where
  "traced os =
     \<lparr> sys_socket = (\<lambda>f t p. lift_open (sys_socket os f t p)),
       sys_close = (\<lambda>fd (w, tr). (sys_close os fd w, tr @ [Closed fd])),
       sys_accept = (\<lambda>fd. lift_open (sys_accept os fd)), sys_bind = (\<lambda>fd a n. lift (sys_bind os fd a n)),
       sys_connect = (\<lambda>fd a n. lift (sys_connect os fd a n)),
       sys_connect_with_timeout = (\<lambda>fd a n t. lift (sys_connect_with_timeout os fd a n t)),
       sys_listen = (\<lambda>fd n. lift (sys_listen os fd n)), sys_send = (\<lambda>fd bs f. lift (sys_send os fd bs f)),
       sys_sendmsg = (\<lambda>fd bs a f. lift (sys_sendmsg os fd bs a f)),
       sys_sendto = (\<lambda>fd bs f a n. lift (sys_sendto os fd bs f a n)),
       sys_recv = (\<lambda>fd n f. lift (sys_recv os fd n f)), sys_recvmsg = (\<lambda>fd ns f. lift (sys_recvmsg os fd ns f)),
       sys_recvfrom = (\<lambda>fd n f a. lift (sys_recvfrom os fd n f a)),
       sys_recvmsg_from = (\<lambda>fd ns f a. lift (sys_recvmsg_from os fd ns f a)),
       sys_getpeername = (\<lambda>fd a. lift (sys_getpeername os fd a)),
       sys_getsockname = (\<lambda>fd a. lift (sys_getsockname os fd a)),
       sys_setsockopt = (\<lambda>fd l n v. lift (sys_setsockopt os fd l n v)),
       sys_getsockopt = (\<lambda>fd l n v. lift (sys_getsockopt os fd l n v)), sys_errno = (\<lambda>x. sys_errno os (fst x)),
       sys_fdctx = (\<lambda>fd x. sys_fdctx os fd (fst x)), sys_cancelEvent = (\<lambda>fd e. lift (sys_cancelEvent os fd e)),
       sys_cancelAll = (\<lambda>fd. lift (sys_cancelAll os fd)) \<rparr>"

text \<open>A descriptor after the other, each closed before the next is made; the last may be open.\<close>

definition closed_each :: "int list \<Rightarrow> fd_event list" where
  "closed_each fds = concat (map (\<lambda>fd. [Opened fd, Closed fd]) fds)"

definition owns_one :: "Socket \<Rightarrow> fd_event list \<Rightarrow> bool" where
  "owns_one s tr \<longleftrightarrow> (\<exists>fds. tr = closed_each fds @ (if sk_sock s = -1 then [] else [Opened (sk_sock s)]))"

lemma closed_each_snoc: "closed_each fds @ [Opened fd, Closed fd] = closed_each (fds @ [fd])"
  by (simp add: closed_each_def)

section \<open>Steps\<close>

text \<open>Calls that neither make nor close a descriptor.\<close>

lemma snd_lift [simp]: "snd (snd (lift f x)) = snd x"
  by (simp add: lift_def split: prod.split)

lemma initSock_trace [simp]: "snd (initSock (traced os) s x) = snd x"
  by (simp add: initSock_def Socket_setOption_def traced_def Let_def lift_def split: prod.split)

lemma address_trace:
  "getLocalAddress (traced os) s x = (a, s', x') \<Longrightarrow> snd x' = snd x \<and> sk_sock s' = sk_sock s"
  "getRemoteAddress (traced os) s x = (a, s', x') \<Longrightarrow> snd x' = snd x \<and> sk_sock s' = sk_sock s"
  by (auto simp: getLocalAddress_def getRemoteAddress_def traced_def lift_def Let_def split: option.splits prod.splits)

lemma close_owns:
  assumes "owns_one s (snd x)" and "Socket_close (traced os) s x = (r, s', x')"
  shows "owns_one s' (snd x') \<and> sk_sock s' = -1"
  using assms closed_each_snoc
  by (fastforce simp: Socket_close_def owns_one_def traced_def split: if_splits prod.splits)

lemma ensure_sock_owns:
  assumes "owns_one s (snd x)" and "ensure_sock (traced os) s x = (s', x')"
  shows "owns_one s' (snd x')"
  using assms
  by (auto simp: ensure_sock_def isValid_def newSock_def owns_one_def Let_def traced_def [of os] lift_open_def
      split: if_splits prod.splits)
    (metis initSock_trace snd_conv traced_def)+

lemma traced_calls [simp]:
  "sys_bind (traced os) fd a n = lift (sys_bind os fd a n)"
  "sys_connect (traced os) fd a n = lift (sys_connect os fd a n)"
  "sys_connect_with_timeout (traced os) fd a n t = lift (sys_connect_with_timeout os fd a n t)"
  "sys_listen (traced os) fd m = lift (sys_listen os fd m)"
  "sys_send (traced os) fd bs f = lift (sys_send os fd bs f)"
  "sys_recv (traced os) fd n f = lift (sys_recv os fd n f)"
  "sys_cancelAll (traced os) fd = lift (sys_cancelAll os fd)"
  by (simp_all add: traced_def)

lemma lift_trace: "lift f x = (r, x') \<Longrightarrow> snd x' = snd x"
  by (auto simp: lift_def split: prod.splits)

lemma owns_one_sock: "sk_sock s' = sk_sock s \<Longrightarrow> tr' = tr \<Longrightarrow> owns_one s tr \<Longrightarrow> owns_one s' tr'"
  by (simp only: owns_one_def)

lemma bind_owns:
  assumes "owns_one s (snd x)" and "Socket_bind (traced os) s addr x = (r, s', x')"
  shows "owns_one s' (snd x')"
proof -
  obtain s1 x1 where e: "ensure_sock (traced os) s x = (s1, x1)" using prod.exhaust by blast
  then have o1: "owns_one s1 (snd x1)" using ensure_sock_owns assms(1) by blast
  obtain rt x2 where b: "lift (sys_bind os (sk_sock s1) (Address_getAddr addr) (Address_getAddrLen addr)) x1 = (rt, x2)"
    using prod.exhaust by blast
  obtain a s2 x3 where l: "getLocalAddress (traced os) s1 x2 = (a, s2, x3)" using prod_cases3 by blast
  show ?thesis
    using assms(2) o1 e b l lift_trace [OF b] address_trace(1) [OF l] owns_one_sock [of s2 s1 "snd x3" "snd x1"]
    by (auto simp: Socket_bind_def split: if_splits)
qed

lemma connect_owns:
  assumes "owns_one s (snd x)" and "Socket_connect (traced os) s addr t x = (r, s', x')"
  shows "owns_one s' (snd x')"
proof -
  let ?s = "s\<lparr>sk_remoteAddress := Some addr\<rparr>"
  obtain s1 x1 where e: "ensure_sock (traced os) ?s x = (s1, x1)" using prod.exhaust by blast
  have "owns_one ?s (snd x)" by (rule owns_one_sock [OF _ _ assms(1)]) simp_all
  then have o1: "owns_one s1 (snd x1)" using ensure_sock_owns [OF _ e] by blast
  define call where "call = (if t = -1 then sys_connect os (sk_sock s1) (Address_getAddr addr) (Address_getAddrLen addr)
      else sys_connect_with_timeout os (sk_sock s1) (Address_getAddr addr) (Address_getAddrLen addr) t)"
  obtain rt x2 where b: "lift call x1 = (rt, x2)" using prod.exhaust by blast
  have run: "Socket_connect (traced os) s addr t x =
      (if \<not> isValid s1 then (False, s1, x1)
        else if uint (Address_getFamily addr) \<noteq> sk_family s1 then (False, s1, x1)
        else if rt \<noteq> 0 then (case Socket_close (traced os) s1 x2 of (_, s2, w3) \<Rightarrow> (False, s2, w3))
        else (let (_, s2, w3) = getRemoteAddress (traced os) (s1\<lparr>sk_isConnected := True\<rparr>) x2;
                  (_, s3, w4) = getLocalAddress (traced os) s2 w3
              in (True, s3, w4)))"
    using e b by (cases "t = -1") (simp_all add: Socket_connect_def call_def)
  have o2: "owns_one s1 (snd x2)" using o1 lift_trace [OF b] by simp
  obtain c s2 x3 where cl: "Socket_close (traced os) s1 x2 = (c, s2, x3)" using prod_cases3 by blast
  obtain a4 s4 x4 where rm: "getRemoteAddress (traced os) (s1\<lparr>sk_isConnected := True\<rparr>) x2 = (a4, s4, x4)" using prod_cases3 by blast
  obtain a5 s5 x5 where lc: "getLocalAddress (traced os) s4 x4 = (a5, s5, x5)" using prod_cases3 by blast
  have "owns_one s5 (snd x5)"
    using owns_one_sock [OF _ _ o2, of s5 "snd x5"] address_trace(2) [OF rm] address_trace(1) [OF lc] by simp
  then show ?thesis
    using assms(2) o1 close_owns [OF o2 cl] cl rm lc unfolding run by (auto split: if_splits)
qed

section \<open>Programs\<close>

datatype socket_op =
    BindOp Address | ConnectOp Address u64 | ReconnectOp u64 | ListenOp int | SendOp "u8 list" | RecvOp nat
  | LocalOp | RemoteOp | CloseOp

fun socket_step :: "'w sys \<Rightarrow> socket_op \<Rightarrow> Socket \<times> 'w \<Rightarrow> Socket \<times> 'w" where
  "socket_step os (BindOp a) (s, w) = snd (Socket_bind os s a w)"
| "socket_step os (ConnectOp a t) (s, w) = snd (Socket_connect os s a t w)"
| "socket_step os (ReconnectOp t) (s, w) = snd (Socket_reconnect os s t w)"
| "socket_step os (ListenOp n) (s, w) = (s, snd (Socket_listen os s n w))"
| "socket_step os (SendOp bs) (s, w) = (s, snd (Socket_send os s bs 0 w))"
| "socket_step os (RecvOp n) (s, w) = (s, snd (Socket_recv os s n 0 w))"
| "socket_step os LocalOp (s, w) = snd (getLocalAddress os s w)"
| "socket_step os RemoteOp (s, w) = snd (getRemoteAddress os s w)"
| "socket_step os CloseOp (s, w) = snd (Socket_close os s w)"

lemma step_owns:
  assumes "owns_one s (snd x)" and "socket_step (traced os) op (s, x) = (s', x')"
  shows "owns_one s' (snd x')"
proof (cases op)
  case (BindOp a)
  then show ?thesis using assms bind_owns by (metis prod.collapse socket_step.simps(1))
next
  case (ConnectOp a t)
  then show ?thesis using assms connect_owns by (metis prod.collapse socket_step.simps(2))
next
  case (ReconnectOp t)
  show ?thesis
  proof (cases "sk_remoteAddress s")
    case (Some a)
    have "owns_one (s\<lparr>sk_localAddress := None\<rparr>) (snd x)" by (rule owns_one_sock [OF _ _ assms(1)]) simp_all
    moreover have "snd (Socket_connect (traced os) (s\<lparr>sk_localAddress := None\<rparr>) a t x) = (s', x')"
      using ReconnectOp Some assms(2) by (simp add: Socket_reconnect_def)
    then have "Socket_connect (traced os) (s\<lparr>sk_localAddress := None\<rparr>) a t x
        = (fst (Socket_connect (traced os) (s\<lparr>sk_localAddress := None\<rparr>) a t x), s', x')" by (metis prod.collapse)
    ultimately show ?thesis by (rule connect_owns)
  qed (use ReconnectOp assms in \<open>simp add: Socket_reconnect_def\<close>)
next
  case CloseOp
  then show ?thesis using assms close_owns by (metis prod.collapse socket_step.simps(9))
next
  case LocalOp
  then show ?thesis using assms address_trace(1) owns_one_sock by (metis prod.collapse socket_step.simps(7))
next
  case RemoteOp
  then show ?thesis using assms address_trace(2) owns_one_sock by (metis prod.collapse socket_step.simps(8))
qed (use assms in \<open>auto simp: Socket_listen_def Socket_send_def Socket_recv_def dest: lift_trace split: if_splits prod.splits\<close>)

lemma steps_own:
  "owns_one s (snd x) \<Longrightarrow> owns_one (fst (fold (socket_step (traced os)) ops (s, x))) (snd (snd (fold (socket_step (traced os)) ops (s, x))))"
proof (induction ops arbitrary: s x)
  case (Cons op ops)
  obtain s1 x1 where "socket_step (traced os) op (s, x) = (s1, x1)" using prod.exhaust by blast
  then show ?case using Cons.IH step_owns [OF Cons.prems] by simp
qed simp

section \<open>Properties\<close>

text \<open>
C37: whatever the kernel answers and whatever a program does with a socket, once the socket is
destroyed every descriptor it made has been closed, each exactly once and before the next was made,
and no other descriptor has been closed.
\<close>
theorem socket_owns_one_descriptor:
  "\<exists>fds. snd (case fold (socket_step (traced os)) ops (new_Socket family type protocol, (w, [])) of
      (s, x) \<Rightarrow> Socket_destruct (traced os) s x) = closed_each fds"
proof -
  let ?r = "fold (socket_step (traced os)) ops (new_Socket family type protocol, (w, []))"
  have "owns_one (new_Socket family type protocol) []" by (auto simp: owns_one_def new_Socket_def closed_each_def intro: exI [of _ "[]"])
  then have "owns_one (fst ?r) (snd (snd ?r))" using steps_own [of "new_Socket family type protocol" "(w, [])"] by simp
  moreover obtain c s' x' where c: "Socket_close (traced os) (fst ?r) (snd ?r) = (c, s', x')" using prod_cases3 by blast
  ultimately have "owns_one s' (snd x')" "sk_sock s' = -1" using close_owns by blast+
  then show ?thesis using c by (auto simp: owns_one_def Socket_destruct_def split: prod.split)
qed

text \<open>
A descriptor that \<open>accept\<close> returns and the descriptor manager does not know as an open socket is
never closed: the new socket is destroyed without it.
\<close>
theorem accept_leaks_rejected:
  assumes "sys_accept os (sk_sock l) w = (fd, w')" and "fd \<noteq> -1"
    and "\<forall>ctx. sys_fdctx os fd w' = Some ctx \<longrightarrow> \<not> fd_isSocket ctx \<or> fd_isClosed ctx"
  shows "Socket_accept (traced os) l (w, []) = (None, (w', [Opened fd]))"
proof -
  have i: "Socket_init (traced os) s fd (w', [Opened fd]) = (False, s, (w', [Opened fd]))" for s
    using assms(3) by (auto simp: Socket_init_def traced_def split: option.split)
  have "sys_accept (traced os) (sk_sock l) (w, []) = (fd, (w', [Opened fd]))"
    using assms(1,2) by (simp add: traced_def lift_open_def)
  then show ?thesis using assms(2) i by (simp add: Socket_accept_def Let_def Socket_destruct_def Socket_close_def new_Socket_def)
qed

end
