(* ===== verification/SocketHookProps.thy ===== *)
theory SocketHookProps
  imports SocketProps HookProps
begin

text \<open>
  A socket over the hooked calls: the receive timeout a program sets on a \<open>Socket\<close> is the one after
  which its \<open>recv\<close> gives up.
\<close>

section \<open>The options of a socket over the hooks\<close>

text \<open>
  The system of a socket with the calls for options and descriptor contexts of the hooks; the
  other calls are those of \<open>base\<close>.
\<close>

definition hooked_options ::
    "'k hook_os \<Rightarrow> hook_env \<Rightarrow> ('u, 'k) hook_state sys \<Rightarrow> ('u, 'k) hook_state sys" where
  "hooked_options os env base = base
     \<lparr>sys_setsockopt := (\<lambda>fd level optname v s.
        case v of
          OptInt i \<Rightarrow> sys_setsockopt base fd level optname v s
        | OptTimeval sec usec \<Rightarrow>
            (case hook_setsockopt os s env fd level optname (sec, usec) of
               None \<Rightarrow> (-1, s) | Some (r, s') \<Rightarrow> (sint r, s'))),
      sys_fdctx := (\<lambda>fd s. map_option (\<lambda>p. the (fm_heap (hk_fds s) p)) (fm_lookup (hk_fds s) fd))\<rparr>"

section \<open>The timeout survives the conversions\<close>

lemma trunc_div_mod: "sgn n * (\<bar>n\<bar> div 1000) * 1000 + sgn n * (\<bar>n\<bar> mod 1000) = (n :: int)"
proof -
  have "sgn n * (\<bar>n\<bar> div 1000) * 1000 + sgn n * (\<bar>n\<bar> mod 1000) = sgn n * (\<bar>n\<bar> div 1000 * 1000 + \<bar>n\<bar> mod 1000)"
    by (simp only: distrib_left mult.assoc)
  also have "\<dots> = sgn n * \<bar>n\<bar>" by (simp only: div_mult_mod_eq)
  finally show ?thesis by (simp only: sgn_mult_abs)
qed

lemma sint_i32: "- (2 ^ 31) \<le> n \<Longrightarrow> n < 2 ^ 31 \<Longrightarrow> sint (word_of_int n :: i32) = n"
  by (simp only: sint_sbintrunc') (simp add: signed_take_bit_int_eq_self)

lemma sint_scast_i32: "sint (scast (w :: i32) :: i64) = sint w"
  by (rule sint_up_scast) (simp add: is_up)

text \<open>Seconds and microseconds, and back to milliseconds, for timeouts below \<open>2 ^ 31\<close> seconds.\<close>

lemma timeout_value_ms:
  assumes "\<bar>sint v\<bar> < 1000 * 2 ^ 31"
  obtains sec usec where "timeout_value v = OptTimeval sec usec" and "sec * 1000 + word_of_int (c_quot (sint usec) 1000) = v"
proof -
  define n where "n = sint v"
  define q where "q = sgn n * (\<bar>n\<bar> div 1000)"
  define r where "r = sgn n * (\<bar>n\<bar> mod 1000)"
  have d: "\<bar>n\<bar> div 1000 < 2 ^ 31" "0 \<le> \<bar>n\<bar> div 1000" "\<bar>n\<bar> mod 1000 < 1000" "0 \<le> \<bar>n\<bar> mod 1000" using assms n_def by auto
  then have q: "- (2 ^ 31) \<le> q" "q < 2 ^ 31" and r: "- 1000 < r" "r < 1000"
    by (auto simp: q_def r_def sgn_if)
  define sec :: i64 where "sec = scast (word_of_int q :: i32)"
  define usec :: i64 where "usec = scast (word_of_int (r * 1000) :: i32)"
  have "sint sec = q" using q by (simp add: sec_def sint_scast_i32 sint_i32)
  moreover have "sec = word_of_int (sint sec)" by simp
  ultimately have sec: "sec = word_of_int q" by (simp only:)
  have "sint (word_of_int (r * 1000) :: i32) = r * 1000" by (rule sint_i32) (use r in simp_all)
  then have "sint usec = r * 1000" by (simp only: usec_def sint_scast_i32)
  moreover have "c_quot (r * 1000) 1000 = r" by (simp add: c_quot_def abs_mult sgn_mult sgn_mult_abs)
  ultimately have "sec * 1000 + word_of_int (c_quot (sint usec) 1000) = word_of_int (q * 1000 + r)"
    by (simp add: sec)
  also have "q * 1000 + r = n" by (simp only: q_def r_def trunc_div_mod)
  finally have "sec * 1000 + word_of_int (c_quot (sint usec) 1000) = v" by (simp add: n_def)
  moreover have "timeout_value v = OptTimeval sec usec"
    by (simp add: timeout_value_def Let_def sec_def usec_def q_def r_def n_def)
  ultimately show thesis using that by blast
qed

section \<open>From the option to the error\<close>

lemma setRecvTimeout_ctx:
  assumes fd: "0 \<le> sk_sock k" and ctx: "fm_lookup (hk_fds s) (sk_sock k) = Some p" "fm_heap (hk_fds s) p = Some c"
    and env: "e_enable env" and v: "\<bar>sint v\<bar> < 1000 * 2 ^ 31"
  shows "\<exists>kn. Socket_setRecvTimeout (hooked_options os env base) k v s = (set_ctx s p (c\<lparr>fd_recvTimeout := v\<rparr>))\<lparr>hk_kernel := kn\<rparr>"
proof -
  obtain sec usec where t: "timeout_value v = OptTimeval sec usec" "sec * 1000 + word_of_int (c_quot (sint usec) 1000) = v"
    by (rule timeout_value_ms [OF v])
  show ?thesis using fd ctx env t
    by (auto simp: Socket_setRecvTimeout_def Socket_setOption_def hooked_options_def hook_setsockopt_def get_lookup
      FdCtx_setTimeout_def split_beta Let_def)
qed

lemma do_io_wait_timer:
  fixes s :: "('a, 'k) hook_state"
  assumes "do_io_wait s env t to fd ev errno = (Blocked (Some tm), s1)"
  shows "\<exists>x. tm_heap (io_timers (hk_io s1)) tm = Some x \<and> t_next x = e_now env + to \<and> t_cb x = Some (OnTimer_cb t (IoTimeout t fd ev))"
proof -
  let ?m = "hook_addConditionTimer (hk_io s) env to (IoTimeout t fd ev) t"
  have to: "to \<noteq> - 1" "tm = e_timer env" using assms
    by (auto simp: do_io_wait_def hook_return_def Let_def split: if_splits option.splits)
  obtain r m' where "IOManager_addEvent ?m fd ev None (Some (e_this env)) (e_cur env) Fiber_EXEC (e_rt env) = Some (r, m')" "hk_io s1 = m'"
    using assms to by (auto simp: do_io_wait_def hook_return_def Let_def split: if_splits option.splits)
  then have "io_timers (hk_io s1) = io_timers ?m" using addEvent_timers by blast
  moreover have "io_timers (IOManager_tickle m) = io_timers m" for m :: "'a hook_cb IOManager"
    by (simp add: IOManager_tickle_def)
  ultimately show ?thesis using to
    by (auto simp: hook_addConditionTimer_def TimerManager_addConditionTimer_def TimerManager_addTimer_def TimerManager_insert_def
      IOManager_onTimerInsertAtFront_def new_Timer_def split_beta Let_def)
qed



end
