(* ===== verification/Streams.thy ===== *)
theory Streams
  imports Socket ByteArray
begin

text \<open>
  Streams (\<open>src/megalo/stream.h\<close>, \<open>stream.cc\<close>) and streams over sockets (\<open>socket_stream.h\<close>,
  \<open>socket_stream.cc\<close>).

  The virtual functions \<open>read\<close> and \<open>write\<close> are arguments of the loops that call them.  A read
  into a buffer returns its result and the bytes it put there; the bytes of a stretch of memory
  that a loop fills are its value, written at an offset.
\<close>

section \<open>Reading and writing all\<close>

text \<open>The conversion of a \<open>size_t\<close> to the \<open>int\<close> that is returned.\<close>

definition int_of_size :: "nat \<Rightarrow> int" where
  "int_of_size n = sint (word_of_nat n :: i32)"

function readFixSize_loop ::
  "('s \<Rightarrow> nat \<Rightarrow> (int \<times> u8 list) \<times> 's) \<Rightarrow> nat \<Rightarrow> u8 list \<Rightarrow> nat \<Rightarrow> int \<Rightarrow> 's \<Rightarrow> (int \<times> u8 list) \<times> 's" where
  "readFixSize_loop read amount buffer offset left s =
     (if left > 0 then
        (case read s (nat left) of ((len, bs), s1) \<Rightarrow>
           if len \<le> 0 then ((len, buffer), s1)
           else readFixSize_loop read amount (overwrite buffer offset bs) (offset + nat len) (left - len) s1)
      else ((int_of_size amount, buffer), s))"
  by pat_completeness auto
termination
  by (relation "measure (\<lambda>(read, amount, buffer, offset, left, s). nat left)") auto

declare readFixSize_loop.simps [simp del]

definition Stream_readFixSize ::
  "('s \<Rightarrow> nat \<Rightarrow> (int \<times> u8 list) \<times> 's) \<Rightarrow> u8 list \<Rightarrow> nat \<Rightarrow> 's \<Rightarrow> (int \<times> u8 list) \<times> 's" where
  "Stream_readFixSize read buffer n s = readFixSize_loop read n buffer 0 (int n) s"

function readFixSize_ba_loop ::
  "('s \<Rightarrow> ByteArray \<Rightarrow> nat \<Rightarrow> (int \<times> ByteArray \<times> 's) ba_result) \<Rightarrow> nat \<Rightarrow> ByteArray \<Rightarrow> int \<Rightarrow> 's
   \<Rightarrow> (int \<times> ByteArray \<times> 's) ba_result" where
  "readFixSize_ba_loop read amount ba left s =
     (if left > 0 then
        (case read s ba (nat left) of
           Inl e \<Rightarrow> Inl e
         | Inr (len, ba1, s1) \<Rightarrow>
             if len \<le> 0 then Inr (len, ba1, s1) else readFixSize_ba_loop read amount ba1 (left - len) s1)
      else Inr (int_of_size amount, ba, s))"
  by pat_completeness auto
termination
  by (relation "measure (\<lambda>(read, amount, ba, left, s). nat left)") auto

declare readFixSize_ba_loop.simps [simp del]

definition Stream_readFixSize_ba ::
  "('s \<Rightarrow> ByteArray \<Rightarrow> nat \<Rightarrow> (int \<times> ByteArray \<times> 's) ba_result) \<Rightarrow> ByteArray \<Rightarrow> nat \<Rightarrow> 's
   \<Rightarrow> (int \<times> ByteArray \<times> 's) ba_result" where
  "Stream_readFixSize_ba read ba n s = readFixSize_ba_loop read n ba (int n) s"

function writeFixSize_loop ::
  "('s \<Rightarrow> u8 list \<Rightarrow> int \<times> 's) \<Rightarrow> u8 list \<Rightarrow> nat \<Rightarrow> int \<Rightarrow> 's \<Rightarrow> int \<times> 's" where
  "writeFixSize_loop write buffer offset left s =
     (if left > 0 then
        (case write s (take (nat left) (drop offset buffer)) of (len, s1) \<Rightarrow>
           if len \<le> 0 then (len, s1)
           else writeFixSize_loop write buffer (offset + nat len) (left - len) s1)
      else (int_of_size (length buffer), s))"
  by pat_completeness auto
termination
  by (relation "measure (\<lambda>(write, buffer, offset, left, s). nat left)") auto

declare writeFixSize_loop.simps [simp del]

text \<open>\<open>buffer\<close> is the memory of the given length.\<close>

definition Stream_writeFixSize :: "('s \<Rightarrow> u8 list \<Rightarrow> int \<times> 's) \<Rightarrow> u8 list \<Rightarrow> 's \<Rightarrow> int \<times> 's" where
  "Stream_writeFixSize write buffer s = writeFixSize_loop write buffer 0 (int (length buffer)) s"

function writeFixSize_ba_loop ::
  "('s \<Rightarrow> ByteArray \<Rightarrow> nat \<Rightarrow> (int \<times> ByteArray \<times> 's) ba_result) \<Rightarrow> nat \<Rightarrow> ByteArray \<Rightarrow> int \<Rightarrow> 's
   \<Rightarrow> (int \<times> ByteArray \<times> 's) ba_result" where
  "writeFixSize_ba_loop write amount ba left s =
     (if left > 0 then
        (case write s ba (nat left) of
           Inl e \<Rightarrow> Inl e
         | Inr (len, ba1, s1) \<Rightarrow>
             if len \<le> 0 then Inr (len, ba1, s1) else writeFixSize_ba_loop write amount ba1 (left - len) s1)
      else Inr (int_of_size amount, ba, s))"
  by pat_completeness auto
termination
  by (relation "measure (\<lambda>(write, amount, ba, left, s). nat left)") auto

declare writeFixSize_ba_loop.simps [simp del]

definition Stream_writeFixSize_ba ::
  "('s \<Rightarrow> ByteArray \<Rightarrow> nat \<Rightarrow> (int \<times> ByteArray \<times> 's) ba_result) \<Rightarrow> ByteArray \<Rightarrow> nat \<Rightarrow> 's
   \<Rightarrow> (int \<times> ByteArray \<times> 's) ba_result" where
  "Stream_writeFixSize_ba write ba n s = writeFixSize_ba_loop write n ba (int n) s"

section \<open>Streams over sockets\<close>

record SocketStream =
  ss_socket :: "Socket option"
  ss_owner :: bool

definition new_SocketStream :: "Socket option \<Rightarrow> bool \<Rightarrow> SocketStream" where
  "new_SocketStream sock owner = \<lparr>ss_socket = sock, ss_owner = owner\<rparr>"

definition SocketStream_isConnected :: "SocketStream \<Rightarrow> bool" where
  "SocketStream_isConnected st = (case ss_socket st of None \<Rightarrow> False | Some s \<Rightarrow> sk_isConnected s)"

definition SocketStream_close :: "'w sys \<Rightarrow> SocketStream \<Rightarrow> 'w \<Rightarrow> SocketStream \<times> 'w" where
  "SocketStream_close os st w =
     (case ss_socket st of
        None \<Rightarrow> (st, w)
      | Some s \<Rightarrow> (case Socket_close os s w of (_, s1, w1) \<Rightarrow> (st\<lparr>ss_socket := Some s1\<rparr>, w1)))"

definition SocketStream_destruct :: "'w sys \<Rightarrow> SocketStream \<Rightarrow> 'w \<Rightarrow> SocketStream \<times> 'w" where
  "SocketStream_destruct os st w =
     (if ss_owner st \<and> ss_socket st \<noteq> None then SocketStream_close os st w else (st, w))"

definition SocketStream_read :: "'w sys \<Rightarrow> SocketStream \<Rightarrow> 'w \<Rightarrow> nat \<Rightarrow> (int \<times> u8 list) \<times> 'w" where
  "SocketStream_read os st w len =
     (case ss_socket st of
        None \<Rightarrow> ((-1, []), w)
      | Some s \<Rightarrow> if \<not> SocketStream_isConnected st then ((-1, []), w) else Socket_recv os s len 0 w)"

text \<open>
  The address of the first element of an empty vector is undefined: a request for no bytes is a
  fault.
\<close>

definition SocketStream_read_ba ::
  "'w sys \<Rightarrow> SocketStream \<Rightarrow> 'w \<Rightarrow> ByteArray \<Rightarrow> nat \<Rightarrow> (int \<times> ByteArray \<times> 'w) ba_result" where
  "SocketStream_read_ba os st w ba len =
     (case ss_socket st of
        None \<Rightarrow> Inr (-1, ba, w)
      | Some s \<Rightarrow>
          if \<not> SocketStream_isConnected st then Inr (-1, ba, w)
          else result_bind (ByteArray_getWriteBuffers ba [] len) (\<lambda>(_, iovs, ba1).
            if iovs = [] then Inl Fault
            else (case Socket_recv_iov os s (map iov_len iovs) 0 w of ((rt, bs), w1) \<Rightarrow>
              result_bind (iov_fill ba1 iovs bs) (\<lambda>ba2.
                if rt > 0
                then result_bind (ByteArray_setPosition ba2 (ba_position ba2 + nat rt)) (\<lambda>ba3. Inr (rt, ba3, w1))
                else Inr (rt, ba2, w1)))))"

definition SocketStream_write :: "'w sys \<Rightarrow> SocketStream \<Rightarrow> 'w \<Rightarrow> u8 list \<Rightarrow> int \<times> 'w" where
  "SocketStream_write os st w buffer =
     (case ss_socket st of
        None \<Rightarrow> (-1, w)
      | Some s \<Rightarrow> if \<not> SocketStream_isConnected st then (-1, w) else Socket_send os s buffer 0 w)"

definition SocketStream_write_ba ::
  "'w sys \<Rightarrow> SocketStream \<Rightarrow> 'w \<Rightarrow> ByteArray \<Rightarrow> nat \<Rightarrow> (int \<times> ByteArray \<times> 'w) ba_result" where
  "SocketStream_write_ba os st w ba len =
     (case ss_socket st of
        None \<Rightarrow> Inr (-1, ba, w)
      | Some s \<Rightarrow>
          if \<not> SocketStream_isConnected st then Inr (-1, ba, w)
          else result_bind (ByteArray_getReadBuffers ba [] len) (\<lambda>(_, iovs).
            if iovs = [] then Inl Fault
            else (case Socket_send_iov os s (map (iov_bytes ba) iovs) 0 w of (rt, w1) \<Rightarrow>
              if rt > 0
              then result_bind (ByteArray_setPosition ba (ba_position ba + nat rt)) (\<lambda>ba1. Inr (rt, ba1, w1))
              else Inr (rt, ba, w1))))"

definition SocketStream_getRemoteAddress :: "'w sys \<Rightarrow> SocketStream \<Rightarrow> 'w \<Rightarrow> Address option \<times> SocketStream \<times> 'w" where
  "SocketStream_getRemoteAddress os st w =
     (case ss_socket st of
        None \<Rightarrow> (None, st, w)
      | Some s \<Rightarrow> (case getRemoteAddress os s w of (a, s1, w1) \<Rightarrow> (Some a, st\<lparr>ss_socket := Some s1\<rparr>, w1)))"

definition SocketStream_getLocalAddress :: "'w sys \<Rightarrow> SocketStream \<Rightarrow> 'w \<Rightarrow> Address option \<times> SocketStream \<times> 'w" where
  "SocketStream_getLocalAddress os st w =
     (case ss_socket st of
        None \<Rightarrow> (None, st, w)
      | Some s \<Rightarrow> (case getLocalAddress os s w of (a, s1, w1) \<Rightarrow> (Some a, st\<lparr>ss_socket := Some s1\<rparr>, w1)))"

definition getRemoteAddressString :: "'w sys \<Rightarrow> SocketStream \<Rightarrow> 'w \<Rightarrow> string \<times> SocketStream \<times> 'w" where
  "getRemoteAddressString os st w =
     (case SocketStream_getRemoteAddress os st w of (a, st1, w1) \<Rightarrow>
        (case a of None \<Rightarrow> [] | Some addr \<Rightarrow> Address_toString addr, st1, w1))"

definition getLocalAddressString :: "'w sys \<Rightarrow> SocketStream \<Rightarrow> 'w \<Rightarrow> string \<times> SocketStream \<times> 'w" where
  "getLocalAddressString os st w =
     (case SocketStream_getLocalAddress os st w of (a, st1, w1) \<Rightarrow>
        (case a of None \<Rightarrow> [] | Some addr \<Rightarrow> Address_toString addr, st1, w1))"

end
