(* ===== verification/HttpSession.thy ===== *)
theory HttpSession
  imports Streams HttpParser Config
begin

text \<open>
  Sessions (\<open>src/megalo/http/http_session.h\<close>, \<open>http_session.cc\<close>): receiving a request and sending
  a response over the stream of a socket, and the configured sizes (\<open>http_parser.cc\<close>).

  The memory of the buffer and of the parser is uninitialised: its values are arguments.  The
  number in \<open>content-length\<close> is read by the parameter \<open>lexical_cast\<close>; \<open>can_resize\<close> says whether the
  string for the body can be made that long.  The outcome of \<open>recvRequest\<close> is a request or the null
  pointer; an abort of the parser or an exception is an error.
\<close>

section \<open>Sizes\<close>

record http_sizes =
  hs_request_buffer :: u64
  hs_request_max_body :: u64
  hs_response_buffer :: u64
  hs_response_max_body :: u64

definition GetHttpRequestBufferSize :: "http_sizes \<Rightarrow> u64" where
  "GetHttpRequestBufferSize z = hs_request_buffer z"

definition GetHttpRequestMaxBodySize :: "http_sizes \<Rightarrow> u64" where
  "GetHttpRequestMaxBodySize z = hs_request_max_body z"

definition GetHttpResponseBufferSize :: "http_sizes \<Rightarrow> u64" where
  "GetHttpResponseBufferSize z = hs_response_buffer z"

definition GetHttpResponseMaxBodySize :: "http_sizes \<Rightarrow> u64" where
  "GetHttpResponseMaxBodySize z = hs_response_max_body z"

type_synonym size_config = "(u64, http_sizes) Config"

text \<open>\<open>None\<close> is an exception of \<open>Lookup\<close>.\<close>

definition size_variable ::
  "u64 from_string \<Rightarrow> u64 to_string \<Rightarrow> string \<Rightarrow> u64 \<Rightarrow> string \<Rightarrow> size_config \<Rightarrow> (nat \<times> size_config) option" where
  "size_variable from to name default_val description c =
     Config_Lookup c ''unsigned long'' from to name default_val description"

definition g_http_sizes ::
  "u64 from_string \<Rightarrow> u64 to_string \<Rightarrow> size_config \<Rightarrow> ((nat \<times> nat \<times> nat \<times> nat) \<times> size_config) option" where
  "g_http_sizes from to c =
     Option.bind (size_variable from to ''http.request.buffer_size'' (4 * 1024) ''http request buffer size'' c) (\<lambda>(p1, c1).
     Option.bind (size_variable from to ''http.request.max_body_size'' (64 * 1024 * 1024) ''http request max body size'' c1) (\<lambda>(p2, c2).
     Option.bind (size_variable from to ''http.response.buffer_size'' (4 * 1024) ''http response buffer size'' c2) (\<lambda>(p3, c3).
     Option.bind (size_variable from to ''http.response.max_body_size'' (64 * 1024 * 1024) ''http response max body size'' c3) (\<lambda>(p4, c4).
       Some ((p1, p2, p3, p4), c4)))))"

definition watch_size ::
  "nat \<Rightarrow> (u64 \<Rightarrow> http_sizes \<Rightarrow> http_sizes) \<Rightarrow> size_config \<times> u64 \<times> http_sizes \<Rightarrow> (size_config \<times> u64 \<times> http_sizes) option" where
  "watch_size p store x =
     (case x of (c, s_fun_id, z) \<Rightarrow> (case cf_vars c p of
        None \<Rightarrow> None
      | Some v \<Rightarrow> (case ConfigVar_addListener s_fun_id v (\<lambda>ov nv. store nv) of
          (key, v', s) \<Rightarrow> Some (c\<lparr>cf_vars := (cf_vars c)(p \<mapsto> v')\<rparr>, s, store (ConfigVar_getValue v) z))))"

text \<open>The four values are read before the listeners are added, which changes no value.\<close>

definition RequestSizeIniter ::
  "nat \<times> nat \<times> nat \<times> nat \<Rightarrow> size_config \<times> u64 \<times> http_sizes \<Rightarrow> (size_config \<times> u64 \<times> http_sizes) option" where
  "RequestSizeIniter ps x =
     (case ps of (p1, p2, p3, p4) \<Rightarrow>
        Option.bind (watch_size p1 (\<lambda>n z. z\<lparr>hs_request_buffer := n\<rparr>) x) (\<lambda>x1.
        Option.bind (watch_size p2 (\<lambda>n z. z\<lparr>hs_request_max_body := n\<rparr>) x1) (\<lambda>x2.
        Option.bind (watch_size p3 (\<lambda>n z. z\<lparr>hs_response_buffer := n\<rparr>) x2) (\<lambda>x3.
          watch_size p4 (\<lambda>n z. z\<lparr>hs_response_max_body := n\<rparr>) x3))))"

section \<open>Sessions\<close>

datatype session_error = ParserAborted parse_error | BodyTooLong

definition text_bytes :: "string \<Rightarrow> u8 list" where
  "text_bytes s = map of_char s"

definition new_HttpSession :: "Socket option \<Rightarrow> bool \<Rightarrow> SocketStream" where
  "new_HttpSession sock owner = new_SocketStream sock owner"

text \<open>
  The loop of \<open>recvRequest\<close>: the parser, the buffer and the number of bytes that are left at its
  start.  \<open>Inr None\<close> is the return of a null pointer, on a closed session.  The loop goes on as long
  as the peer sends a request that does not end; \<open>None\<close> is a loop without end.
\<close>

partial_function (option) recv_loop ::
  "'w sys \<Rightarrow> nat \<Rightarrow> HttpRequestParser \<Rightarrow> string \<Rightarrow> int \<Rightarrow> SocketStream \<Rightarrow> 'w
   \<Rightarrow> ((session_error + (HttpRequestParser \<times> string \<times> int) option) \<times> SocketStream \<times> 'w) option" where
  "recv_loop os buff_size parser data offset st w =
     (case SocketStream_read os st w (nat ((int buff_size - offset) mod 2 ^ 64)) of ((len0, bs), w1) \<Rightarrow>
        if len0 \<le> 0 then Some (Inr None, SocketStream_close os st w1)
        else
          let data1 = overwrite data (nat offset) (byte_text bs); len = len0 + offset in
          (case HttpRequestParser_execute parser data1 (nat len) of
             Inl e \<Rightarrow> Some (Inl (ParserAborted e), st, w1)
           | Inr (parser1, data2, nparse) \<Rightarrow>
               if HttpRequestParser_hasError parser1 then Some (Inr None, SocketStream_close os st w1)
               else
                 let offset1 = len - int nparse in
                 if offset1 = int buff_size then Some (Inr None, SocketStream_close os st w1)
                 else if HttpRequestParser_isFinished parser1 \<noteq> 0 then Some (Inr (Some (parser1, data2, offset1)), st, w1)
                 else recv_loop os buff_size parser1 data2 offset1 st w1))"

text \<open>The body: what the buffer holds of it and what has still to be read.\<close>

definition recv_body ::
  "'w sys \<Rightarrow> (nat \<Rightarrow> bool) \<Rightarrow> i64 \<Rightarrow> string \<Rightarrow> int \<Rightarrow> SocketStream \<Rightarrow> 'w
   \<Rightarrow> (session_error + string option) \<times> SocketStream \<times> 'w" where
  "recv_body os can_resize content_length data offset st w =
     (let n = sint content_length in
      if \<not> can_resize (nat n) then (Inl BodyTooLong, st, w)
      else
        let body = replicate (nat n) (CHR 0x00);
            have_len = (if n \<ge> offset then nat offset else nat n);
            body1 = overwrite body 0 (take have_len data);
            left = n - offset
        in if left > 0 then
             (case Stream_readFixSize (SocketStream_read os st) (text_bytes (drop have_len body1)) (nat left) w of
                ((r, rest), w1) \<Rightarrow>
                  if r \<le> 0 then (Inr None, SocketStream_close os st w1)
                  else (Inr (Some (take have_len body1 @ byte_text rest)), st, w1))
           else (Inr (Some body1), st, w))"

definition HttpSession_recvRequest ::
  "'w sys \<Rightarrow> (string \<Rightarrow> u64 option) \<Rightarrow> (nat \<Rightarrow> bool) \<Rightarrow> http_sizes \<Rightarrow> request_data http_parser \<Rightarrow> string
   \<Rightarrow> SocketStream \<Rightarrow> 'w \<Rightarrow> ((session_error + HttpRequest option) \<times> SocketStream \<times> 'w) option" where
  "HttpSession_recvRequest os lexical_cast can_resize sizes memory buffer st w =
     (case recv_loop os (unat (GetHttpRequestBufferSize sizes)) (new_HttpRequestParser memory) buffer 0 st w of
        None \<Rightarrow> None
      | Some (Inl e, st1, w1) \<Rightarrow> Some (Inl e, st1, w1)
      | Some (Inr None, st1, w1) \<Rightarrow> Some (Inr None, st1, w1)
      | Some (Inr (Some (parser, data, offset)), st1, w1) \<Rightarrow>
          let content_length = HttpRequestParser_getContentLength lexical_cast parser; req = rp_data parser in
          if sint content_length > 0 then
            (case recv_body os can_resize content_length data offset st1 w1 of
               (Inl e, st2, w2) \<Rightarrow> Some (Inl e, st2, w2)
             | (Inr None, st2, w2) \<Rightarrow> Some (Inr None, st2, w2)
             | (Inr (Some body), st2, w2) \<Rightarrow> Some (Inr (Some (HttpRequest_init (req\<lparr>rq_body := body\<rparr>))), st2, w2))
          else Some (Inr (Some (HttpRequest_init req)), st1, w1))"

definition HttpSession_sendResponse :: "'w sys \<Rightarrow> SocketStream \<Rightarrow> HttpResponse \<Rightarrow> 'w \<Rightarrow> int \<times> 'w" where
  "HttpSession_sendResponse os st rsp w =
     Stream_writeFixSize (SocketStream_write os st) (text_bytes (HttpResponse_dump rsp)) w"

end
