(* ===== verification/TcpServer.thy ===== *)
theory TcpServer
  imports HttpSession Servlet
begin

text \<open>
  Servers (\<open>src/megalo/tcp_server.h\<close>, \<open>tcp_server.cc\<close>, \<open>http/http_server.h\<close>, \<open>http_server.cc\<close>).

  Sockets are shared between the server and the tasks it schedules: they live in a store and are
  referred to by address.  The two workers are numbers, and what is scheduled on them is a list of
  tasks.  A socket is destroyed when the last reference is gone; the references are those of the
  server and of the accepting tasks that wait or run.  Log lines are left out.
\<close>

section \<open>State\<close>

datatype server_task = AcceptTask nat | ClientTask nat | StopTask

record 'w net =
  nt_sockets :: "nat \<rightharpoonup> Socket"
  nt_next :: nat
  nt_tasks :: "(nat \<times> server_task) list"
  nt_running :: "nat list"
  nt_os :: 'w

record TcpServer =
  ts_socks :: "nat list"
  ts_worker :: nat
  ts_acceptWorker :: nat
  ts_recvTimeout :: u64
  ts_name :: string
  ts_type :: string
  ts_isStop :: bool

definition new_TcpServer :: "nat \<Rightarrow> nat \<Rightarrow> u64 \<Rightarrow> TcpServer" where
  "new_TcpServer worker accept_worker read_timeout =
     \<lparr> ts_socks = [], ts_worker = worker, ts_acceptWorker = accept_worker, ts_recvTimeout = read_timeout,
       ts_name = ''megalo/1.0.0'', ts_type = ''tcp'', ts_isStop = True \<rparr>"

definition setTimeout :: "TcpServer \<Rightarrow> u64 \<Rightarrow> TcpServer" where
  "setTimeout s v = s\<lparr>ts_recvTimeout := v\<rparr>"

definition setName :: "TcpServer \<Rightarrow> string \<Rightarrow> TcpServer" where
  "setName s v = s\<lparr>ts_name := v\<rparr>"

definition schedule_task :: "nat \<Rightarrow> server_task \<Rightarrow> 'w net \<Rightarrow> 'w net" where
  "schedule_task worker t n = n\<lparr>nt_tasks := nt_tasks n @ [(worker, t)]\<rparr>"

text \<open>References to a socket besides those of the server.\<close>

definition held :: "'w net \<Rightarrow> nat \<Rightarrow> bool" where
  "held n p \<longleftrightarrow> p \<in> set (nt_running n) \<or> list_ex (\<lambda>(_, t). t = AcceptTask p \<or> t = ClientTask p) (nt_tasks n)"

definition destroy_socket :: "'w sys \<Rightarrow> nat \<Rightarrow> 'w net \<Rightarrow> 'w net" where
  "destroy_socket os p n =
     (case nt_sockets n p of
        None \<Rightarrow> n
      | Some s \<Rightarrow> n\<lparr>nt_sockets := (nt_sockets n)(p := None), nt_os := Socket_destruct os s (nt_os n)\<rparr>)"

text \<open>\<open>m_socks.clear()\<close>\<close>

definition release_sockets :: "'w sys \<Rightarrow> nat list \<Rightarrow> 'w net \<Rightarrow> 'w net" where
  "release_sockets os ps n = fold (\<lambda>p n. if held n p then n else destroy_socket os p n) ps n"

definition close_socket :: "'w sys \<Rightarrow> nat \<Rightarrow> 'w net \<Rightarrow> 'w net" where
  "close_socket os p n =
     (case nt_sockets n p of
        None \<Rightarrow> n
      | Some s \<Rightarrow> (case Socket_close os s (nt_os n) of
          (_, s1, w1) \<Rightarrow> n\<lparr>nt_sockets := (nt_sockets n)(p \<mapsto> s1), nt_os := w1\<rparr>))"

definition TcpServer_destruct :: "'w sys \<Rightarrow> TcpServer \<Rightarrow> 'w net \<Rightarrow> 'w net" where
  "TcpServer_destruct os s n = release_sockets os (ts_socks s) (fold (close_socket os) (ts_socks s) n)"

section \<open>Binding\<close>

text \<open>One address: the socket joins the server, or the address the failures.\<close>

definition bind_one ::
  "'w sys \<Rightarrow> Address \<Rightarrow> TcpServer \<times> Address list \<times> 'w net \<Rightarrow> TcpServer \<times> Address list \<times> 'w net" where
  "bind_one os addr x =
     (case x of (s, fails, n) \<Rightarrow>
       (case Socket_bind os (CreateTCP addr) addr (nt_os n) of (ok, sock, w1) \<Rightarrow>
          if \<not> ok then (s, fails @ [addr], n\<lparr>nt_os := Socket_destruct os sock w1\<rparr>)
          else (case Socket_listen os sock SOMAXCONN w1 of (lok, w2) \<Rightarrow>
            if \<not> lok then (s, fails @ [addr], n\<lparr>nt_os := Socket_destruct os sock w2\<rparr>)
            else
              let p = nt_next n in
              (s\<lparr>ts_socks := ts_socks s @ [p]\<rparr>, fails,
               n\<lparr>nt_sockets := (nt_sockets n)(p \<mapsto> sock), nt_next := p + 1, nt_os := w2\<rparr>))))"

definition TcpServer_bind_all ::
  "'w sys \<Rightarrow> Address list \<Rightarrow> Address list \<Rightarrow> TcpServer \<Rightarrow> 'w net \<Rightarrow> bool \<times> Address list \<times> TcpServer \<times> 'w net" where
  "TcpServer_bind_all os addrs fails s n =
     (case fold (bind_one os) addrs (s, fails, n) of (s1, fails1, n1) \<Rightarrow>
        if fails1 \<noteq> [] then (False, fails1, s1\<lparr>ts_socks := []\<rparr>, release_sockets os (ts_socks s1) n1)
        else (True, fails1, s1, n1))"

definition TcpServer_bind :: "'w sys \<Rightarrow> Address \<Rightarrow> TcpServer \<Rightarrow> 'w net \<Rightarrow> bool \<times> TcpServer \<times> 'w net" where
  "TcpServer_bind os addr s n =
     (case TcpServer_bind_all os [addr] [] s n of (ok, _, s1, n1) \<Rightarrow> (ok, s1, n1))"

section \<open>Accepting\<close>

text \<open>
  One turn of the loop of \<open>startAccept\<close>.  While \<open>accept\<close> waits the rest of the program runs:
  \<open>others\<close> is what it does to the server and the sockets.
\<close>

definition accept_turn ::
  "'w sys \<Rightarrow> (TcpServer \<times> 'w net \<Rightarrow> TcpServer \<times> 'w net) \<Rightarrow> nat \<Rightarrow> TcpServer \<times> 'w net \<Rightarrow> TcpServer \<times> 'w net" where
  "accept_turn os others p x =
     (case others x of (s, n) \<Rightarrow>
       (case nt_sockets n p of
          None \<Rightarrow> (s, n)
        | Some sock \<Rightarrow> (case Socket_accept os sock (nt_os n) of
            (None, w1) \<Rightarrow> (s, n\<lparr>nt_os := w1\<rparr>)
          | (Some client, w1) \<Rightarrow>
              let c = nt_next n; w2 = Socket_setRecvTimeout os client (ts_recvTimeout s) w1 in
              (s, schedule_task (ts_worker s) (ClientTask c)
                    (n\<lparr>nt_sockets := (nt_sockets n)(c \<mapsto> client), nt_next := c + 1, nt_os := w2\<rparr>)))))"

partial_function (option) startAccept ::
  "'w sys \<Rightarrow> (TcpServer \<times> 'w net \<Rightarrow> TcpServer \<times> 'w net) \<Rightarrow> nat \<Rightarrow> TcpServer \<times> 'w net \<Rightarrow> (TcpServer \<times> 'w net) option" where
  "startAccept os others p x =
     (if ts_isStop (fst x) then Some x else startAccept os others p (accept_turn os others p x))"

definition TcpServer_start :: "TcpServer \<Rightarrow> 'w net \<Rightarrow> bool \<times> TcpServer \<times> 'w net" where
  "TcpServer_start s n =
     (if \<not> ts_isStop s then (True, s, n)
      else (True, s\<lparr>ts_isStop := False\<rparr>,
        fold (\<lambda>p. schedule_task (ts_acceptWorker s) (AcceptTask p)) (ts_socks s) n))"

definition TcpServer_stop :: "TcpServer \<Rightarrow> 'w net \<Rightarrow> TcpServer \<times> 'w net" where
  "TcpServer_stop s n = (s\<lparr>ts_isStop := True\<rparr>, schedule_task (ts_acceptWorker s) StopTask n)"

text \<open>The task that \<open>stop\<close> schedules.\<close>

definition cancel_and_close :: "'w sys \<Rightarrow> nat \<Rightarrow> 'w net \<Rightarrow> 'w net" where
  "cancel_and_close os p n =
     (case nt_sockets n p of
        None \<Rightarrow> n
      | Some s \<Rightarrow> close_socket os p (n\<lparr>nt_os := snd (Socket_cancelAll os s (nt_os n))\<rparr>))"

definition stop_task :: "'w sys \<Rightarrow> TcpServer \<Rightarrow> 'w net \<Rightarrow> TcpServer \<times> 'w net" where
  "stop_task os s n =
     (s\<lparr>ts_socks := []\<rparr>, release_sockets os (ts_socks s) (fold (cancel_and_close os) (ts_socks s) n))"

text \<open>\<open>worker\<close> and \<open>accept\<close> are the names of the two workers, empty for a null pointer.\<close>

definition TcpServer_toString :: "string \<Rightarrow> string \<Rightarrow> TcpServer \<Rightarrow> 'w net \<Rightarrow> string \<Rightarrow> string" where
  "TcpServer_toString worker accept s n pfx =
     pfx @ ''[type='' @ ts_type s @ '' name='' @ ts_name s @ '' worker='' @ worker @ '' accept='' @ accept
     @ '' recv_timeout='' @ nat_text 10 (unat (ts_recvTimeout s)) @ '']'' @ [CHR 0x0A]
     @ concat (map (\<lambda>p. (if pfx = [] then ''    '' else pfx)
         @ (case nt_sockets n p of Some sock \<Rightarrow> Socket_toString sock | None \<Rightarrow> []) @ [CHR 0x0A]) (ts_socks s))"

section \<open>HTTP servers\<close>

record 's HttpServer =
  hv_tcp :: TcpServer
  hv_isKeepalive :: bool
  hv_dispatch :: "'s ServletDispatch"

definition new_HttpServer :: "bool \<Rightarrow> nat \<Rightarrow> nat \<Rightarrow> u64 \<Rightarrow> 's HttpServer" where
  "new_HttpServer keepalive worker accept_worker read_timeout =
     \<lparr> hv_tcp = new_TcpServer worker accept_worker read_timeout, hv_isKeepalive = keepalive,
       hv_dispatch = new_ServletDispatch \<rparr>"

text \<open>How serving a client ends: on a closed session, by an abort of the parser, by an exception.\<close>

datatype client_end = Served | Aborted session_error | Threw

text \<open>
  \<open>recv\<close> is \<open>recvRequest\<close> with its environment.  The session a servlet sees is the stream and the
  state of the program; \<open>None\<close> is a client that never stops sending requests.
\<close>

partial_function (option) serve_client ::
  "'w sys \<Rightarrow> (SocketStream \<Rightarrow> 'w \<Rightarrow> ((session_error + HttpRequest option) \<times> SocketStream \<times> 'w) option)
   \<Rightarrow> (string \<Rightarrow> string \<Rightarrow> bool) \<Rightarrow> (SocketStream \<times> 'w) HttpServer \<Rightarrow> SocketStream \<Rightarrow> 'w
   \<Rightarrow> (client_end \<times> SocketStream \<times> 'w) option" where
  "serve_client os recv fnmatch v st w =
     (case recv st w of
        None \<Rightarrow> None
      | Some (Inl e, st1, w1) \<Rightarrow> Some (Aborted e, st1, w1)
      | Some (Inr None, st1, w1) \<Rightarrow> Some (Served, SocketStream_close os st1 w1)
      | Some (Inr (Some req), st1, w1) \<Rightarrow>
          let rsp = new_HttpResponse (rq_version req) (rq_close req \<or> \<not> hv_isKeepalive v) in
          (case ServletDispatch_handle fnmatch (hv_dispatch v) (req, rsp, (st1, w1)) of
             None \<Rightarrow> Some (Threw, SocketStream_destruct os st1 w1)
           | Some ((req1, rsp1, (st2, w2)), _) \<Rightarrow>
               let w3 = snd (HttpSession_sendResponse os st2 rsp1 w2) in
               if hv_isKeepalive v then serve_client os recv fnmatch v st2 w3
               else Some (Served, SocketStream_close os st2 w3)))"

definition HttpServer_handleClient ::
  "'w sys \<Rightarrow> (SocketStream \<Rightarrow> 'w \<Rightarrow> ((session_error + HttpRequest option) \<times> SocketStream \<times> 'w) option)
   \<Rightarrow> (string \<Rightarrow> string \<Rightarrow> bool) \<Rightarrow> (SocketStream \<times> 'w) HttpServer \<Rightarrow> Socket \<Rightarrow> 'w
   \<Rightarrow> (client_end \<times> SocketStream \<times> 'w) option" where
  "HttpServer_handleClient os recv fnmatch v client w =
     serve_client os recv fnmatch v (new_HttpSession (Some client) True) w"

end
