(* ===== verification/StreamProps.thy ===== *)
theory StreamProps
  imports Streams ByteArrayProps
begin

text \<open>
  What the loops over \<open>read\<close> and \<open>write\<close> promise: they move a prefix of what the other end has
  sent, all of it exactly when they report success, also through the vectors of a byte array.
\<close>

section \<open>Contracts of the two ends\<close>

text \<open>A read takes a prefix of what is pending; a write appends a prefix of what it is given.\<close>

definition source_ok :: "('s \<Rightarrow> nat \<Rightarrow> (int \<times> u8 list) \<times> 's) \<Rightarrow> ('s \<Rightarrow> u8 list) \<Rightarrow> bool" where
  "source_ok read pending \<longleftrightarrow> (\<forall>s n r bs s'. read s n = ((r, bs), s') \<longrightarrow> 0 < n \<longrightarrow>
     r \<le> int n \<and> length bs = nat r \<and> pending s = bs @ pending s')"

definition sink_ok :: "('s \<Rightarrow> u8 list \<Rightarrow> int \<times> 's) \<Rightarrow> ('s \<Rightarrow> u8 list) \<Rightarrow> bool" where
  "sink_ok write sent \<longleftrightarrow> (\<forall>s bs r s'. write s bs = (r, s') \<longrightarrow> bs \<noteq> [] \<longrightarrow>
     r \<le> int (length bs) \<and> sent s' = sent s @ take (nat r) bs)"

lemma source_okD:
  assumes "source_ok read pending" and "read s n = ((r, bs), s')" and "0 < n"
  shows "r \<le> int n" and "length bs = nat r" and "pending s = bs @ pending s'"
  using assms unfolding source_ok_def by blast+

lemma sink_okD:
  assumes "sink_ok write sent" and "write s bs = (r, s')" and "bs \<noteq> []"
  shows "r \<le> int (length bs)" and "sent s' = sent s @ take (nat r) bs"
  using assms unfolding sink_ok_def by blast+

lemma int_of_size_small: "n < 2 ^ 31 \<Longrightarrow> int_of_size n = int n"
proof -
  assume n: "n < 2 ^ 31"
  then have "n < 2 ^ 32" by simp
  then have "uint (word_of_nat n :: i32) = int n" by (simp add: unsigned_of_nat take_bit_nat_eq_self_iff)
  then show ?thesis using n by (simp add: int_of_size_def sint_uint signed_take_bit_int_eq_self)
qed

section \<open>The loops\<close>

lemma readFixSize_loop_moves:
  assumes src: "source_ok read pending"
  shows "0 \<le> left \<Longrightarrow> offset + nat left \<le> length buffer \<Longrightarrow>
    readFixSize_loop read amount buffer offset left s = ((r, buf), s') \<Longrightarrow>
    \<exists>k. k \<le> nat left \<and> k \<le> length (pending s) \<and> buf = overwrite buffer offset (take k (pending s))
      \<and> pending s' = drop k (pending s) \<and> (if k = nat left then r = int_of_size amount else r \<le> 0)"
proof (induction "nat left" arbitrary: left offset buffer s rule: less_induct)
  case less
  show ?case
  proof (cases "left > 0")
    case False
    then show ?thesis using less.prems by (auto simp: readFixSize_loop.simps [of read] intro!: exI [of _ 0])
  next
    case True
    obtain len bs s1 where rd: "read s (nat left) = ((len, bs), s1)" by (metis prod.collapse)
    note srcD = source_okD [OF src rd]
    show ?thesis
    proof (cases "len \<le> 0")
      case neg: True
      then have "((len, buffer), s1) = ((r, buf), s')"
        using less.prems(3) True rd by (subst (asm) readFixSize_loop.simps) simp
      moreover have "pending s1 = pending s" using srcD(2,3) True neg by auto
      ultimately show ?thesis using True neg by (intro exI [of _ 0]) auto
    next
      case pos: False
      let ?b = "overwrite buffer offset bs"
      have bs: "length bs = nat len" "int (length bs) \<le> left" "pending s = bs @ pending s1" using srcD True pos by auto
      have fit: "offset + length bs \<le> length buffer" using bs less.prems(2) by linarith
      have run: "readFixSize_loop read amount ?b (offset + nat len) (left - len) s1 = ((r, buf), s')"
        using less.prems(3) True rd pos by (subst (asm) readFixSize_loop.simps) simp
      have "nat (left - len) < nat left" "0 \<le> left - len" "offset + nat len + nat (left - len) \<le> length ?b"
        using True pos bs less.prems(2) fit by auto
      from less.hyps [OF this run] obtain k where k: "k \<le> nat (left - len)" "k \<le> length (pending s1)"
        "buf = overwrite ?b (offset + nat len) (take k (pending s1))" "pending s' = drop k (pending s1)"
        "if k = nat (left - len) then r = int_of_size amount else r \<le> 0" by blast
      have "buf = overwrite buffer offset (take (length bs + k) (pending s))"
        using k(3) bs fit overwrite_overwrite [of offset buffer bs "take k (pending s1)"] by simp
      then show ?thesis using k bs True pos by (intro exI [of _ "length bs + k"]) auto
    qed
  qed
qed

lemma writeFixSize_loop_moves:
  assumes snk: "sink_ok write sent"
  shows "0 \<le> left \<Longrightarrow> offset + nat left = length data \<Longrightarrow>
    writeFixSize_loop write data offset left s = (r, s') \<Longrightarrow>
    \<exists>k. k \<le> nat left \<and> sent s' = sent s @ take k (drop offset data)
      \<and> (if k = nat left then r = int_of_size (length data) else r \<le> 0)"
proof (induction "nat left" arbitrary: left offset s rule: less_induct)
  case less
  show ?case
  proof (cases "left > 0")
    case False
    then show ?thesis using less.prems by (auto simp: writeFixSize_loop.simps [of "write"] intro!: exI [of _ 0])
  next
    case True
    let ?bs = "take (nat left) (drop offset data)"
    have lb: "length ?bs = nat left" "?bs \<noteq> []" using less.prems(2) True by auto
    obtain len s1 where wr: "write s ?bs = (len, s1)" by (metis prod.collapse)
    note snkD = sink_okD [OF snk wr lb(2)]
    show ?thesis
    proof (cases "len \<le> 0")
      case neg: True
      then have "(len, s1) = (r, s')" using less.prems(3) True wr by (subst (asm) writeFixSize_loop.simps) simp
      then show ?thesis using True neg snkD(2) by (intro exI [of _ 0]) auto
    next
      case pos: False
      have len: "len \<le> left" using snkD(1) lb(1) True by simp
      have run: "writeFixSize_loop write data (offset + nat len) (left - len) s1 = (r, s')"
        using less.prems(3) True wr pos by (subst (asm) writeFixSize_loop.simps) simp
      have "nat (left - len) < nat left" "0 \<le> left - len" "offset + nat len + nat (left - len) = length data"
        using True pos len less.prems(2) by auto
      from less.hyps [OF this run] obtain k where k: "k \<le> nat (left - len)"
        "sent s' = sent s1 @ take k (drop (offset + nat len) data)"
        "if k = nat (left - len) then r = int_of_size (length data) else r \<le> 0" by blast
      have "sent s' = sent s @ take (nat len + k) (drop offset data)"
        using k(2) snkD(2) len by (simp add: min_absorb1 nat_mono take_add) (simp add: add.commute)
      then show ?thesis using k True pos len by (intro exI [of _ "nat len + k"]) auto
    qed
  qed
qed

lemma Stream_readFixSize_moves:
  assumes "source_ok read pending" and "n \<le> length buffer" and "Stream_readFixSize read buffer n s = ((r, buf), s')"
  shows "\<exists>k. k \<le> n \<and> k \<le> length (pending s) \<and> buf = overwrite buffer 0 (take k (pending s))
      \<and> pending s' = drop k (pending s) \<and> (if k = n then r = int_of_size n else r \<le> 0)"
  using readFixSize_loop_moves [OF assms(1), of "int n" 0 buffer n s r buf s'] assms(2,3)
  by (simp add: Stream_readFixSize_def)

lemma Stream_writeFixSize_moves:
  assumes "sink_ok write sent" and "Stream_writeFixSize write data s = (r, s')"
  shows "\<exists>k. k \<le> length data \<and> sent s' = sent s @ take k data
      \<and> (if k = length data then r = int_of_size (length data) else r \<le> 0)"
  using writeFixSize_loop_moves [OF assms(1), of "int (length data)" 0 data s r s'] assms(2)
  by (simp add: Stream_writeFixSize_def)

section \<open>Byte arrays\<close>

text \<open>What the kernel does with a scattered read of a descriptor.\<close>

definition recvmsg_ok :: "'w sys \<Rightarrow> int \<Rightarrow> ('w \<Rightarrow> u8 list) \<Rightarrow> bool" where
  "recvmsg_ok os fd pending \<longleftrightarrow> (\<forall>w lens flags r bs w'. sys_recvmsg os fd lens flags w = ((r, bs), w') \<longrightarrow>
     r \<le> int (sum_list lens) \<and> length bs = nat r \<and> pending w = bs @ pending w')"

lemma iov_span_sum: "iov_span b n vs p len \<Longrightarrow> sum_list (map iov_len vs) = len"
  by (induction b n vs p len rule: iov_span.induct) auto

lemma SocketStream_read_ba_moves:
  assumes os: "recvmsg_ok os (sk_sock sock) pending" and inv: "ByteArray_inv ba" and n: "0 < n"
    and st: "ss_socket st = Some sock" "sk_isConnected sock"
  shows "\<exists>r ba' w' k. SocketStream_read_ba os st w ba n = Inr (r, ba', w') \<and> r \<le> int n \<and> k = nat r
    \<and> k \<le> length (pending w) \<and> pending w' = drop k (pending w) \<and> ByteArray_inv ba'
    \<and> ba_content ba' = overwrite (ba_content ba) (ba_position ba) (take k (pending w))
    \<and> ba_position ba' = ba_position ba + k"
proof -
  obtain vs ba1 where g: "ByteArray_getWriteBuffers ba [] n = Inr (n, vs, ba1)"
    and sum: "sum_list (map iov_len vs) = n"
    using getWriteBuffers_span [OF inv n, of "[]"] iov_span_sum by fastforce
  have vs: "vs \<noteq> []" using sum n by auto
  obtain r bs w' where rc: "sys_recvmsg os (sk_sock sock) (map iov_len vs) 0 w = ((r, bs), w')" by (metis prod.collapse)
  then have b: "r \<le> int n" "length bs = nat r" "pending w = bs @ pending w'"
    using os sum unfolding recvmsg_ok_def by blast+
  have "length bs \<le> n" using b(1,2) by linarith
  from getWriteBuffers_fill [OF inv n this] obtain ba2 ba3 where
    f: "iov_fill ba1 vs bs = Inr ba2" "ByteArray_setPosition ba2 (ba_position ba2 + length bs) = Inr ba3" "ByteArray_inv ba3"
      "ba_content ba3 = overwrite (ba_content ba) (ba_position ba) bs" "ba_position ba3 = ba_position ba + length bs"
    using g by auto
  show ?thesis
  proof (cases "r > 0")
    case True
    then have "SocketStream_read_ba os st w ba n = Inr (r, ba3, w')"
      using st g vs rc f b(2) by (simp add: SocketStream_read_ba_def SocketStream_isConnected_def Socket_recv_iov_def)
    then show ?thesis using b f by (intro exI [of _ r] exI [of _ ba3] exI [of _ w'] exI [of _ "nat r"]) simp
  next
    case False
    then have "bs = []" using b(2) by simp
    then have "ba2 = ba1" using f(1) vs by (cases vs) auto
    then have "SocketStream_read_ba os st w ba n = Inr (r, ba1, w')"
      using st g vs rc f(1) False by (simp add: SocketStream_read_ba_def SocketStream_isConnected_def Socket_recv_iov_def)
    moreover have "ByteArray_inv ba1 \<and> ba_content ba1 = ba_content ba \<and> ba_position ba1 = ba_position ba"
    proof -
      have "ba1 = ByteArray_addCapacity ba n"
        using g n by (auto simp: ByteArray_getWriteBuffers_def Let_def split: sum.splits)
      then show ?thesis using addCapacity_inv [OF inv, of n] inv_unfold [OF inv] length_flat
        by (auto simp: ba_content_def ba_flat_def)
    qed
    ultimately show ?thesis using b False \<open>bs = []\<close>
      by (intro exI [of _ r] exI [of _ ba1] exI [of _ w'] exI [of _ "0::nat"]) simp
  qed
qed

lemma readFixSize_ba_moves:
  assumes os: "recvmsg_ok os (sk_sock sock) pending" and st: "ss_socket st = Some sock" "sk_isConnected sock"
  shows "0 \<le> left \<Longrightarrow> ByteArray_inv ba \<Longrightarrow>
    \<exists>r ba' w' k. readFixSize_ba_loop (SocketStream_read_ba os st) amount ba left w = Inr (r, ba', w')
      \<and> k \<le> nat left \<and> k \<le> length (pending w) \<and> pending w' = drop k (pending w) \<and> ByteArray_inv ba'
      \<and> ba_content ba' = overwrite (ba_content ba) (ba_position ba) (take k (pending w))
      \<and> ba_position ba' = ba_position ba + k \<and> (if k = nat left then r = int_of_size amount else r \<le> 0)"
proof (induction "nat left" arbitrary: left ba w rule: less_induct)
  case less
  show ?case
  proof (cases "left > 0")
    case False
    then show ?thesis using less.prems by (auto simp: readFixSize_ba_loop.simps intro!: exI [of _ "0::nat"])
  next
    case True
    then have "0 < nat left" by simp
    from SocketStream_read_ba_moves [OF os less.prems(2) this st, of w]
    obtain r ba1 w1 where rd: "SocketStream_read_ba os st w ba (nat left) = Inr (r, ba1, w1)" "r \<le> left"
      "nat r \<le> length (pending w)" "pending w1 = drop (nat r) (pending w)" "ByteArray_inv ba1"
      "ba_content ba1 = overwrite (ba_content ba) (ba_position ba) (take (nat r) (pending w))"
      "ba_position ba1 = ba_position ba + nat r"
      using True by auto
    show ?thesis
    proof (cases "r \<le> 0")
      case neg: True
      then have "readFixSize_ba_loop (SocketStream_read_ba os st) amount ba left w = Inr (r, ba1, w1)"
        using True rd(1) by (subst readFixSize_ba_loop.simps) simp
      then show ?thesis using rd neg True
        by (intro exI [of _ r] exI [of _ ba1] exI [of _ w1] exI [of _ "0::nat"]) simp
    next
      case pos: False
      have step: "readFixSize_ba_loop (SocketStream_read_ba os st) amount ba left w
          = readFixSize_ba_loop (SocketStream_read_ba os st) amount ba1 (left - r) w1"
        using True pos rd(1) by (subst readFixSize_ba_loop.simps) simp
      have "nat (left - r) < nat left" "0 \<le> left - r" using True pos rd(2) by auto
      from less.hyps [OF this rd(5), of w1] obtain q ba2 w2 k where
        k: "readFixSize_ba_loop (SocketStream_read_ba os st) amount ba1 (left - r) w1 = Inr (q, ba2, w2)"
        "k \<le> nat (left - r)" "k \<le> length (pending w1)" "pending w2 = drop k (pending w1)" "ByteArray_inv ba2"
        "ba_content ba2 = overwrite (ba_content ba1) (ba_position ba1) (take k (pending w1))"
        "ba_position ba2 = ba_position ba1 + k" "if k = nat (left - r) then q = int_of_size amount else q \<le> 0"
        by blast
      have "ba_position ba \<le> length (ba_content ba)"
        using inv_unfold [OF less.prems(2)] by (simp add: ba_content_def ba_flat_def)
      then have "ba_content ba2 = overwrite (ba_content ba) (ba_position ba) (take (nat r + k) (pending w))"
        using k(6) rd(3,4,6,7) overwrite_overwrite [of "ba_position ba" "ba_content ba" "take (nat r) (pending w)" "take k (pending w1)"]
        by (simp add: take_add min_absorb2)
      moreover have "nat r + k \<le> nat left" "nat r + k = nat left \<longleftrightarrow> k = nat (left - r)" using k(2) rd(2) pos by auto
      moreover have "pending w2 = drop (nat r + k) (pending w)" using k(4) rd(4) by (simp add: add.commute)
      moreover have "nat r + k \<le> length (pending w)" using k(3) rd(3,4) by simp
      ultimately show ?thesis using step k(1,5,7,8) rd(7)
        by (intro exI [of _ q] exI [of _ ba2] exI [of _ w2] exI [of _ "nat r + k"]) simp
    qed
  qed
qed

section \<open>Properties\<close>

text \<open>A connection that delivers and accepts at most three bytes at a time.\<close>

definition slow_read :: "u8 list \<Rightarrow> nat \<Rightarrow> (int \<times> u8 list) \<times> u8 list" where
  "slow_read s n = (let k = min 3 (min n (length s)) in ((int k, take k s), drop k s))"

definition slow_write :: "u8 list \<Rightarrow> u8 list \<Rightarrow> int \<times> u8 list" where
  "slow_write s bs = (let k = min 3 (length bs) in (int k, s @ take k bs))"

lemma slow_ok: "source_ok slow_read id" "sink_ok slow_write id"
  by (auto simp: source_ok_def sink_ok_def slow_read_def slow_write_def Let_def)

text \<open>
C38: what one end writes with \<open>writeFixSize\<close> the other end reads with \<open>readFixSize\<close>, however the
calls below split the bytes: when both report success, the buffer starts with the data, nothing
beyond it is taken, and the results are the length.  (The length must fit an \<open>int\<close>: from 2 GiB on
the conversion of the result makes success look like an error.)
\<close>
theorem stream_fix_size_roundtrip:
  assumes "sink_ok write sent" and "source_ok read pending"
    and "length data < 2 ^ 31" and "length data \<le> length buffer" and "data \<noteq> []"
    and "Stream_writeFixSize write data s = (q, s')" and "q > 0"
    and "sent s @ pending t = sent s' @ rest"
    and "Stream_readFixSize read buffer (length data) t = ((r, buf), t')" and "r > 0"
  shows "take (length data) buf = data \<and> drop (length data) buf = drop (length data) buffer
    \<and> pending t' = rest \<and> q = int (length data) \<and> r = int (length data)"
proof -
  obtain j where j: "j \<le> length data" "sent s' = sent s @ take j data"
    "if j = length data then q = int_of_size (length data) else q \<le> 0"
    using Stream_writeFixSize_moves [OF assms(1,6)] by blast
  then have q: "j = length data" "q = int (length data)"
    using assms(7) int_of_size_small [OF assms(3)] by (auto split: if_splits)
  then have pend: "pending t = data @ rest" using j(2) assms(8) by simp
  obtain k where k: "k \<le> length data" "buf = overwrite buffer 0 (take k (pending t))" "pending t' = drop k (pending t)"
    "if k = length data then r = int_of_size (length data) else r \<le> 0"
    using Stream_readFixSize_moves [OF assms(2,4,9)] by blast
  then have "k = length data" "r = int (length data)"
    using assms(10) int_of_size_small [OF assms(3)] by (auto split: if_splits)
  then show ?thesis using k pend q by (simp add: overwrite_def)
qed

theorem stream_fix_size_roundtrip_witness:
  "take 5 (snd (fst (Stream_readFixSize slow_read [0, 0, 0, 0, 0, 9] 5
       (snd (Stream_writeFixSize slow_write [1, 2, 3, 4, 5] []) @ [7])))) = [1, 2, 3, 4, 5]"
proof -
  have w: "Stream_writeFixSize slow_write [1, 2, 3, 4, 5] [] = (5, [1, 2, 3, 4, 5])"
    by (simp add: Stream_writeFixSize_def writeFixSize_loop.simps slow_write_def Let_def int_of_size_small)
  have l: "length [1 :: u8, 2, 3, 4, 5] = 5" by simp
  have r5: "Stream_readFixSize slow_read [0, 0, 0, 0, 0, 9] 5 [1, 2, 3, 4, 5, 7] = ((5, [1, 2, 3, 4, 5, 9]), [7])"
    by (simp add: Stream_readFixSize_def readFixSize_loop.simps slow_read_def Let_def overwrite_def int_of_size_small)
  have r: "Stream_readFixSize slow_read [0, 0, 0, 0, 0, 9] (length [1 :: u8, 2, 3, 4, 5]) [1, 2, 3, 4, 5, 7]
      = ((5, [1, 2, 3, 4, 5, 9]), [7])"
    unfolding l by (rule r5)
  have "take (length [1 :: u8, 2, 3, 4, 5]) [1, 2, 3, 4, 5, 9] = [1 :: u8, 2, 3, 4, 5]"
    using stream_fix_size_roundtrip [OF slow_ok(2,1) _ _ _ w _ _ r, of "[7]"] by simp
  then show ?thesis using w r5 by simp
qed

text \<open>
Reading a fixed size from a connected socket into a byte array never faults and returns; it
puts a prefix of what is pending at the position, moves the position behind it, and reports success
exactly when the prefix has the size asked for.
\<close>
theorem socket_stream_fills_byte_array:
  assumes "recvmsg_ok os (sk_sock sock) pending" and "ss_socket st = Some sock" and "sk_isConnected sock"
    and "ba_reachable ba"
  shows "\<exists>r ba' w' k. Stream_readFixSize_ba (SocketStream_read_ba os st) ba n w = Inr (r, ba', w')
    \<and> k \<le> n \<and> k \<le> length (pending w) \<and> pending w' = drop k (pending w)
    \<and> ba_content ba' = overwrite (ba_content ba) (ba_position ba) (take k (pending w))
    \<and> ba_position ba' = ba_position ba + k \<and> (if k = n then r = int_of_size n else r \<le> 0)"
  using readFixSize_ba_moves [OF assms(1-3), of "int n" ba n w] reachable_inv [OF assms(4)]
  by (fastforce simp: Stream_readFixSize_ba_def)

text \<open>System calls that succeed and do nothing.\<close>

definition idle_sys :: "'w sys" where
  "idle_sys =
     \<lparr> sys_socket = (\<lambda>f t p w. (3, w)), sys_close = (\<lambda>fd w. w), sys_accept = (\<lambda>fd w. (-1, w)),
       sys_bind = (\<lambda>fd a n w. (0, w)), sys_connect = (\<lambda>fd a n w. (0, w)),
       sys_connect_with_timeout = (\<lambda>fd a n t w. (0, w)), sys_listen = (\<lambda>fd n w. (0, w)),
       sys_send = (\<lambda>fd bs f w. (int (length bs), w)), sys_sendmsg = (\<lambda>fd bs a f w. (int (length (concat bs)), w)),
       sys_sendto = (\<lambda>fd bs f a n w. (int (length bs), w)), sys_recv = (\<lambda>fd n f w. ((0, []), w)),
       sys_recvmsg = (\<lambda>fd ns f w. ((0, []), w)),
       sys_recvfrom = (\<lambda>fd n f a w. ((0, [], a), w)), sys_recvmsg_from = (\<lambda>fd ns f a w. ((0, [], a), w)),
       sys_getpeername = (\<lambda>fd a w. (None, w)), sys_getsockname = (\<lambda>fd a w. (None, w)),
       sys_setsockopt = (\<lambda>fd l n v w. (0, w)), sys_getsockopt = (\<lambda>fd l n v w. ((0, v), w)),
       sys_errno = (\<lambda>w. 0), sys_fdctx = (\<lambda>fd w. None), sys_cancelEvent = (\<lambda>fd e w. (False, w)),
       sys_cancelAll = (\<lambda>fd w. (False, w)) \<rparr>"

text \<open>A connected socket whose peer has sent the bytes of the state, two at a time.\<close>

definition demo_sys :: "u8 list sys" where
  "demo_sys = idle_sys
     \<lparr>sys_recv := \<lambda>fd n f w. ((int (length (take (min 2 n) w)), take (min 2 n) w), drop (min 2 n) w),
      sys_recvmsg := \<lambda>fd ns f w. ((int (length (take (min 2 (sum_list ns)) w)), take (min 2 (sum_list ns)) w),
         drop (min 2 (sum_list ns)) w)\<rparr>"

definition demo_socket :: Socket where
  "demo_socket = (new_Socket IPv4 TCP 0)\<lparr>sk_sock := 3, sk_isConnected := True\<rparr>"

lemma demo_recvmsg_ok: "recvmsg_ok demo_sys fd id"
  by (auto simp: recvmsg_ok_def demo_sys_def idle_sys_def)

theorem socket_stream_fills_byte_array_witness:
  "\<exists>r ba' w' k. Stream_readFixSize_ba (SocketStream_read_ba demo_sys (new_SocketStream (Some demo_socket) True))
      ba4_hello 5 [1, 2, 3] = Inr (r, ba', w')
    \<and> k \<le> 5 \<and> k \<le> length (id [1 :: u8, 2, 3]) \<and> id w' = drop k (id [1, 2, 3])
    \<and> ba_content ba' = overwrite (ba_content ba4_hello) (ba_position ba4_hello) (take k (id [1, 2, 3]))
    \<and> ba_position ba' = ba_position ba4_hello + k \<and> (if k = 5 then r = int_of_size 5 else r \<le> 0)"
  by (rule socket_stream_fills_byte_array [where sock = demo_socket])
    (rule demo_recvmsg_ok, simp_all add: new_SocketStream_def demo_socket_def reachable_ba4_hello)

end
