(* ===== verification/SessionProps.thy ===== *)
theory SessionProps
  imports TcpServer HttpParserProps StreamProps
begin

text \<open>
  Sessions and servers end to end: a request that arrives in one piece is received as it was sent,
  and what happens to one that arrives in two.
\<close>

section \<open>Bytes and characters\<close>

lemma byte_char: "char_of (unat (of_char c :: u8)) = c"
proof -
  have "(of_char c :: u8) = word_of_nat (of_char c)" by (simp only: of_nat_of_char)
  moreover have "unat (word_of_nat (of_char c) :: u8) = of_char c mod 256" by (simp only: unat_of_nat) simp
  ultimately have "unat (of_char c :: u8) = of_char c mod 256" by simp
  then show ?thesis by simp
qed

lemma byte_text_bytes [simp]: "byte_text (text_bytes s) = s"
  by (simp add: byte_text_def text_bytes_def comp_def byte_char)

lemma length_text_bytes [simp]: "length (text_bytes s) = length s"
  by (simp add: text_bytes_def)

lemma length_byte_text [simp]: "length (byte_text bs) = length bs"
  by (simp add: byte_text_def)

section \<open>One piece\<close>

text \<open>The request that was sent, as the receiver sees it.\<close>

definition same_request :: "HttpRequest \<Rightarrow> HttpRequest \<Rightarrow> bool" where
  "same_request r q \<longleftrightarrow> rq_method q = rq_method r \<and> rq_path q = rq_path r \<and> rq_query q = rq_query r
     \<and> rq_version q = rq_version r \<and> rq_close q = rq_close r
     \<and> (\<forall>k d. getHeader q k d =
         (if same_key k ''connection'' then if rq_close r then ''close'' else ''keep-alive'' else getHeader r k d))"

definition received :: "HttpRequest \<Rightarrow> HttpRequest" where
  "received r = HttpRequest_init (set_fields (sent_fields r) ((new_HttpRequest 0x11 True)\<lparr>rq_method := rq_method r,
     rq_path := rq_path r, rq_query := rq_query r, rq_version := rq_version r\<rparr>))"

lemma received_same: "sendable r \<Longrightarrow> same_request r (received r)"
proof -
  assume r: "sendable r"
  let ?q = "set_fields (sent_fields r) ((new_HttpRequest 0x11 True)\<lparr>rq_method := rq_method r,
     rq_path := rq_path r, rq_query := rq_query r, rq_version := rq_version r\<rparr>)"
  have "same_key ''connection'' ''connection''" by (simp add: same_key_def)
  then have c: "getHeader ?q ''connection'' [] = (if rq_close r then ''close'' else ''keep-alive'')"
    using parsed_header [OF r, of "''connection''" "[]"] by simp
  have "strcasecmp (c_str ''close'') ''keep-alive'' \<noteq> 0" "strcasecmp (c_str ''keep-alive'') ''keep-alive'' = 0" by code_simp+
  then have i: "received r = ?q\<lparr>rq_close := rq_close r\<rparr>"
    using c by (simp add: received_def HttpRequest_init_def Let_def)
  have "getHeader (?q\<lparr>rq_close := b\<rparr>) k d = getHeader ?q k d" for b k d by (simp add: getHeader_def)
  then show ?thesis using parsed_header [OF r] unfolding same_request_def i by (simp add: set_fields_keep)
qed

lemma recv_one_piece:
  assumes r: "sendable r" and m: "hp_header_done m = None"
    and no_body: "getHeader r ''content-length'' ''a'' = ''a''" "getHeader r ''content-length'' ''b'' = ''b''"
    and st: "ss_socket st = Some sock" "sk_isConnected sock"
    and size: "size_n = unat (hs_request_buffer sizes)" "length buffer = size_n" "length (HttpRequest_dump r) < size_n"
    and arrives: "sys_recv os (sk_sock sock) size_n 0 w
      = ((int (length (HttpRequest_dump r)), text_bytes (HttpRequest_dump r)), w1)"
  shows "HttpSession_recvRequest os cast can_resize sizes m buffer st w = Some (Inr (Some (received r)), st, w1)"
proof -
  let ?t = "HttpRequest_dump r"
  let ?q = "set_fields (sent_fields r) ((new_HttpRequest 0x11 True)\<lparr>rq_method := rq_method r,
     rq_path := rq_path r, rq_query := rq_query r, rq_version := rq_version r\<rparr>)"
  have big: "size_n < 2 ^ 64" unfolding size(1) by (rule less_le_trans [OF unsigned_less]) simp
  have n: "0 < length ?t" by (simp add: HttpRequest_dump_def)
  have data: "overwrite buffer 0 ?t = ?t @ drop (length ?t) buffer" by (simp add: overwrite_def)
  then have "length (overwrite buffer 0 ?t) < 2 ^ 64" using size big by simp
  from parse_dump [OF r m data this] obtain P where P:
    "HttpRequestParser_execute (new_HttpRequestParser m) (overwrite buffer 0 ?t) (length ?t)
      = Inr (P, overwrite buffer 0 ?t, length ?t)"
    "HttpRequestParser_isFinished P = 1" "\<not> HttpRequestParser_hasError P" "rp_data P = ?q" by blast
  have loop: "recv_loop os size_n (new_HttpRequestParser m) buffer 0 st w = Some (Inr (Some (P, overwrite buffer 0 ?t, 0)), st, w1)"
    using st arrives P n big size(3)
    by (subst recv_loop.simps) (simp add: SocketStream_read_def SocketStream_isConnected_def Socket_recv_def Let_def)
  have "\<not> same_key ''content-length'' ''connection''" by (simp add: same_key_def) code_simp
  then have "getHeader ?q ''content-length'' ''a'' = ''a''" "getHeader ?q ''content-length'' ''b'' = ''b''"
    using parsed_header [OF r] no_body by simp_all
  then have "omap_get CaseInsensitiveLess (rq_headers ?q) ''content-length'' = None"
    by (auto simp: getHeader_def map_find_or_def split: option.splits)
  then have "HttpRequestParser_getContentLength cast P = 0"
    by (simp add: HttpRequestParser_getContentLength_def getHeaderAs_def getAs_def P(4))
  then show ?thesis
    using loop size(1) by (simp add: HttpSession_recvRequest_def GetHttpRequestBufferSize_def Let_def P(4) received_def)
qed

section \<open>Two pieces\<close>

lemma ragel_loop_keeps:
  assumes act: "\<And>p a s s'. act p a s = Inr s' \<Longrightarrow> f s' = f s"
  shows "ragel_loop code widen act breaks mem pe cs p s = Inr (s', cs', p') \<Longrightarrow> f s' = f s"
proof (induction "pe - p" arbitrary: cs p s rule: less_induct)
  case less
  have acts: "run_actions act p as s = Inr s2 \<Longrightarrow> f s2 = f s" for as s s2
    by (induction as arbitrary: s) (auto simp: act result_bind_def split: sum.splits)
  show ?case
  proof (cases "p < pe")
    case False
    then show ?thesis using less.prems by (subst (asm) ragel_loop.simps) simp
  next
    case True
    then have np: "\<not> p \<ge> pe" by simp
    show ?thesis
    proof (cases "st_of code cs")
      case None
      then show ?thesis using less.prems True by (subst (asm) ragel_loop.simps) simp
    next
      case (Some x)
      obtain wide tests other where x: "x = (wide, tests, other)" using prod_cases3 by blast
      define e where "e = edge_of code (goto_of tests other (if wide then widen s (char_value (mem ! p)) else char_value (mem ! p)))"
      have "(if p \<ge> length mem then Inl OutOfBounds else if e = ([], 0) then Inr (s, 0, p)
          else result_bind (run_actions act p (fst e) s) (\<lambda>s'.
            if list_ex breaks (fst e) then Inr (s', snd e, p + 1)
            else ragel_loop code widen act breaks mem pe (snd e) (p + 1) s')) = Inr (s', cs', p')"
        using less.prems np by (subst (asm) ragel_loop.simps) (simp only: Some x e_def Let_def option.case prod.case if_False)
      then consider "s' = s" | s2 where "run_actions act p (fst e) s = Inr s2" "s' = s2"
        | s2 where "run_actions act p (fst e) s = Inr s2" "ragel_loop code widen act breaks mem pe (snd e) (p + 1) s2 = Inr (s', cs', p')"
        by (auto simp: result_bind_def split: if_splits sum.splits)
      then show ?thesis
      proof cases
        case (3 s2)
        have "pe - (p + 1) < pe - p" using True by simp
        from less.hyps [OF this 3(2)] acts [OF 3(1)] show ?thesis by simp
      qed (auto dest: acts)
    qed
  qed
qed

lemma request_act_nread: "request_act mem pe p a s = Inr s' \<Longrightarrow> hp_nread s' = hp_nread s"
  by (cases a) (auto simp: call_element_def call_field_def result_bind_def split: sum.splits if_splits)

lemma request_loop_nread: "request_loop mem pe cs p s = Inr (s', cs', p') \<Longrightarrow> hp_nread s' = hp_nread s"
  unfolding request_loop_def by (rule ragel_loop_keeps) (rule request_act_nread)

text \<open>The count of all bytes read so far is held against the length of the last piece.\<close>

lemma shorter_piece_aborts:
  assumes "0 < len" and "len < hp_nread s"
  shows "\<exists>e. http_parser_execute s buffer len 0 = Inl e"
proof (cases "request_loop buffer len (hp_cs s) 0 s")
  case (Inr x)
  obtain s1 cs p where x: "x = (s1, cs, p)" using prod_cases3 by blast
  then have "hp_nread s1 = hp_nread s" using Inr request_loop_nread by blast
  then show ?thesis using Inr x assms by (simp add: http_parser_execute_def Let_def)
qed (use assms in \<open>simp add: http_parser_execute_def\<close>)

lemma http_call_counts:
  assumes "0 < len" and "len \<le> length buffer" and "length buffer < 2 ^ 64" and "http_parser_init s = s"
    and "http_parser_execute s buffer len 0 = Inr (s', n)"
  shows "n \<le> len \<and> hp_nread s' = n \<and> (n < len \<longrightarrow> http_parser_finish s' \<noteq> 0)"
proof -
  obtain s1 cs p where "http_parser_execute (http_parser_init s) buffer len 0 = Inr (s1\<lparr>hp_cs := cs, hp_nread := p\<rparr>, p)"
    and "p \<le> len" and "p < len \<longrightarrow> cs = 0 \<or> 348 \<le> cs" using first_call [OF assms(1-3)] by metis
  then show ?thesis using assms(4,5)
    by (auto simp: http_parser_finish_def http_parser_has_error_def http_parser_is_finished_def
      http_parser_error_def http_parser_first_final_def)
qed

section \<open>Properties\<close>


text \<open>The three letters of a method, of which the connection delivers two at first.\<close>

definition demo_sizes :: http_sizes where
  "demo_sizes = \<lparr>hs_request_buffer = 8, hs_request_max_body = 8, hs_response_buffer = 8, hs_response_max_body = 8\<rparr>"

definition demo_memory :: "request_data http_parser" where
  "demo_memory = zeroed_http_parser (new_HttpRequest 0 False, 0)"

lemma demo_first_piece:
  "\<exists>P. HttpRequestParser_execute (new_HttpRequestParser demo_memory) (overwrite ''........'' 0 (byte_text [71, 69]))
      (length [71 :: u8, 69]) = Inr (P, ''GE......'', 2)
    \<and> HttpRequestParser_isFinished P = 0 \<and> \<not> HttpRequestParser_hasError P"
proof -
  let ?s = "rp_parser (new_HttpRequestParser demo_memory)"
  have mem: "overwrite ''........'' 0 (byte_text [71, 69]) = ''GE......''" by code_simp
  have s: "hp_cs ?s = 1" "hp_nread ?s = 0" "hp_body_start ?s = 0" "hp_field_len ?s = 0" "hp_field_start ?s = 0" "snd (hp_data ?s) = 0"
    by (simp_all add: new_HttpRequestParser_def http_parser_init_def http_parser_start_def)
  have G: "hop 1 (char_value (''GE......'' ! 0)) = ([Mark], method_state 0)"
    using hop_method(1) [of "char_value CHR ''G''"] by (simp add: upper_class_def char_value_def)
  have E: "hop (method_state 0) (char_value (''GE......'' ! 1)) = ([], method_state 1)"
    using hop_method(2) [of 0 "char_value CHR ''E''"] by (simp add: upper_class_def char_value_def)
  have "request_loop ''GE......'' 2 1 0 ?s = request_loop ''GE......'' 2 (method_state 0) 1 (?s\<lparr>hp_mark := 0\<rparr>)"
    by (subst loop_row [OF _ _ G]) simp_all
  also have "\<dots> = request_loop ''GE......'' 2 (method_state 1) 2 (?s\<lparr>hp_mark := 0\<rparr>)"
    by (subst loop_row [OF _ _ E]) (simp_all add: method_state_def numeral_2_eq_2)
  also have "\<dots> = Inr (?s\<lparr>hp_mark := 0\<rparr>, method_state 1, 2)"
    by (simp add: request_loop_def ragel_loop.simps)
  finally have "http_parser_execute ?s ''GE......'' 2 0 = Inr (?s\<lparr>hp_mark := 0, hp_cs := 175, hp_nread := 2\<rparr>, 2)"
    using s by (simp add: http_parser_execute_def http_parser_has_error_def http_parser_error_def method_state_def)
  moreover have "move_down ''GE......'' 2 2 = Inr ''GE......''" by (simp add: move_down_def size_sub_def)
  ultimately have "HttpRequestParser_execute (new_HttpRequestParser demo_memory) ''GE......'' 2
      = Inr ((new_HttpRequestParser demo_memory)\<lparr>rp_parser := ?s\<lparr>hp_mark := 0, hp_cs := 175, hp_nread := 2\<rparr>\<rparr>, ''GE......'', 2)"
    by (simp only: HttpRequestParser_execute_def result_bind_simps prod.case)
  moreover have "length [71 :: u8, 69] = 2" by simp
  ultimately show ?thesis using s unfolding mem
    by (simp only: HttpRequestParser_isFinished_def HttpRequestParser_hasError_def
      http_parser_finish_def http_parser_has_error_def http_parser_is_finished_def http_parser_error_def
      http_parser_first_final_def) simp
qed


section \<open>Answering\<close>

text \<open>A write to the descriptor takes at least one byte and at most what it is given.\<close>

definition delivers :: "'w sys \<Rightarrow> int \<Rightarrow> ('w \<Rightarrow> u8 list) \<Rightarrow> bool" where
  "delivers os fd sent \<longleftrightarrow>
     (\<forall>w bs flags r w'. bs \<noteq> [] \<longrightarrow> sys_send os fd bs flags w = (r, w') \<longrightarrow>
        0 < r \<and> r \<le> int (length bs) \<and> sent w' = sent w @ take (nat r) bs)
   \<and> (\<forall>w. sent (sys_close os fd w) = sent w)"

lemma write_all_delivers:
  assumes d: "delivers os (sk_sock sock) sent" and st: "ss_socket st = Some sock" "sk_isConnected sock"
  shows "sent (snd (Stream_writeFixSize (SocketStream_write os st) data w)) = sent w @ data"
proof -
  have wr: "SocketStream_write os st w bs = sys_send os (sk_sock sock) bs 0 w" for w bs
    using st by (simp add: SocketStream_write_def SocketStream_isConnected_def Socket_send_def)
  have "sent (snd (writeFixSize_loop (SocketStream_write os st) data offset left w)) = sent w @ drop offset data"
    if "offset + nat left = length data" "0 \<le> left" for offset left w
    using that
  proof (induction "nat left" arbitrary: left offset w rule: less_induct)
    case less
    show ?case
    proof (cases "left > 0")
      case False
      then show ?thesis using less.prems by (subst writeFixSize_loop.simps) simp
    next
      case True
      let ?bs = "take (nat left) (drop offset data)"
      have bs: "?bs = drop offset data" "?bs \<noteq> []" using less.prems True by auto
      obtain r w1 where r: "sys_send os (sk_sock sock) ?bs 0 w = (r, w1)" by (metis prod.collapse)
      then have law: "0 < r \<and> r \<le> int (length ?bs) \<and> sent w1 = sent w @ take (nat r) ?bs"
        using d bs(2) unfolding delivers_def by blast
      have "int (length ?bs) = left" using less.prems True by simp
      then have r1: "0 < r" "r \<le> left" "sent w1 = sent w @ take (nat r) (drop offset data)" using law bs(1) by simp_all
      have step: "writeFixSize_loop (SocketStream_write os st) data offset left w
        = writeFixSize_loop (SocketStream_write os st) data (offset + nat r) (left - r) w1"
        using True r r1(1) by (subst writeFixSize_loop.simps) (simp add: wr)
      have "nat (left - r) < nat left" "offset + nat r + nat (left - r) = length data" "0 \<le> left - r"
        using r1(1,2) True less.prems(1) by auto
      note h = less.hyps [OF this, of w1]
      have "take (nat r) (drop offset data) @ drop (offset + nat r) data = drop offset data"
        by (metis append_take_drop_id drop_drop add.commute)
      then show ?thesis by (simp only: step h r1(3) append_assoc)
    qed
  qed
  from this [of 0 "int (length data)" w] show ?thesis by (simp add: Stream_writeFixSize_def)
qed


text \<open>A connection with what is still to be read and what has been written, three bytes at a time.\<close>

definition web_sys :: "(u8 list \<times> u8 list) sys" where
  "web_sys = idle_sys
     \<lparr>sys_recv := \<lambda>fd n f w. ((int (length (take n (fst w))), take n (fst w)), (drop n (fst w), snd w)),
      sys_send := \<lambda>fd bs f w. (int (length (take 3 bs)), (fst w, snd w @ take 3 bs))\<rparr>"

definition web_sizes :: http_sizes where
  "web_sizes = demo_sizes\<lparr>hs_request_buffer := 200\<rparr>"

definition web_request :: HttpRequest where
  "web_request = (new_HttpRequest 0x11 False)\<lparr>rq_query := ''a=1''\<rparr>"

definition hello :: "'s handler" where
  "hello x = (case x of (q, r, s) \<Rightarrow> Some ((q, r\<lparr>rs_body := ''hello''\<rparr>, s), 0))"

definition web_server :: "(SocketStream \<times> u8 list \<times> u8 list) HttpServer" where
  "web_server = (new_HttpServer False 0 0 0)\<lparr>hv_dispatch := addServlet_cb new_ServletDispatch ''/'' (Some hello)\<rparr>"

lemma web_request_sendable: "sendable web_request"
proof -
  have "HttpRequest_ok web_request" by (simp add: HttpRequest_ok_def web_request_def new_HttpRequest_def empty_map_ok)
  moreover have "path_text ''/''" unfolding path_text_def by simp
  moreover have "uri_text query_class ''a=1''" by (simp add: class_defs char_value_def)
  ultimately show ?thesis unfolding sendable_def by (simp add: web_request_def new_HttpRequest_def)
qed

lemma web_delivers: "delivers web_sys fd snd"
  by (auto simp: delivers_def web_sys_def idle_sys_def min_def)


end
