(* ===== verification/BodyProps.thy ===== *)
theory BodyProps
  imports SessionProps
begin

text \<open>
  The body of a request: what the buffer holds of it and what is read behind it are put together
  in the order they arrived.
\<close>

lemma take_overwrite_rest: "length xs = m \<Longrightarrow> m \<le> n \<Longrightarrow> drop m (overwrite (replicate n z) 0 xs) = replicate (n - m) z"
  by (simp add: overwrite_def)

text \<open>
C13: the body of a request.  When the length is positive and \<open>recvRequest\<close> gets a body, it is the
first bytes of what had arrived behind the header in the buffer followed by what was still
pending on the connection, exactly as many as \<open>content-length\<close> says, and nothing beyond them is
taken from the connection.
\<close>
theorem session_body_exact:
  assumes "source_ok (SocketStream_read os st) pending"
    and "0 < sint content_length"
    and "0 \<le> offset" and "nat offset \<le> length data"
    and "recv_body os can_resize content_length data offset st w = (Inr (Some body), st', w')"
  shows "body = take (nat (sint content_length)) (take (nat offset) data @ byte_text (pending w))
    \<and> length body = nat (sint content_length) \<and> pending w' = drop (nat (sint content_length) - nat offset) (pending w)"
proof -
  let ?n = "sint content_length"
  have fits: "can_resize (nat ?n)" using assms(5) by (auto simp: recv_body_def Let_def split: if_splits)
  show ?thesis
  proof (cases "?n - offset > 0")
    case False
    then have "body = take (nat ?n) data" "w' = w"
      using assms(2,4,5) fits by (auto simp: recv_body_def Let_def overwrite_def)
    then show ?thesis using False assms(2,3,4) by (simp add: min_def)
  next
    case True
    let ?k = "nat offset"
    have le: "?k \<le> nat ?n" using True assms(3) by simp
    let ?buf = "text_bytes (drop ?k (overwrite (replicate (nat ?n) (CHR 0x00)) 0 (take ?k data)))"
    have buf: "?buf = replicate (nat ?n - ?k) (of_char (CHR 0x00))"
      using take_overwrite_rest [of "take ?k data" ?k "nat ?n"] assms(4) le by (simp add: text_bytes_def)
    have d: "nat (?n - offset) = nat ?n - ?k" using assms(3) by (simp add: nat_diff_distrib)
    have "nat (?n - offset) \<le> length ?buf" unfolding buf d by simp
    note moves = Stream_readFixSize_moves [OF assms(1) this]
    obtain r rest w1 where rd: "Stream_readFixSize (SocketStream_read os st) ?buf (nat (?n - offset)) w = ((r, rest), w1)"
      by (metis prod.collapse)
    obtain j where j: "j \<le> nat (?n - offset)" "j \<le> length (pending w)" "rest = overwrite ?buf 0 (take j (pending w))"
      "pending w1 = drop j (pending w)" "if j = nat (?n - offset) then r = int_of_size (nat (?n - offset)) else r \<le> 0"
      using moves [OF rd] by blast
    have out: "\<not> r \<le> 0 \<and> body = take ?k (overwrite (replicate (nat ?n) (CHR 0x00)) 0 (take ?k data)) @ byte_text rest \<and> w' = w1"
      using assms(5) fits True rd by (auto simp: recv_body_def Let_def split: if_splits)
    then have jn: "j = nat (?n - offset)" using j(5) by (auto split: if_splits)
    have "take ?k (overwrite (replicate (nat ?n) (CHR 0x00)) 0 (take ?k data)) = take ?k data"
      using assms(4) by (simp add: overwrite_def)
    moreover have "rest = take j (pending w)" using j(2,3) jn unfolding buf d by (simp add: overwrite_def)
    moreover have "nat ?n - ?k = j" using jn d by simp
    ultimately show ?thesis using out j(2,4) assms(4) le
      by (simp add: byte_text_def take_map)
  qed
qed

lemma demo_source: "source_ok (SocketStream_read demo_sys (new_HttpSession (Some demo_socket) True)) id"
  by (auto simp: source_ok_def SocketStream_read_def new_HttpSession_def new_SocketStream_def SocketStream_isConnected_def
      Socket_recv_def demo_socket_def demo_sys_def)

theorem session_body_exact_witness:
  "\<exists>body st' w'. recv_body demo_sys (\<lambda>_. True) 4 ''ab......'' 2 (new_HttpSession (Some demo_socket) True) [99, 100, 101]
      = (Inr (Some body), st', w')
    \<and> body = take 4 (''ab'' @ byte_text [99, 100, 101]) \<and> w' = [101]"
proof -
  let ?st = "new_HttpSession (Some demo_socket) True"
  have read: "SocketStream_read demo_sys ?st w n = ((int (length (take (min 2 n) w)), take (min 2 n) w), drop (min 2 n) w)" for w n
    by (simp add: SocketStream_read_def new_HttpSession_def new_SocketStream_def SocketStream_isConnected_def
        Socket_recv_def demo_socket_def demo_sys_def)
  have "Stream_readFixSize (SocketStream_read demo_sys ?st) buf 2 [99, 100, 101] = ((2, overwrite buf 0 [99, 100]), [101])" for buf
    by (simp add: Stream_readFixSize_def readFixSize_loop.simps read int_of_size_small)
  then obtain body where b: "recv_body demo_sys (\<lambda>_. True) 4 ''ab......'' 2 ?st [99, 100, 101] = (Inr (Some body), ?st, [101])"
    by (simp add: recv_body_def Let_def)
  have "body = take (nat (sint (4 :: i64))) (take (nat 2) ''ab......'' @ byte_text (id [99, 100, 101]))"
    using session_body_exact [OF demo_source _ _ _ b] by simp
  then show ?thesis using b by (simp add: exI)
qed

end
