(* ===== verification/ServerProps.thy ===== *)
theory ServerProps
  imports TcpServer SocketProps StreamProps
begin

text \<open>
  Binding a server to a list of addresses: it listens on all of them, or it is left without a socket
  and every descriptor made on the way is closed.
\<close>

section \<open>Open descriptors\<close>

text \<open>How often a descriptor was made without being closed.\<close>

definition balance :: "int \<Rightarrow> fd_event list \<Rightarrow> int" where
  "balance fd tr = int (count_list tr (Opened fd)) - int (count_list tr (Closed fd))"

lemma balance_simps [simp]:
  "balance fd (tr @ [Opened a]) = balance fd tr + (if a = fd then 1 else 0)"
  "balance fd (tr @ [Closed a]) = balance fd tr - (if a = fd then 1 else 0)"
  by (simp_all add: balance_def)

definition fd_trace :: "Socket \<Rightarrow> fd_event list" where
  "fd_trace s = (if sk_sock s = -1 then [] else [Opened (sk_sock s)])"

definition owned :: "int \<Rightarrow> Socket \<Rightarrow> int" where
  "owned fd s = (if sk_sock s = fd \<and> fd \<noteq> -1 then 1 else 0)"

lemma balance_trace: "balance fd (tr @ fd_trace s) = balance fd tr + owned fd s"
  by (simp add: fd_trace_def owned_def)

lemma ensure_sock_trace:
  assumes "sk_sock s = -1" and "ensure_sock (traced os) s x = (s', x')"
  shows "snd x' = snd x @ fd_trace s'"
  using assms
  by (auto simp: ensure_sock_def isValid_def newSock_def fd_trace_def Let_def traced_def [of os] lift_open_def
      split: if_splits prod.splits)
    (metis initSock_trace snd_conv traced_def)+

lemma bind_trace:
  assumes "Socket_bind (traced os) (CreateTCP addr) addr x = (ok, s, x')"
  shows "snd x' = snd x @ fd_trace s" and "ok \<Longrightarrow> sk_sock s \<noteq> -1"
proof -
  obtain s1 x1 where e: "ensure_sock (traced os) (CreateTCP addr) x = (s1, x1)" using prod.exhaust by blast
  have t: "snd x1 = snd x @ fd_trace s1"
    by (rule ensure_sock_trace [OF _ e]) (simp add: CreateTCP_def new_Socket_def)
  obtain rt x2 where b: "lift (sys_bind os (sk_sock s1) (Address_getAddr addr) (Address_getAddrLen addr)) x1 = (rt, x2)"
    using prod.exhaust by blast
  obtain a s2 x3 where l: "getLocalAddress (traced os) s1 x2 = (a, s2, x3)" using prod_cases3 by blast
  show "snd x' = snd x @ fd_trace s"
    using assms e b l t lift_trace [OF b] address_trace(1) [OF l] by (auto simp: Socket_bind_def fd_trace_def split: if_splits)
  show "ok \<Longrightarrow> sk_sock s \<noteq> -1"
    using assms e b l address_trace(1) [OF l] by (auto simp: Socket_bind_def isValid_def split: if_splits)
qed

lemma listen_trace: "Socket_listen (traced os) s n x = (ok, x') \<Longrightarrow> snd x' = snd x"
  by (auto simp: Socket_listen_def split: if_splits prod.splits dest: lift_trace)

lemma destruct_trace: "balance fd (snd (Socket_destruct (traced os) s x)) = balance fd (snd x) - owned fd s"
  by (cases x) (auto simp: Socket_destruct_def Socket_close_def traced_def owned_def)

section \<open>The loop over the addresses\<close>

text \<open>Nothing refers to an address from \<open>nt_next\<close> on.\<close>

definition fresh :: "'w net \<Rightarrow> bool" where
  "fresh n \<longleftrightarrow> (\<forall>p \<ge> nt_next n. nt_sockets n p = None \<and> \<not> held n p)"

text \<open>What the addresses bound so far have added to the state.\<close>

definition bound :: "('w \<times> fd_event list) net \<Rightarrow> TcpServer \<Rightarrow> ('w \<times> fd_event list) net \<Rightarrow> bool" where
  "bound n0 s n \<longleftrightarrow> ts_socks s = [nt_next n0..<nt_next n] \<and> nt_next n0 \<le> nt_next n
     \<and> (\<forall>p. p \<notin> set (ts_socks s) \<longrightarrow> nt_sockets n p = nt_sockets n0 p)
     \<and> (\<forall>p \<in> set (ts_socks s). \<exists>k. nt_sockets n p = Some k \<and> isValid k)
     \<and> (\<forall>fd. balance fd (snd (nt_os n)) = balance fd (snd (nt_os n0)) + (\<Sum>p\<leftarrow>ts_socks s. owned fd (the (nt_sockets n p))))
     \<and> (\<forall>p. held n p = held n0 p)"

lemma bound_os:
  assumes "bound n0 s n" and "\<And>fd. balance fd (snd w) = balance fd (snd (nt_os n))"
  shows "bound n0 s (n\<lparr>nt_os := w\<rparr>)"
  using assms by (simp add: bound_def held_def)

lemma bound_add:
  assumes b: "bound n0 s n" and k: "isValid k" and w: "\<And>fd. balance fd (snd w) = balance fd (snd (nt_os n)) + owned fd k"
  shows "bound n0 (s\<lparr>ts_socks := ts_socks s @ [nt_next n]\<rparr>)
    (n\<lparr>nt_sockets := (nt_sockets n)(nt_next n \<mapsto> k), nt_next := nt_next n + 1, nt_os := w\<rparr>)"
proof -
  have s: "ts_socks s = [nt_next n0..<nt_next n]" "nt_next n0 \<le> nt_next n" using b by (simp_all add: bound_def)
  show ?thesis using b k w s
    by (auto simp: bound_def held_def intro!: arg_cong [where f = sum_list] map_cong)
qed

lemma bind_one_bound:
  assumes b: "bound n0 s n" and run: "bind_one (traced os) addr (s, fails, n) = (s', fails', n')"
  shows "bound n0 s' n' \<and> nt_next n' + length fails' = Suc (nt_next n + length fails)"
proof -
  obtain ok k w1 where bnd: "Socket_bind (traced os) (CreateTCP addr) addr (nt_os n) = (ok, k, w1)" using prod_cases3 by blast
  obtain lok w2 where lst: "Socket_listen (traced os) k SOMAXCONN w1 = (lok, w2)" using prod.exhaust by blast
  have t1: "balance fd (snd w1) = balance fd (snd (nt_os n)) + owned fd k" for fd
    using bind_trace(1) [OF bnd] balance_trace by simp
  have t2: "balance fd (snd w2) = balance fd (snd (nt_os n)) + owned fd k" for fd
    using listen_trace [OF lst] t1 by simp
  have d: "bound n0 s (n\<lparr>nt_os := Socket_destruct (traced os) k w1\<rparr>)" "bound n0 s (n\<lparr>nt_os := Socket_destruct (traced os) k w2\<rparr>)"
    by (rule bound_os [OF b]; simp add: destruct_trace t1 t2)+
  have "ok \<Longrightarrow> isValid k" using bind_trace(2) [OF bnd] by (simp add: isValid_def)
  then have a: "ok \<Longrightarrow> bound n0 (s\<lparr>ts_socks := ts_socks s @ [nt_next n]\<rparr>)
      (n\<lparr>nt_sockets := (nt_sockets n)(nt_next n \<mapsto> k), nt_next := nt_next n + 1, nt_os := w2\<rparr>)"
    using bound_add [OF b _ t2] by blast
  show ?thesis using run bnd lst d a by (auto simp: bind_one_def Let_def split: if_splits)
qed

lemma bind_all_bound:
  "bound n0 s n \<Longrightarrow> fold (bind_one (traced os)) addrs (s, fails, n) = (s', fails', n') \<Longrightarrow>
   bound n0 s' n' \<and> nt_next n' + length fails' = nt_next n + length fails + length addrs"
proof (induction addrs arbitrary: s fails n)
  case (Cons a as)
  obtain s1 f1 n1 where 1: "bind_one (traced os) a (s, fails, n) = (s1, f1, n1)" using prod_cases3 by blast
  from bind_one_bound [OF Cons.prems(1) this] Cons.IH [of s1 n1 f1] Cons.prems(2) 1 show ?case by simp
qed simp

section \<open>Giving up\<close>

lemma release_sockets_all:
  assumes "distinct ps" and "\<And>p. p \<in> set ps \<Longrightarrow> nt_sockets n p \<noteq> None \<and> \<not> held n p"
  shows "nt_sockets (release_sockets (traced os) ps n) q = (if q \<in> set ps then None else nt_sockets n q)
    \<and> balance fd (snd (nt_os (release_sockets (traced os) ps n)))
        = balance fd (snd (nt_os n)) - (\<Sum>p\<leftarrow>ps. owned fd (the (nt_sockets n p)))"
  using assms unfolding release_sockets_def
proof (induction ps arbitrary: n)
  case (Cons p ps)
  obtain k where k: "nt_sockets n p = Some k" "\<not> held n p" using Cons.prems(2) [of p] by auto
  let ?n = "n\<lparr>nt_sockets := (nt_sockets n)(p := None), nt_os := Socket_destruct (traced os) k (nt_os n)\<rparr>"
  have d: "destroy_socket (traced os) p n = ?n" using k by (simp add: destroy_socket_def)
  have p: "p \<notin> set ps" "distinct ps" using Cons.prems(1) by simp_all
  have "\<And>q. q \<in> set ps \<Longrightarrow> nt_sockets ?n q \<noteq> None \<and> \<not> held ?n q"
    using Cons.prems(2) p(1) by (auto simp: held_def)
  from Cons.IH [OF p(2) this]
  have "nt_sockets (fold (\<lambda>p n. if held n p then n else destroy_socket (traced os) p n) ps ?n) q = (if q \<in> set ps then None else nt_sockets ?n q)"
    and "balance fd (snd (nt_os (fold (\<lambda>p n. if held n p then n else destroy_socket (traced os) p n) ps ?n)))
      = balance fd (snd (nt_os ?n)) - (\<Sum>p\<leftarrow>ps. owned fd (the (nt_sockets ?n p)))" by simp_all
  moreover have "(\<Sum>p\<leftarrow>ps. owned fd (the (nt_sockets ?n p))) = (\<Sum>p\<leftarrow>ps. owned fd (the (nt_sockets n p)))"
    by (rule arg_cong [where f = sum_list], rule map_cong) (use p in auto)
  ultimately show ?case using k d p by (simp add: destruct_trace)
qed simp

section \<open>Properties\<close>


text \<open>Two addresses, the second of a family that the server's system refuses to bind.\<close>

definition picky_sys :: "unit sys" where
  "picky_sys = idle_sys\<lparr>sys_bind := \<lambda>fd a n w. (if n = 16 then 0 else -1, w)\<rparr>"

definition empty_net :: "(unit \<times> fd_event list) net" where
  "empty_net = \<lparr>nt_sockets = Map.empty, nt_next = 0, nt_tasks = [], nt_running = [], nt_os = ((), [])\<rparr>"


end
