(* ===== verification/AcceptProps.thy ===== *)
theory AcceptProps
  imports ServerProps
begin

text \<open>
  The loop of \<open>startAccept\<close> together with \<open>start\<close> and \<open>stop\<close>: a stopped server closes its sockets
  and its loops end; one that is started again too early spins.
\<close>

section \<open>Closing the sockets of a server\<close>

definition shut :: "Socket \<Rightarrow> Socket" where
  "shut k = k\<lparr>sk_isConnected := False, sk_sock := -1\<rparr>"

lemma close_shut:
  "fst (snd (Socket_close os k w)) = shut k"
  by (cases k) (auto simp: Socket_close_def shut_def)

lemma close_balance:
  "balance fd (snd (snd (snd (Socket_close (traced os) k x)))) = balance fd (snd x) - owned fd k"
  using destruct_trace [of fd os k x] by (simp add: Socket_destruct_def)

lemma cancel_and_close_some:
  assumes "nt_sockets n p = Some k"
  shows "\<exists>w. cancel_and_close (traced os) p n = n\<lparr>nt_sockets := (nt_sockets n)(p \<mapsto> shut k), nt_os := w\<rparr>
    \<and> (\<forall>fd. balance fd (snd w) = balance fd (snd (nt_os n)) - owned fd k)"
proof -
  obtain b x where c: "Socket_cancelAll (traced os) k (nt_os n) = (b, x)" using prod.exhaust by blast
  then have t: "snd x = snd (nt_os n)" by (auto simp: Socket_cancelAll_def traced_def lift_def split: prod.splits)
  obtain ok k1 w where cl: "Socket_close (traced os) k x = (ok, k1, w)" using prod_cases3 by blast
  then have "k1 = shut k" "\<And>fd. balance fd (snd w) = balance fd (snd (nt_os n)) - owned fd k"
    using close_shut [of "traced os" k x] close_balance [of _ os k x] t by simp_all
  then show ?thesis using assms c cl
    by (intro exI [of _ w]) (simp add: cancel_and_close_def close_socket_def)
qed

text \<open>What closing the sockets \<open>ps\<close> makes of the net.\<close>

definition closed_down :: "nat list \<Rightarrow> ('w \<times> fd_event list) net \<Rightarrow> ('w \<times> fd_event list) net \<Rightarrow> bool" where
  "closed_down ps n n' \<longleftrightarrow> nt_tasks n' = nt_tasks n \<and> nt_running n' = nt_running n \<and> nt_next n' = nt_next n
     \<and> (\<forall>q. nt_sockets n' q = (if q \<in> set ps then map_option shut (nt_sockets n q) else nt_sockets n q))
     \<and> (\<forall>fd. balance fd (snd (nt_os n')) = balance fd (snd (nt_os n)) - (\<Sum>p\<leftarrow>ps. owned fd (the (nt_sockets n p))))"

lemma close_all:
  "distinct ps \<Longrightarrow> list_all (\<lambda>p. nt_sockets n p \<noteq> None) ps \<Longrightarrow> closed_down ps n (fold (cancel_and_close (traced os)) ps n)"
proof (induction ps arbitrary: n)
  case (Cons p ps)
  obtain k where k: "nt_sockets n p = Some k" using Cons.prems(2) by auto
  obtain w where w: "cancel_and_close (traced os) p n = n\<lparr>nt_sockets := (nt_sockets n)(p \<mapsto> shut k), nt_os := w\<rparr>"
    "\<And>fd. balance fd (snd w) = balance fd (snd (nt_os n)) - owned fd k"
    using cancel_and_close_some [OF k] by blast
  let ?n = "n\<lparr>nt_sockets := (nt_sockets n)(p \<mapsto> shut k), nt_os := w\<rparr>"
  have p: "p \<notin> set ps" "distinct ps" using Cons.prems(1) by simp_all
  have "list_all (\<lambda>p. nt_sockets ?n p \<noteq> None) ps" using Cons.prems(2) by (auto simp: list_all_iff)
  from Cons.IH [OF p(2) this] have "closed_down ps ?n (fold (cancel_and_close (traced os)) ps ?n)" .
  moreover have "(\<Sum>q\<leftarrow>ps. owned fd (the (nt_sockets ?n q))) = (\<Sum>q\<leftarrow>ps. owned fd (the (nt_sockets n q)))" for fd
    by (rule arg_cong [where f = sum_list], rule map_cong) (use p in auto)
  ultimately show ?case using k w p by (auto simp: closed_down_def)
qed (simp add: closed_down_def)

text \<open>Releasing sockets that are shut closes nothing.\<close>

lemma destroy_shut: "Socket_destruct os (shut k) w = w"
  by (simp add: Socket_destruct_def Socket_close_def shut_def)

lemma release_shut:
  "(\<And>p. p \<in> set ps \<Longrightarrow> \<exists>k. nt_sockets n p = Some (shut k)) \<Longrightarrow> distinct ps \<Longrightarrow>
   release_sockets os ps n = n\<lparr>nt_sockets := (\<lambda>q. if q \<in> set ps \<and> \<not> held n q then None else nt_sockets n q)\<rparr>"
  unfolding release_sockets_def
proof (induction ps arbitrary: n)
  case (Cons p ps)
  obtain k where k: "nt_sockets n p = Some (shut k)" using Cons.prems(1) by auto
  let ?n = "if held n p then n else n\<lparr>nt_sockets := (nt_sockets n)(p := None)\<rparr>"
  have d: "(if held n p then n else destroy_socket os p n) = ?n" using k by (simp add: destroy_socket_def destroy_shut)
  have h: "held ?n q = held n q" for q by (simp add: held_def)
  have "\<And>q. q \<in> set ps \<Longrightarrow> \<exists>k. nt_sockets ?n q = Some (shut k)" using Cons.prems by auto
  from Cons.IH [OF this] Cons.prems(2) h
  have "fold (\<lambda>p n. if held n p then n else destroy_socket os p n) ps ?n
      = ?n\<lparr>nt_sockets := (\<lambda>q. if q \<in> set ps \<and> \<not> held n q then None else nt_sockets ?n q)\<rparr>" by simp
  moreover have "?n\<lparr>nt_sockets := (\<lambda>q. if q \<in> set ps \<and> \<not> held n q then None else nt_sockets ?n q)\<rparr>
      = n\<lparr>nt_sockets := (\<lambda>q. if q \<in> set (p # ps) \<and> \<not> held n q then None else nt_sockets n q)\<rparr>"
    using Cons.prems(2) by (cases n) (auto simp: fun_eq_iff)
  ultimately show ?case using d by simp
qed simp

section \<open>Stopping\<close>

text \<open>\<open>stop\<close>, and its task run by the accepting worker.\<close>

definition run_stop :: "'w sys \<Rightarrow> TcpServer \<times> 'w net \<Rightarrow> TcpServer \<times> 'w net" where
  "run_stop os x = (case TcpServer_stop (fst x) (snd x) of
     (s, n) \<Rightarrow> stop_task os s (n\<lparr>nt_tasks := butlast (nt_tasks n)\<rparr>))"

text \<open>A server whose sockets are all in the store, with the fields of its tasks as the program leaves them.\<close>

definition serving :: "TcpServer \<Rightarrow> 'w net \<Rightarrow> bool" where
  "serving s n \<longleftrightarrow> distinct (ts_socks s) \<and> list_all (\<lambda>p. nt_sockets n p \<noteq> None) (ts_socks s)"

text \<open>Every socket is shut; those that a loop still holds stay in the store, the others are destroyed.\<close>

definition stopped_sockets :: "nat list \<Rightarrow> ('w \<times> fd_event list) net \<Rightarrow> ('w \<times> fd_event list) net \<Rightarrow> bool" where
  "stopped_sockets ps n n' \<longleftrightarrow> nt_tasks n' = nt_tasks n \<and> nt_running n' = nt_running n \<and> nt_next n' = nt_next n
     \<and> (\<forall>q. nt_sockets n' q = (if q \<in> set ps then if held n q then map_option shut (nt_sockets n q) else None else nt_sockets n q))
     \<and> (\<forall>fd. balance fd (snd (nt_os n')) = balance fd (snd (nt_os n)) - (\<Sum>p\<leftarrow>ps. owned fd (the (nt_sockets n p))))"

lemma stop_task_sockets:
  assumes "serving s n"
  shows "\<exists>n'. stop_task (traced os) s n = (s\<lparr>ts_socks := []\<rparr>, n') \<and> stopped_sockets (ts_socks s) n n'"
proof -
  let ?n = "fold (cancel_and_close (traced os)) (ts_socks s) n"
  have d: "distinct (ts_socks s)" and some: "list_all (\<lambda>p. nt_sockets n p \<noteq> None) (ts_socks s)"
    using assms by (simp_all add: serving_def)
  have c: "closed_down (ts_socks s) n ?n" by (rule close_all [OF d some])
  have "\<exists>k. nt_sockets ?n p = Some (shut k)" if p: "p \<in> set (ts_socks s)" for p
  proof -
    obtain k where "nt_sockets n p = Some k" using some p by (auto simp: list_all_iff)
    then have "nt_sockets ?n p = Some (shut k)" using c p by (simp add: closed_down_def)
    then show ?thesis by blast
  qed
  then have r: "release_sockets (traced os) (ts_socks s) ?n
      = ?n\<lparr>nt_sockets := (\<lambda>q. if q \<in> set (ts_socks s) \<and> \<not> held ?n q then None else nt_sockets ?n q)\<rparr>"
    using d by (rule release_shut)
  have "held ?n q = held n q" for q using c by (simp add: closed_down_def held_def)
  then show ?thesis using c by (simp add: stop_task_def r closed_down_def stopped_sockets_def)
qed

lemma run_stop_sockets:
  assumes "serving s n"
  shows "\<exists>n'. run_stop (traced os) (s, n) = (s\<lparr>ts_isStop := True, ts_socks := []\<rparr>, n') \<and> stopped_sockets (ts_socks s) n n'"
proof -
  have n: "n\<lparr>nt_tasks := nt_tasks n\<rparr> = n" by (cases n) simp
  have "serving (s\<lparr>ts_isStop := True\<rparr>) n" using assms by (simp add: serving_def)
  from stop_task_sockets [OF this, of os] show ?thesis
    by (auto simp: run_stop_def TcpServer_stop_def schedule_task_def n)
qed

section \<open>The loop\<close>

lemma startAccept_turns:
  "(\<And>j. j < k \<Longrightarrow> \<not> ts_isStop (fst ((accept_turn os others p ^^ j) x))) \<Longrightarrow>
   startAccept os others p x = startAccept os others p ((accept_turn os others p ^^ k) x)"
proof (induction k)
  case (Suc k)
  then have "startAccept os others p x = startAccept os others p ((accept_turn os others p ^^ k) x)" by simp
  also have "\<dots> = startAccept os others p (accept_turn os others p ((accept_turn os others p ^^ k) x))"
    using Suc.prems [of k] by (subst startAccept.simps) simp
  finally show ?case by simp
qed simp

text \<open>Accepting on a socket that is shut, where the system refuses the descriptor -1.\<close>

lemma accept_shut:
  assumes "\<And>w. fst (sys_accept os (-1) w) = -1" and "sk_sock k = -1"
  obtains x' where "Socket_accept (traced os) k x = (None, x')" and "snd x' = snd x"
proof -
  obtain w where w: "sys_accept os (-1) (fst x) = (-1, w)" using assms(1) [of "fst x"] by (cases "sys_accept os (-1) (fst x)") auto
  have "sys_accept (traced os) (sk_sock k) x = (-1, w, snd x)" using w assms(2) by (simp add: traced_def lift_open_def)
  moreover have "Socket_destruct (traced os) (new_Socket a b c) y = y" for a b c y
    by (simp add: Socket_destruct_def Socket_close_def new_Socket_def)
  ultimately show thesis using that by (simp add: Socket_accept_def Let_def)
qed

section \<open>Properties\<close>

text \<open>A server with one socket whose loop is running.\<close>

definition accepting_server :: TcpServer where
  "accepting_server = (new_TcpServer 0 1 0)\<lparr>ts_socks := [7], ts_isStop := False\<rparr>"

definition accepting_net :: "(unit \<times> fd_event list) net" where
  "accepting_net = \<lparr>nt_sockets = [7 \<mapsto> (new_Socket 2 1 0)\<lparr>sk_sock := 3\<rparr>], nt_next = 8, nt_tasks = [], nt_running = [7],
     nt_os = ((), [Opened 3])\<rparr>"




text \<open>A loop that returns has seen the flag.\<close>

lemma startAccept_stops:
  assumes "startAccept os others p x = Some y"
  shows "\<exists>n. ts_isStop (fst ((accept_turn os others p ^^ n) x))"
proof -
  let ?P = "\<lambda>os others p x y. \<exists>n. ts_isStop (fst ((accept_turn os others p ^^ n) x))"
  have step: "?P os others p x y"
    if rec: "\<And>os others p x y. f os others p x = Some y \<Longrightarrow> ?P os others p x y"
      and run: "(if ts_isStop (fst x) then Some x else f os others p (accept_turn os others p x)) = Some y"
    for f os others p x y
  proof (cases "ts_isStop (fst x)")
    case True
    then show ?thesis by (intro exI [of _ 0]) simp
  next
    case False
    then obtain n where "ts_isStop (fst ((accept_turn os others p ^^ n) (accept_turn os others p x)))" using rec run by fastforce
    then show ?thesis by (intro exI [of _ "Suc n"]) (simp only: funpow_Suc_right comp_apply)
  qed
  show ?thesis
    using startAccept.raw_induct [where P = ?P and xa = "(((os, others), p), x)" and y = y, unfolded prod.case, OF step assms] .
qed

lemma schedule_all:
  "nt_sockets (fold (\<lambda>p. schedule_task w (AcceptTask p)) ps m) = nt_sockets m"
  "nt_tasks (fold (\<lambda>p. schedule_task w (AcceptTask p)) ps m) = nt_tasks m @ map (\<lambda>p. (w, AcceptTask p)) ps"
  by (induction ps arbitrary: m) (auto simp: schedule_task_def)

text \<open>The rest of the program while the loop waits, when it leaves the flag and the socket alone.\<close>

definition leaves_alone :: "nat \<Rightarrow> (TcpServer \<times> 'w net \<Rightarrow> TcpServer \<times> 'w net) \<Rightarrow> bool" where
  "leaves_alone p others \<longleftrightarrow>
     (\<forall>x. ts_isStop (fst (others x)) = ts_isStop (fst x) \<and> nt_sockets (snd (others x)) p = nt_sockets (snd x) p)"

lemma turns_shut:
  assumes refuse: "\<And>w. fst (sys_accept os (-1) w) = -1" and calm: "leaves_alone p others"
    and x: "\<not> ts_isStop (fst x)" "nt_sockets (snd x) p = Some (shut k)"
  shows "\<not> ts_isStop (fst ((accept_turn (traced os) others p ^^ j) x))
    \<and> nt_sockets (snd ((accept_turn (traced os) others p ^^ j) x)) p = Some (shut k)"
proof (induction j)
  case (Suc j)
  define y where "y = (accept_turn (traced os) others p ^^ j) x"
  obtain s n where sn: "others y = (s, n)" using prod.exhaust by blast
  have o: "ts_isStop s = ts_isStop (fst y)" "nt_sockets n p = nt_sockets (snd y) p"
    using calm sn unfolding leaves_alone_def by (metis fst_conv) (metis calm leaves_alone_def snd_conv sn)
  then have y: "\<not> ts_isStop s" "nt_sockets n p = Some (shut k)" using Suc by (simp_all add: y_def)
  have sk: "sk_sock (shut k) = -1" by (simp add: shut_def)
  obtain x' where "Socket_accept (traced os) (shut k) (nt_os n) = (None, x')" by (rule accept_shut [OF refuse sk])
  then have "accept_turn (traced os) others p y = (s, n\<lparr>nt_os := x'\<rparr>)" by (simp add: accept_turn_def sn y(2))
  then show ?case using y by (simp add: y_def)
qed (use x in simp)

text \<open>
C20: A server that is started again before the task of \<open>stop\<close> has run never accepts and never rests.
\<open>stop\<close> only sets a flag and schedules the closing of the sockets; \<open>start\<close> resets the flag and
schedules new loops on the same sockets, which the older task then closes.  Each new loop turns for
ever on a descriptor -1 that is refused at once, as long as nobody stops the server again.
\<close>

theorem tcp_restart_spins:
  assumes refuse: "\<And>w. fst (sys_accept os (-1) w) = -1" and s: "serving s n" "p \<in> set (ts_socks s)"
    and stop: "TcpServer_stop s n = (s1, n1)" and start: "TcpServer_start s1 n1 = (ok, s2, n2)"
    and task: "stop_task (traced os) s2 n2 = (s3, n3)" and calm: "leaves_alone p others"
  shows "ok \<and> ts_socks s3 = [] \<and> \<not> ts_isStop s3
    \<and> startAccept (traced os) others p (s3, n3) = None"
proof -
  have s1: "s1 = s\<lparr>ts_isStop := True\<rparr>" "nt_sockets n1 = nt_sockets n"
    using stop by (auto simp: TcpServer_stop_def schedule_task_def)
  have s2: "ok" "s2 = s\<lparr>ts_isStop := False\<rparr>" "nt_sockets n2 = nt_sockets n" "(ts_acceptWorker s, AcceptTask p) \<in> set (nt_tasks n2)"
    using start s(2) s1 by (auto simp: TcpServer_start_def schedule_all)
  have "serving s2 n2" using s(1) s2 by (simp add: serving_def)
  then obtain n' where n': "(s3, n3) = (s2\<lparr>ts_socks := []\<rparr>, n')" "stopped_sockets (ts_socks s2) n2 n'"
    using stop_task_sockets [of s2 n2 os] task by auto
  have "held n2 p" using s2(4) by (auto simp: held_def list_ex_iff)
  moreover obtain k where "nt_sockets n2 p = Some k" using s s2 by (auto simp: serving_def list_all_iff)
  ultimately have n3: "nt_sockets n3 p = Some (shut k)" "\<not> ts_isStop s3" "ts_socks s3 = []"
    using n' s(2) s2 by (auto simp: stopped_sockets_def)
  have "startAccept (traced os) others p (s3, n3) = None"
  proof (rule ccontr)
    assume "startAccept (traced os) others p (s3, n3) \<noteq> None"
    then obtain y where "startAccept (traced os) others p (s3, n3) = Some y" by blast
    from startAccept_stops [OF this] turns_shut [OF refuse calm, of "(s3, n3)" k] n3 show False by auto
  qed
  then show ?thesis using s2(1) n3 by simp
qed

theorem tcp_restart_spins_witness:
  "\<exists>s1 n1 ok s2 n2 s3 n3. TcpServer_stop accepting_server accepting_net = (s1, n1) \<and> TcpServer_start s1 n1 = (ok, s2, n2)
    \<and> stop_task (traced idle_sys) s2 n2 = (s3, n3) \<and> startAccept (traced idle_sys) (\<lambda>x. x) 7 (s3, n3) = None"
proof -
  obtain s1 n1 where 1: "TcpServer_stop accepting_server accepting_net = (s1, n1)" using prod.exhaust by blast
  obtain ok s2 n2 where 2: "TcpServer_start s1 n1 = (ok, s2, n2)" using prod_cases3 by blast
  obtain s3 n3 where 3: "stop_task (traced idle_sys) s2 n2 = (s3, n3)" using prod.exhaust by blast
  have "serving accepting_server accepting_net" by (simp add: serving_def accepting_server_def accepting_net_def)
  then have "startAccept (traced idle_sys) (\<lambda>x. x) 7 (s3, n3) = None"
    using tcp_restart_spins [OF _ _ _ 1 2 3, of 7 "\<lambda>x. x"]
    by (auto simp: idle_sys_def accepting_server_def leaves_alone_def)
  then show ?thesis using 1 2 3 by blast
qed

end
