(* ===== verification/Threads.thy ===== *)
theory Threads
  imports Prelude
begin

text \<open>
  Locks, their guards and threads (\<open>src/megalo/thread.h\<close>, \<open>thread.cc\<close>).

  A guard is an object in a scope of one thread.  The three guard templates differ only in the
  function of the mutex they lock with, the class \<open>'k\<close> of the guard.  Locking a mutex is a sequence
  of attempts, which is how \<open>CASLock::lock\<close> spins; an attempt on a POSIX mutex that succeeds is the
  return of the call.  A program is an interleaving of what the threads do with their guards.
\<close>

section \<open>Guards\<close>

record ScopedLockImpl =
  sl_locked :: bool

text \<open>The end of the constructor and of \<open>lock\<close>, when the mutex is taken.\<close>

definition ScopedLock_taken :: "ScopedLockImpl" where
  "ScopedLock_taken = \<lparr>sl_locked = True\<rparr>"

definition ScopedLock_unlock :: "('m \<Rightarrow> 'm) \<Rightarrow> ScopedLockImpl \<Rightarrow> 'm \<Rightarrow> ScopedLockImpl \<times> 'm" where
  "ScopedLock_unlock unlock g m = (if sl_locked g then (g\<lparr>sl_locked := False\<rparr>, unlock m) else (g, m))"

definition ScopedLock_destruct :: "('m \<Rightarrow> 'm) \<Rightarrow> ScopedLockImpl \<Rightarrow> 'm \<Rightarrow> 'm" where
  "ScopedLock_destruct unlock g m = snd (ScopedLock_unlock unlock g m)"

text \<open>Whether \<open>lock\<close> has to lock the mutex.\<close>

definition ScopedLock_lock_needed :: "ScopedLockImpl \<Rightarrow> bool" where
  "ScopedLock_lock_needed g \<longleftrightarrow> \<not> sl_locked g"

datatype 'k guard_state = NoGuard | Acquiring 'k | InScope 'k ScopedLockImpl

datatype 'k guard_call = Construct 'k | Attempt | CallLock | CallUnlock | Destruct

text \<open>A call that the state does not allow is no step.\<close>

fun guard_step ::
  "('k \<Rightarrow> 'm \<Rightarrow> bool \<times> 'm) \<Rightarrow> ('m \<Rightarrow> 'm) \<Rightarrow> 'k guard_call \<Rightarrow> 'k guard_state \<Rightarrow> 'm \<Rightarrow> 'k guard_state \<times> 'm" where
  "guard_step attempt unlock (Construct k) NoGuard m = (Acquiring k, m)"
| "guard_step attempt unlock Attempt (Acquiring k) m =
     (case attempt k m of (got, m') \<Rightarrow> (if got then InScope k ScopedLock_taken else Acquiring k, m'))"
| "guard_step attempt unlock CallLock (InScope k g) m =
     (if ScopedLock_lock_needed g then Acquiring k else InScope k g, m)"
| "guard_step attempt unlock CallUnlock (InScope k g) m =
     (case ScopedLock_unlock unlock g m of (g', m') \<Rightarrow> (InScope k g', m'))"
| "guard_step attempt unlock Destruct (InScope k g) m = (NoGuard, ScopedLock_destruct unlock g m)"
| "guard_step attempt unlock c g m = (g, m)"

record ('k, 'm) lock_sys =
  ls_mutex :: 'm
  ls_guards :: "nat \<Rightarrow> 'k guard_state"

definition lock_sys_step ::
  "('k \<Rightarrow> 'm \<Rightarrow> bool \<times> 'm) \<Rightarrow> ('m \<Rightarrow> 'm) \<Rightarrow> nat \<times> 'k guard_call \<Rightarrow> ('k, 'm) lock_sys \<Rightarrow> ('k, 'm) lock_sys" where
  "lock_sys_step attempt unlock x s =
     (case guard_step attempt unlock (snd x) (ls_guards s (fst x)) (ls_mutex s) of (g, m) \<Rightarrow>
        s\<lparr>ls_mutex := m, ls_guards := (ls_guards s)(fst x := g)\<rparr>)"

definition lock_run ::
  "('k \<Rightarrow> 'm \<Rightarrow> bool \<times> 'm) \<Rightarrow> ('m \<Rightarrow> 'm) \<Rightarrow> 'm \<Rightarrow> (nat \<times> 'k guard_call) list \<Rightarrow> ('k, 'm) lock_sys" where
  "lock_run attempt unlock m xs = fold (lock_sys_step attempt unlock) xs \<lparr>ls_mutex = m, ls_guards = (\<lambda>t. NoGuard)\<rparr>"

text \<open>A thread is inside: it has a guard of class \<open>k\<close> whose flag is set.\<close>

definition inside :: "('k, 'm) lock_sys \<Rightarrow> 'k \<Rightarrow> nat \<Rightarrow> bool" where
  "inside s k t \<longleftrightarrow> (case ls_guards s t of InScope k' g \<Rightarrow> k' = k \<and> sl_locked g | _ \<Rightarrow> False)"

section \<open>Locks\<close>

text \<open>\<open>CASLock\<close>: the flag, one turn of the loop of \<open>lock\<close>, and \<open>unlock\<close>.\<close>

definition new_CASLock :: bool where
  "new_CASLock = False"

definition CASLock_attempt :: "unit \<Rightarrow> bool \<Rightarrow> bool \<times> bool" where
  "CASLock_attempt k m_mutex = (\<not> m_mutex, True)"

definition CASLock_unlock :: "bool \<Rightarrow> bool" where
  "CASLock_unlock m_mutex = False"

text \<open>\<open>NullMutex\<close>, for debugging: every attempt succeeds.\<close>

definition NullMutex_attempt :: "unit \<Rightarrow> unit \<Rightarrow> bool \<times> unit" where
  "NullMutex_attempt k m = (True, ())"

definition NullMutex_unlock :: "unit \<Rightarrow> unit" where
  "NullMutex_unlock m = ()"

definition new_NullRWMutex :: unit where
  "new_NullRWMutex = ()"

definition NullRWMutex_rdlock :: "unit \<Rightarrow> unit" where
  "NullRWMutex_rdlock m = ()"

definition NullRWMutex_wrlock :: "unit \<Rightarrow> unit" where
  "NullRWMutex_wrlock m = ()"

definition NullRWMutex_unlock :: "unit \<Rightarrow> unit" where
  "NullRWMutex_unlock m = ()"

text \<open>
  The classes over POSIX.  What they call is an argument: a function from the object to the code
  that is returned and the object afterwards, where a call that waits is what it does once it
  returns.  Except for the semaphore the code is thrown away.
\<close>

definition new_Mutex :: "(unit \<Rightarrow> int \<times> 'm) \<Rightarrow> 'm" where
  "new_Mutex pthread_mutex_init = snd (pthread_mutex_init ())"

definition Mutex_lock :: "('m \<Rightarrow> int \<times> 'm) \<Rightarrow> 'm \<Rightarrow> 'm" where
  "Mutex_lock pthread_mutex_lock m_mutex = snd (pthread_mutex_lock m_mutex)"

definition Mutex_unlock :: "('m \<Rightarrow> int \<times> 'm) \<Rightarrow> 'm \<Rightarrow> 'm" where
  "Mutex_unlock pthread_mutex_unlock m_mutex = snd (pthread_mutex_unlock m_mutex)"

definition new_RWMutex :: "(unit \<Rightarrow> int \<times> 'm) \<Rightarrow> 'm" where
  "new_RWMutex pthread_rwlock_init = snd (pthread_rwlock_init ())"

definition RWMutex_rdlock :: "('m \<Rightarrow> int \<times> 'm) \<Rightarrow> 'm \<Rightarrow> 'm" where
  "RWMutex_rdlock pthread_rwlock_rdlock m_lock = snd (pthread_rwlock_rdlock m_lock)"

definition RWMutex_wrlock :: "('m \<Rightarrow> int \<times> 'm) \<Rightarrow> 'm \<Rightarrow> 'm" where
  "RWMutex_wrlock pthread_rwlock_wrlock m_lock = snd (pthread_rwlock_wrlock m_lock)"

definition RWMutex_unlock :: "('m \<Rightarrow> int \<times> 'm) \<Rightarrow> 'm \<Rightarrow> 'm" where
  "RWMutex_unlock pthread_rwlock_unlock m_lock = snd (pthread_rwlock_unlock m_lock)"

definition new_Spinlock :: "(int \<Rightarrow> int \<times> 'm) \<Rightarrow> 'm" where
  "new_Spinlock pthread_spin_init = snd (pthread_spin_init 0)"

definition Spinlock_lock :: "('m \<Rightarrow> int \<times> 'm) \<Rightarrow> 'm \<Rightarrow> 'm" where
  "Spinlock_lock pthread_spin_lock m_mutex = snd (pthread_spin_lock m_mutex)"

definition Spinlock_unlock :: "('m \<Rightarrow> int \<times> 'm) \<Rightarrow> 'm \<Rightarrow> 'm" where
  "Spinlock_unlock pthread_spin_unlock m_mutex = snd (pthread_spin_unlock m_mutex)"

text \<open>The exceptions of a semaphore, with the object they leave behind.\<close>

datatype semaphore_error = SemWaitError | SemPostError

definition new_Semaphore :: "(int \<Rightarrow> u32 \<Rightarrow> int \<times> 'm) \<Rightarrow> u32 \<Rightarrow> 'm" where
  "new_Semaphore sem_init count = snd (sem_init 0 count)"

definition Semaphore_wait :: "('m \<Rightarrow> int \<times> 'm) \<Rightarrow> 'm \<Rightarrow> semaphore_error option \<times> 'm" where
  "Semaphore_wait sem_wait m = (case sem_wait m of (r, m') \<Rightarrow> (if r \<noteq> 0 then Some SemWaitError else None, m'))"

definition Semaphore_notify :: "('m \<Rightarrow> int \<times> 'm) \<Rightarrow> 'm \<Rightarrow> semaphore_error option \<times> 'm" where
  "Semaphore_notify sem_post m = (case sem_post m of (r, m') \<Rightarrow> (if r \<noteq> 0 then Some SemPostError else None, m'))"

text \<open>The two classes of guards of \<open>RWMutex\<close>.\<close>

datatype rw_class = ReadLock | WriteLock

section \<open>Threads\<close>

text \<open>
  A \<open>Thread\<close> object with its semaphore, the thread locals of the thread it starts, and where the
  two threads are: the constructor, and the function \<open>run\<close> by the number of its next statement that
  changes anything (\<open>pthread_setname_np\<close> only tells the system).
\<close>

record 'c Thread =
  th_id :: int
  th_thread :: nat
  th_cb :: "'c option"
  th_name :: string
  th_semaphore :: nat

datatype creator = Creating | WaitingStart | Constructed | CreateFailed

record 'c thread_sys =
  tt_object :: "'c Thread"
  tt_t_thread :: bool
  tt_t_thread_name :: string
  tt_local_cb :: "'c option"
  tt_creator :: creator
  tt_runner :: "nat option"
  tt_calls :: "'c option list"

definition new_Thread :: "'c option \<Rightarrow> string \<Rightarrow> 'c thread_sys" where
  "new_Thread cb name =
     \<lparr> tt_object = \<lparr>th_id = -1, th_thread = 0, th_cb = cb, th_name = (if name = [] then ''UNKNOW'' else name), th_semaphore = 0\<rparr>,
       tt_t_thread = False, tt_t_thread_name = ''UNKNOW'', tt_local_cb = None, tt_creator = Creating, tt_runner = None,
       tt_calls = [] \<rparr>"

text \<open>The constructor: \<open>handle\<close> is the result of \<open>pthread_create\<close>, \<open>None\<close> for an error.\<close>

definition Thread_construct_step :: "nat option \<Rightarrow> 'c thread_sys \<Rightarrow> 'c thread_sys" where
  "Thread_construct_step handle s =
     (case tt_creator s of
        Creating \<Rightarrow> (case handle of
          None \<Rightarrow> s\<lparr>tt_creator := CreateFailed\<rparr>
        | Some h \<Rightarrow> s\<lparr>tt_creator := WaitingStart, tt_runner := Some 0, tt_object := (tt_object s)\<lparr>th_thread := h\<rparr>\<rparr>)
      | WaitingStart \<Rightarrow>
          if 0 < th_semaphore (tt_object s)
          then s\<lparr>tt_creator := Constructed, tt_object := (tt_object s)\<lparr>th_semaphore := th_semaphore (tt_object s) - 1\<rparr>\<rparr>
          else s
      | _ \<Rightarrow> s)"

definition Thread_run_step :: "int \<Rightarrow> 'c thread_sys \<Rightarrow> 'c thread_sys" where
  "Thread_run_step tid s =
     (case tt_runner s of
        None \<Rightarrow> s
      | Some n \<Rightarrow>
          let s1 = s\<lparr>tt_runner := Some (n + 1)\<rparr>; o1 = tt_object s in
          if n = 0 then s1\<lparr>tt_t_thread := True\<rparr>
          else if n = 1 then s1\<lparr>tt_t_thread_name := th_name o1\<rparr>
          else if n = 2 then s1\<lparr>tt_object := o1\<lparr>th_id := tid\<rparr>\<rparr>
          else if n = 3 then s1\<lparr>tt_local_cb := th_cb o1, tt_object := o1\<lparr>th_cb := None\<rparr>\<rparr>
          else if n = 4 then s1\<lparr>tt_object := o1\<lparr>th_semaphore := th_semaphore o1 + 1\<rparr>\<rparr>
          else if n = 5 then s1\<lparr>tt_calls := tt_calls s @ [tt_local_cb s]\<rparr>
          else s)"

datatype thread_step = CreatorStep | RunnerStep

definition thread_run :: "nat option \<Rightarrow> int \<Rightarrow> 'c option \<Rightarrow> string \<Rightarrow> thread_step list \<Rightarrow> 'c thread_sys" where
  "thread_run handle tid cb name xs =
     fold (\<lambda>x. case x of CreatorStep \<Rightarrow> Thread_construct_step handle | RunnerStep \<Rightarrow> Thread_run_step tid) xs (new_Thread cb name)"

text \<open>\<open>SetName\<close>, called in a thread whose \<open>t_thread\<close> is the object or null.\<close>

definition Thread_SetName :: "string \<Rightarrow> 'c Thread option \<times> string \<Rightarrow> 'c Thread option \<times> string" where
  "Thread_SetName name x = (case x of (t_thread, t_thread_name) \<Rightarrow> (map_option (\<lambda>t. t\<lparr>th_name := name\<rparr>) t_thread, name))"

text \<open>\<open>join\<close>, by the result of \<open>pthread_join\<close>: \<open>None\<close> is the exception.\<close>

definition Thread_join :: "(nat \<Rightarrow> int) \<Rightarrow> 'c Thread \<Rightarrow> 'c Thread option" where
  "Thread_join pthread_join t =
     (if th_thread t \<noteq> 0 then (if pthread_join (th_thread t) \<noteq> 0 then None else Some (t\<lparr>th_thread := 0\<rparr>)) else Some t)"

text \<open>The destructor: the thread that is detached, if any.\<close>

definition Thread_destruct :: "'c Thread \<Rightarrow> nat option" where
  "Thread_destruct t = (if th_thread t \<noteq> 0 then Some (th_thread t) else None)"

text \<open>The thread locals of the calling thread.\<close>

definition Thread_GetThis :: "'c Thread option \<times> string \<Rightarrow> 'c Thread option" where
  "Thread_GetThis x = fst x"

definition Thread_GetName :: "'c Thread option \<times> string \<Rightarrow> string" where
  "Thread_GetName x = snd x"

end
