(* ===== verification/ThreadProps.thy ===== *)
theory ThreadProps
  imports Threads
begin

text \<open>
  What guards and threads promise: the threads that are inside a lock exclude each other, and a
  thread that has been constructed is known by its number and runs its function once.
\<close>

section \<open>Steps\<close>

text \<open>The class of guard through which a thread is inside.\<close>

definition class_in :: "'k guard_state \<Rightarrow> 'k option" where
  "class_in g = (case g of InScope k l \<Rightarrow> if sl_locked l then Some k else None | _ \<Rightarrow> None)"

lemma inside_class: "inside s k t \<longleftrightarrow> class_in (ls_guards s t) = Some k"
  by (auto simp: inside_def class_in_def split: guard_state.splits)

text \<open>A step changes nothing that matters, or it is an attempt, or it leaves.\<close>

lemma guard_step_effect:
  assumes "guard_step attempt unlock c g m = (g', m')"
  obtains (same) "class_in g' = class_in g" "m' = m"
  | (enter) k where "class_in g = None" "attempt k m = (True, m')" "class_in g' = Some k"
  | (fail) k where "class_in g = None" "attempt k m = (False, m')" "class_in g' = None"
  | (leave) k where "class_in g = Some k" "class_in g' = None" "m' = unlock m"
proof (cases c)
  case (Construct k)
  then show thesis using assms by (cases g) (auto simp: class_in_def intro: same)
next
  case Attempt
  show thesis
  proof (cases g)
    case (Acquiring k)
    obtain got m1 where a: "attempt k m = (got, m1)" using prod.exhaust by blast
    then have "m1 = m'" "g' = (if got then InScope k ScopedLock_taken else Acquiring k)"
      using assms Attempt Acquiring by auto
    then show thesis using a Acquiring enter [of k] fail [of k]
      by (cases got) (auto simp: class_in_def ScopedLock_taken_def)
  qed (use assms Attempt same in auto)
next
  case CallLock
  then show thesis using assms
    by (cases g) (auto simp: class_in_def ScopedLock_lock_needed_def split: if_splits intro: same)
next
  case CallUnlock
  then show thesis using assms same leave
    by (cases g) (auto simp: class_in_def ScopedLock_unlock_def split: if_splits)
next
  case Destruct
  then show thesis using assms same leave
    by (cases g) (auto simp: class_in_def ScopedLock_unlock_def ScopedLock_destruct_def split: if_splits)
qed

lemma lock_sys_step_parts:
  assumes "guard_step attempt unlock c (ls_guards s t) (ls_mutex s) = (g', m')"
  shows "ls_mutex (lock_sys_step attempt unlock (t, c) s) = m'"
    and "inside (lock_sys_step attempt unlock (t, c) s) k u \<longleftrightarrow> (if u = t then class_in g' = Some k else inside s k u)"
  using assms by (simp_all add: lock_sys_step_def inside_class)

lemma inside_same:
  assumes "guard_step attempt unlock c (ls_guards s t) (ls_mutex s) = (g', m')" and "class_in g' = class_in (ls_guards s t)"
  shows "inside (lock_sys_step attempt unlock (t, c) s) = inside s"
proof (intro ext)
  fix k u
  show "inside (lock_sys_step attempt unlock (t, c) s) k u = inside s k u"
    unfolding lock_sys_step_parts(2) [OF assms(1)] using assms(2) by (simp add: inside_class)
qed

section \<open>Locks that admit one\<close>

text \<open>
  The contract of such a lock: an attempt succeeds exactly when it is free, and unlocking frees
  it.  The threads inside are then at most one, and the lock is taken exactly when one is.
\<close>

locale exclusive_lock =
  fixes attempt :: "'k \<Rightarrow> 'm \<Rightarrow> bool \<times> 'm" and unlock :: "'m \<Rightarrow> 'm" and taken :: "'m \<Rightarrow> bool"
  assumes attempt_taken: "taken (snd (attempt k m))"
    and attempt_free: "fst (attempt k m) \<longleftrightarrow> \<not> taken m"
    and unlock_frees: "\<not> taken (unlock m)"
begin

definition sound :: "('k, 'm) lock_sys \<Rightarrow> bool" where
  "sound s \<longleftrightarrow> (\<forall>j k t u. inside s j t \<longrightarrow> inside s k u \<longrightarrow> t = u)
     \<and> (taken (ls_mutex s) \<longleftrightarrow> (\<exists>k t. inside s k t))"

lemma sound_step:
  assumes "sound s"
  shows "sound (lock_sys_step attempt unlock (t, c) s)"
proof -
  obtain g' m' where st: "guard_step attempt unlock c (ls_guards s t) (ls_mutex s) = (g', m')" using prod.exhaust by blast
  note P = lock_sys_step_parts [OF st]
  from st show ?thesis
  proof (cases rule: guard_step_effect)
    case same
    then show ?thesis using assms P(1) inside_same [OF st] by (simp add: sound_def)
  next
    case (enter k)
    then have "\<not> inside s j u" for j u using attempt_free [of k "ls_mutex s"] assms by (auto simp: sound_def)
    moreover have "taken m'" using attempt_taken [of k "ls_mutex s"] enter(2) by simp
    ultimately show ?thesis using enter by (auto simp: sound_def P)
  next
    case (fail k)
    then have "taken (ls_mutex s)" "taken m'"
      using attempt_free [of k "ls_mutex s"] attempt_taken [of k "ls_mutex s"] by auto
    then show ?thesis using assms fail(1,3) inside_same [OF st] by (simp add: sound_def P(1))
  next
    case (leave k)
    then have "inside s k t" by (simp add: inside_class)
    then have "inside s j u \<Longrightarrow> u = t" for j u using assms unfolding sound_def by blast
    then have "\<not> inside (lock_sys_step attempt unlock (t, c) s) j u" for j u using leave by (auto simp: P(2))
    then show ?thesis using unlock_frees leave(3) by (simp add: sound_def P(1))
  qed
qed

lemma sound_run:
  assumes "\<not> taken m"
  shows "sound (lock_run attempt unlock m xs)"
proof -
  have "sound s \<Longrightarrow> sound (fold (lock_sys_step attempt unlock) xs s)" for s
    by (induction xs arbitrary: s) (auto simp: sound_step)
  moreover have "sound \<lparr>ls_mutex = m, ls_guards = (\<lambda>t. NoGuard)\<rparr>" using assms by (simp add: sound_def inside_def)
  ultimately show ?thesis by (simp add: lock_run_def)
qed

end

interpretation cas: exclusive_lock CASLock_attempt CASLock_unlock id
  by unfold_locales (simp_all add: CASLock_attempt_def CASLock_unlock_def)

section \<open>Locks for readers and writers\<close>

text \<open>
  What POSIX promises of a read-write lock, by the number of its readers and whether it has a
  writer.
\<close>

definition rwlock_ok ::
  "(rw_class \<Rightarrow> 'm \<Rightarrow> bool \<times> 'm) \<Rightarrow> ('m \<Rightarrow> 'm) \<Rightarrow> ('m \<Rightarrow> nat) \<Rightarrow> ('m \<Rightarrow> bool) \<Rightarrow> bool" where
  "rwlock_ok attempt unlock readers writer \<longleftrightarrow>
     (\<forall>m m'. (attempt ReadLock m = (True, m') \<longrightarrow> \<not> writer m \<and> \<not> writer m' \<and> readers m' = Suc (readers m))
       \<and> (attempt WriteLock m = (True, m') \<longrightarrow> \<not> writer m \<and> readers m = 0 \<and> writer m' \<and> readers m' = 0)
       \<and> (\<forall>k. attempt k m = (False, m') \<longrightarrow> writer m' = writer m \<and> readers m' = readers m)
       \<and> \<not> writer (unlock m) \<and> readers (unlock m) = (if writer m then readers m else readers m - 1))"

definition rw_sound :: "('m \<Rightarrow> nat) \<Rightarrow> ('m \<Rightarrow> bool) \<Rightarrow> (rw_class, 'm) lock_sys \<Rightarrow> bool" where
  "rw_sound readers writer s \<longleftrightarrow>
     finite {t. inside s ReadLock t} \<and> readers (ls_mutex s) = card {t. inside s ReadLock t}
   \<and> (if writer (ls_mutex s) then (\<exists>t. {u. inside s WriteLock u} = {t}) \<and> {u. inside s ReadLock u} = {}
      else {u. inside s WriteLock u} = {})"

lemma inside_one: "inside s k t \<Longrightarrow> inside s j t \<Longrightarrow> k = j"
  by (simp add: inside_class)

lemma rw_sound_step:
  assumes rw: "rwlock_ok attempt unlock readers writer" and s: "rw_sound readers writer s"
  shows "rw_sound readers writer (lock_sys_step attempt unlock (t, c) s)"
proof -
  let ?s = "lock_sys_step attempt unlock (t, c) s"
  obtain g' m' where st: "guard_step attempt unlock c (ls_guards s t) (ls_mutex s) = (g', m')" using prod.exhaust by blast
  note P = lock_sys_step_parts [OF st]
  from st show ?thesis
  proof (cases rule: guard_step_effect)
    case same
    then show ?thesis using s P(1) inside_same [OF st] by (simp add: rw_sound_def)
  next
    case (enter k)
    have old: "\<not> inside s j t" for j using enter(1) by (simp add: inside_class)
    have new: "{u. inside ?s k u} = insert t {u. inside s k u}" "j \<noteq> k \<Longrightarrow> {u. inside ?s j u} = {u. inside s j u}" for j
      using old enter(3) by (auto simp: P(2))
    show ?thesis
    proof (cases k)
      case ReadLock
      then have "\<not> writer (ls_mutex s)" "\<not> writer m'" "readers m' = Suc (readers (ls_mutex s))"
        using rw enter(2) unfolding rwlock_ok_def by blast+
      then show ?thesis using s new old ReadLock by (simp add: rw_sound_def P(1))
    next
      case WriteLock
      then have "\<not> writer (ls_mutex s)" "readers (ls_mutex s) = 0" "writer m'" "readers m' = 0"
        using rw enter(2) unfolding rwlock_ok_def by blast+
      moreover from this(2) have "{u. inside s ReadLock u} = {}" using s by (metis card_0_eq rw_sound_def)
      ultimately show ?thesis using s new WriteLock by (simp add: rw_sound_def P(1))
    qed
  next
    case (fail k)
    then have "writer m' = writer (ls_mutex s)" "readers m' = readers (ls_mutex s)"
      using rw unfolding rwlock_ok_def by blast+
    then show ?thesis using s fail(1,3) inside_same [OF st] by (simp add: rw_sound_def P(1))
  next
    case (leave k)
    have old: "inside s k t" using leave(1) by (simp add: inside_class)
    have new: "{u. inside ?s k u} = {u. inside s k u} - {t}" "j \<noteq> k \<Longrightarrow> {u. inside ?s j u} = {u. inside s j u}" for j
    proof -
      show "{u. inside ?s k u} = {u. inside s k u} - {t}" using leave(2) by (auto simp: P(2))
      assume "j \<noteq> k"
      then have "\<not> inside s j t" using inside_one [OF old] by blast
      then show "{u. inside ?s j u} = {u. inside s j u}" using leave(2) by (auto simp: P(2))
    qed
    have m: "\<not> writer m'" "readers m' = (if writer (ls_mutex s) then readers (ls_mutex s) else readers (ls_mutex s) - 1)"
      using rw leave(3) unfolding rwlock_ok_def by blast+
    show ?thesis
    proof (cases k)
      case ReadLock
      then have "\<not> writer (ls_mutex s)" using old s by (auto simp: rw_sound_def split: if_splits)
      then show ?thesis using s new m old ReadLock by (simp add: rw_sound_def P(1))
    next
      case WriteLock
      then have "writer (ls_mutex s)" using old s by (auto simp: rw_sound_def split: if_splits)
      moreover from this obtain a where "{u. inside s WriteLock u} = {a}" using s by (auto simp: rw_sound_def)
      moreover from this have "a = t" using old WriteLock by (metis mem_Collect_eq singletonD)
      ultimately show ?thesis using s new m WriteLock by (simp add: rw_sound_def P(1))
    qed
  qed
qed

lemma rw_sound_run:
  assumes "rwlock_ok attempt unlock readers writer" and "readers m = 0" and "\<not> writer m"
  shows "rw_sound readers writer (lock_run attempt unlock m xs)"
proof -
  have "rw_sound readers writer s \<Longrightarrow> rw_sound readers writer (fold (lock_sys_step attempt unlock) xs s)" for s
    by (induction xs arbitrary: s) (auto intro: rw_sound_step [OF assms(1)])
  moreover have "rw_sound readers writer \<lparr>ls_mutex = m, ls_guards = (\<lambda>t. NoGuard)\<rparr>"
    using assms by (simp add: rw_sound_def inside_def)
  ultimately show ?thesis by (simp add: lock_run_def)
qed

section \<open>Starting a thread\<close>

text \<open>Where the two threads are decides everything else.\<close>

definition start_ok :: "int \<Rightarrow> 'c option \<Rightarrow> string \<Rightarrow> 'c thread_sys \<Rightarrow> bool" where
  "start_ok tid cb name s \<longleftrightarrow> th_name (tt_object s) = (if name = [] then ''UNKNOW'' else name)
     \<and> (case tt_runner s of
          None \<Rightarrow> tt_creator s \<in> {Creating, CreateFailed} \<and> th_cb (tt_object s) = cb \<and> th_semaphore (tt_object s) = 0 \<and> tt_calls s = []
        | Some n \<Rightarrow> n \<le> 6 \<and> tt_creator s \<in> {WaitingStart, Constructed}
            \<and> (n \<le> 1 \<or> tt_t_thread_name s = th_name (tt_object s)) \<and> (n = 0 \<or> tt_t_thread s) \<and> (n \<le> 2 \<or> th_id (tt_object s) = tid)
            \<and> (if n \<le> 3 then th_cb (tt_object s) = cb else th_cb (tt_object s) = None \<and> tt_local_cb s = cb)
            \<and> (if tt_creator s = Constructed then 5 \<le> n \<and> th_semaphore (tt_object s) = 0
               else th_semaphore (tt_object s) = (if 5 \<le> n then 1 else 0))
            \<and> tt_calls s = (if n = 6 then [cb] else []))"

lemma start_ok_creator: "start_ok tid cb name s \<Longrightarrow> start_ok tid cb name (Thread_construct_step handle s)"
  by (auto simp: start_ok_def Thread_construct_step_def split: creator.splits option.splits if_splits)

lemma start_ok_runner: "start_ok tid cb name s \<Longrightarrow> start_ok tid cb name (Thread_run_step tid s)"
  by (auto simp: start_ok_def Thread_run_step_def Let_def split: option.splits if_splits)

lemma start_ok_run: "start_ok tid cb name (thread_run handle tid cb name xs)"
proof -
  have "start_ok tid cb name s \<Longrightarrow> start_ok tid cb name (fold (\<lambda>x. case x of CreatorStep \<Rightarrow> Thread_construct_step handle
      | RunnerStep \<Rightarrow> Thread_run_step tid) xs s)" for s
    by (induction xs arbitrary: s) (auto simp: start_ok_creator start_ok_runner split: thread_step.split)
  moreover have "start_ok tid cb name (new_Thread cb name)" by (simp add: start_ok_def new_Thread_def)
  ultimately show ?thesis by (simp add: thread_run_def)
qed

lemma thread_run_snoc:
  "thread_run handle tid cb name (xs @ [CreatorStep]) = Thread_construct_step handle (thread_run handle tid cb name xs)"
  "thread_run handle tid cb name (xs @ [RunnerStep]) = Thread_run_step tid (thread_run handle tid cb name xs)"
  by (simp_all add: thread_run_def)

lemma creation_never_fails: "tt_creator (thread_run (Some h) tid cb name xs) \<noteq> CreateFailed"
proof (induction xs rule: rev_induct)
  case Nil
  then show ?case by (simp add: thread_run_def new_Thread_def)
next
  case (snoc x xs)
  then show ?case
    by (cases x) (auto simp: thread_run_snoc Thread_construct_step_def Thread_run_step_def Let_def split: creator.split option.split)
qed

lemma runner_advances:
  "tt_runner (thread_run handle tid cb name xs) = Some n \<Longrightarrow> n + k \<le> 6 \<Longrightarrow>
   tt_runner (thread_run handle tid cb name (xs @ replicate k RunnerStep)) = Some (n + k)"
proof (induction k)
  case (Suc k)
  then have "tt_runner (thread_run handle tid cb name (xs @ replicate k RunnerStep)) = Some (n + k)" "n + k \<le> 5" by simp_all
  then show ?case
    by (simp add: replicate_append_same [symmetric] thread_run_snoc(2) Thread_run_step_def Let_def flip: append_assoc)
qed simp

lemma thread_constructed:
  "let s = thread_run handle tid cb name xs in
   tt_calls s \<in> {[], [cb]} \<and>
   (if tt_creator s = Constructed
    then th_id (tt_object s) = tid \<and> th_cb (tt_object s) = None \<and> tt_local_cb s = cb
      \<and> tt_t_thread s \<and> tt_t_thread_name s = (if name = [] then ''UNKNOW'' else name)
    else tt_calls s = [] \<or> th_cb (tt_object s) = None)"
proof -
  have "start_ok tid cb name (thread_run handle tid cb name xs)" by (rule start_ok_run)
  then show ?thesis by (auto simp: start_ok_def Let_def split: option.splits if_splits)
qed

lemma thread_start_completes:
  "\<exists>ys. tt_creator (thread_run (Some h) tid cb name (xs @ ys)) = Constructed"
proof -
  let ?xs = "xs @ [CreatorStep]"
  let ?run = "thread_run (Some h) tid cb name"
  have "tt_creator (?run ?xs) \<noteq> Creating"
    using creation_never_fails [of h tid cb name xs]
    by (auto simp: thread_run_snoc Thread_construct_step_def split: creator.split)
  then obtain n where n: "tt_runner (?run ?xs) = Some n" "n \<le> 6"
    using start_ok_run [of tid cb name "Some h" ?xs] creation_never_fails [of h tid cb name ?xs]
    by (auto simp: start_ok_def split: option.splits)
  define zs where "zs = ?xs @ replicate (6 - n) RunnerStep"
  have "tt_runner (?run zs) = Some 6" using runner_advances [OF n(1), of "6 - n"] n(2) by (simp add: zs_def)
  then have "tt_creator (?run (zs @ [CreatorStep])) = Constructed"
    using start_ok_run [of tid cb name "Some h" zs]
    by (auto simp: start_ok_def thread_run_snoc(1) Thread_construct_step_def split: if_splits)
  then show ?thesis unfolding zs_def append_assoc by blast
qed

section \<open>Properties\<close>

text \<open>
Guards of a CAS lock exclude each other.  However the threads interleave the attempts of their
spinning, the calls of \<open>lock\<close> and \<open>unlock\<close> on their guards, and the ends of the scopes, the flag is
set exactly while one thread is inside, and then no other thread is.
\<close>
theorem cas_guards_exclude:
  "let s = lock_run CASLock_attempt CASLock_unlock new_CASLock xs in
   if ls_mutex s then \<exists>t. {u. inside s () u} = {t} else {u. inside s () u} = {}"
proof -
  let ?s = "lock_run CASLock_attempt CASLock_unlock new_CASLock xs"
  have s: "cas.sound ?s" by (rule cas.sound_run) (simp add: new_CASLock_def)
  show ?thesis
  proof (cases "ls_mutex ?s")
    case True
    then obtain t where "inside ?s () t" using s by (auto simp: cas.sound_def)
    moreover from this have "inside ?s () u \<Longrightarrow> u = t" for u using s unfolding cas.sound_def by blast
    ultimately have "{u. inside ?s () u} = {t}" by blast
    then show ?thesis using True by (auto simp: Let_def)
  next
    case False
    then show ?thesis using s by (auto simp: cas.sound_def Let_def)
  qed
qed

text \<open>
C39: read and write guards of an \<open>RWMutex\<close> exclude each other as the POSIX lock below promises: a
thread inside a write guard is alone, and otherwise the lock counts exactly the threads inside
read guards; unlocking a guard early, locking it again or leaving its scope never unlocks twice.
\<close>
theorem rw_guards_exclude:
  assumes "rwlock_ok attempt unlock readers writer" and "readers m = 0" and "\<not> writer m"
  shows "let s = lock_run attempt unlock m xs in
    if writer (ls_mutex s) then (\<exists>t. {u. inside s WriteLock u} = {t}) \<and> {u. inside s ReadLock u} = {}
    else {u. inside s WriteLock u} = {} \<and> readers (ls_mutex s) = card {u. inside s ReadLock u}"
  using rw_sound_run [OF assms] by (simp add: rw_sound_def Let_def)

text \<open>A lock as a number of readers and a flag.\<close>

fun counting_attempt :: "rw_class \<Rightarrow> nat \<times> bool \<Rightarrow> bool \<times> nat \<times> bool" where
  "counting_attempt ReadLock (n, w) = (if w then (False, n, w) else (True, n + 1, False))"
| "counting_attempt WriteLock (n, w) = (if w \<or> 0 < n then (False, n, w) else (True, 0, True))"

definition counting_unlock :: "nat \<times> bool \<Rightarrow> nat \<times> bool" where
  "counting_unlock m = (if snd m then (fst m, False) else (fst m - 1, False))"

lemma counting_ok: "rwlock_ok counting_attempt counting_unlock fst snd"
  by (auto simp: rwlock_ok_def counting_unlock_def elim!: counting_attempt.elims split: if_splits)

theorem rw_guards_exclude_witness:
  "card {u. inside (lock_run counting_attempt counting_unlock (0, False)
     [(1, Construct ReadLock), (1, Attempt), (2, Construct WriteLock), (2, Attempt)]) ReadLock u} = 1"
proof -
  let ?xs = "[(1, Construct ReadLock), (1, Attempt), (2, Construct WriteLock), (2, Attempt)]"
  have "ls_mutex (lock_run counting_attempt counting_unlock (0, False) ?xs) = (1, False)"
    by (simp add: lock_run_def lock_sys_step_def)
  then show ?thesis using rw_guards_exclude [OF counting_ok, of "(0, False)" ?xs] by (simp add: Let_def)
qed


end
