(* ===== verification/Spec2Isabelle.thy ===== *)
theory Spec2Isabelle
  imports ByteArrayProps TimerProps Util SchedulerProps IOManagerProps HookProps AddressProps HttpProps Servlet HttpParserProps HttpClientSafety ConfigProps LogConfProps SocketProps SocketHookProps SessionProps BodyProps AcceptProps ThreadProps
begin

text \<open>
  Verification of megalo, a C++ server framework (\<open>src/megalo\<close>).

  \<^bold>\<open>The program.\<close>  Fibers (\<open>fiber.cc\<close>) are run by worker threads (\<open>thread.h\<close>, \<open>scheduler.cc\<close>).  The
  IO manager (\<open>iomanager.cc\<close>) is a scheduler whose idle fiber waits for descriptors and timers
  (\<open>timer.cc\<close>); the hooked system calls (\<open>hook.cc\<close>, with the descriptor contexts of
  \<open>fd_manager.cc\<close>) suspend the calling fiber there instead of blocking its thread.  Sockets
  (\<open>socket.cc\<close>, addresses in \<open>address.cc\<close>) and streams (\<open>stream.cc\<close>, \<open>socket_stream.cc\<close>) are built on
  the hooks; the byte array (\<open>bytearray.cc\<close>, \<open>endian.h\<close>) is the buffer of the streams.  HTTP messages
  (\<open>http/http.cc\<close>) are read by two generated automata (\<open>http11_parser.rl.cc\<close>,
  \<open>httpclient_parser.rl.cc\<close>) behind \<open>http_parser.cc\<close>, received and sent by sessions
  (\<open>http_session.cc\<close>) and dispatched to servlets (\<open>servlet.cc\<close>) by servers (\<open>tcp_server.cc\<close>,
  \<open>http_server.cc\<close>).  Configuration (\<open>config.cc\<close>) and logging (\<open>log.cc\<close>) serve all parts.

  \<^bold>\<open>The theories.\<close>  Each part has a theory with its state and operations, in the order and under the
  names of the code (a class or operation that shares its name with another carries the name of
  its class), and a theory whose name ends in \<open>Props\<close> with its properties.

  \<^item> \<open>Prelude\<close>: machine integers, wrapping subtraction of sizes, results with errors, lists and
    words.  \<open>StdSet\<close>: \<open>std::set\<close> and \<open>std::map\<close> as sorted lists under any strict weak order, a locale
    that is interpreted for the comparators of timers, header names, loggers and their
    definitions.

  \<^item> \<open>Endian\<close>, \<open>ByteArray\<close> (nodes, positions, files, vectors), \<open>ByteArrayCodec\<close> (typed values),
    \<open>ByteArrayLaws\<close>, \<open>ByteArrayProps\<close>.  The chain of nodes refines an in-memory file; what was
    written is read back; no reachable state faults.

  \<^item> \<open>Timer\<close>, \<open>TimerProps\<close>: expiry delivers exactly what is due, cancelled timers never fire, an
    earlier deadline wakes the sleeper.

  \<^item> \<open>Threads\<close>, \<open>ThreadProps\<close>: locks, their guards and the start of a thread under every interleaving.

  \<^item> \<open>Fiber\<close>, \<open>Scheduler\<close>, \<open>SchedulerSystem\<close>, \<open>SchedulerProps\<close>: the worker loop, cut where threads
    can intervene, as a transition system; a fiber is on one worker at most, and the counters say
    what they are meant to.

  \<^item> \<open>IOManager\<close>, \<open>IOManagerProps\<close>: the table of events refines an abstract table of waiters, with
    failures of the kernel included.

  \<^item> \<open>FdManager\<close>, \<open>Hook\<close>, \<open>HookProps\<close>: the hooked calls, cut where they yield; timeouts, and the
    blocking mode a program sees.

  \<^item> \<open>Address\<close>, \<open>AddressProps\<close>: network arithmetic, comparison and lookup.

  \<^item> \<open>Util\<close>: URL encoding, trimming, text of numbers and times.

  \<^item> \<open>Socket\<close>, \<open>SocketProps\<close>: every operation of sockets, over arbitrary system calls; who owns a
    descriptor.  \<open>SocketHookProps\<close>: a socket over the hooked calls, from the timeout a program sets
    to the error its \<open>recv\<close> returns.  \<open>Streams\<close>, \<open>StreamProps\<close>: the loops over partial reads and writes, on memory and on
    byte arrays.

  \<^item> \<open>Http\<close>, \<open>HttpProps\<close>: messages, header maps, parameters.  \<open>Ragel\<close>: the shape of the generated
    code, labelled blocks joined by \<open>goto\<close>, and the loop that runs them.  \<open>Http11Tables\<close> and
    \<open>HttpClientTables\<close>: the two automata block by block.  \<open>Http11Parser\<close>, \<open>HttpClientParser\<close>: actions and
    entry points.  \<open>Http11Props\<close>: on any bytes the first call of a parser stays inside the buffer.
    \<open>HttpParser\<close>: the classes over the automata.  \<open>RequestRun\<close>, \<open>RequestPhases\<close>, \<open>HttpParserProps\<close>:
    runs of the automaton on text known by its shape, up to the parser reading what the printer
    wrote.  \<open>HttpClientRun\<close>, \<open>HttpClientPhases\<close>, \<open>HttpClientProps\<close>: the same for responses, where a header
    line runs through sets of states, and the body that does not arrive.  \<open>HttpClientSafety\<close>: how
    far the response parser reads, and a text with which it reads too far.

  \<^item> \<open>Servlet\<close>: the dispatcher refines its history of registrations.  \<open>HttpSession\<close>, \<open>TcpServer\<close>,
    \<open>SessionProps\<close>, \<open>BodyProps\<close>, \<open>ServerProps\<close>, \<open>AcceptProps\<close>: a request is answered end to end; a
    request in two pieces; the body of a request; binding all addresses or none; the accepting loop
    under \<open>stop\<close> and \<open>start\<close>.

  \<^item> \<open>Config\<close>, \<open>ConfigProps\<close>: the registry and the loading of a document.  \<open>LogFormat\<close>,
    \<open>LogFormatProps\<close>, \<open>Log\<close>, \<open>LogProps\<close>, \<open>LogConf\<close>, \<open>LogConfProps\<close>: patterns, delivery of events, and
    the effect of a new configuration on every logger.

  \<^bold>\<open>How the model corresponds to the code.\<close>  A class is a record with the fields of the class.  Shared
  objects live in stores and are referred to by address (nodes, timers, fibers, loggers,
  variables, sockets of a server); objects with one owner are values.  An operation takes the
  state and returns it changed; exceptions, failed assertions and undefined accesses are values of
  a sum or option type, so that their absence is a theorem.  Operations that hold a lock for their
  whole body are one step.  Where threads interleave inside an operation it is cut into steps
  (\<open>SchedulerSystem\<close>, \<open>Hook\<close>, \<open>Threads\<close>), and the theorems are about every sequence of steps.

  \<^bold>\<open>Parameters.\<close>  System calls, the C library beyond what is written out, \<open>lexical_cast\<close>, yaml-cpp,
  clocks and uninitialised memory are arguments.  What is assumed of them stands in the theorems
  as hypotheses (a source delivers a prefix of what is pending, a read-write lock counts its
  readers, and the like), each with a concrete instance in the witness of the theorem.

  \<^bold>\<open>Loops.\<close>  Loops over data are total functions, by structure or by a measure.  No fuel is used.
  Loops whose end depends on the outside are partial functions with value \<open>None\<close> for not
  returning: reading a file until it is full (\<open>ByteArray_readFromFile\<close>), receiving a request and
  serving a client (\<open>recv_loop\<close>, \<open>serve_client\<close>), accepting (\<open>startAccept\<close>), and passing an event on
  to a root logger (\<open>Logger_log\<close>); a theorem about one of them states that it returns.  Sizes that
  count allocated memory are natural numbers; where a theorem needs that memory is smaller than
  \<open>2 ^ 64\<close> it says so.

  \<^bold>\<open>Not modelled.\<close>  Log lines of the components; machine contexts and stacks of fibers; reference
  counts, except those that decide when a server's socket is closed; the lookup of the original
  system calls; singletons and assertion macros, of which the conditions of the assertions are in
  the models that use them; tests and examples.

  \<^bold>\<open>What modelling showed\<close> is recorded with the properties: among others a request split by the
  network aborts the parser (\<open>SessionProps\<close>), 64 bit values pass through 32 bits (\<open>ByteArrayProps\<close>),
  a file appender never recovers from a failed write and a formatter set for an appender is
  overwritten (\<open>LogConfProps\<close>), the escape \<open>%%\<close> reads its second character again
  (\<open>LogFormatProps\<close>), a rejected connection leaks its descriptor (\<open>SocketProps\<close>), a message with a body is sent
  without the empty line in front of it (\<open>HttpClientProps\<close>), a folded \<open>Content-Length\<close> makes the
  response parser read behind its data (\<open>HttpClientSafety\<close>), and a server started again too early
  spins (\<open>AcceptProps\<close>).

  \<^bold>\<open>What could follow.\<close>  The remaining calls of a socket over the hooks, as \<open>SocketHookProps\<close> does it
  for receiving, and a scheduler whose callbacks throw.
\<close>

end
